(* ===== verification/Prelude.thy ===== *)
theory Prelude
  imports Main "HOL-Library.Char_ord" "HOL-Library.List_Lexorder" "HOL-Library.Sublist"
begin

text \<open>
  What every component shares: the Python string operations the sources use, the exceptions they
  raise, results and state-passing actions, and the proof collections.

  A Python \<open>str\<close> is a \<^typ>\<open>string\<close> whose characters are the code points 0 to 255 (Latin-1);
  \<open>bytes\<close> is a \<^typ>\<open>string\<close> too, one character per byte, and \<open>str.encode()\<close> is the explicit
  function \<open>utf8\<close>, which turns the code points from 128 on into two bytes. On that alphabet the
  operations below (\<open>lower\<close>, \<open>strip\<close>, \<open>splitlines\<close>, \<open>split\<close>, ...) are the ones of CPython,
  including the line breaks and the white space beyond ASCII.
\<close>

named_theorems exn_simps \<open>how exceptions are classified\<close>
named_theorems act_simps \<open>unfolding state-passing actions\<close>

type_synonym bytes = string

section \<open>Strings\<close>

abbreviation LF :: char where "LF \<equiv> CHR 0x0A"
abbreviation CR :: char where "CR \<equiv> CHR 0x0D"
abbreviation TAB :: char where "TAB \<equiv> CHR 0x09"
abbreviation NUL :: char where "NUL \<equiv> CHR 0x00"

definition starts_with :: "string \<Rightarrow> string \<Rightarrow> bool" where
  "starts_with p s = prefix p s"

definition ends_with :: "string \<Rightarrow> string \<Rightarrow> bool" where
  "ends_with p s = prefix (rev p) (rev s)"

fun contains :: "string \<Rightarrow> string \<Rightarrow> bool" where
  "contains n [] = (n = [])"
| "contains n (h # t) = (prefix n (h # t) \<or> contains n t)"

fun split_on :: "char \<Rightarrow> string \<Rightarrow> string list" where
  "split_on c [] = [[]]"
| "split_on c (x # xs) =
     (if x = c then [] # split_on c xs
      else case split_on c xs of [] \<Rightarrow> [[x]] | y # ys \<Rightarrow> (x # y) # ys)"

fun join :: "string \<Rightarrow> string list \<Rightarrow> string" where
  "join sep [] = []"
| "join sep [x] = x"
| "join sep (x # y # r) = x @ sep @ join sep (y # r)"

definition is_space :: "char \<Rightarrow> bool" where
  "is_space c = (let n = (of_char c :: nat) in
     (9 \<le> n \<and> n \<le> 13) \<or> (28 \<le> n \<and> n \<le> 32) \<or> n = 133 \<or> n = 160)"

definition strip :: "string \<Rightarrow> string" where
  "strip s = rev (dropWhile is_space (rev (dropWhile is_space s)))"

definition is_line_break :: "char \<Rightarrow> bool" where
  "is_line_break c = (let n = (of_char c :: nat) in
     (10 \<le> n \<and> n \<le> 13) \<or> (28 \<le> n \<and> n \<le> 30) \<or> n = 133)"

fun splitlines :: "string \<Rightarrow> string list" where
  "splitlines [] = []"
| "splitlines [c] = (if is_line_break c then [[]] else [[c]])"
| "splitlines (c # d # r) =
     (if c = CR \<and> d = LF then [] # splitlines r
      else if is_line_break c then [] # splitlines (d # r)
      else case splitlines (d # r) of [] \<Rightarrow> [[c]] | l # ls \<Rightarrow> (c # l) # ls)"

definition lower_char :: "char \<Rightarrow> char" where
  "lower_char c = (let n = (of_char c :: nat) in
     if (65 \<le> n \<and> n \<le> 90) \<or> (192 \<le> n \<and> n \<le> 222 \<and> n \<noteq> 215) then char_of (n + 32) else c)"

definition lower :: "string \<Rightarrow> string" where
  "lower s = map lower_char s"

definition is_digit :: "char \<Rightarrow> bool" where
  "is_digit c = (let n = (of_char c :: nat) in 48 \<le> n \<and> n \<le> 57)"

definition is_upper :: "char \<Rightarrow> bool" where
  "is_upper c = (let n = (of_char c :: nat) in 65 \<le> n \<and> n \<le> 90)"

definition is_lower :: "char \<Rightarrow> bool" where
  "is_lower c = (let n = (of_char c :: nat) in 97 \<le> n \<and> n \<le> 122)"

definition is_ascii_alnum :: "char \<Rightarrow> bool" where
  "is_ascii_alnum c = (is_digit c \<or> is_upper c \<or> is_lower c)"

definition nat_of_digits :: "string \<Rightarrow> nat" where
  "nat_of_digits s = foldl (\<lambda>a c. 10 * a + (of_char c - 48)) 0 s"

fun show_nat :: "nat \<Rightarrow> string" where
  "show_nat n = (if n < 10 then [char_of (48 + n)]
                 else show_nat (n div 10) @ [char_of (48 + n mod 10)])"

declare show_nat.simps [simp del]

definition show_int :: "int \<Rightarrow> string" where
  "show_int i = (if i < 0 then ''-'' @ show_nat (nat (- i)) else show_nat (nat i))"

definition utf8_char :: "char \<Rightarrow> bytes" where
  "utf8_char c = (let n = (of_char c :: nat) in
     if n < 128 then [c] else [char_of (192 + n div 64), char_of (128 + n mod 64)])"

definition utf8 :: "string \<Rightarrow> bytes" where
  "utf8 s = concat (map utf8_char s)"

definition is_lower_hex :: "char \<Rightarrow> bool" where
  "is_lower_hex c = (c \<in> set ''0123456789abcdef'')"

subsection \<open>What the operations compute\<close>

lemma starts_with_iff: "starts_with p s \<longleftrightarrow> (\<exists>t. s = p @ t)"
  by (auto simp: starts_with_def prefix_def)

lemma starts_with_Nil [simp]: "starts_with [] s"
  by (simp add: starts_with_def)

lemma starts_with_Cons [simp]:
  "starts_with (x # p) s \<longleftrightarrow> (case s of [] \<Rightarrow> False | y # t \<Rightarrow> x = y \<and> starts_with p t)"
  by (cases s) (auto simp: starts_with_def)

lemma ends_with_iff: "ends_with p s \<longleftrightarrow> (\<exists>t. s = t @ p)"
proof
  assume "ends_with p s"
  then obtain u where "rev s = rev p @ u"
    by (auto simp: ends_with_def prefix_def)
  then have "s = rev u @ p"
    by (metis rev_append rev_rev_ident)
  then show "\<exists>t. s = t @ p" ..
qed (auto simp: ends_with_def)

lemma contains_iff: "contains n h \<longleftrightarrow> (\<exists>a b. h = a @ n @ b)"
proof (induction h)
  case Nil
  then show ?case by auto
next
  case (Cons x h)
  show ?case
  proof
    assume "contains n (x # h)"
    then consider "prefix n (x # h)" | "contains n h" by auto
    then show "\<exists>a b. x # h = a @ n @ b"
    proof cases
      case 1
      then show ?thesis by (metis append_Nil prefix_def)
    next
      case 2
      with Cons.IH show ?thesis by (metis append_Cons)
    qed
  next
    assume "\<exists>a b. x # h = a @ n @ b"
    then obtain a b where eq: "x # h = a @ n @ b" by blast
    then show "contains n (x # h)"
    proof (cases a)
      case Nil
      with eq have "prefix n (x # h)" by simp
      then show ?thesis by simp
    next
      case (Cons y a')
      with eq have "h = a' @ n @ b" by simp
      with Cons.IH show ?thesis by auto
    qed
  qed
qed

lemma split_on_nonempty [simp]: "split_on c s \<noteq> []"
  by (induction s) (auto split: list.splits)

lemma join_split_on [simp]: "join [c] (split_on c s) = s"
proof (induction s)
  case (Cons x s)
  obtain y ys where ys: "split_on c s = y # ys" by (cases "split_on c s") auto
  with Cons.IH show ?case by (cases ys) auto
qed simp

lemma split_on_parts: "p \<in> set (split_on c s) \<Longrightarrow> c \<notin> set p"
proof (induction s arbitrary: p)
  case (Cons x s)
  obtain y ys where ys: "split_on c s = y # ys" by (cases "split_on c s") auto
  with Cons show ?case by (auto split: if_splits)
qed simp

lemma split_on_no_sep: "c \<notin> set s \<Longrightarrow> split_on c s = [s]"
  by (induction s) auto

lemma utf8_Nil [simp]: "utf8 [] = []"
  by (simp add: utf8_def)

lemma utf8_Cons: "utf8 (c # s) = utf8_char c @ utf8 s"
  by (simp add: utf8_def)

lemma utf8_append: "utf8 (s @ t) = utf8 s @ utf8 t"
  by (simp add: utf8_def)

lemma length_utf8_char: "0 < length (utf8_char c) \<and> length (utf8_char c) \<le> 2"
  by (simp add: utf8_char_def Let_def)

lemma length_le_utf8: "length s \<le> length (utf8 s)"
proof (induction s)
  case (Cons c s)
  have "1 \<le> length (utf8_char c)"
    by (simp add: utf8_char_def Let_def)
  with Cons.IH show ?case by (simp add: utf8_Cons)
qed simp

lemma line_break_LF [simp]: "is_line_break LF" "is_line_break CR" "is_line_break (CHR 0x0C)"
  by code_simp+

lemma splitlines_no_break: "list_all (list_all (\<lambda>c. \<not> is_line_break c)) (splitlines s)"
proof (induction s rule: splitlines.induct)
  case (3 x y r)
  show ?case
  proof (cases "x = CR \<and> y = LF \<or> is_line_break x")
    case True
    with 3 show ?thesis by auto
  next
    case False
    then have "\<not> (x = CR \<and> y = LF)" "\<not> is_line_break x" by simp_all
    with "3.IH"(3) show ?thesis by (auto split: list.splits)
  qed
qed simp_all

lemma splitlines_no_LF: "l \<in> set (splitlines s) \<Longrightarrow> LF \<notin> set l"
  using splitlines_no_break [of s] line_break_LF(1) unfolding list_all_iff by blast

lemma is_digit_char_of: "(n :: nat) < 10 \<Longrightarrow> is_digit (char_of (48 + n))"
  by (simp add: is_digit_def Let_def)

lemma show_nat_digits: "list_all is_digit (show_nat n) \<and> show_nat n \<noteq> []"
proof (induction n rule: show_nat.induct)
  case (1 n)
  then show ?case
    by (subst (1 2) show_nat.simps) (simp add: is_digit_char_of)
qed

lemma nat_of_digits_snoc: "nat_of_digits (s @ [c]) = 10 * nat_of_digits s + (of_char c - 48)"
  by (simp add: nat_of_digits_def)

lemma nat_of_digits_show_nat [simp]: "nat_of_digits (show_nat n) = n"
proof (induction n rule: show_nat.induct)
  case (1 n)
  show ?case
  proof (cases "n < 10")
    case True
    then show ?thesis by (subst show_nat.simps) (simp add: nat_of_digits_def)
  next
    case False
    with 1 have "nat_of_digits (show_nat (n div 10)) = n div 10" by simp
    with False show ?thesis by (subst show_nat.simps) (simp add: nat_of_digits_snoc)
  qed
qed

subsection \<open>Scanning\<close>

text \<open>Eating a literal, and a run of digits, at the front of a string.\<close>

definition eat :: "string \<Rightarrow> string \<Rightarrow> string option" where
  "eat p s = (if starts_with p s then Some (drop (length p) s) else None)"

definition eat_number :: "string \<Rightarrow> (int \<times> string) option" where
  "eat_number s = (let d = takeWhile is_digit s in
     if d = [] then None else Some (int (nat_of_digits d), dropWhile is_digit s))"

lemma eat_append [simp]: "eat p (p @ s) = Some s"
  by (simp add: eat_def starts_with_def)

lemma not_digit [simp]: "\<not> is_digit (CHR '','')" "\<not> is_digit (CHR '' '')" "\<not> is_digit (CHR ''-'')"
  by code_simp+

lemma eat_number_show: "r = [] \<or> \<not> is_digit (hd r) \<Longrightarrow> eat_number (show_nat n @ r) = Some (int n, r)"
  using show_nat_digits [of n]
  by (cases r) (auto simp: eat_number_def list_all_iff Let_def takeWhile_append dropWhile_append
      takeWhile_eq_all_conv [THEN iffD2] dropWhile_eq_Nil_conv)

section \<open>Exceptions, results and actions\<close>

text \<open>
  The exceptions the sources raise or catch. \<open>InvalidTransitionError\<close> is a subclass of
  \<open>ValueError\<close>, and so is Pydantic's \<open>ValidationError\<close>; \<open>RunNotFoundError\<close> is a
  \<open>LookupError\<close>; \<open>BudgetExhaustedError\<close>, \<open>ModelGatewayError\<close> and \<open>LeaseLostError\<close> are
  subclasses of \<open>RuntimeError\<close>. \<open>IntegrityError\<close> is what the database raises when a unique
  constraint is violated. \<open>OtherError\<close> is any further exception, with its type's name.
\<close>

datatype exn =
    ValueError string
  | ValidationError string
  | InvalidTransitionError string
  | RunNotFoundError string
  | PermissionError string
  | FileNotFoundError string
  | RuntimeError string
  | BudgetExhaustedError string
  | ModelGatewayError string
  | LeaseLostError string
  | IntegrityError string
  | OtherError string string

fun is_value_error :: "exn \<Rightarrow> bool" where
  "is_value_error (ValueError _) = True"
| "is_value_error (ValidationError _) = True"
| "is_value_error (InvalidTransitionError _) = True"
| "is_value_error _ = False"

fun is_file_not_found :: "exn \<Rightarrow> bool" where
  "is_file_not_found (FileNotFoundError _) = True"
| "is_file_not_found _ = False"

fun is_permission_error :: "exn \<Rightarrow> bool" where
  "is_permission_error (PermissionError _) = True"
| "is_permission_error _ = False"

fun exn_message :: "exn \<Rightarrow> string" where
  "exn_message (ValueError m) = m"
| "exn_message (ValidationError m) = m"
| "exn_message (InvalidTransitionError m) = m"
| "exn_message (RunNotFoundError m) = m"
| "exn_message (PermissionError m) = m"
| "exn_message (FileNotFoundError m) = m"
| "exn_message (RuntimeError m) = m"
| "exn_message (BudgetExhaustedError m) = m"
| "exn_message (ModelGatewayError m) = m"
| "exn_message (LeaseLostError m) = m"
| "exn_message (IntegrityError m) = m"
| "exn_message (OtherError _ m) = m"

fun exn_type_name :: "exn \<Rightarrow> string" where
  "exn_type_name (ValueError _) = ''ValueError''"
| "exn_type_name (ValidationError _) = ''ValidationError''"
| "exn_type_name (InvalidTransitionError _) = ''InvalidTransitionError''"
| "exn_type_name (RunNotFoundError _) = ''RunNotFoundError''"
| "exn_type_name (PermissionError _) = ''PermissionError''"
| "exn_type_name (FileNotFoundError _) = ''FileNotFoundError''"
| "exn_type_name (RuntimeError _) = ''RuntimeError''"
| "exn_type_name (BudgetExhaustedError _) = ''BudgetExhaustedError''"
| "exn_type_name (ModelGatewayError _) = ''ModelGatewayError''"
| "exn_type_name (LeaseLostError _) = ''LeaseLostError''"
| "exn_type_name (IntegrityError _) = ''IntegrityError''"
| "exn_type_name (OtherError t _) = t"

type_synonym 'a res = "exn + 'a"

definition bind_res :: "'a res \<Rightarrow> ('a \<Rightarrow> 'b res) \<Rightarrow> 'b res" where
  "bind_res r f = (case r of Inl e \<Rightarrow> Inl e | Inr x \<Rightarrow> f x)"

definition require :: "bool \<Rightarrow> exn \<Rightarrow> unit res" where
  "require b e = (if b then Inr () else Inl e)"

fun traverse :: "('a \<Rightarrow> 'b res) \<Rightarrow> 'a list \<Rightarrow> 'b list res" where
  "traverse f [] = Inr []"
| "traverse f (x # xs) =
     (case f x of Inl e \<Rightarrow> Inl e
      | Inr y \<Rightarrow> (case traverse f xs of Inl e \<Rightarrow> Inl e | Inr ys \<Rightarrow> Inr (y # ys)))"

lemma bind_res_simps [simp]:
  "bind_res (Inl e) f = Inl e"
  "bind_res (Inr x) f = f x"
  by (simp_all add: bind_res_def)

lemma bind_res_Inr_iff:
  "bind_res r f = Inr y \<longleftrightarrow> (\<exists>x. r = Inr x \<and> f x = Inr y)"
  by (cases r) simp_all

lemma bind_res_Inl_iff:
  "bind_res r f = Inl e \<longleftrightarrow> r = Inl e \<or> (\<exists>x. r = Inr x \<and> f x = Inl e)"
  by (cases r) simp_all

lemma require_iff [simp]:
  "require b e = Inr u \<longleftrightarrow> b"
  "require b e = Inl e' \<longleftrightarrow> \<not> b \<and> e = e'"
  by (auto simp: require_def)

lemma require_True [simp]: "b \<Longrightarrow> require b e = Inr ()"
  by simp

lemma require_False [simp]: "\<not> b \<Longrightarrow> require b e = Inl e"
  by simp

lemma traverse_Inr:
  "traverse f xs = Inr ys \<Longrightarrow> list_all2 (\<lambda>x y. f x = Inr y) xs ys"
proof (induction xs arbitrary: ys)
  case (Cons x xs)
  from Cons.prems obtain y zs where "f x = Inr y" "traverse f xs = Inr zs" "ys = y # zs"
    by (auto split: sum.splits)
  with Cons.IH show ?case by simp
qed simp

text \<open>
  A handler that reads and writes a state \<^typ>\<open>'s\<close> and may raise: on an exception the state
  written so far is kept, as Python does; who rolls back says so.
\<close>

type_synonym ('s, 'a) act = "'s \<Rightarrow> 'a res \<times> 's"

definition ret :: "'a \<Rightarrow> ('s, 'a) act" where
  "ret x s = (Inr x, s)"

definition throw :: "exn \<Rightarrow> ('s, 'a) act" where
  "throw e s = (Inl e, s)"

definition bind_act :: "('s, 'a) act \<Rightarrow> ('a \<Rightarrow> ('s, 'b) act) \<Rightarrow> ('s, 'b) act" where
  "bind_act m f s = (case m s of (Inl e, t) \<Rightarrow> (Inl e, t) | (Inr x, t) \<Rightarrow> f x t)"

definition then_act :: "('s, 'a) act \<Rightarrow> ('s, 'b) act \<Rightarrow> ('s, 'b) act" where
  "then_act m k = bind_act m (\<lambda>_. k)"

definition modify :: "('s \<Rightarrow> 's) \<Rightarrow> ('s, unit) act" where
  "modify f s = (Inr (), f s)"

definition of_res :: "'a res \<Rightarrow> ('s, 'a) act" where
  "of_res r s = (r, s)"

definition catch :: "('s, 'a) act \<Rightarrow> (exn \<Rightarrow> ('s, 'a) act) \<Rightarrow> ('s, 'a) act" where
  "catch m h s = (case m s of (Inl e, t) \<Rightarrow> h e t | (Inr x, t) \<Rightarrow> (Inr x, t))"

text \<open>\<open>try ... except ... else\<close>: the handler does not cover the continuation.\<close>

definition try_else ::
    "('s, 'a) act \<Rightarrow> (exn \<Rightarrow> ('s, 'b) act) \<Rightarrow> ('a \<Rightarrow> ('s, 'b) act) \<Rightarrow> ('s, 'b) act" where
  "try_else m h k s = (case m s of (Inl e, t) \<Rightarrow> h e t | (Inr x, t) \<Rightarrow> k x t)"

definition with_state :: "('s \<Rightarrow> ('s, 'a) act) \<Rightarrow> ('s, 'a) act" where
  "with_state k s = k s s"

fun for_each :: "('a \<Rightarrow> ('s, unit) act) \<Rightarrow> 'a list \<Rightarrow> ('s, unit) act" where
  "for_each f [] = ret ()"
| "for_each f (x # xs) = then_act (f x) (for_each f xs)"

lemmas act_defs = ret_def throw_def bind_act_def then_act_def modify_def of_res_def catch_def

lemma ret_app [simp, act_simps]: "ret x s = (Inr x, s)"
  and throw_app [simp, act_simps]: "throw e s = (Inl e, s)"
  and modify_app [simp, act_simps]: "modify f s = (Inr (), f s)"
  and of_res_app [simp, act_simps]: "of_res r s = (r, s)"
  by (simp_all add: act_defs)

lemma bind_act_Inr [simp, act_simps]: "m s = (Inr x, t) \<Longrightarrow> bind_act m f s = f x t"
  and bind_act_Inl [simp, act_simps]: "m s = (Inl e, t) \<Longrightarrow> bind_act m f s = (Inl e, t)"
  by (simp_all add: act_defs)

lemma then_act_Inr [simp, act_simps]: "m s = (Inr x, t) \<Longrightarrow> then_act m k s = k t"
  and then_act_Inl [simp, act_simps]: "m s = (Inl e, t) \<Longrightarrow> then_act m k s = (Inl e, t)"
  by (simp_all add: act_defs)

lemma try_else_Inr [simp, act_simps]: "m s = (Inr x, t) \<Longrightarrow> try_else m h k s = k x t"
  and try_else_Inl [simp, act_simps]: "m s = (Inl e, t) \<Longrightarrow> try_else m h k s = h e t"
  by (simp_all add: try_else_def)

lemma with_state_app [simp, act_simps]: "with_state k s = k s s"
  by (simp add: with_state_def)

text \<open>What it takes for an action to return.\<close>

lemma act_Inr:
  "ret x s = (Inr y, t) \<longleftrightarrow> y = x \<and> t = s"
  "throw e s = (Inr y, t) \<longleftrightarrow> False"
  "of_res r s = (Inr y, t) \<longleftrightarrow> r = Inr y \<and> t = s"
  by (auto simp: act_defs)

lemma modify_Inr: "modify f s = (Inr u, t) \<longleftrightarrow> t = f s"
  by (auto simp: act_defs)

lemma bind_act_Inr_iff: "bind_act m f s = (Inr y, t) \<longleftrightarrow> (\<exists>x s'. m s = (Inr x, s') \<and> f x s' = (Inr y, t))"
  by (cases "m s"; cases "fst (m s)") (auto simp: act_defs)

lemma then_act_Inr_iff: "then_act m k s = (Inr y, t) \<longleftrightarrow> (\<exists>x s'. m s = (Inr x, s') \<and> k s' = (Inr y, t))"
  by (cases "m s"; cases "fst (m s)") (auto simp: act_defs)

lemmas act_returns = act_Inr modify_Inr bind_act_Inr_iff then_act_Inr_iff

lemma bind_act_cases:
  "bind_act m f s = (r, t) \<Longrightarrow>
     (\<And>e. m s = (Inl e, t) \<Longrightarrow> r = Inl e \<Longrightarrow> P) \<Longrightarrow>
     (\<And>x u. m s = (Inr x, u) \<Longrightarrow> f x u = (r, t) \<Longrightarrow> P) \<Longrightarrow> P"
  by (auto simp: act_defs split: prod.splits sum.splits)

text \<open>
  An invariant of a state that every part of an action keeps is kept by the action, whether it
  returns or raises.
\<close>

definition keeps :: "('s \<Rightarrow> bool) \<Rightarrow> ('s, 'a) act \<Rightarrow> bool" where
  "keeps I m \<longleftrightarrow> (\<forall>s. I s \<longrightarrow> I (snd (m s)))"

named_theorems keeps_intros \<open>actions that keep an invariant\<close>

lemma keepsI [intro]: "(\<And>s. I s \<Longrightarrow> I (snd (m s))) \<Longrightarrow> keeps I m"
  by (simp add: keeps_def)

lemma keepsD: "keeps I m \<Longrightarrow> I s \<Longrightarrow> m s = (r, t) \<Longrightarrow> I t"
  unfolding keeps_def by (metis snd_conv)

lemma keeps_ret [keeps_intros]: "keeps I (ret x)"
  and keeps_throw [keeps_intros]: "keeps I (throw e)"
  and keeps_of_res [keeps_intros]: "keeps I (of_res r)"
  by (auto simp: keeps_def)

lemma keeps_modify [keeps_intros]: "(\<And>s. I s \<Longrightarrow> I (f s)) \<Longrightarrow> keeps I (modify f)"
  by (auto simp: keeps_def)

lemma keeps_bind [keeps_intros]:
  "keeps I m \<Longrightarrow> (\<And>x. keeps I (f x)) \<Longrightarrow> keeps I (bind_act m f)"
  by (force simp: keeps_def act_defs split: prod.splits sum.splits)

lemma keeps_then [keeps_intros]: "keeps I m \<Longrightarrow> keeps I k \<Longrightarrow> keeps I (then_act m k)"
  unfolding then_act_def by (rule keeps_bind)

lemma keeps_catch [keeps_intros]:
  "keeps I m \<Longrightarrow> (\<And>e. keeps I (h e)) \<Longrightarrow> keeps I (catch m h)"
  by (force simp: keeps_def act_defs split: prod.splits sum.splits)

lemma keeps_try_else [keeps_intros]:
  "keeps I m \<Longrightarrow> (\<And>e. keeps I (h e)) \<Longrightarrow> (\<And>x. keeps I (k x)) \<Longrightarrow> keeps I (try_else m h k)"
proof
  fix s
  assume "keeps I m" "\<And>e. keeps I (h e)" "\<And>x. keeps I (k x)" "I s"
  then show "I (snd (try_else m h k s))"
    by (cases "m s"; cases "fst (m s)") (auto simp: keeps_def dest: spec [of _ s])
qed

lemma keeps_with_state [keeps_intros]: "(\<And>x. keeps I (k x)) \<Longrightarrow> keeps I (with_state k)"
  by (auto simp: keeps_def)

lemma keeps_for_each [keeps_intros]: "(\<And>x. keeps I (f x)) \<Longrightarrow> keeps I (for_each f xs)"
  by (induction xs) (auto intro!: keeps_intros)

lemma keeps_if [keeps_intros]:
  "(b \<Longrightarrow> keeps I m) \<Longrightarrow> (\<not> b \<Longrightarrow> keeps I k) \<Longrightarrow> keeps I (if b then m else k)"
  by simp

text \<open>
  What holds when an action returns (it may also raise): \<open>wlp m Q s\<close> says that from \<open>s\<close> every
  returned value and state satisfy \<open>Q\<close>. The rules follow the action's construction.
\<close>

definition wlp :: "('s, 'a) act \<Rightarrow> ('a \<Rightarrow> 's \<Rightarrow> bool) \<Rightarrow> 's \<Rightarrow> bool" where
  "wlp m Q s \<longleftrightarrow> (\<forall>x t. m s = (Inr x, t) \<longrightarrow> Q x t)"

named_theorems wlp_intros \<open>what holds when an action returns\<close>

lemma wlpI: "(\<And>x t. m s = (Inr x, t) \<Longrightarrow> Q x t) \<Longrightarrow> wlp m Q s"
  by (simp add: wlp_def)

lemma wlpD: "wlp m Q s \<Longrightarrow> m s = (Inr x, t) \<Longrightarrow> Q x t"
  by (simp add: wlp_def)

lemma wlp_mono: "wlp m P s \<Longrightarrow> (\<And>x t. P x t \<Longrightarrow> Q x t) \<Longrightarrow> wlp m Q s"
  by (simp add: wlp_def)

lemma wlp_conj: "wlp m P s \<Longrightarrow> wlp m Q s \<Longrightarrow> wlp m (\<lambda>x t. P x t \<and> Q x t) s"
  by (simp add: wlp_def)

lemma wlp_ret [wlp_intros]: "Q x s \<Longrightarrow> wlp (ret x) Q s"
  by (simp add: wlp_def)

lemma wlp_throw [wlp_intros]: "wlp (throw e) Q s"
  by (simp add: wlp_def)

lemma wlp_modify [wlp_intros]: "Q () (f s) \<Longrightarrow> wlp (modify f) Q s"
  by (simp add: wlp_def)

lemma wlp_of_res [wlp_intros]: "(\<And>x. r = Inr x \<Longrightarrow> Q x s) \<Longrightarrow> wlp (of_res r) Q s"
  by (simp add: wlp_def)

lemma wlp_with_state [wlp_intros]: "wlp (k s) Q s \<Longrightarrow> wlp (with_state k) Q s"
  by (simp add: wlp_def)

lemma wlp_bind [wlp_intros]: "wlp m (\<lambda>x. wlp (f x) Q) s \<Longrightarrow> wlp (bind_act m f) Q s"
  unfolding wlp_def by (blast elim: bind_act_cases)

lemma wlp_then [wlp_intros]: "wlp m (\<lambda>_. wlp k Q) s \<Longrightarrow> wlp (then_act m k) Q s"
  unfolding then_act_def by (rule wlp_bind)

lemma wlp_try_else:
  assumes "\<And>e t. m s = (Inl e, t) \<Longrightarrow> wlp (h e) Q t" and "wlp m (\<lambda>x. wlp (k x) Q) s"
  shows "wlp (try_else m h k) Q s"
  using assms unfolding wlp_def by (cases "m s"; cases "fst (m s)") (auto simp: try_else_def)

lemma wlp_if [wlp_intros]:
  "(b \<Longrightarrow> wlp m Q s) \<Longrightarrow> (\<not> b \<Longrightarrow> wlp k Q s) \<Longrightarrow> wlp (if b then m else k) Q s"
  by simp

lemma wlp_keeps: "keeps I m \<Longrightarrow> I s \<Longrightarrow> (\<And>x t. I t \<Longrightarrow> Q x t) \<Longrightarrow> wlp m Q s"
  unfolding wlp_def by (blast dest: keepsD)


end
