(* ===== verification/Sha256.thy ===== *)
theory Sha256
  imports Prelude "HOL-Library.Word"
begin

text \<open>
  The parts of Python's \<open>hashlib\<close> and \<open>hmac\<close> the sources call: \<open>sha256(b).digest()\<close>,
  \<open>sha256(b).hexdigest()\<close> and \<open>hmac.new(key, b, sha256).hexdigest()\<close>, over 32-bit words as
  FIPS 180-4 and RFC 2104 lay them down. A round consumes the head of a sliding window of sixteen
  schedule words and appends the next one.
\<close>

unbundle bit_operations_syntax

type_synonym w32 = "32 word"

definition rotr :: "nat \<Rightarrow> w32 \<Rightarrow> w32" where
  "rotr n x = drop_bit n x OR push_bit (32 - n) x"

definition sha_k :: "w32 list" where
  "sha_k =
   [1116352408, 1899447441, 3049323471, 3921009573, 961987163, 1508970993, 2453635748, 2870763221,
    3624381080, 310598401, 607225278, 1426881987, 1925078388, 2162078206, 2614888103, 3248222580,
    3835390401, 4022224774, 264347078, 604807628, 770255983, 1249150122, 1555081692, 1996064986,
    2554220882, 2821834349, 2952996808, 3210313671, 3336571891, 3584528711, 113926993, 338241895,
    666307205, 773529912, 1294757372, 1396182291, 1695183700, 1986661051, 2177026350, 2456956037,
    2730485921, 2820302411, 3259730800, 3345764771, 3516065817, 3600352804, 4094571909, 275423344,
    430227734, 506948616, 659060556, 883997877, 958139571, 1322822218, 1537002063, 1747873779,
    1955562222, 2024104815, 2227730452, 2361852424, 2428436474, 2756734187, 3204031479, 3329325298]"

record sha_state =
  sa :: w32
  sb :: w32
  sc :: w32
  sd :: w32
  se :: w32
  sf :: w32
  sg :: w32
  sh :: w32

definition sha_init :: sha_state where
  "sha_init = \<lparr>sa = 1779033703, sb = 3144134277, sc = 1013904242, sd = 2773480762,
     se = 1359893119, sf = 2600822924, sg = 528734635, sh = 1541459225\<rparr>"

definition byte_word :: "char \<Rightarrow> w32" where
  "byte_word c = of_nat (of_char c)"

fun be_words :: "bytes \<Rightarrow> w32 list" where
  "be_words (a # b # c # d # r) =
     (push_bit 24 (byte_word a) OR push_bit 16 (byte_word b) OR push_bit 8 (byte_word c)
        OR byte_word d) # be_words r"
| "be_words _ = []"

definition word_bytes :: "w32 \<Rightarrow> bytes" where
  "word_bytes w = map (\<lambda>i. char_of (unat (take_bit 8 (drop_bit (8 * i) w)))) [3, 2, 1, 0]"

definition sha_round :: "sha_state \<times> w32 list \<Rightarrow> w32 \<Rightarrow> sha_state \<times> w32 list" where
  "sha_round st k =
    (let (s, win) = st;
         w = win ! 0;
         s1 = rotr 6 (se s) XOR rotr 11 (se s) XOR rotr 25 (se s);
         ch = (se s AND sf s) XOR (NOT (se s) AND sg s);
         t1 = sh s + s1 + ch + k + w;
         s0 = rotr 2 (sa s) XOR rotr 13 (sa s) XOR rotr 22 (sa s);
         maj = (sa s AND sb s) XOR (sa s AND sc s) XOR (sb s AND sc s);
         t2 = s0 + maj;
         g0 = rotr 7 (win ! 1) XOR rotr 18 (win ! 1) XOR drop_bit 3 (win ! 1);
         g1 = rotr 17 (win ! 14) XOR rotr 19 (win ! 14) XOR drop_bit 10 (win ! 14)
     in (\<lparr>sa = t1 + t2, sb = sa s, sc = sb s, sd = sc s,
          se = sd s + t1, sf = se s, sg = sf s, sh = sg s\<rparr>,
         tl win @ [g1 + win ! 9 + g0 + w]))"

definition sha_block :: "sha_state \<Rightarrow> bytes \<Rightarrow> sha_state" where
  "sha_block s b =
    (let r = fst (foldl sha_round (s, be_words b) sha_k)
     in \<lparr>sa = sa s + sa r, sb = sb s + sb r, sc = sc s + sc r, sd = sd s + sd r,
         se = se s + se r, sf = sf s + sf r, sg = sg s + sg r, sh = sh s + sh r\<rparr>)"

definition sha_pad :: "bytes \<Rightarrow> bytes" where
  "sha_pad m = m @ [CHR 0x80] @ replicate ((119 - length m mod 64) mod 64) (CHR 0x00) @
     map (\<lambda>i. char_of (unat (take_bit 8 (drop_bit (8 * i) (8 * of_nat (length m) :: 64 word)))))
       [7, 6, 5, 4, 3, 2, 1, 0]"

fun chunks64 :: "bytes \<Rightarrow> bytes list" where
  "chunks64 m = (if m = [] then [] else take 64 m # chunks64 (drop 64 m))"

declare chunks64.simps [simp del]

definition sha256_digest :: "bytes \<Rightarrow> bytes" where
  "sha256_digest m =
    (let s = foldl sha_block sha_init (chunks64 (sha_pad m))
     in concat (map word_bytes [sa s, sb s, sc s, sd s, se s, sf s, sg s, sh s]))"

definition hex_digit :: "nat \<Rightarrow> char" where
  "hex_digit n = ''0123456789abcdef'' ! (n mod 16)"

definition hex_of :: "bytes \<Rightarrow> string" where
  "hex_of b = concat (map (\<lambda>c. [hex_digit (of_char c div 16), hex_digit (of_char c)]) b)"

definition sha256_hex :: "bytes \<Rightarrow> string" where
  "sha256_hex m = hex_of (sha256_digest m)"

definition xor_byte :: "nat \<Rightarrow> char \<Rightarrow> char" where
  "xor_byte n c = char_of (n XOR (of_char c :: nat))"

definition hmac_sha256_hex :: "bytes \<Rightarrow> bytes \<Rightarrow> string" where
  "hmac_sha256_hex key m =
    (let k = (if 64 < length key then sha256_digest key else key);
         k' = k @ replicate (64 - length k) (CHR 0x00)
     in sha256_hex (map (xor_byte 92) k' @ sha256_digest (map (xor_byte 54) k' @ m)))"

section \<open>The shape of a digest\<close>

lemma length_sha256_digest: "length (sha256_digest m) = 32"
  by (simp add: sha256_digest_def Let_def word_bytes_def)

lemma length_hex_of: "length (hex_of b) = 2 * length b"
  by (induction b) (simp_all add: hex_of_def)

lemma hex_digit_hex: "is_lower_hex (hex_digit n)"
proof -
  have "n mod 16 < length ''0123456789abcdef''" by simp
  then have "hex_digit n \<in> set ''0123456789abcdef''"
    unfolding hex_digit_def by (rule nth_mem)
  then show ?thesis by (simp add: is_lower_hex_def)
qed

lemma hex_of_hex: "list_all is_lower_hex (hex_of b)"
  by (induction b) (simp_all add: hex_of_def hex_digit_hex)

lemma length_sha256_hex [simp]: "length (sha256_hex m) = 64"
  by (simp add: sha256_hex_def length_hex_of length_sha256_digest)

lemma sha256_hex_hex [simp]: "list_all is_lower_hex (sha256_hex m)"
  by (simp add: sha256_hex_def hex_of_hex)

end
