(* ===== verification/Domain.thy ===== *)
theory Domain
  imports Complex_Main Sha256
begin

text \<open>
  \<open>domain/enums.py\<close> and \<open>domain/schemas.py\<close>: roles, sources, statuses and the transition table;
  the typed requests and artifacts with the validators Pydantic runs on them. An artifact class
  that inherits from \<open>ArtifactBase\<close> is a record that extends \<open>artifact_base\<close>; a validator is a
  function to a result, raising \<open>ValidationError\<close> where Pydantic does.
\<close>

section \<open>Numbers of a budget\<close>

text \<open>
  A Python number as the sources compare and convert it: an integer, or a double, which is a
  rational, an infinity or NaN. Every comparison with NaN is false.
\<close>

datatype pynum = PyInt int | PyFloat rat | PyInf | PyNegInf | PyNaN

definition num_val :: "pynum \<Rightarrow> rat" where
  "num_val x = (case x of PyInt i \<Rightarrow> of_int i | PyFloat q \<Rightarrow> q | _ \<Rightarrow> 0)"

fun num_lt :: "pynum \<Rightarrow> pynum \<Rightarrow> bool" where
  "num_lt PyNaN y = False"
| "num_lt x PyNaN = False"
| "num_lt x PyNegInf = False"
| "num_lt PyNegInf y = True"
| "num_lt PyInf y = False"
| "num_lt x PyInf = True"
| "num_lt x y = (num_val x < num_val y)"

definition num_gt :: "pynum \<Rightarrow> pynum \<Rightarrow> bool" where
  "num_gt x y = num_lt y x"

text \<open>\<open>min(a, b)\<close>: the second argument where it is smaller, else the first.\<close>

definition num_min :: "pynum \<Rightarrow> pynum \<Rightarrow> pynum" where
  "num_min a b = (if num_lt b a then b else a)"

text \<open>\<open>int(x)\<close> truncates towards zero and refuses infinities and NaN.\<close>

definition py_int :: "pynum \<Rightarrow> int res" where
  "py_int x = (case x of
     PyInt i \<Rightarrow> Inr i
   | PyFloat q \<Rightarrow> Inr (if 0 \<le> q then \<lfloor>q\<rfloor> else - \<lfloor>- q\<rfloor>)
   | PyNaN \<Rightarrow> Inl (ValueError ''cannot convert float NaN to integer'')
   | _ \<Rightarrow> Inl (OtherError ''OverflowError'' ''cannot convert float infinity to integer''))"

type_synonym budget = "(string \<times> pynum) list"

section \<open>Enums and the transition table\<close>

datatype agent_role = SCOUT | ASSESSOR | CI

datatype run_source = MANUAL | WEBHOOK | REPLAY

datatype run_status =
    RECEIVED | QUEUED | LEASED | SNAPSHOTTING | RUNNING | EVALUATING | READY_TO_PUSH | PUSHING
  | SUCCEEDED | REFUSED | REJECTED | BUDGET_EXHAUSTED | SUPERSEDED | CANCELLED | FAILED

datatype policy_outcome = ALLOW | DENY

fun role_value :: "agent_role \<Rightarrow> string" where
  "role_value SCOUT = ''scout''"
| "role_value ASSESSOR = ''assessor''"
| "role_value CI = ''ci''"

fun status_value :: "run_status \<Rightarrow> string" where
  "status_value RECEIVED = ''received''"
| "status_value QUEUED = ''queued''"
| "status_value LEASED = ''leased''"
| "status_value SNAPSHOTTING = ''snapshotting''"
| "status_value RUNNING = ''running''"
| "status_value EVALUATING = ''evaluating''"
| "status_value READY_TO_PUSH = ''ready_to_push''"
| "status_value PUSHING = ''pushing''"
| "status_value SUCCEEDED = ''succeeded''"
| "status_value REFUSED = ''refused''"
| "status_value REJECTED = ''rejected''"
| "status_value BUDGET_EXHAUSTED = ''budget_exhausted''"
| "status_value SUPERSEDED = ''superseded''"
| "status_value CANCELLED = ''cancelled''"
| "status_value FAILED = ''failed''"

definition terminal_statuses :: "run_status set" where
  "terminal_statuses =
     {SUCCEEDED, REFUSED, REJECTED, BUDGET_EXHAUSTED, SUPERSEDED, CANCELLED, FAILED}"

definition allowed_transitions :: "(run_status \<times> run_status set) list" where
  "allowed_transitions =
    [(RECEIVED, {REJECTED, QUEUED}),
     (QUEUED, {LEASED, CANCELLED, SUPERSEDED}),
     (LEASED, {SNAPSHOTTING, RUNNING, CANCELLED, SUPERSEDED, FAILED}),
     (SNAPSHOTTING, {RUNNING, REFUSED, SUPERSEDED, FAILED}),
     (RUNNING, {EVALUATING, REFUSED, BUDGET_EXHAUSTED, FAILED, SUPERSEDED}),
     (EVALUATING, {READY_TO_PUSH, SUCCEEDED, REFUSED, FAILED, SUPERSEDED}),
     (READY_TO_PUSH, {PUSHING, REFUSED, SUPERSEDED}),
     (PUSHING, {SUCCEEDED, REFUSED, FAILED})]"

text \<open>\<open>ALLOWED_TRANSITIONS.get(status, frozenset())\<close>\<close>

definition allowed_next :: "run_status \<Rightarrow> run_status set" where
  "allowed_next s = (case map_of allowed_transitions s of None \<Rightarrow> {} | Some t \<Rightarrow> t)"

instantiation run_status :: enum
begin

definition enum_run_status :: "run_status list" where
  "enum_run_status =
     [RECEIVED, QUEUED, LEASED, SNAPSHOTTING, RUNNING, EVALUATING, READY_TO_PUSH, PUSHING,
      SUCCEEDED, REFUSED, REJECTED, BUDGET_EXHAUSTED, SUPERSEDED, CANCELLED, FAILED]"

definition enum_all_run_status :: "(run_status \<Rightarrow> bool) \<Rightarrow> bool" where
  "enum_all_run_status P = list_all P enum_class.enum"

definition enum_ex_run_status :: "(run_status \<Rightarrow> bool) \<Rightarrow> bool" where
  "enum_ex_run_status P = list_ex P enum_class.enum"

instance
proof
  have univ: "x \<in> set enum_class.enum" for x :: run_status
    by (cases x) (simp_all add: enum_run_status_def)
  show UN: "(UNIV :: run_status set) = set enum_class.enum"
    using univ by (intro set_eqI) simp
  show "distinct (enum_class.enum :: run_status list)"
    by (simp add: enum_run_status_def)
  show "enum_class.enum_all P \<longleftrightarrow> Ball UNIV P" for P :: "run_status \<Rightarrow> bool"
    by (simp add: enum_all_run_status_def list_all_iff UN)
  show "enum_class.enum_ex P \<longleftrightarrow> Bex UNIV P" for P :: "run_status \<Rightarrow> bool"
    by (simp add: enum_ex_run_status_def list_ex_iff UN)
qed

end

lemma allowed_next_simps [simp]:
  "allowed_next RECEIVED = {REJECTED, QUEUED}"
  "allowed_next QUEUED = {LEASED, CANCELLED, SUPERSEDED}"
  "allowed_next LEASED = {SNAPSHOTTING, RUNNING, CANCELLED, SUPERSEDED, FAILED}"
  "allowed_next SNAPSHOTTING = {RUNNING, REFUSED, SUPERSEDED, FAILED}"
  "allowed_next RUNNING = {EVALUATING, REFUSED, BUDGET_EXHAUSTED, FAILED, SUPERSEDED}"
  "allowed_next EVALUATING = {READY_TO_PUSH, SUCCEEDED, REFUSED, FAILED, SUPERSEDED}"
  "allowed_next READY_TO_PUSH = {PUSHING, REFUSED, SUPERSEDED}"
  "allowed_next PUSHING = {SUCCEEDED, REFUSED, FAILED}"
  "allowed_next SUCCEEDED = {}"
  "allowed_next REFUSED = {}"
  "allowed_next REJECTED = {}"
  "allowed_next BUDGET_EXHAUSTED = {}"
  "allowed_next SUPERSEDED = {}"
  "allowed_next CANCELLED = {}"
  "allowed_next FAILED = {}"
  by (simp_all add: allowed_next_def allowed_transitions_def)

section \<open>The status machine as an interface\<close>

text \<open>
  What the run service relies on: which statuses follow which, which are final, and a rank that
  every transition raises. Paths of such a machine are bounded and end for good in a final
  status.
\<close>

locale status_machine =
  fixes succs :: "'st \<Rightarrow> 'st set" and final :: "'st set" and rank :: "'st \<Rightarrow> nat" and top :: nat
  assumes final_stuck: "s \<in> final \<longleftrightarrow> succs s = {}"
    and rank_up: "t \<in> succs s \<Longrightarrow> rank s < rank t"
    and rank_top: "rank s \<le> top"
begin

fun legal_path :: "'st \<Rightarrow> 'st list \<Rightarrow> bool" where
  "legal_path s [] = True"
| "legal_path s (t # ts) = (t \<in> succs s \<and> legal_path t ts)"

lemma legal_path_rank: "legal_path s ts \<Longrightarrow> rank s + length ts \<le> rank (last (s # ts))"
proof (induction ts arbitrary: s)
  case (Cons t ts)
  then have "rank s < rank t" "rank t + length ts \<le> rank (last (t # ts))"
    by (auto dest: rank_up)
  then show ?case by simp
qed simp

lemma legal_path_bounded: "legal_path s ts \<Longrightarrow> length ts \<le> top - rank s"
  using legal_path_rank [of s ts] rank_top [of "last (s # ts)"] by simp

lemma no_return: "legal_path s ts \<Longrightarrow> s \<notin> set ts"
proof (induction ts arbitrary: s rule: rev_induct)
  case (snoc t ts)
  have pre: "legal_path s (xs @ ys) \<Longrightarrow> legal_path s xs" for xs ys s
    by (induction xs arbitrary: s) auto
  from snoc.prems legal_path_rank [of s "ts @ [t]"] have "s \<noteq> t" by auto
  with snoc pre show ?case by auto
qed simp

lemma final_no_path: "s \<in> final \<Longrightarrow> legal_path s ts \<Longrightarrow> ts = []"
  by (cases ts) (auto simp: final_stuck)

lemma not_final_progress: "s \<notin> final \<Longrightarrow> \<exists>t. t \<in> succs s"
  by (auto simp: final_stuck)

lemma reaches_final: "\<exists>ts. legal_path s ts \<and> last (s # ts) \<in> final"
proof (induction "top - rank s" arbitrary: s rule: less_induct)
  case less
  show ?case
  proof (cases "s \<in> final")
    case True
    then show ?thesis by (intro exI [of _ "[]"]) simp
  next
    case False
    then obtain t where t: "t \<in> succs s" using not_final_progress by blast
    with rank_up rank_top [of t] have "top - rank t < top - rank s" by fastforce
    then obtain ts where "legal_path t ts" "last (t # ts) \<in> final" using less by blast
    with t show ?thesis by (intro exI [of _ "t # ts"]) simp
  qed
qed

end

fun status_rank :: "run_status \<Rightarrow> nat" where
  "status_rank RECEIVED = 0"
| "status_rank QUEUED = 1"
| "status_rank LEASED = 2"
| "status_rank SNAPSHOTTING = 3"
| "status_rank RUNNING = 4"
| "status_rank EVALUATING = 5"
| "status_rank READY_TO_PUSH = 6"
| "status_rank PUSHING = 7"
| "status_rank _ = 8"

interpretation statuses: status_machine allowed_next terminal_statuses status_rank 8
proof
  show "s \<in> terminal_statuses \<longleftrightarrow> allowed_next s = {}" for s
    by (cases s) (simp_all add: terminal_statuses_def)
  show "t \<in> allowed_next s \<Longrightarrow> status_rank s < status_rank t" for s t
    by (cases s) auto
  show "status_rank s \<le> 8" for s
    by (cases s) simp_all
qed

lemmas status_machine_facts = statuses.legal_path_bounded statuses.no_return statuses.final_no_path
  statuses.reaches_final

text \<open>A sequence of statuses that follows the transition table, each from the one before.\<close>

fun status_path :: "run_status \<Rightarrow> run_status list \<Rightarrow> bool" where
  "status_path s [] = True"
| "status_path s (t # ts) = (t \<in> allowed_next s \<and> status_path t ts)"

lemma status_path_legal: "status_path s ts = statuses.legal_path s ts"
  by (induction ts arbitrary: s) simp_all

text \<open>
  C35: The status machine of a run terminates: a sequence of transitions that the table allows
  never comes back to a status it has left, takes at most eight steps from \<open>received\<close>, and is
  empty when it starts in a terminal status; from every status a terminal one can be reached.
\<close>

theorem status_machine_terminates:
  "(status_path s ts \<longrightarrow>
      s \<notin> set ts \<and> length ts \<le> 8 - status_rank s \<and> (s \<in> terminal_statuses \<longrightarrow> ts = [])) \<and>
   (\<exists>us. status_path s us \<and> last (s # us) \<in> terminal_statuses)"
  unfolding status_path_legal using status_machine_facts by blast

theorem status_machine_terminates_witness:
  "RECEIVED \<notin> set [QUEUED, LEASED, SNAPSHOTTING, RUNNING, EVALUATING, READY_TO_PUSH, PUSHING, REFUSED]
   \<and> length [QUEUED, LEASED, SNAPSHOTTING, RUNNING, EVALUATING, READY_TO_PUSH, PUSHING, REFUSED] \<le> 8"
  using status_machine_terminates [of RECEIVED
    "[QUEUED, LEASED, SNAPSHOTTING, RUNNING, EVALUATING, READY_TO_PUSH, PUSHING, REFUSED]"]
  by simp

section \<open>Identities\<close>

text \<open>A UUID is a number below \<open>2 ^ 128\<close>; \<open>str\<close> writes it in the 8-4-4-4-12 form.\<close>

type_synonym uuid = nat

fun hex_digits :: "nat \<Rightarrow> nat \<Rightarrow> string" where
  "hex_digits 0 n = []"
| "hex_digits (Suc k) n = hex_digits k (n div 16) @ [hex_digit n]"

definition uuid_str :: "uuid \<Rightarrow> string" where
  "uuid_str n = (let h = hex_digits 32 n in
     join ''-'' [take 8 h, take 4 (drop 8 h), take 4 (drop 12 h), take 4 (drop 16 h), drop 20 h])"

definition immutable_sha :: "string \<Rightarrow> bool" where
  "immutable_sha v = (length v \<in> {40, 64} \<and> list_all is_lower_hex v)"

end
