(* ===== verification/PatchPolicy.thy ===== *)
theory PatchPolicy
  imports Domain
begin

text \<open>
  \<open>policy/patch.py\<close>: the policy a unified diff must satisfy before it may be pushed. The standard
  library's \<open>fnmatch\<close> is modelled as the translation to tokens it documents (on POSIX the case of
  the path is kept); the header regular expression is read line by line, where a line ends only at
  a line feed, as \<open>re.MULTILINE\<close> has it.
\<close>

section \<open>Shell patterns\<close>

datatype glob = Any_Sequence | Any_Char | One_Of bool string | Literal char

text \<open>The text between \<open>[\<close> and its \<open>]\<close>; a \<open>]\<close> right after \<open>[\<close> or \<open>[!\<close> does not close it.\<close>

definition bracket_body :: "string \<Rightarrow> (string \<times> string) option" where
  "bracket_body p =
    (let k0 = (if p \<noteq> [] \<and> hd p = CHR ''!'' then 1 else 0);
         k = (if drop k0 p \<noteq> [] \<and> hd (drop k0 p) = CHR '']'' then Suc k0 else k0);
         m = k + length (takeWhile (\<lambda>c. c \<noteq> CHR '']'') (drop k p))
     in if m < length p then Some (take m p, drop (Suc m) p) else None)"

lemma bracket_body_shorter: "bracket_body p = Some (b, r) \<Longrightarrow> length r < length p"
  by (auto simp: bracket_body_def Let_def split: if_splits)

function (sequential) globs :: "string \<Rightarrow> glob list" where
  "globs [] = []"
| "globs (c # p) =
    (if c = CHR ''*'' then Any_Sequence # globs p
     else if c = CHR ''?'' then Any_Char # globs p
     else if c = CHR ''['' then
       (case bracket_body p of
          None \<Rightarrow> Literal c # globs p
        | Some (b, r) \<Rightarrow>
            (if b \<noteq> [] \<and> hd b = CHR ''!'' then One_Of False (tl b) else One_Of True b) # globs r)
     else Literal c # globs p)"
  by pat_completeness auto

termination
  by (relation "measure length") (auto dest: bracket_body_shorter)

fun in_class :: "string \<Rightarrow> char \<Rightarrow> bool" where
  "in_class (a # d # b # r) c =
     (if d = CHR ''-'' then ((of_char a :: nat) \<le> of_char c \<and> (of_char c :: nat) \<le> of_char b) \<or> in_class r c
      else a = c \<or> in_class (d # b # r) c)"
| "in_class s c = (c \<in> set s)"

fun glob_match :: "glob list \<Rightarrow> string \<Rightarrow> bool" where
  "glob_match [] s = (s = [])"
| "glob_match (Any_Sequence # g) [] = glob_match g []"
| "glob_match (Any_Sequence # g) (c # s) = (glob_match g (c # s) \<or> glob_match (Any_Sequence # g) s)"
| "glob_match (Any_Char # g) [] = False"
| "glob_match (Any_Char # g) (c # s) = glob_match g s"
| "glob_match (One_Of b k # g) [] = False"
| "glob_match (One_Of b k # g) (c # s) = (in_class k c = b \<and> glob_match g s)"
| "glob_match (Literal l # g) [] = False"
| "glob_match (Literal l # g) (c # s) = (l = c \<and> glob_match g s)"

definition fnmatch :: "string \<Rightarrow> string \<Rightarrow> bool" where
  "fnmatch path pattern = glob_match (globs pattern) path"

section \<open>The policy\<close>

definition FORBIDDEN_PATH_PARTS :: "string list" where
  "FORBIDDEN_PATH_PARTS =
    [''.github/'', ''migrations/'', ''alembic/'', ''infra/'', ''infrastructure/'', ''auth/'',
     ''authentication/'', ''authorization/'', ''secrets/'']"

definition FORBIDDEN_NAMES :: "string list" where
  "FORBIDDEN_NAMES =
    [''dockerfile'', ''compose.yaml'', ''compose.yml'', ''pyproject.toml'', ''package.json'',
     ''cargo.toml'', ''go.mod'', ''requirements.txt'', ''poetry.lock'', ''package-lock.json'',
     ''pnpm-lock.yaml'', ''yarn.lock'']"

definition FORBIDDEN_SUFFIXES :: "string list" where
  "FORBIDDEN_SUFFIXES = [''.lock'', ''.pem'', ''.key'']"

definition TEST_MARKERS :: "string list" where
  "TEST_MARKERS = [''/tests/'', ''/test_'', ''_test.py'', ''.test.'', ''.spec.'']"

record patch_policy =
  pp_allowed_source_paths :: "string list"
  pp_protected_paths :: "string list"
  pp_max_changed_files :: int
  pp_max_patch_bytes :: int

record policy_result =
  pr_outcome :: policy_outcome
  pr_reason_code :: string
  pr_changed_paths :: "string list"
  pr_input_hash :: string

text \<open>
  \<open>_DIFF_HEADER\<close> on one line: the marker and a space, an optional \<open>a/\<close> or \<open>b/\<close> that is given back
  when nothing would follow it, and at least one character up to a tab.
\<close>

definition path_text :: "string \<Rightarrow> string" where
  "path_text s = takeWhile (\<lambda>c. c \<noteq> TAB) s"

definition diff_header :: "string \<Rightarrow> string option" where
  "diff_header line =
    (if starts_with ''--- '' line \<or> starts_with ''+++ '' line then
       (let r = drop 4 line in
        if (starts_with ''a/'' r \<or> starts_with ''b/'' r) \<and> path_text (drop 2 r) \<noteq> []
        then Some (path_text (drop 2 r))
        else if path_text r \<noteq> [] then Some (path_text r) else None)
     else None)"

definition changed_paths :: "string \<Rightarrow> string list" where
  "changed_paths diff = sorted_list_of_set (set
     (filter (\<lambda>p. p \<noteq> ''/dev/null'') (map strip (List.map_filter diff_header (split_on LF diff)))))"

definition binary_notice :: "string \<Rightarrow> bool" where
  "binary_notice line = (starts_with ''Binary files '' line \<and> ends_with '' differ'' line \<and>
     length ''Binary files '' + length '' differ'' < length line)"

definition binary_or_link :: "string \<Rightarrow> bool" where
  "binary_or_link diff = (contains ''GIT binary patch'' diff \<or>
     list_ex binary_notice (split_on LF diff) \<or>
     contains ''new file mode 120000'' diff \<or> contains ''Subproject commit'' diff)"

definition file_name :: "string \<Rightarrow> string" where
  "file_name path = last (split_on (CHR ''/'') path)"

text \<open>The body of the loop over the paths: the reason to refuse one, in the order of the checks.\<close>

definition unsafe_path :: "string \<Rightarrow> bool" where
  "unsafe_path path = (starts_with ''../'' path \<or> starts_with ''/'' path \<or> NUL \<in> set path)"

definition protected_part :: "string \<Rightarrow> bool" where
  "protected_part path = (let lowered = lower path in
     list_ex (\<lambda>m. contains m lowered) FORBIDDEN_PATH_PARTS \<or>
     list_ex (starts_with ''auth'') (butlast (split_on (CHR ''/'') lowered)))"

definition test_or_dependency :: "string \<Rightarrow> bool" where
  "test_or_dependency path = (let lowered = lower path in
     file_name lowered \<in> set FORBIDDEN_NAMES \<or>
     list_ex (\<lambda>x. ends_with x lowered) FORBIDDEN_SUFFIXES \<or>
     starts_with ''test_'' lowered \<or> starts_with ''tests/'' lowered \<or>
     list_ex (\<lambda>m. contains m lowered) TEST_MARKERS)"

definition protected_name :: "string \<Rightarrow> bool" where
  "protected_name path = (let name = file_name (lower path) in
     starts_with ''auth'' name \<or> starts_with ''authorization'' name \<or>
     starts_with ''authentication'' name \<or> contains ''_auth'' name \<or> ends_with ''.tf'' name)"

definition path_refusal :: "patch_policy \<Rightarrow> string \<Rightarrow> string option" where
  "path_refusal policy path =
    (if unsafe_path path then Some ''unsafe_path''
     else if protected_part path then Some ''protected_path''
     else if test_or_dependency path then Some ''test_or_dependency_path''
     else if list_ex (fnmatch path) (pp_protected_paths policy) then Some ''manifest_protected_path''
     else if protected_name path then Some ''protected_path''
     else if \<not> list_ex (fnmatch path) (pp_allowed_source_paths policy)
     then Some ''path_not_allowlisted''
     else None)"

fun first_refusal :: "patch_policy \<Rightarrow> string list \<Rightarrow> string option" where
  "first_refusal policy [] = None"
| "first_refusal policy (p # ps) =
     (case path_refusal policy p of Some r \<Rightarrow> Some r | None \<Rightarrow> first_refusal policy ps)"

definition validate_unified_diff :: "string \<Rightarrow> patch_policy \<Rightarrow> policy_result" where
  "validate_unified_diff diff policy =
    (let input_hash = sha256_hex (utf8 diff);
         result = (\<lambda>outcome reason paths. \<lparr>pr_outcome = outcome, pr_reason_code = reason,
                     pr_changed_paths = paths, pr_input_hash = input_hash\<rparr>);
         paths = changed_paths diff
     in if int (length (utf8 diff)) > pp_max_patch_bytes policy
        then result DENY ''patch_too_large'' []
        else if binary_or_link diff then result DENY ''binary_or_link_change'' []
        else if paths = [] then result DENY ''no_changed_source_path'' []
        else if int (length paths) > pp_max_changed_files policy
        then result DENY ''too_many_changed_files'' paths
        else (case first_refusal policy paths of
                Some reason \<Rightarrow> result DENY reason paths
              | None \<Rightarrow> result ALLOW ''source_only_patch'' paths))"

section \<open>What an allowed patch satisfies\<close>

lemma first_refusal_None: "first_refusal policy ps = None \<longleftrightarrow> (\<forall>p \<in> set ps. path_refusal policy p = None)"
  by (induction ps) (auto split: option.splits)

lemma path_refusal_None:
  "path_refusal policy p = None \<longleftrightarrow>
     \<not> unsafe_path p \<and> \<not> protected_part p \<and> \<not> test_or_dependency p \<and> \<not> protected_name p \<and>
     (\<forall>q \<in> set (pp_protected_paths policy). \<not> fnmatch p q) \<and>
     (\<exists>q \<in> set (pp_allowed_source_paths policy). fnmatch p q)"
  by (auto simp: path_refusal_def list_ex_iff)

lemma validate_unified_diff_hash [simp]:
  "pr_input_hash (validate_unified_diff diff policy) = sha256_hex (utf8 diff)"
  by (simp add: validate_unified_diff_def Let_def split: option.splits)

lemma validate_unified_diff_allow:
  "pr_outcome (validate_unified_diff diff policy) = ALLOW \<longleftrightarrow>
     int (length (utf8 diff)) \<le> pp_max_patch_bytes policy \<and> \<not> binary_or_link diff \<and>
     changed_paths diff \<noteq> [] \<and> int (length (changed_paths diff)) \<le> pp_max_changed_files policy \<and>
     first_refusal policy (changed_paths diff) = None"
  by (simp add: validate_unified_diff_def Let_def not_less split: option.splits)

lemma validate_unified_diff_paths:
  "pr_outcome (validate_unified_diff diff policy) = ALLOW \<Longrightarrow>
     pr_changed_paths (validate_unified_diff diff policy) = changed_paths diff \<and>
     pr_reason_code (validate_unified_diff diff policy) = ''source_only_patch''"
  by (simp add: validate_unified_diff_def Let_def split: option.splits if_splits)

text \<open>
  C10: A diff passes the patch policy exactly when it is small enough, carries no binary, symlink or
  submodule marker, names between one and the allowed number of paths, and every path is
  repository-relative, under none of the protected directories or names, no test or dependency
  file, matched by an allowed pattern and by no protected pattern of the manifest; the result then
  lists exactly those paths.
\<close>

theorem patch_policy_allows_exactly_source_patches:
  "(pr_outcome (validate_unified_diff diff policy) = ALLOW \<and>
    pr_changed_paths (validate_unified_diff diff policy) = paths) \<longleftrightarrow>
   (paths = changed_paths diff \<and> paths \<noteq> [] \<and>
    int (length paths) \<le> pp_max_changed_files policy \<and>
    int (length (utf8 diff)) \<le> pp_max_patch_bytes policy \<and> \<not> binary_or_link diff \<and>
    (\<forall>p \<in> set paths. \<not> unsafe_path p \<and> \<not> protected_part p \<and> \<not> test_or_dependency p \<and>
       \<not> protected_name p \<and> (\<forall>q \<in> set (pp_protected_paths policy). \<not> fnmatch p q) \<and>
       (\<exists>q \<in> set (pp_allowed_source_paths policy). fnmatch p q)))"
  using validate_unified_diff_paths [of diff policy]
  unfolding validate_unified_diff_allow first_refusal_None path_refusal_None by auto

definition example_policy :: patch_policy where
  "example_policy = \<lparr>pp_allowed_source_paths = [''src/*''], pp_protected_paths = [''src/config/*''],
     pp_max_changed_files = 20, pp_max_patch_bytes = 100000\<rparr>"

definition example_diff :: string where
  "example_diff = join [LF]
     [''--- a/src/x.py'', ''+++ b/src/x.py'', ''@@ -1,2 +1,2 @@'', ''-a'', ''+b'', '' c'', []]"

lemma example_diff_paths: "changed_paths example_diff = [''src/x.py'']"
  by code_simp

theorem patch_policy_allows_exactly_source_patches_witness:
  "pr_outcome (validate_unified_diff example_diff example_policy) = ALLOW"
proof -
  have "int (length (utf8 example_diff)) \<le> pp_max_patch_bytes example_policy"
    "\<not> binary_or_link example_diff"
    "\<not> unsafe_path ''src/x.py'' \<and> \<not> protected_part ''src/x.py'' \<and> \<not> test_or_dependency ''src/x.py''
      \<and> \<not> protected_name ''src/x.py'' \<and>
      (\<forall>q \<in> set (pp_protected_paths example_policy). \<not> fnmatch ''src/x.py'' q) \<and>
      (\<exists>q \<in> set (pp_allowed_source_paths example_policy). fnmatch ''src/x.py'' q)"
    "int (length [''src/x.py'']) \<le> pp_max_changed_files example_policy"
    by code_simp+
  then show ?thesis
    using patch_policy_allows_exactly_source_patches [of example_diff example_policy "[''src/x.py'']"]
    by (simp add: example_diff_paths)
qed

end
