(* ===== verification/PatchApply.thy ===== *)
theory PatchApply
  imports PatchPolicy
begin

text \<open>
  \<open>gateway/patch_apply.py\<close>: parsing a unified diff and applying it to the base files. The nested
  loops over one index are three functions over the remaining lines; the regular expression of the
  hunk header is read from left to right, which is what its match does, since every repetition is
  followed by a character it cannot contain. A file's bytes decode to a string, fail to, or hold a
  code point outside the alphabet of the model, which raises an exception of its own.
\<close>

section \<open>Data\<close>

record text_hunk =
  hk_old_start :: int
  hk_old_count :: int
  hk_new_start :: int
  hk_new_count :: int
  hk_lines :: "string list"

record text_file_patch =
  fp_old_path :: "string option"
  fp_new_path :: "string option"
  fp_hunks :: "text_hunk list"

record applied_file =
  af_old_path :: "string option"
  af_new_path :: "string option"
  af_content :: "bytes option"

section \<open>Headers\<close>

definition header_path :: "string \<Rightarrow> string option res" where
  "header_path raw =
    (let v0 = strip (hd (split_on TAB raw)) in
     if v0 = ''/dev/null'' then Inr None
     else (let v = (if starts_with ''a/'' v0 \<or> starts_with ''b/'' v0 then drop 2 v0 else v0) in
       if v = [] \<or> starts_with ''/'' v \<or> ''..'' \<in> set (split_on (CHR ''/'') v) \<or> NUL \<in> set v
       then Inl (ValueError ''unified diff path is unsafe'')
       else Inr (Some v)))"

text \<open>\<open>(\d+)(?:,(\d+))?\<close>, an absent count read as 1.\<close>

definition eat_range :: "string \<Rightarrow> ((int \<times> int) \<times> string) option" where
  "eat_range s = (case eat_number s of
     None \<Rightarrow> None
   | Some (a, r) \<Rightarrow>
       (case eat '','' r of
          None \<Rightarrow> Some ((a, 1), r)
        | Some r' \<Rightarrow> (case eat_number r' of
            None \<Rightarrow> Some ((a, 1), r)
          | Some (n, r'') \<Rightarrow> Some ((a, n), r''))))"

definition hunk_header :: "string \<Rightarrow> ((int \<times> int) \<times> (int \<times> int)) option" where
  "hunk_header line = (case eat ''@@ -'' line of
     None \<Rightarrow> None
   | Some r1 \<Rightarrow> (case eat_range r1 of
       None \<Rightarrow> None
     | Some (old, r2) \<Rightarrow> (case eat '' +'' r2 of
         None \<Rightarrow> None
       | Some r3 \<Rightarrow> (case eat_range r3 of
           None \<Rightarrow> None
         | Some (new, r4) \<Rightarrow> (if starts_with '' @@'' r4 then Some (old, new) else None)))))"

section \<open>Parsing\<close>

definition no_newline_marker :: string where
  "no_newline_marker = CHR 0x5C # '' No newline at end of file''"

definition counts_error :: exn where
  "counts_error = ValueError ''unified diff hunk counts do not match its body''"

text \<open>
  The loop over the body of a hunk, with the lines still to come of each side; it returns the body
  and the lines after it.
\<close>

fun parse_body :: "int \<Rightarrow> int \<Rightarrow> int \<Rightarrow> int \<Rightarrow> string list \<Rightarrow> (string list \<times> string list) res" where
  "parse_body old_count new_count old_seen new_seen [] =
     (if old_seen \<noteq> old_count \<or> new_seen \<noteq> new_count then Inl counts_error else Inr ([], []))"
| "parse_body old_count new_count old_seen new_seen (line # rest) =
     (if \<not> (old_seen < old_count \<or> new_seen < new_count)
      then (if old_seen \<noteq> old_count \<or> new_seen \<noteq> new_count then Inl counts_error
            else Inr ([], line # rest))
      else if line = no_newline_marker then parse_body old_count new_count old_seen new_seen rest
      else if line = [] \<or> hd line \<notin> set '' +-''
      then Inl (ValueError ''unified diff hunk contains an invalid line'')
      else (let old_seen' = (if hd line \<in> set '' -'' then old_seen + 1 else old_seen);
                new_seen' = (if hd line \<in> set '' +'' then new_seen + 1 else new_seen)
            in if old_seen' > old_count \<or> new_seen' > new_count then Inl counts_error
               else (case parse_body old_count new_count old_seen' new_seen' rest of
                       Inl e \<Rightarrow> Inl e
                     | Inr (body, r) \<Rightarrow> Inr (line # body, r))))"

lemma parse_body_rest: "parse_body oc nc os ns ls = Inr (body, rest) \<Longrightarrow> length rest \<le> length ls"
  by (induction oc nc os ns ls arbitrary: body rest rule: parse_body.induct)
    (fastforce simp: Let_def split: if_splits sum.splits prod.splits)+

function (sequential) parse_hunks :: "string list \<Rightarrow> (text_hunk list \<times> string list) res" where
  "parse_hunks [] = Inr ([], [])"
| "parse_hunks (line # rest) =
     (if starts_with ''--- '' line then Inr ([], line # rest)
      else if starts_with ''diff --git '' line then parse_hunks rest
      else if \<not> starts_with ''@@ '' line then parse_hunks rest
      else (case hunk_header line of
              None \<Rightarrow> Inl (ValueError ''unified diff has an invalid hunk header'')
            | Some ((old_start, old_count), (new_start, new_count)) \<Rightarrow>
                (case parse_body old_count new_count 0 0 rest of
                   Inl e \<Rightarrow> Inl e
                 | Inr (body, r) \<Rightarrow>
                    (case parse_hunks r of
                       Inl e \<Rightarrow> Inl e
                     | Inr (hunks, r') \<Rightarrow>
                        Inr (\<lparr>hk_old_start = old_start, hk_old_count = old_count,
                              hk_new_start = new_start, hk_new_count = new_count,
                              hk_lines = body\<rparr> # hunks, r')))))"
  by pat_completeness auto

termination
  by (relation "measure length") (auto dest: parse_body_rest)

lemma parse_hunks_rest: "parse_hunks ls = Inr (hs, rest) \<Longrightarrow> length rest \<le> length ls"
  by (induction ls arbitrary: hs rest rule: parse_hunks.induct)
    (fastforce split: if_splits option.splits prod.splits sum.splits dest: parse_body_rest)+

function (sequential) parse_files :: "string list \<Rightarrow> text_file_patch list res" where
  "parse_files [] = Inr []"
| "parse_files (line # rest) =
     (if \<not> starts_with ''--- '' line then parse_files rest
      else case rest of
        [] \<Rightarrow> Inl (ValueError ''unified diff is missing its new-file header'')
      | line2 # rest2 \<Rightarrow>
         (if \<not> starts_with ''+++ '' line2
          then Inl (ValueError ''unified diff is missing its new-file header'')
          else (case header_path (drop 4 line) of
             Inl e \<Rightarrow> Inl e
           | Inr old_path \<Rightarrow> (case header_path (drop 4 line2) of
               Inl e \<Rightarrow> Inl e
             | Inr new_path \<Rightarrow> (case parse_hunks rest2 of
                 Inl e \<Rightarrow> Inl e
               | Inr (hunks, rest3) \<Rightarrow>
                   if old_path = None \<and> new_path = None
                   then Inl (ValueError ''unified diff cannot delete and create /dev/null'')
                   else if hunks = [] \<and> old_path = new_path
                   then Inl (ValueError ''unified diff file has no hunks'')
                   else (case parse_files rest3 of
                           Inl e \<Rightarrow> Inl e
                         | Inr files \<Rightarrow>
                             Inr (\<lparr>fp_old_path = old_path, fp_new_path = new_path,
                                   fp_hunks = hunks\<rparr> # files)))))))"
  by pat_completeness auto

termination
  by (relation "measure length") (auto dest: parse_hunks_rest)

definition parse_text_diff :: "string \<Rightarrow> text_file_patch list res" where
  "parse_text_diff diff = (case parse_files (splitlines diff) of
     Inl e \<Rightarrow> Inl e
   | Inr [] \<Rightarrow> Inl (ValueError ''unified diff contains no text files'')
   | Inr files \<Rightarrow> Inr files)"

section \<open>Applying\<close>

text \<open>One line of a hunk: the position in the base, the two counters and the result so far.\<close>

fun apply_lines :: "string list \<Rightarrow> string list \<Rightarrow> nat \<Rightarrow> int \<Rightarrow> int \<Rightarrow> string list \<Rightarrow>
    (nat \<times> int \<times> int \<times> string list) res" where
  "apply_lines src [] cursor old_seen new_seen result = Inr (cursor, old_seen, new_seen, result)"
| "apply_lines src (line # lines) cursor old_seen new_seen result =
     (let marker = hd line; content = tl line in
      if marker \<in> set '' -'' \<and> (length src \<le> cursor \<or> src ! cursor \<noteq> content)
      then Inl (ValueError ''unified diff context does not match the base file'')
      else apply_lines src lines
        (if marker \<in> set '' -'' then Suc cursor else cursor)
        (if marker \<in> set '' -'' then old_seen + 1 else old_seen)
        (if marker \<in> set '' +'' then new_seen + 1 else new_seen)
        (if marker \<in> set '' +'' then result @ [content] else result))"

fun apply_hunks :: "string list \<Rightarrow> text_hunk list \<Rightarrow> nat \<Rightarrow> string list \<Rightarrow> string list res" where
  "apply_hunks src [] cursor result = Inr (result @ drop cursor src)"
| "apply_hunks src (h # hs) cursor result =
     (let target = nat (max (hk_old_start h - 1) 0) in
      if target < cursor \<or> length src < target
      then Inl (ValueError ''unified diff hunk range is invalid'')
      else (case apply_lines src (hk_lines h) target 0 0 (result @ drop cursor (take target src)) of
              Inl e \<Rightarrow> Inl e
            | Inr (cursor', old_seen, new_seen, result') \<Rightarrow>
                if old_seen \<noteq> hk_old_count h \<or> new_seen \<noteq> hk_new_count h then Inl counts_error
                else apply_hunks src hs cursor' result'))"

datatype decoded = Decoded string | Not_Utf8 | Beyond_Alphabet

definition continuation :: "char \<Rightarrow> bool" where
  "continuation c = (128 \<le> (of_char c :: nat) \<and> (of_char c :: nat) < 192)"

text \<open>
  \<open>bytes.decode("utf-8")\<close>, strict: two-byte sequences up to \<open>U+00FF\<close> give a character, valid
  longer ones lie beyond the alphabet, everything else is an error (overlong forms, surrogates and
  code points above \<open>U+10FFFF\<close> among them).
\<close>

definition decoded_cons :: "char \<Rightarrow> decoded \<Rightarrow> decoded" where
  "decoded_cons c d = (case d of Decoded s \<Rightarrow> Decoded (c # s) | _ \<Rightarrow> d)"

definition decoded_beyond :: "decoded \<Rightarrow> decoded" where
  "decoded_beyond d = (case d of Not_Utf8 \<Rightarrow> Not_Utf8 | _ \<Rightarrow> Beyond_Alphabet)"

definition utf8_length :: "char \<Rightarrow> nat" where
  "utf8_length c = (let n = (of_char c :: nat) in
     if n < 128 then 1 else if 194 \<le> n \<and> n < 224 then 2 else if 224 \<le> n \<and> n < 240 then 3
     else if 240 \<le> n \<and> n < 245 then 4 else 0)"

definition second_byte_ok :: "char \<Rightarrow> char \<Rightarrow> bool" where
  "second_byte_ok c d = (let n = (of_char c :: nat); m = (of_char d :: nat) in
     continuation d \<and> (n = 224 \<longrightarrow> 160 \<le> m) \<and> (n = 237 \<longrightarrow> m < 160) \<and> (n = 240 \<longrightarrow> 144 \<le> m) \<and>
     (n = 244 \<longrightarrow> m < 144))"

fun utf8_decode :: "bytes \<Rightarrow> decoded" where
  "utf8_decode [] = Decoded []"
| "utf8_decode (c # r) =
     (let k = utf8_length c in
      if k = 1 then decoded_cons c (utf8_decode r)
      else if k = 0 \<or> length r < k - 1 \<or> \<not> second_byte_ok c (hd r) \<or>
              \<not> list_all continuation (take (k - 1) r) then Not_Utf8
      else if k = 2 \<and> (of_char c :: nat) < 196
           then decoded_cons (char_of (((of_char c :: nat) - 192) * 64 + (of_char (hd r) - 128)))
                  (utf8_decode (drop (k - 1) r))
      else decoded_beyond (utf8_decode (drop (k - 1) r)))"

definition base_text :: "(string \<Rightarrow> bytes option) \<Rightarrow> string option \<Rightarrow> (string \<times> bool) res" where
  "base_text originals old_path = (case old_path of
     None \<Rightarrow> Inr ([], True)
   | Some p \<Rightarrow> (case originals p of
       None \<Rightarrow> Inl (ValueError ''unified diff base file is unavailable'')
     | Some raw \<Rightarrow>
        if NUL \<in> set raw then Inl (ValueError ''unified diff cannot apply to binary content'')
        else (case utf8_decode raw of
            Not_Utf8 \<Rightarrow> Inl (ValueError ''unified diff base file is not UTF-8 text'')
          | Beyond_Alphabet \<Rightarrow> Inl (OtherError ''Unmodelled'' ''code point above 255'')
          | Decoded t \<Rightarrow> Inr (t, ends_with [LF] t))))"

definition rendered :: "bool \<Rightarrow> string list \<Rightarrow> string" where
  "rendered newline ls = join [LF] ls @ (if newline then [LF] else [])"

definition apply_file :: "(string \<Rightarrow> bytes option) \<Rightarrow> text_file_patch \<Rightarrow> applied_file res" where
  "apply_file originals fp = bind_res (base_text originals (fp_old_path fp)) (\<lambda>(original, newline).
     bind_res (apply_hunks (splitlines original) (fp_hunks fp) 0 []) (\<lambda>result.
       Inr \<lparr>af_old_path = fp_old_path fp, af_new_path = fp_new_path fp,
            af_content = (if fp_new_path fp = None then None
               else Some (utf8 (rendered (newline \<or> fp_old_path fp = None) result)))\<rparr>))"

definition apply_text_diff :: "string \<Rightarrow> (string \<Rightarrow> bytes option) \<Rightarrow> applied_file list res" where
  "apply_text_diff diff originals =
     bind_res (parse_text_diff diff) (traverse (apply_file originals))"

section \<open>Decoding what has been encoded\<close>

lemma utf8_decode_char: "utf8_decode (utf8_char c @ r) = decoded_cons c (utf8_decode r)"
proof (cases "(of_char c :: nat) < 128")
  case True
  then show ?thesis by (simp add: utf8_char_def utf8_length_def Let_def)
next
  case False
  define n where "n = (of_char c :: nat)"
  have n: "128 \<le> n" "n < 256" and c: "c = char_of n"
    using False by (simp_all add: n_def)
  from n have q: "192 + n div 64 = 194 \<or> 192 + n div 64 = 195" by auto
  have bytes: "(of_char (char_of (192 + n div 64) :: char) :: nat) = 192 + n div 64"
    "(of_char (char_of (128 + n mod 64) :: char) :: nat) = 128 + n mod 64"
    using n by (auto simp: of_char_of)
  from n have few: "n div 64 < 4" by auto
  have whole: "n div 64 * 64 + n mod 64 = n" by simp
  have u: "utf8_char c = [char_of (192 + n div 64), char_of (128 + n mod 64)]"
    using False by (simp add: utf8_char_def n_def Let_def)
  have second: "second_byte_ok (char_of (192 + n div 64)) (char_of (128 + n mod 64))"
    "continuation (char_of (128 + n mod 64))"
    unfolding second_byte_ok_def continuation_def bytes using q by auto
  have len: "utf8_length (char_of (192 + n div 64)) = 2"
    unfolding utf8_length_def bytes using q by auto
  show ?thesis
    unfolding u using second len bytes few whole
    by (simp add: Let_def c numeral_2_eq_2)
qed

lemma utf8_decode_utf8 [simp]: "utf8_decode (utf8 s) = Decoded s"
proof (induction s)
  case (Cons c s)
  then show ?case by (simp add: utf8_Cons utf8_decode_char decoded_cons_def)
qed simp

section \<open>Applying a patch, abstractly\<close>

definition removed_lines :: "text_hunk \<Rightarrow> string list" where
  "removed_lines h = map tl (filter (\<lambda>l. hd l \<in> set '' -'') (hk_lines h))"

definition added_lines :: "text_hunk \<Rightarrow> string list" where
  "added_lines h = map tl (filter (\<lambda>l. hd l \<in> set '' +'') (hk_lines h))"

text \<open>
  A file with the given rest, from a position on, becomes the output: between the hunks it is kept,
  at the place of a hunk the lines it takes away stand in the file and the lines it puts there
  stand in the output.
\<close>

inductive patches :: "nat \<Rightarrow> string list \<Rightarrow> text_hunk list \<Rightarrow> string list \<Rightarrow> bool" where
  patches_done: "patches pos rest [] rest"
| patches_hunk: "patches (pos + length gap + length (removed_lines h)) rest hs out \<Longrightarrow>
    pos + length gap = nat (max (hk_old_start h - 1) 0) \<Longrightarrow>
    int (length (removed_lines h)) = hk_old_count h \<Longrightarrow>
    int (length (added_lines h)) = hk_new_count h \<Longrightarrow>
    patches pos (gap @ removed_lines h @ rest) (h # hs) (gap @ added_lines h @ out)"

inductive_simps patches_Nil [simp]: "patches pos rest [] out"
inductive_simps patches_Cons: "patches pos rest (h # hs) out"

lemma apply_lines_iff:
  "cursor \<le> length src \<Longrightarrow>
   apply_lines src ls cursor os ns res = Inr (cursor', os', ns', res') \<longleftrightarrow>
   (\<exists>rest. drop cursor src = map tl (filter (\<lambda>l. hd l \<in> set '' -'') ls) @ rest) \<and>
   cursor' = cursor + length (filter (\<lambda>l. hd l \<in> set '' -'') ls) \<and>
   os' = os + int (length (filter (\<lambda>l. hd l \<in> set '' -'') ls)) \<and>
   ns' = ns + int (length (filter (\<lambda>l. hd l \<in> set '' +'') ls)) \<and>
   res' = res @ map tl (filter (\<lambda>l. hd l \<in> set '' +'') ls)"
proof (induction ls arbitrary: cursor os ns res)
  case Nil
  then show ?case by auto
next
  case (Cons l ls)
  show ?case
  proof (cases "hd l \<in> set '' -'' \<and> (length src \<le> cursor \<or> src ! cursor \<noteq> tl l)")
    case True
    then have "drop cursor src \<noteq> tl l # rest" for rest
      by (metis drop_all leD le_less_linear list.distinct(1) nth_via_drop)
    with True show ?thesis by (auto simp: Let_def)
  next
    case False
    show ?thesis
    proof (cases "hd l \<in> set '' -''")
      case True
      with False have here: "cursor < length src" "src ! cursor = tl l" by auto
      then have "drop cursor src = tl l # drop (Suc cursor) src" "Suc cursor \<le> length src"
        by (simp_all add: Cons_nth_drop_Suc [symmetric])
      with True False show ?thesis
        using Cons.IH [of "Suc cursor"] by (auto simp: Let_def)
    next
      case no: False
      with False show ?thesis
        using Cons.IH [OF Cons.prems] by (auto simp: Let_def)
    qed
  qed
qed

text \<open>One hunk: where it stands, and what the rest of the hunks start from.\<close>

definition hunk_place :: "text_hunk \<Rightarrow> nat \<Rightarrow> string list \<Rightarrow> string list \<Rightarrow> string list \<Rightarrow> bool" where
  "hunk_place h cursor rest gap tail \<longleftrightarrow> rest = gap @ removed_lines h @ tail \<and>
     cursor + length gap = nat (max (hk_old_start h - 1) 0) \<and>
     hk_old_count h = int (length (removed_lines h)) \<and> hk_new_count h = int (length (added_lines h))"

lemma patches_place:
  "patches cursor rest (h # hs) out \<longleftrightarrow> (\<exists>gap tail new. hunk_place h cursor rest gap tail \<and>
     out = gap @ added_lines h @ new \<and> patches (cursor + length gap + length (removed_lines h)) tail hs new)"
  unfolding patches_Cons hunk_place_def by (rule iffI) (clarsimp; fastforce)+

lemma place_drop:
  assumes "cursor \<le> length src" and "hunk_place h cursor (drop cursor src) gap tail"
  shows "drop cursor (take (cursor + length gap) src) = gap"
    and "drop (cursor + length gap) src = removed_lines h @ tail"
    and "drop (cursor + length gap + length (removed_lines h)) src = tail"
    and "cursor + length gap + length (removed_lines h) \<le> length src"
proof -
  from assms(2) have src: "drop cursor src = gap @ removed_lines h @ tail" by (simp add: hunk_place_def)
  then show "drop cursor (take (cursor + length gap) src) = gap" by (simp add: drop_take)
  show d: "drop (cursor + length gap) src = removed_lines h @ tail"
    using src by (metis append_eq_conv_conj drop_drop add.commute)
  then show "drop (cursor + length gap + length (removed_lines h)) src = tail"
    by (metis append_eq_conv_conj drop_drop add.commute)
  show "cursor + length gap + length (removed_lines h) \<le> length src"
    using arg_cong [OF src, of length] assms(1) by simp
qed

lemma apply_hunk_iff:
  assumes "cursor \<le> length src"
  shows "apply_hunks src (h # hs) cursor res = Inr out \<longleftrightarrow> (\<exists>gap tail. hunk_place h cursor (drop cursor src) gap tail \<and>
    apply_hunks src hs (cursor + length gap + length (removed_lines h)) (res @ gap @ added_lines h) = Inr out)"
proof
  define target where "target = nat (max (hk_old_start h - 1) 0)"
  assume run: "apply_hunks src (h # hs) cursor res = Inr out"
  then have le: "cursor \<le> target" "target \<le> length src"
    by (auto simp: target_def Let_def not_less split: if_splits)
  let ?gap = "drop cursor (take target src)"
  from run obtain cursor' res' where
    lines: "apply_lines src (hk_lines h) target 0 0 (res @ ?gap) = Inr (cursor', hk_old_count h, hk_new_count h, res')"
    and rest: "apply_hunks src hs cursor' res' = Inr out"
    by (auto simp: Let_def target_def split: if_splits sum.splits)
  from lines [unfolded apply_lines_iff [OF le(2)]] obtain tail where
    tail: "drop target src = removed_lines h @ tail" and cursor': "cursor' = target + length (removed_lines h)"
    and counts: "hk_old_count h = int (length (removed_lines h))" "hk_new_count h = int (length (added_lines h))"
    and res': "res' = res @ ?gap @ added_lines h"
    by (auto simp: removed_lines_def added_lines_def)
  have "drop cursor src = ?gap @ removed_lines h @ tail"
    using le tail by (metis append_take_drop_id drop_append length_take min.absorb2 diff_is_0_eq' drop0)
  moreover have pos: "cursor + length ?gap = target" using le by simp
  ultimately have "hunk_place h cursor (drop cursor src) ?gap tail"
    using counts by (simp add: hunk_place_def target_def)
  moreover have "apply_hunks src hs (cursor + length ?gap + length (removed_lines h)) (res @ ?gap @ added_lines h) = Inr out"
    unfolding pos using rest cursor' res' by simp
  ultimately show "\<exists>gap tail. hunk_place h cursor (drop cursor src) gap tail \<and>
    apply_hunks src hs (cursor + length gap + length (removed_lines h)) (res @ gap @ added_lines h) = Inr out"
    by blast
next
  assume "\<exists>gap tail. hunk_place h cursor (drop cursor src) gap tail \<and>
    apply_hunks src hs (cursor + length gap + length (removed_lines h)) (res @ gap @ added_lines h) = Inr out"
  then obtain gap tail where place: "hunk_place h cursor (drop cursor src) gap tail"
    and rest: "apply_hunks src hs (cursor + length gap + length (removed_lines h)) (res @ gap @ added_lines h) = Inr out"
    by blast
  note at_place = place_drop [OF assms place]
  then have le: "cursor + length gap \<le> length src" by simp
  have "apply_lines src (hk_lines h) (cursor + length gap) 0 0 (res @ gap) =
      Inr (cursor + length gap + length (removed_lines h), hk_old_count h, hk_new_count h, res @ gap @ added_lines h)"
    unfolding apply_lines_iff [OF le] using at_place(2) place
    by (auto simp: removed_lines_def added_lines_def hunk_place_def)
  with le rest at_place(1) place show "apply_hunks src (h # hs) cursor res = Inr out"
    by (simp add: Let_def not_less hunk_place_def)
qed

lemma apply_hunks_iff:
  "cursor \<le> length src \<Longrightarrow>
   apply_hunks src hs cursor res = Inr out \<longleftrightarrow>
   (\<exists>new. out = res @ new \<and> patches cursor (drop cursor src) hs new)"
proof (induction hs arbitrary: cursor res)
  case (Cons h hs)
  have "apply_hunks src hs (cursor + length gap + length (removed_lines h)) (res @ gap @ added_lines h) = Inr out \<longleftrightarrow>
      (\<exists>new. out = res @ gap @ added_lines h @ new \<and> patches (cursor + length gap + length (removed_lines h)) tail hs new)"
    if "hunk_place h cursor (drop cursor src) gap tail" for gap tail
    using Cons.IH [OF place_drop(4) [OF Cons.prems that]] place_drop(3) [OF Cons.prems that] by simp
  then have "(\<exists>gap tail. hunk_place h cursor (drop cursor src) gap tail \<and>
      apply_hunks src hs (cursor + length gap + length (removed_lines h)) (res @ gap @ added_lines h) = Inr out) \<longleftrightarrow>
    (\<exists>gap tail. hunk_place h cursor (drop cursor src) gap tail \<and>
      (\<exists>new. out = res @ gap @ added_lines h @ new \<and>
         patches (cursor + length gap + length (removed_lines h)) tail hs new))"
    by (intro iff_exI conj_cong refl)
  then show ?case unfolding apply_hunk_iff [OF Cons.prems] patches_place by blast
qed auto

text \<open>
  C12: Applying the hunks of a file is what the abstract patch relation says: it succeeds with an
  output exactly when, at the place each hunk names and after the previous one, the file has the
  lines the hunk takes away, as many as its header says; the output has the hunk's new lines there
  and the file's own lines everywhere else.
\<close>

theorem apply_hunks_refines_patches:
  "apply_hunks src hs 0 [] = Inr out \<longleftrightarrow> patches 0 src hs out"
  by (simp add: apply_hunks_iff)

section \<open>The paths the policy checks and the paths that are patched\<close>

lemma parse_body_suffix: "parse_body oc nc os ns ls = Inr (body, rest) \<Longrightarrow> suffix rest ls"
  by (induction oc nc os ns ls arbitrary: body rest rule: parse_body.induct)
    (fastforce simp: Let_def split: if_splits sum.splits prod.splits intro: suffix_ConsI)+

lemma parse_hunks_suffix: "parse_hunks ls = Inr (hs, rest) \<Longrightarrow> suffix rest ls"
  by (induction ls arbitrary: hs rest rule: parse_hunks.induct)
    (fastforce split: if_splits option.splits prod.splits sum.splits
      dest: parse_body_suffix intro: suffix_ConsI suffix_order.trans)+

lemma parse_files_headers:
  assumes "parse_files ls = Inr fps" and "fp \<in> set fps"
  shows "\<exists>l1 \<in> set ls. \<exists>l2 \<in> set ls. starts_with ''--- '' l1 \<and> starts_with ''+++ '' l2 \<and>
     header_path (drop 4 l1) = Inr (fp_old_path fp) \<and> header_path (drop 4 l2) = Inr (fp_new_path fp)"
  using assms
proof (induction ls arbitrary: fps fp rule: parse_files.induct)
  case (2 line rest)
  show ?case
  proof (cases "starts_with ''--- '' line")
    case False
    with 2(3,4) "2.IH"(1) [of fps fp] show ?thesis by auto
  next
    case True
    with 2(3) obtain line2 rest2 old_path new_path hunks rest3 files where
      steps: "rest = line2 # rest2" "starts_with ''+++ '' line2"
      "header_path (drop 4 line) = Inr old_path" "header_path (drop 4 line2) = Inr new_path"
      "parse_hunks rest2 = Inr (hunks, rest3)" "\<not> (old_path = None \<and> new_path = None)"
      "\<not> (hunks = [] \<and> old_path = new_path)" "parse_files rest3 = Inr files"
      "fps = \<lparr>fp_old_path = old_path, fp_new_path = new_path, fp_hunks = hunks\<rparr> # files"
      by (auto split: list.splits if_splits sum.splits)
    have sub: "set rest3 \<subseteq> set (line # rest)"
      using parse_hunks_suffix [OF steps(5)] steps(1) by (auto dest: set_mono_suffix)
    from 2(4) steps(9) consider
      "fp = \<lparr>fp_old_path = old_path, fp_new_path = new_path, fp_hunks = hunks\<rparr>" | "fp \<in> set files"
      by auto
    then show ?thesis
    proof cases
      case 1
      with True steps show ?thesis by auto
    next
      case in_rest: 2
      have "\<exists>l1 \<in> set rest3. \<exists>l2 \<in> set rest3. starts_with ''--- '' l1 \<and> starts_with ''+++ '' l2 \<and>
         header_path (drop 4 l1) = Inr (fp_old_path fp) \<and> header_path (drop 4 l2) = Inr (fp_new_path fp)"
        using "2.IH"(2) [OF _ steps(1) _ steps(3,4,5) refl _ _ steps(8) in_rest] True steps(2,6,7)
        by blast
      with sub show ?thesis by blast
    qed
  qed
qed simp

lemma strip_prefix_char:
  assumes "\<not> is_space c"
  shows "strip (c # s) = c # rev (dropWhile is_space (rev s))"
proof -
  have "dropWhile is_space (xs @ [c]) = (dropWhile is_space xs) @ [c]" for xs
    using assms by (induction xs) auto
  with assms show ?thesis by (simp add: strip_def)
qed

lemma hd_split_on: "hd (split_on c s) = takeWhile (\<lambda>x. x \<noteq> c) s"
proof (induction s)
  case (Cons x s)
  then show ?case by (cases "split_on c s") auto
qed simp

text \<open>
  A header whose two readings may differ: white space after the marker, or after \<open>a/\<close> or \<open>b/\<close>.
\<close>

definition ambiguous_header :: "string \<Rightarrow> bool" where
  "ambiguous_header line =
    (let r = drop 4 line in (starts_with ''--- '' line \<or> starts_with ''+++ '' line) \<and>
      ((r \<noteq> [] \<and> is_space (hd r)) \<or>
       ((starts_with ''a/'' r \<or> starts_with ''b/'' r) \<and> drop 2 r \<noteq> [] \<and> is_space (hd (drop 2 r)))))"

lemma not_space [simp]:
  "\<not> is_space CHR ''a''" "\<not> is_space CHR ''b''" "\<not> is_space CHR ''/''" "is_space TAB"
  by code_simp+

lemma strip_ab:
  assumes "c \<in> {CHR ''a'', CHR ''b''}" and "q = [] \<or> \<not> is_space (hd q)"
  shows "strip (c # CHR ''/'' # q) = c # CHR ''/'' # strip q"
proof (cases q)
  case Nil
  with assms(1) show ?thesis by (auto simp: strip_prefix_char strip_def)
next
  case (Cons x xs)
  with assms(2) have x: "\<not> is_space x" by simp
  have "rev (dropWhile is_space (rev (CHR ''/'' # x # xs))) =
      CHR ''/'' # x # rev (dropWhile is_space (rev xs))"
    using strip_prefix_char [of "CHR ''/''" "x # xs"] strip_prefix_char [OF x, of xs]
    by (simp add: strip_def x)
  with assms(1) Cons x show ?thesis by (auto simp: strip_prefix_char)
qed

lemma header_readings_agree:
  assumes line: "starts_with ''--- '' line \<or> starts_with ''+++ '' line"
    and clear: "\<not> ambiguous_header line" and path: "header_path (drop 4 line) = Inr (Some p)"
  shows "\<exists>q. diff_header line = Some q \<and> strip q = p \<and> p \<noteq> ''/dev/null''"
proof -
  define r where "r = drop 4 line"
  have safe: "p \<noteq> ''/dev/null''"
    using path by (auto simp: header_path_def Let_def split: if_splits)
  have v0: "hd (split_on TAB r) = path_text r" by (simp add: hd_split_on path_text_def)
  have "r \<noteq> []" using path by (auto simp: r_def [symmetric] header_path_def strip_def)
  then obtain x xs where r: "r = x # xs" by (cases r) auto
  with clear line have x: "\<not> is_space x" by (auto simp: ambiguous_header_def r_def [symmetric] Let_def)
  then have xt: "x \<noteq> TAB" by auto
  show ?thesis
  proof (cases "starts_with ''a/'' r \<or> starts_with ''b/'' r")
    case True
    then obtain c q where cq: "r = c # CHR ''/'' # q" "c \<in> {CHR ''a'', CHR ''b''}"
      using r by (auto split: list.splits)
    with clear line have q: "q = [] \<or> \<not> is_space (hd q)"
      by (auto simp: ambiguous_header_def r_def [symmetric] Let_def)
    have pt: "path_text r = c # CHR ''/'' # path_text q"
      using cq by (auto simp: path_text_def)
    have q': "path_text q = [] \<or> \<not> is_space (hd (path_text q))"
      using q by (cases q) (auto simp: path_text_def)
    have v: "strip (path_text r) = c # CHR ''/'' # strip (path_text q)"
      unfolding pt using cq(2) q' by (rule strip_ab)
    with path cq(2) have p: "p = strip (path_text q)" "p \<noteq> []"
      by (auto simp: header_path_def r_def [symmetric] v0 Let_def split: if_splits)
    then have "path_text q \<noteq> []" by (auto simp: strip_def)
    with True line cq have "diff_header line = Some (path_text q)"
      by (auto simp: diff_header_def r_def [symmetric])
    with p safe show ?thesis by simp
  next
    case False
    have pt: "path_text r = x # path_text xs" using r xt by (simp add: path_text_def)
    have v: "strip (path_text r) = x # rev (dropWhile is_space (rev (path_text xs)))"
      unfolding pt by (rule strip_prefix_char [OF x])
    have pre: "prefix (strip (path_text r)) r"
    proof -
      have "prefix (rev (dropWhile is_space (rev (path_text xs)))) (path_text xs)"
        by (metis rev_rev_ident suffix_dropWhile suffix_to_prefix)
      moreover have "prefix (path_text xs) xs"
        by (metis path_text_def prefixI takeWhile_dropWhile_id)
      ultimately have "prefix (rev (dropWhile is_space (rev (path_text xs)))) xs"
        by (rule prefix_order.trans)
      then show ?thesis unfolding v by (simp add: r)
    qed
    with False have "\<not> (starts_with ''a/'' (strip (path_text r)) \<or> starts_with ''b/'' (strip (path_text r)))"
      using prefix_order.trans unfolding starts_with_def by blast
    with path have "p = strip (path_text r)"
      by (auto simp: header_path_def r_def [symmetric] v0 Let_def split: if_splits)
    moreover have "diff_header line = Some (path_text r)"
      using False line pt by (auto simp: diff_header_def r_def [symmetric] Let_def)
    ultimately show ?thesis using safe by simp
  qed
qed

text \<open>Text whose only line breaks are line feeds.\<close>

definition plain_lines :: "string \<Rightarrow> bool" where
  "plain_lines s = list_all (\<lambda>c. is_line_break c \<longrightarrow> c = LF) s"

lemma splitlines_Cons:
  "plain_lines (c # s) \<Longrightarrow> splitlines (c # s) =
     (if c = LF then [] # splitlines s
      else case splitlines s of [] \<Rightarrow> [[c]] | l # ls \<Rightarrow> (c # l) # ls)"
proof -
  assume "plain_lines (c # s)"
  then consider "c = LF" | "c \<noteq> LF" "\<not> is_line_break c"
    unfolding plain_lines_def list.pred_inject by blast
  then show ?thesis
  proof cases
    case 2
    then have "c \<noteq> CR" by auto
    with 2 show ?thesis by (cases s) simp_all
  qed (cases s, simp_all)
qed

lemma splitlines_plain:
  "plain_lines s \<Longrightarrow> splitlines s = (if last (split_on LF s) = [] then butlast (split_on LF s) else split_on LF s)"
proof (induction s)
  case (Cons c s)
  obtain y ys where ys: "split_on LF s = y # ys" by (cases "split_on LF s") auto
  from Cons.prems have plain: "plain_lines s" unfolding plain_lines_def list.pred_inject by blast
  show ?case
    unfolding splitlines_Cons [OF Cons.prems] Cons.IH [OF plain]
    by (cases ys; cases "c = LF") (simp_all add: ys)
qed simp

lemma splitlines_subset: "plain_lines s \<Longrightarrow> set (splitlines s) \<subseteq> set (split_on LF s)"
  by (auto simp: splitlines_plain dest: in_set_butlastD)

lemma changed_paths_mem:
  assumes "l \<in> set (split_on LF diff)" and "diff_header l = Some q" and "strip q \<noteq> ''/dev/null''"
  shows "strip q \<in> set (changed_paths diff)"
proof -
  from assms(1,2) have "q \<in> set (List.map_filter diff_header (split_on LF diff))"
    by (force simp: List.map_filter_def)
  with assms(3) show ?thesis by (auto simp: changed_paths_def)
qed

text \<open>
  C26: The policy sees every path that is patched, under two conditions that it does not check itself: when
  a diff has no line break but the line feed, and no header with white space where its path begins,
  each old and new path of the parsed patch is among the changed paths the policy checked, so for an
  allowed diff no touched path is refused. Without either it can fail
  (\<open>form_feed_hides_protected_path\<close>, \<open>padded_header_hides_protected_path\<close>).
\<close>

theorem policy_sees_every_patched_path:
  assumes "parse_text_diff diff = Inr fps" and "plain_lines diff"
    and "\<forall>l \<in> set (split_on LF diff). \<not> ambiguous_header l"
    and "fp \<in> set fps" and "fp_old_path fp = Some p \<or> fp_new_path fp = Some p"
  shows "p \<in> set (changed_paths diff) \<and>
    (pr_outcome (validate_unified_diff diff policy) = ALLOW \<longrightarrow> path_refusal policy p = None)"
proof -
  from assms(1) have "parse_files (splitlines diff) = Inr fps"
    by (auto simp: parse_text_diff_def split: sum.splits list.splits)
  from parse_files_headers [OF this assms(4)] assms(5) obtain l where
    l: "l \<in> set (splitlines diff)" "starts_with ''--- '' l \<or> starts_with ''+++ '' l"
    "header_path (drop 4 l) = Inr (Some p)"
    by metis
  with splitlines_subset [OF assms(2)] have mem: "l \<in> set (split_on LF diff)" by blast
  with header_readings_agree [OF l(2) _ l(3)] assms(3) obtain q where
    "diff_header l = Some q" "strip q = p" "p \<noteq> ''/dev/null''" by blast
  with changed_paths_mem [OF mem] have "p \<in> set (changed_paths diff)" by blast
  then show ?thesis by (simp add: validate_unified_diff_allow first_refusal_None)
qed

theorem policy_sees_every_patched_path_witness:
  "path_refusal example_policy ''src/x.py'' = None"
proof -
  have "parse_text_diff example_diff = Inr [\<lparr>fp_old_path = Some ''src/x.py'', fp_new_path = Some ''src/x.py'',
     fp_hunks = [\<lparr>hk_old_start = 1, hk_old_count = 2, hk_new_start = 1, hk_new_count = 2,
       hk_lines = [''-a'', ''+b'', '' c'']\<rparr>]\<rparr>]"
    by code_simp
  moreover have "plain_lines example_diff" "\<forall>l \<in> set (split_on LF example_diff). \<not> ambiguous_header l"
    by code_simp+
  moreover have "pr_outcome (validate_unified_diff example_diff example_policy) = ALLOW"
    unfolding validate_unified_diff_allow by (intro conjI) code_simp+
  ultimately show ?thesis
    using policy_sees_every_patched_path [of example_diff _ _ "''src/x.py''" example_policy]
    by simp
qed

text \<open>
  White space before a path hides it from the policy: the policy takes a prefix \<open>a/\<close> away only at the
  very start of what follows the marker, the parser after it stripped white space. So this diff is
  allowed, as a change of \<open>a/src/config/x.py\<close>, by a policy that protects \<open>src/config\<close>, and parsed as a
  patch of a file there.
\<close>

definition padded_diff :: string where
  "padded_diff = join [LF]
     [''---  a/src/config/x.py'', ''+++  b/src/config/x.py'', ''@@ -1 +1 @@'', ''-a'', ''+b'', []]"

definition config_policy :: patch_policy where
  "config_policy = example_policy\<lparr>pp_allowed_source_paths := [''*.py''], pp_protected_paths := [''src/config/*'']\<rparr>"

theorem padded_header_hides_protected_path:
  "pr_outcome (validate_unified_diff padded_diff config_policy) = ALLOW \<and>
   pr_changed_paths (validate_unified_diff padded_diff config_policy) = [''a/src/config/x.py'', ''b/src/config/x.py''] \<and>
   path_refusal config_policy ''src/config/x.py'' = Some ''manifest_protected_path'' \<and>
   (\<exists>fps. parse_text_diff padded_diff = Inr fps \<and> map fp_new_path fps = [Some ''src/config/x.py''])"
proof -
  have "int (length (utf8 padded_diff)) \<le> pp_max_patch_bytes config_policy"
    "\<not> binary_or_link padded_diff" "changed_paths padded_diff = [''a/src/config/x.py'', ''b/src/config/x.py'']"
    "int (length [''a/src/config/x.py'', ''b/src/config/x.py'']) \<le> pp_max_changed_files config_policy"
    "path_refusal config_policy ''a/src/config/x.py'' = None" "path_refusal config_policy ''b/src/config/x.py'' = None"
    "path_refusal config_policy ''src/config/x.py'' = Some ''manifest_protected_path''"
    by code_simp+
  moreover have "map_sum id (map fp_new_path) (parse_text_diff padded_diff) = Inr [Some ''src/config/x.py'']"
    by code_simp
  ultimately show ?thesis
    using validate_unified_diff_paths [of padded_diff config_policy]
    by (cases "parse_text_diff padded_diff") (simp_all add: validate_unified_diff_allow first_refusal_None)
qed

definition smuggling_diff :: string where
  "smuggling_diff = join [LF]
     [''--- a/src/x.py'', ''+++ b/src/x.py'', ''@@ -1 +1 @@'', ''-a'',
      join [CHR 0x0C]
        [''+b'', ''--- a/.github/workflows/ci.yml'', ''+++ b/.github/workflows/ci.yml'',
         ''@@ -1 +1 @@'', ''-x'', ''+y''],
      []]"

text \<open>
  A form feed hides a protected file from the policy: the policy splits the diff at line feeds
  only, the parser at every line break Python knows, so this diff is allowed as a change of
  \<open>src/x.py\<close> alone, and parsed as a patch of the workflow file as well.
\<close>

theorem form_feed_hides_protected_path:
  "pr_outcome (validate_unified_diff smuggling_diff example_policy) = ALLOW \<and>
   pr_changed_paths (validate_unified_diff smuggling_diff example_policy) = [''src/x.py''] \<and>
   path_refusal example_policy ''.github/workflows/ci.yml'' = Some ''protected_path'' \<and>
   (\<exists>fps. parse_text_diff smuggling_diff = Inr fps \<and>
      map fp_new_path fps = [Some ''src/x.py'', Some ''.github/workflows/ci.yml''])"
proof -
  have "int (length (utf8 smuggling_diff)) \<le> pp_max_patch_bytes example_policy"
    "\<not> binary_or_link smuggling_diff" "changed_paths smuggling_diff = [''src/x.py'']"
    "int (length [''src/x.py'']) \<le> pp_max_changed_files example_policy"
    "path_refusal example_policy ''src/x.py'' = None"
    "path_refusal example_policy ''.github/workflows/ci.yml'' = Some ''protected_path''"
    by code_simp+
  moreover have "map_sum id (map fp_new_path) (parse_text_diff smuggling_diff) =
      Inr [Some ''src/x.py'', Some ''.github/workflows/ci.yml'']"
    by code_simp
  ultimately show ?thesis
    using validate_unified_diff_paths [of smuggling_diff example_policy]
    by (cases "parse_text_diff smuggling_diff") (simp_all add: validate_unified_diff_allow first_refusal_None)
qed

section \<open>Printing and parsing\<close>

definition show_range :: "int \<Rightarrow> int \<Rightarrow> string" where
  "show_range a n = show_nat (nat a) @ '','' @ show_nat (nat n)"

definition show_hunk :: "text_hunk \<Rightarrow> string list" where
  "show_hunk h = (''@@ -'' @ show_range (hk_old_start h) (hk_old_count h) @ '' +'' @
     show_range (hk_new_start h) (hk_new_count h) @ '' @@'') # hk_lines h"

definition show_path :: "string \<Rightarrow> string option \<Rightarrow> string" where
  "show_path ab p = (case p of None \<Rightarrow> ''/dev/null'' | Some q \<Rightarrow> ab @ q)"

definition show_file :: "text_file_patch \<Rightarrow> string list" where
  "show_file fp = [''--- '' @ show_path ''a/'' (fp_old_path fp), ''+++ '' @ show_path ''b/'' (fp_new_path fp)] @
     concat (map show_hunk (fp_hunks fp))"

definition show_diff :: "text_file_patch list \<Rightarrow> string" where
  "show_diff fps = concat (map (\<lambda>l. l @ [LF]) (concat (map show_file fps)))"

text \<open>The patches that can be printed: what a parsed patch satisfies, and paths without white space.\<close>

definition hunk_valid :: "text_hunk \<Rightarrow> bool" where
  "hunk_valid h \<longleftrightarrow> 0 \<le> hk_old_start h \<and> 0 \<le> hk_new_start h \<and>
     hk_old_count h = int (length (removed_lines h)) \<and> hk_new_count h = int (length (added_lines h)) \<and>
     (\<forall>l \<in> set (hk_lines h). l \<noteq> [] \<and> hd l \<in> set '' +-'' \<and> list_all (\<lambda>c. \<not> is_line_break c) l)"

definition path_valid :: "string \<Rightarrow> bool" where
  "path_valid p \<longleftrightarrow> p \<noteq> [] \<and> \<not> starts_with ''/'' p \<and> ''..'' \<notin> set (split_on (CHR ''/'') p) \<and>
     list_all (\<lambda>c. \<not> is_space c \<and> c \<noteq> NUL) p"

definition header_valid :: "string option \<Rightarrow> bool" where
  "header_valid p = (case p of None \<Rightarrow> True | Some q \<Rightarrow> path_valid q)"

definition file_valid :: "text_file_patch \<Rightarrow> bool" where
  "file_valid fp \<longleftrightarrow> list_all hunk_valid (fp_hunks fp) \<and>
     (fp_old_path fp \<noteq> None \<or> fp_new_path fp \<noteq> None) \<and>
     (fp_hunks fp \<noteq> [] \<or> fp_old_path fp \<noteq> fp_new_path fp) \<and>
     header_valid (fp_old_path fp) \<and> header_valid (fp_new_path fp)"

lemma eat_range_show:
  assumes "0 \<le> a" and "0 \<le> n"
  shows "eat_range (show_range a n @ CHR '' '' # r) = Some ((a, n), CHR '' '' # r)"
proof -
  have "eat_number (show_nat (nat a) @ '','' @ show_nat (nat n) @ CHR '' '' # r) =
      Some (a, '','' @ show_nat (nat n) @ CHR '' '' # r)"
    using assms(1) by (subst eat_number_show) simp_all
  moreover have "eat_number (show_nat (nat n) @ CHR '' '' # r) = Some (n, CHR '' '' # r)"
    using assms(2) by (subst eat_number_show) simp_all
  ultimately show ?thesis
    unfolding show_range_def append_assoc eat_range_def
    by (simp del: append_Cons append_Nil add: eat_append [of "'',''"])
qed

lemma hunk_header_show:
  assumes "hunk_valid h"
  shows "hunk_header (hd (show_hunk h)) =
    Some ((hk_old_start h, hk_old_count h), (hk_new_start h, hk_new_count h))"
proof -
  from assms have nonneg: "0 \<le> hk_old_start h" "0 \<le> hk_old_count h" "0 \<le> hk_new_start h"
    "0 \<le> hk_new_count h"
    by (auto simp: hunk_valid_def)
  let ?new = "show_range (hk_new_start h) (hk_new_count h) @ '' @@''"
  have "eat_range (show_range (hk_old_start h) (hk_old_count h) @ '' +'' @ ?new) =
      Some ((hk_old_start h, hk_old_count h), '' +'' @ ?new)"
    using eat_range_show [OF nonneg(1,2), of "''+'' @ ?new"] by simp
  moreover have "eat_range ?new = Some ((hk_new_start h, hk_new_count h), '' @@'')"
    using eat_range_show [OF nonneg(3,4), of "''@@''"] by simp
  ultimately show ?thesis
    unfolding show_hunk_def list.sel(1) hunk_header_def
    by (simp del: append_Cons append_Nil add: eat_append [of "''@@ -''"] eat_append [of "'' +''"])
qed

lemma parse_body_lines:
  assumes "\<forall>l \<in> set ls. l \<noteq> [] \<and> hd l \<in> set '' +-''"
  shows "parse_body (os + int (length (filter (\<lambda>l. hd l \<in> set '' -'') ls)))
     (ns + int (length (filter (\<lambda>l. hd l \<in> set '' +'') ls))) os ns (ls @ rest) = Inr (ls, rest)"
  using assms
proof (induction ls arbitrary: os ns)
  case Nil
  then show ?case by (cases rest) simp_all
next
  case (Cons l ls)
  then obtain c r where l: "l = c # r" "c \<in> set '' +-''" by (cases l) auto
  then have "l \<noteq> no_newline_marker" by (auto simp: no_newline_marker_def)
  with Cons.prems l show ?case
    using Cons.IH [of "if c \<in> set '' -'' then os + 1 else os" "if c \<in> set '' +'' then ns + 1 else ns"]
    by (auto simp: Let_def algebra_simps)
qed

lemma parse_hunks_show:
  assumes "list_all hunk_valid hs" and "rest = [] \<or> starts_with ''--- '' (hd rest)"
  shows "parse_hunks (concat (map show_hunk hs) @ rest) = Inr (hs, rest)"
  using assms(1)
proof (induction hs)
  case Nil
  with assms(2) show ?case by (cases rest) simp_all
next
  case (Cons h hs)
  then have h: "hunk_valid h" by simp
  have counts: "hk_old_count h = 0 + int (length (filter (\<lambda>l. hd l \<in> set '' -'') (hk_lines h)))"
    "hk_new_count h = 0 + int (length (filter (\<lambda>l. hd l \<in> set '' +'') (hk_lines h)))"
    using h by (auto simp: hunk_valid_def removed_lines_def added_lines_def)
  have body: "parse_body (hk_old_count h) (hk_new_count h) 0 0 (hk_lines h @ r) = Inr (hk_lines h, r)" for r
    unfolding counts by (rule parse_body_lines) (use h in \<open>auto simp: hunk_valid_def\<close>)
  define top where "top = hd (show_hunk h)"
  have line: "show_hunk h = top # hk_lines h" by (simp add: show_hunk_def top_def)
  have kind: "starts_with ''@@ '' top" "\<not> starts_with ''--- '' top" "\<not> starts_with ''diff --git '' top"
    by (simp_all add: show_hunk_def top_def)
  have head: "hunk_header top = Some ((hk_old_start h, hk_old_count h), (hk_new_start h, hk_new_count h))"
    unfolding top_def by (rule hunk_header_show [OF h])
  define more where "more = concat (map show_hunk hs) @ rest"
  have "parse_hunks more = Inr (hs, rest)" using Cons by (simp add: more_def)
  with body [of more] have "parse_hunks (top # hk_lines h @ more) = Inr (h # hs, rest)"
    by (simp only: parse_hunks.simps kind head if_True if_False not_True_eq_False not_False_eq_True
        option.case prod.case sum.case) simp
  then show ?case by (simp add: line more_def)
qed

lemma header_path_show:
  assumes "path_valid p" and "ab = ''a/'' \<or> ab = ''b/''"
  shows "header_path (ab @ p) = Inr (Some p)"
proof -
  have "list_all (\<lambda>c. \<not> is_space c) p" using assms(1) unfolding path_valid_def list_all_iff by blast
  moreover have "list_all (\<lambda>c. \<not> is_space c) ab" using assms(2) by auto
  ultimately have clear: "list_all (\<lambda>c. \<not> is_space c) (ab @ p)" by simp
  then have "strip (ab @ p) = ab @ p"
  proof -
    have "dropWhile is_space xs = xs" if "list_all (\<lambda>c. \<not> is_space c) xs" for xs
      using that by (cases xs) auto
    with clear show ?thesis by (simp add: strip_def)
  qed
  moreover have "TAB \<notin> set (ab @ p)" using clear not_space(4) unfolding list_all_iff by metis
  ultimately have same: "strip (hd (split_on TAB (ab @ p))) = ab @ p"
    by (simp add: split_on_no_sep)
  have "p \<noteq> []" "\<not> starts_with ''/'' p" "''..'' \<notin> set (split_on (CHR ''/'') p)"
    using assms(1) by (simp_all add: path_valid_def)
  moreover have "NUL \<notin> set p" using assms(1) unfolding path_valid_def list_all_iff by blast
  moreover have "ab @ p \<noteq> ''/dev/null''" "starts_with ''a/'' (ab @ p) \<or> starts_with ''b/'' (ab @ p)"
    "drop 2 (ab @ p) = p"
    using assms(2) by auto
  ultimately show ?thesis
    by (simp only: header_path_def same Let_def if_True if_False simp_thms)
qed

lemma header_path_null: "header_path ''/dev/null'' = Inr None"
  by code_simp

lemma parse_files_show:
  "list_all file_valid fps \<Longrightarrow> parse_files (concat (map show_file fps)) = Inr fps"
proof (induction fps)
  case (Cons fp fps)
  then have fp: "file_valid fp" and rest: "parse_files (concat (map show_file fps)) = Inr fps" by auto
  have old: "header_path (show_path ''a/'' (fp_old_path fp)) = Inr (fp_old_path fp)"
    using fp header_path_show [of _ "''a/''"] header_path_null
    by (cases "fp_old_path fp") (simp_all add: show_path_def file_valid_def header_valid_def)
  have new: "header_path (show_path ''b/'' (fp_new_path fp)) = Inr (fp_new_path fp)"
    using fp header_path_show [of _ "''b/''"] header_path_null
    by (cases "fp_new_path fp") (simp_all add: show_path_def file_valid_def header_valid_def)
  define more where "more = concat (map show_file fps)"
  have "parse_hunks (concat (map show_hunk (fp_hunks fp)) @ more) = Inr (fp_hunks fp, more)"
    unfolding more_def
    by (rule parse_hunks_show) (use fp in \<open>cases fps; simp add: file_valid_def show_file_def\<close>)+
  with old new fp rest [folded more_def]
  have "parse_files (show_file fp @ more) = Inr (fp # fps)"
    by (auto simp: show_file_def file_valid_def)
  then show ?case by (simp add: more_def)
qed simp

lemma splitlines_unlines:
  "list_all (list_all (\<lambda>c. \<not> is_line_break c)) ls \<Longrightarrow> splitlines (concat (map (\<lambda>l. l @ [LF]) ls)) = ls"
proof (induction ls)
  case (Cons l ls)
  then have rest: "splitlines (concat (map (\<lambda>l. l @ [LF]) ls)) = ls"
    and l: "list_all (\<lambda>c. \<not> is_line_break c) l" by auto
  have first: "splitlines (LF # s) = [] # splitlines s" for s
    by (cases s) simp_all
  have "splitlines (l @ LF # s) = l # splitlines s" if "list_all (\<lambda>c. \<not> is_line_break c) l" for l s
    using that
  proof (induction l)
    case Nil
    then show ?case by (simp add: first)
  next
    case (Cons c l)
    then have "\<not> is_line_break c" "c \<noteq> CR" "splitlines (l @ LF # s) = l # splitlines s" by auto
    then show ?case by (cases "l @ LF # s") simp_all
  qed
  with l rest show ?case by simp
qed simp

lemma digit_no_break: "is_digit c \<Longrightarrow> \<not> is_line_break c"
  by (simp add: is_digit_def is_line_break_def Let_def)

lemma line_break_space: "is_line_break c \<Longrightarrow> is_space c"
  by (auto simp: is_space_def is_line_break_def Let_def)

lemma digits_no_break: "list_all (\<lambda>c. \<not> is_line_break c) (show_nat n)"
  using show_nat_digits [of n] digit_no_break unfolding list_all_iff by blast

lemma path_no_break: "path_valid p \<Longrightarrow> list_all (\<lambda>c. \<not> is_line_break c) p"
  using line_break_space unfolding path_valid_def list_all_iff by blast

lemma show_file_no_break:
  assumes "file_valid fp"
  shows "list_all (list_all (\<lambda>c. \<not> is_line_break c)) (show_file fp)"
proof -
  have lits: "list_all (\<lambda>c. \<not> is_line_break c) ''--- ''" "list_all (\<lambda>c. \<not> is_line_break c) ''+++ ''"
    "list_all (\<lambda>c. \<not> is_line_break c) ''a/''" "list_all (\<lambda>c. \<not> is_line_break c) ''b/''"
    "list_all (\<lambda>c. \<not> is_line_break c) ''/dev/null''" "list_all (\<lambda>c. \<not> is_line_break c) ''@@ -''"
    "list_all (\<lambda>c. \<not> is_line_break c) '' +''" "list_all (\<lambda>c. \<not> is_line_break c) '' @@''"
    "list_all (\<lambda>c. \<not> is_line_break c) '',''"
    by code_simp+
  have "list_all (\<lambda>c. \<not> is_line_break c) (hd (show_hunk h))" for h
    unfolding show_hunk_def show_range_def list.sel list_all_append
    by (intro conjI lits digits_no_break)
  moreover have "show_hunk h = hd (show_hunk h) # hk_lines h" for h by (simp add: show_hunk_def)
  ultimately have hunk: "list_all (list_all (\<lambda>c. \<not> is_line_break c)) (show_hunk h)" if "hunk_valid h" for h
    using that by (metis (no_types, lifting) hunk_valid_def list.pred_inject(2) list_all_iff)
  have path: "list_all (\<lambda>c. \<not> is_line_break c) (show_path ab p)"
    if "list_all (\<lambda>c. \<not> is_line_break c) ab" "header_valid p" for ab p
    using that lits(5) path_no_break by (cases p) (auto simp only: show_path_def option.case list_all_append
        header_valid_def)
  from assms have paths: "header_valid (fp_old_path fp)" "header_valid (fp_new_path fp)"
    and hunks: "\<forall>h \<in> set (fp_hunks fp). hunk_valid h"
    by (simp_all add: file_valid_def list_all_iff)
  from hunk hunks have "list_all (list_all (\<lambda>c. \<not> is_line_break c)) (concat (map show_hunk (fp_hunks fp)))"
    by (auto simp: list_all_iff)
  moreover have "list_all (\<lambda>c. \<not> is_line_break c) (''--- '' @ show_path ''a/'' (fp_old_path fp))"
    "list_all (\<lambda>c. \<not> is_line_break c) (''+++ '' @ show_path ''b/'' (fp_new_path fp))"
    unfolding list_all_append by (intro conjI lits path paths)+
  moreover have "show_file fp = (''--- '' @ show_path ''a/'' (fp_old_path fp)) #
      (''+++ '' @ show_path ''b/'' (fp_new_path fp)) # concat (map show_hunk (fp_hunks fp))"
    by (simp add: show_file_def)
  ultimately show ?thesis
    by (simp only:) (intro list.pred_inject(2) [THEN iffD2] conjI)
qed

text \<open>
  C27: Parsing inverts printing: every non-empty list of file patches whose hunks have matching
  counts and valid lines, and whose paths are safe and free of white space, is read back unchanged
  from its unified diff.
\<close>

theorem parse_show_diff:
  assumes "fps \<noteq> []" and "list_all file_valid fps"
  shows "parse_text_diff (show_diff fps) = Inr fps"
proof -
  have "list_all (list_all (\<lambda>c. \<not> is_line_break c)) (concat (map show_file fps))"
    using assms(2) show_file_no_break by (fastforce simp: list_all_iff)
  then have "splitlines (show_diff fps) = concat (map show_file fps)"
    unfolding show_diff_def by (rule splitlines_unlines)
  with parse_files_show [OF assms(2)] assms(1) show ?thesis
    by (auto simp: parse_text_diff_def split: list.splits)
qed

definition example_files :: "text_file_patch list" where
  "example_files = [\<lparr>fp_old_path = Some ''src/x.py'', fp_new_path = Some ''src/x.py'',
     fp_hunks = [\<lparr>hk_old_start = 1, hk_old_count = 2, hk_new_start = 1, hk_new_count = 2,
       hk_lines = [''-a'', ''+b'', '' c'']\<rparr>]\<rparr>]"

theorem parse_show_diff_witness:
  "parse_text_diff (show_diff example_files) = Inr example_files \<and> show_diff example_files = example_diff"
proof
  show "show_diff example_files = example_diff" by code_simp
  have "list_all file_valid example_files" by code_simp
  then show "parse_text_diff (show_diff example_files) = Inr example_files"
    by (intro parse_show_diff) (simp_all add: example_files_def)
qed

end
