(* ===== verification/Regex.thy ===== *)
theory Regex
  imports Prelude
begin

text \<open>
  The regular expressions of Python's \<open>re\<close> the sources use, as a backtracking matcher: the
  matches of an expression at a position are listed in the order the engine would find them (left
  alternative first, greedy repetition first), so the head of the list is the engine's match.
  \<open>mrel\<close> is the declarative reading of the same expressions, and \<open>matches_iff_mrel\<close> says the two
  agree. Capturing groups are kept; the last one entered under a number counts.
\<close>

datatype rx =
    Eps
  | Cls "char \<Rightarrow> bool"
  | Seq rx rx
  | Alt rx rx
  | Star rx
  | Grp nat rx
  | Wb          \<comment> \<open>a word boundary\<close>
  | Bol         \<comment> \<open>\<open>^\<close> with \<open>re.MULTILINE\<close>\<close>
  | Eol         \<comment> \<open>\<open>$\<close> with \<open>re.MULTILINE\<close>\<close>
  | Dollar      \<comment> \<open>\<open>$\<close> without it\<close>

text \<open>A position: the characters before it (last first), those after it, the groups so far.\<close>

record mpos =
  pre :: string
  rest :: string
  caps :: "(nat \<times> string) list"

definition is_word_char :: "char \<Rightarrow> bool" where
  "is_word_char c = (let n = (of_char c :: nat) in
     is_ascii_alnum c \<or> c = CHR ''_'' \<or> n \<in> {170, 178, 179, 181, 185, 186, 188, 189, 190} \<or>
     (192 \<le> n \<and> n \<noteq> 215 \<and> n \<noteq> 247))"

definition at_boundary :: "mpos \<Rightarrow> bool" where
  "at_boundary p =
     ((case pre p of [] \<Rightarrow> False | c # _ \<Rightarrow> is_word_char c) \<noteq>
      (case rest p of [] \<Rightarrow> False | c # _ \<Rightarrow> is_word_char c))"

definition consumed :: "mpos \<Rightarrow> mpos \<Rightarrow> string" where
  "consumed p q = take (length (rest p) - length (rest q)) (rest p)"

primrec star_iter :: "nat \<Rightarrow> (mpos \<Rightarrow> mpos list) \<Rightarrow> mpos \<Rightarrow> mpos list" where
  "star_iter 0 f p = [p]"
| "star_iter (Suc n) f p =
     concat (map (star_iter n f) (filter (\<lambda>q. length (rest q) < length (rest p)) (f p))) @ [p]"

primrec matches :: "rx \<Rightarrow> mpos \<Rightarrow> mpos list" where
  "matches Eps p = [p]"
| "matches (Cls f) p =
     (case rest p of [] \<Rightarrow> []
      | c # t \<Rightarrow> if f c then [p\<lparr>pre := c # pre p, rest := t\<rparr>] else [])"
| "matches (Seq r s) p = concat (map (matches s) (matches r p))"
| "matches (Alt r s) p = matches r p @ matches s p"
| "matches (Star r) p = star_iter (length (rest p)) (matches r) p"
| "matches (Grp n r) p = map (\<lambda>q. q\<lparr>caps := (n, consumed p q) # caps q\<rparr>) (matches r p)"
| "matches Wb p = (if at_boundary p then [p] else [])"
| "matches Bol p = (if pre p = [] \<or> hd (pre p) = LF then [p] else [])"
| "matches Eol p = (if rest p = [] \<or> hd (rest p) = LF then [p] else [])"
| "matches Dollar p = (if rest p = [] \<or> rest p = [LF] then [p] else [])"

section \<open>Building expressions\<close>

fun lit :: "string \<Rightarrow> rx" where
  "lit [] = Eps"
| "lit (c # s) = Seq (Cls ((=) c)) (lit s)"

text \<open>A literal under \<open>re.IGNORECASE\<close>.\<close>

fun lit_ci :: "string \<Rightarrow> rx" where
  "lit_ci [] = Eps"
| "lit_ci (c # s) = Seq (Cls (\<lambda>x. lower_char x = lower_char c)) (lit_ci s)"

definition opt :: "rx \<Rightarrow> rx" where
  "opt r = Alt r Eps"

definition plus :: "rx \<Rightarrow> rx" where
  "plus r = Seq r (Star r)"

primrec rep :: "nat \<Rightarrow> rx \<Rightarrow> rx" where
  "rep 0 r = Eps"
| "rep (Suc n) r = Seq r (rep n r)"

definition rep_min :: "nat \<Rightarrow> rx \<Rightarrow> rx" where
  "rep_min n r = Seq (rep n r) (Star r)"

definition seqs :: "rx list \<Rightarrow> rx" where
  "seqs rs = foldr Seq rs Eps"

definition alts :: "rx list \<Rightarrow> rx" where
  "alts rs = foldr Alt (butlast rs) (last rs)"

abbreviation any_char :: rx where
  "any_char \<equiv> Cls (\<lambda>c. c \<noteq> LF)"

abbreviation digits :: rx where
  "digits \<equiv> Seq (Cls is_digit) (Star (Cls is_digit))"

section \<open>The operations of \<open>re\<close>\<close>

definition start_of :: "string \<Rightarrow> mpos" where
  "start_of s = \<lparr>pre = [], rest = s, caps = []\<rparr>"

definition advance :: "mpos \<Rightarrow> mpos" where
  "advance p = (case rest p of [] \<Rightarrow> p | c # t \<Rightarrow> p\<lparr>pre := c # pre p, rest := t\<rparr>)"

definition re_match :: "rx \<Rightarrow> string \<Rightarrow> mpos option" where
  "re_match r s = (case matches r (start_of s) of [] \<Rightarrow> None | q # _ \<Rightarrow> Some q)"

definition re_fullmatch :: "rx \<Rightarrow> string \<Rightarrow> mpos option" where
  "re_fullmatch r s = find (\<lambda>q. rest q = []) (matches r (start_of s))"

definition group :: "nat \<Rightarrow> mpos \<Rightarrow> string option" where
  "group n q = map_of (caps q) n"

function search_at :: "rx \<Rightarrow> mpos \<Rightarrow> (mpos \<times> mpos) option" where
  "search_at r p =
     (case matches r p of q # _ \<Rightarrow> Some (p, q)
      | [] \<Rightarrow> if rest p = [] then None else search_at r (advance p))"
  by pat_completeness auto
termination
  by (relation "measure (\<lambda>(r, p). length (rest p))") (auto simp: advance_def split: list.splits)

declare search_at.simps [simp del]

definition re_search :: "rx \<Rightarrow> string \<Rightarrow> bool" where
  "re_search r s = (search_at r (start_of s) \<noteq> None)"

text \<open>
  \<open>pattern.sub(new, text)\<close>. After an empty match the engine must advance: at the same place only
  a match that consumes something counts.
\<close>

function sub_at :: "rx \<Rightarrow> string \<Rightarrow> bool \<Rightarrow> mpos \<Rightarrow> string" where
  "sub_at r new adv p =
     (case filter (\<lambda>q. adv \<longrightarrow> length (rest q) < length (rest p)) (matches r p) of
        q # _ \<Rightarrow>
          if length (rest q) < length (rest p) then new @ sub_at r new False (q\<lparr>caps := []\<rparr>)
          else if adv then [] else new @ sub_at r new True p
      | [] \<Rightarrow> (case rest p of [] \<Rightarrow> [] | c # _ \<Rightarrow> c # sub_at r new False (advance p)))"
  by pat_completeness auto
termination
  by (relation "measure (\<lambda>(r, new, adv, p). 2 * length (rest p) + (if adv then 0 else 1))")
    (auto simp: advance_def split: list.splits if_splits)

declare sub_at.simps [simp del]

definition re_sub :: "rx \<Rightarrow> string \<Rightarrow> string \<Rightarrow> string" where
  "re_sub r new s = sub_at r new False (start_of s)"

section \<open>The declarative reading\<close>

inductive mrel :: "rx \<Rightarrow> mpos \<Rightarrow> mpos \<Rightarrow> bool" where
  eps: "mrel Eps p p"
| cls: "rest p = c # t \<Longrightarrow> f c \<Longrightarrow> mrel (Cls f) p (p\<lparr>pre := c # pre p, rest := t\<rparr>)"
| seq: "mrel r p q \<Longrightarrow> mrel s q u \<Longrightarrow> mrel (Seq r s) p u"
| alt_left: "mrel r p q \<Longrightarrow> mrel (Alt r s) p q"
| alt_right: "mrel s p q \<Longrightarrow> mrel (Alt r s) p q"
| star_stop: "mrel (Star r) p p"
| star_more: "mrel r p q \<Longrightarrow> length (rest q) < length (rest p) \<Longrightarrow> mrel (Star r) q u \<Longrightarrow>
    mrel (Star r) p u"
| grp: "mrel r p q \<Longrightarrow> mrel (Grp n r) p (q\<lparr>caps := (n, consumed p q) # caps q\<rparr>)"
| wb: "at_boundary p \<Longrightarrow> mrel Wb p p"
| bol: "pre p = [] \<or> hd (pre p) = LF \<Longrightarrow> mrel Bol p p"
| eol: "rest p = [] \<or> hd (rest p) = LF \<Longrightarrow> mrel Eol p p"
| dollar: "rest p = [] \<or> rest p = [LF] \<Longrightarrow> mrel Dollar p p"

inductive_simps mrel_simps:
  "mrel Eps p q"
  "mrel (Cls f) p q"
  "mrel (Seq r s) p q"
  "mrel (Alt r s) p q"
  "mrel (Grp n r) p q"
  "mrel Wb p q"
  "mrel Bol p q"
  "mrel Eol p q"
  "mrel Dollar p q"

inductive_cases mrel_StarE: "mrel (Star r) p q"

lemma star_iter_sound:
  assumes "\<And>p q. q \<in> set (f p) \<Longrightarrow> mrel r p q"
  shows "q \<in> set (star_iter n f p) \<Longrightarrow> mrel (Star r) p q"
proof (induction n arbitrary: p)
  case (Suc n)
  from Suc.prems consider "q = p"
    | u where "u \<in> set (f p)" "length (rest u) < length (rest p)" "q \<in> set (star_iter n f u)"
    by auto
  then show ?case
    by cases (use assms Suc.IH in \<open>auto intro: mrel.star_stop mrel.star_more\<close>)
qed (auto intro: mrel.star_stop)

lemma star_iter_complete:
  assumes "\<And>p q. mrel r p q \<Longrightarrow> q \<in> set (f p)"
  shows "mrel (Star r) p q \<Longrightarrow> length (rest p) \<le> n \<Longrightarrow> q \<in> set (star_iter n f p)"
proof (induction n arbitrary: p)
  case 0
  then show ?case by (auto elim: mrel_StarE)
next
  case (Suc n)
  from Suc.prems(1) consider "q = p"
    | u where "mrel r p u" "length (rest u) < length (rest p)" "mrel (Star r) u q"
    by (auto elim: mrel_StarE)
  then show ?case
  proof cases
    case (2 u)
    with Suc.prems(2) have "q \<in> set (star_iter n f u)"
      by (intro Suc.IH) auto
    with 2 assms show ?thesis by auto
  qed auto
qed

lemma mrel_Cls_Cons: "rest p = c # t \<Longrightarrow> mrel (Cls f) p q \<longleftrightarrow> f c \<and> q = p\<lparr>pre := c # pre p, rest := t\<rparr>"
  by (auto simp: mrel_simps)

lemma mrel_Cls_Nil: "rest p = [] \<Longrightarrow> \<not> mrel (Cls f) p q"
  by (simp add: mrel_simps)

lemma matches_iff_mrel: "q \<in> set (matches r p) \<longleftrightarrow> mrel r p q"
proof (induction r arbitrary: p q)
  case (Star r)
  show ?case
  proof
    assume "q \<in> set (matches (Star r) p)"
    with Star.IH show "mrel (Star r) p q"
      using star_iter_sound [of "matches r" r] by simp
  next
    assume "mrel (Star r) p q"
    with Star.IH show "q \<in> set (matches (Star r) p)"
      using star_iter_complete [of r "matches r" p q "length (rest p)"] by simp
  qed
next
  case (Cls f)
  show ?case by (cases "rest p") (auto simp: mrel_Cls_Cons mrel_Cls_Nil)
qed (auto simp: mrel_simps split: list.splits)

text \<open>A match only moves forward: it consumes a prefix of what follows, and nothing is lost.\<close>

lemma mrel_consumes: "mrel r p q \<Longrightarrow> \<exists>w. rest p = w @ rest q \<and> pre q = rev w @ pre p"
  by (induction rule: mrel.induct) fastforce+

lemma matches_consumes: "q \<in> set (matches r p) \<Longrightarrow> \<exists>w. rest p = w @ rest q \<and> pre q = rev w @ pre p"
  by (simp add: matches_iff_mrel mrel_consumes)

lemma matches_length: "q \<in> set (matches r p) \<Longrightarrow> length (rest q) \<le> length (rest p)"
  using matches_consumes by fastforce

lemma search_at_iff:
  "search_at r p \<noteq> None \<longleftrightarrow>
     (\<exists>u v. rest p = u @ v \<and> matches r (p\<lparr>pre := rev u @ pre p, rest := v\<rparr>) \<noteq> [])"
proof (induction r p rule: search_at.induct)
  case (1 r p)
  show ?case
  proof (cases "matches r p")
    case (Cons q qs)
    then have "rest p = [] @ rest p" "matches r (p\<lparr>pre := rev [] @ pre p, rest := rest p\<rparr>) \<noteq> []"
      by simp_all
    with Cons show ?thesis
      unfolding search_at.simps [of r p] by (metis list.simps(5) option.distinct(1))
  next
    case Nil
    show ?thesis
    proof (cases "rest p")
      case empty: Nil
      then have same: "p\<lparr>rest := []\<rparr> = p" by (cases p) simp
      have "matches r (p\<lparr>rest := []\<rparr>) = []"
        unfolding same by (rule Nil)
      with Nil empty show ?thesis by (simp add: search_at.simps [of r p])
    next
      case (Cons c t)
      have split: "(\<exists>u v. rest p = u @ v \<and> matches r (p\<lparr>pre := rev u @ pre p, rest := v\<rparr>) \<noteq> []) =
          (\<exists>u v. t = u @ v \<and> matches r (p\<lparr>pre := rev u @ c # pre p, rest := v\<rparr>) \<noteq> [])"
        (is "?L = ?R")
      proof
        assume ?L
        then obtain u v where uv: "rest p = u @ v" "matches r (p\<lparr>pre := rev u @ pre p, rest := v\<rparr>) \<noteq> []"
          by blast
        with Nil have "u \<noteq> []" by auto
        with uv Cons obtain u' where "u = c # u'" "t = u' @ v" by (cases u) auto
        with uv(2) show ?R by auto
      next
        assume ?R
        then obtain u v where "t = u @ v" "matches r (p\<lparr>pre := rev u @ c # pre p, rest := v\<rparr>) \<noteq> []"
          by blast
        with Cons show ?L by (intro exI [of _ "c # u"] exI [of _ v]) simp
      qed
      with 1 Nil Cons show ?thesis
        by (simp add: search_at.simps [of r p] advance_def)
    qed
  qed
qed

lemma re_search_iff:
  "re_search r s \<longleftrightarrow> (\<exists>u v q. s = u @ v \<and> mrel r \<lparr>pre = rev u, rest = v, caps = []\<rparr> q)"
proof -
  have "re_search r s \<longleftrightarrow>
      (\<exists>u v. s = u @ v \<and> matches r \<lparr>pre = rev u, rest = v, caps = []\<rparr> \<noteq> [])"
    by (simp add: re_search_def search_at_iff start_of_def del: not_None_eq)
  also have "\<dots> \<longleftrightarrow> (\<exists>u v q. s = u @ v \<and> mrel r \<lparr>pre = rev u, rest = v, caps = []\<rparr> q)"
    unfolding matches_iff_mrel [symmetric] by (metis list.set_intros(1) neq_Nil_conv empty_iff empty_set)
  finally show ?thesis .
qed

lemma re_sub_no_match:
  assumes "\<not> re_search r s"
  shows "re_sub r new s = s"
proof -
  have "sub_at r new False p = rest p" if "search_at r p = None" for p
    using that
  proof (induction "length (rest p)" arbitrary: p)
    case 0
    then show ?case by (simp add: sub_at.simps search_at.simps [of r p] split: list.splits)
  next
    case (Suc n)
    then obtain c t where ct: "rest p = c # t" by (cases "rest p") auto
    from Suc.prems have no: "matches r p = []" and after: "search_at r (advance p) = None"
      using ct by (simp_all add: search_at.simps [of r p] split: list.splits)
    from Suc.hyps ct have "sub_at r new False (advance p) = t"
      using after by (auto simp: advance_def)
    with no ct show ?case by (simp add: sub_at.simps [of r new False p])
  qed
  from this [of "start_of s"] assms show ?thesis
    by (simp add: re_sub_def re_search_def start_of_def del: not_None_eq)
qed

end
