(* ===== verification/Redaction.thy ===== *)
theory Redaction
  imports Sha256 Regex
begin

text \<open>
  \<open>gateway/redaction.py\<close> and \<open>gateway/tracing.py\<close>: the secret detectors, \<open>redact\<close> and the
  trace exporter. The locale \<open>redactor\<close> states what the rest of the system relies on; it is
  interpreted on \<open>redact\<close>.
\<close>

section \<open>The detectors\<close>

definition token_char :: "char \<Rightarrow> bool" where
  "token_char c = (is_ascii_alnum c \<or> c = CHR ''_'')"

definition jwt_char :: "char \<Rightarrow> bool" where
  "jwt_char c = (is_ascii_alnum c \<or> c \<in> set ''_-'')"

definition pat_private_key :: rx where
  "pat_private_key = seqs [lit ''-----BEGIN '', Star (Cls (\<lambda>c. is_upper c \<or> c = CHR '' '')),
     lit ''PRIVATE KEY-----'']"

definition pat_github_token :: rx where
  "pat_github_token = seqs [Wb, lit ''gh'', Cls (\<lambda>c. c \<in> set ''pousr''), lit ''_'',
     rep_min 20 (Cls token_char), Wb]"

definition pat_jwt :: rx where
  "pat_jwt = seqs [Wb, lit ''eyJ'', rep_min 8 (Cls jwt_char), lit ''.'', rep_min 8 (Cls jwt_char),
     lit ''.'', rep_min 8 (Cls jwt_char), Wb]"

definition pat_connection_string :: rx where
  "pat_connection_string = seqs [Wb, alts [lit_ci ''postgres'', lit_ci ''mysql'', lit_ci ''mongodb''],
     lit ''://'', plus (Cls (\<lambda>c. \<not> is_space c))]"

definition pat_bearer_token :: rx where
  "pat_bearer_token = seqs [Wb, lit_ci ''bearer'', plus (Cls is_space),
     rep_min 16 (Cls (\<lambda>c. is_ascii_alnum c \<or> c \<in> set ''._~+/=-''))]"

definition pat_secret_assignment :: rx where
  "pat_secret_assignment = seqs [Wb,
     alts [seqs [lit_ci ''api'', opt (Cls (\<lambda>c. c \<in> set ''_-'')), lit_ci ''key''],
           lit_ci ''secret'', lit_ci ''password'', lit_ci ''token''],
     Wb, Star (Cls is_space), Cls (\<lambda>c. c \<in> set '':=''), Star (Cls is_space),
     opt (Cls (\<lambda>c. c = CHR 0x27 \<or> c = CHR 0x22)),
     rep_min 16 (Cls (\<lambda>c. is_ascii_alnum c \<or> c \<in> set ''_./+=-''))]"

definition redaction_patterns :: "(string \<times> rx) list" where
  "redaction_patterns =
    [(''private_key'', pat_private_key), (''github_token'', pat_github_token), (''jwt'', pat_jwt),
     (''connection_string'', pat_connection_string), (''bearer_token'', pat_bearer_token),
     (''secret_assignment'', pat_secret_assignment)]"

section \<open>\<open>redact\<close>\<close>

record redaction_result =
  red_text :: string
  red_detected :: bool
  detector_names :: "string list"
  red_content_hash :: string

fun redact_loop :: "(string \<times> rx) list \<Rightarrow> string \<Rightarrow> string \<times> string list" where
  "redact_loop [] t = (t, [])"
| "redact_loop ((name, r) # ps) t =
     (if re_search r t
      then (let (t', names) = redact_loop ps (re_sub r ''[REDACTED]'' t) in (t', name # names))
      else redact_loop ps t)"

definition redact :: "string \<Rightarrow> rx list \<Rightarrow> redaction_result" where
  "redact text extra_patterns =
    (let (redacted, detected) =
           redact_loop (redaction_patterns @ map (Pair ''manifest'') extra_patterns) text
     in \<lparr>red_text = redacted, red_detected = (detected \<noteq> []), detector_names = detected,
         red_content_hash = sha256_hex (utf8 text)\<rparr>)"

lemma redact_loop_quiet:
  "snd (redact_loop ps t) = [] \<longleftrightarrow> (\<forall>(n, r) \<in> set ps. \<not> re_search r t)"
  by (induction ps t rule: redact_loop.induct) (auto simp: split_def Let_def)

lemma redact_loop_unchanged: "snd (redact_loop ps t) = [] \<Longrightarrow> fst (redact_loop ps t) = t"
  by (induction ps t rule: redact_loop.induct) (auto simp: split_def Let_def split: if_splits)

lemma redact_loop_names: "set (snd (redact_loop ps t)) \<subseteq> fst ` set ps"
  by (induction ps t rule: redact_loop.induct) (auto simp: split_def Let_def)

lemma redact_detected: "red_detected (redact t extra) \<longleftrightarrow> detector_names (redact t extra) \<noteq> []"
  by (simp add: redact_def split_def Let_def)

lemma redact_clean: "\<not> red_detected (redact t extra) \<Longrightarrow> red_text (redact t extra) = t"
  by (simp add: redact_def split_def Let_def redact_loop_unchanged)

lemma redact_hash: "red_content_hash (redact t extra) = sha256_hex (utf8 t)"
  by (simp add: redact_def split_def Let_def)

lemma redact_detected_iff:
  "red_detected (redact t extra) \<longleftrightarrow>
     (\<exists>r \<in> set (map snd redaction_patterns @ extra). re_search r t)"
proof -
  have "red_detected (redact t extra) \<longleftrightarrow>
      \<not> (\<forall>(n, r) \<in> set (redaction_patterns @ map (Pair ''manifest'') extra). \<not> re_search r t)"
    unfolding redact_loop_quiet [symmetric] by (simp add: redact_def split_def Let_def)
  also have "\<dots> \<longleftrightarrow> (\<exists>p \<in> set (redaction_patterns @ map (Pair ''manifest'') extra). re_search (snd p) t)"
    by (auto simp: split_def)
  also have "\<dots> \<longleftrightarrow> (\<exists>r \<in> set (map snd redaction_patterns @ extra). re_search r t)"
    by (simp add: bex_Un)
  finally show ?thesis .
qed

text \<open>
  \<open>redact\<close> reports a detection exactly when one of its patterns (the built-in six or the
  manifest's) matches somewhere in the text it was given, although it rewrites the text between
  one pattern and the next. A match is read declaratively: a place in the text from which the
  expression can be matched.
\<close>

theorem redact_detects_iff_some_pattern_matches:
  "red_detected (redact t extra) \<longleftrightarrow>
     (\<exists>r \<in> set (map snd redaction_patterns @ extra).
        \<exists>u v q. t = u @ v \<and> mrel r \<lparr>pre = rev u, rest = v, caps = []\<rparr> q)"
  by (simp only: redact_detected_iff re_search_iff)

section \<open>What a client may rely on\<close>

locale redactor =
  fixes red :: "string \<Rightarrow> redaction_result"
  assumes detected_names: "red_detected (red t) \<longleftrightarrow> detector_names (red t) \<noteq> []"
    and clean_text: "\<not> red_detected (red t) \<Longrightarrow> red_text (red t) = t"
    and hash_of_input: "red_content_hash (red t) = sha256_hex (utf8 t)"
begin

lemma guarded_text:
  "(if red_detected (red t) then notice else red_text (red t)) =
   (if red_detected (red t) then notice else t)"
  by (simp add: clean_text)

lemma clean_names: "\<not> red_detected (red t) \<Longrightarrow> detector_names (red t) = []"
  by (simp add: detected_names)

lemma hash_length: "length (red_content_hash (red t)) = 64"
  by (simp add: hash_of_input)

end

interpretation red0: redactor "\<lambda>t. redact t extra" for extra
  by unfold_locales (auto simp: redact_detected redact_clean redact_hash)

section \<open>Trace export\<close>

text \<open>
  The trace sink is Langfuse's client, which is not under \<open>src/\<close>: \<open>emit\<close> is a parameter that may
  change its own state and may raise.
\<close>

record trace_payload =
  tp_text :: string
  tp_content_hash :: string
  tp_redacted :: bool
  tp_run_id :: string

record trace_export_result =
  te_trace_id :: "string option"
  te_content_hash :: string
  te_detector_names :: "string list"

text \<open>The sink of Langfuse: an observation of no extent, then a flush of its client, which is a parameter.\<close>

record 's langfuse_client =
  lf_observe :: "string \<Rightarrow> string \<Rightarrow> string \<Rightarrow> trace_payload \<Rightarrow> ('s, unit) act"
  lf_flush :: "('s, unit) act"

definition langfuse_emit :: "'s langfuse_client \<Rightarrow> string \<Rightarrow> string \<Rightarrow> trace_payload \<Rightarrow> ('s, unit) act" where
  "langfuse_emit client trace_id name payload =
     then_act (lf_observe client name ''generation'' trace_id payload) (lf_flush client)"

definition trace_id_for_run :: "string \<Rightarrow> string" where
  "trace_id_for_run run_id = hex_of (take 16 (sha256_digest (utf8 run_id)))"

definition export ::
    "(string \<Rightarrow> string \<Rightarrow> trace_payload \<Rightarrow> ('s, unit) act) \<Rightarrow>
     string \<Rightarrow> string \<Rightarrow> string \<Rightarrow> ('s, trace_export_result) act" where
  "export emit run_id name text =
    (let result = redact text [] in
     if red_detected result
     then ret \<lparr>te_trace_id = None, te_content_hash = red_content_hash result,
               te_detector_names = detector_names result\<rparr>
     else let trace_id = trace_id_for_run run_id in
       then_act
         (emit trace_id name
            \<lparr>tp_text = red_text result, tp_content_hash = red_content_hash result,
             tp_redacted = False, tp_run_id = run_id\<rparr>)
         (ret \<lparr>te_trace_id = Some trace_id, te_content_hash = red_content_hash result,
               te_detector_names = []\<rparr>))"

lemma length_trace_id: "length (trace_id_for_run run_id) = 32"
  by (simp add: trace_id_for_run_def length_hex_of length_sha256_digest)

lemma export_detected:
  "red_detected (redact text []) \<Longrightarrow>
     export emit run_id name text s =
       (Inr \<lparr>te_trace_id = None, te_content_hash = sha256_hex (utf8 text),
             te_detector_names = detector_names (redact text [])\<rparr>, s)"
  by (simp add: export_def Let_def red0.hash_of_input)

lemma export_clean:
  "\<not> red_detected (redact text []) \<Longrightarrow>
     export emit run_id name text =
       then_act
         (emit (trace_id_for_run run_id) name
            \<lparr>tp_text = text, tp_content_hash = sha256_hex (utf8 text),
             tp_redacted = False, tp_run_id = run_id\<rparr>)
         (ret \<lparr>te_trace_id = Some (trace_id_for_run run_id),
               te_content_hash = sha256_hex (utf8 text), te_detector_names = []\<rparr>)"
  by (simp add: export_def Let_def red0.hash_of_input red0.clean_text)

text \<open>
  The trace exporter hands text to the sink only when no detector matches it, and then
  unchanged and under the trace id derived from the run id; otherwise the sink's state is not
  touched, no trace id is returned and the result carries only detector names and a hash.
\<close>

theorem trace_export_fails_closed:
  "export emit run_id name text s =
     (if \<exists>r \<in> set (map snd redaction_patterns). re_search r text
      then (Inr \<lparr>te_trace_id = None, te_content_hash = sha256_hex (utf8 text),
                 te_detector_names = detector_names (redact text [])\<rparr>, s)
      else case emit (trace_id_for_run run_id) name
                  \<lparr>tp_text = text, tp_content_hash = sha256_hex (utf8 text),
                   tp_redacted = False, tp_run_id = run_id\<rparr> s of
          (Inl e, t) \<Rightarrow> (Inl e, t)
        | (Inr u, t) \<Rightarrow>
            (Inr \<lparr>te_trace_id = Some (trace_id_for_run run_id),
                  te_content_hash = sha256_hex (utf8 text), te_detector_names = []\<rparr>, t))"
proof (cases "red_detected (redact text [])")
  case True
  then show ?thesis by (simp add: export_detected redact_detected_iff)
next
  case False
  then show ?thesis
    by (auto simp: export_clean redact_detected_iff act_defs split: prod.splits sum.splits)
qed

text \<open>With the sink of Langfuse: an observation of clean text and a flush, or neither.\<close>

lemma langfuse_export:
  "export (langfuse_emit client) run_id name text s =
     (if \<exists>r \<in> set (map snd redaction_patterns). re_search r text
      then (Inr \<lparr>te_trace_id = None, te_content_hash = sha256_hex (utf8 text),
                 te_detector_names = detector_names (redact text [])\<rparr>, s)
      else then_act (lf_observe client name ''generation'' (trace_id_for_run run_id)
             \<lparr>tp_text = text, tp_content_hash = sha256_hex (utf8 text), tp_redacted = False, tp_run_id = run_id\<rparr>)
        (then_act (lf_flush client) (ret \<lparr>te_trace_id = Some (trace_id_for_run run_id),
                  te_content_hash = sha256_hex (utf8 text), te_detector_names = []\<rparr>)) s)"
proof (cases "red_detected (redact text [])")
  case True
  then show ?thesis by (simp add: export_detected redact_detected_iff)
next
  case False
  then show ?thesis
    by (auto simp: export_clean redact_detected_iff langfuse_emit_def act_defs split: prod.splits sum.splits)
qed

end
