(* ===== verification/Json.thy ===== *)
theory Json
  imports Domain
begin

text \<open>
  The part of the standard library's \<open>json\<close> and \<open>datetime\<close> that the sources use: JSON values,
  \<open>json.dumps\<close> with its default separators and \<open>ensure_ascii\<close>, with or without \<open>sort_keys\<close>, the
  reads of a dictionary the webhook handlers make, and \<open>isoformat\<close> of a UTC time. The shortest
  representation of a float is a parameter of the dump.
\<close>

datatype json =
    JNull
  | JBool bool
  | JInt int
  | JFloat pynum
  | JStr string
  | JArr "json list"
  | JObj "(string \<times> json) list"

section \<open>Writing\<close>

definition escape_char :: "char \<Rightarrow> string" where
  "escape_char c = (let n = (of_char c :: nat) in
     if n = 34 then [CHR 0x5C, c]
     else if n = 92 then [CHR 0x5C, c]
     else if n = 8 then [CHR 0x5C, CHR ''b'']
     else if n = 9 then [CHR 0x5C, CHR ''t'']
     else if n = 10 then [CHR 0x5C, CHR ''n'']
     else if n = 12 then [CHR 0x5C, CHR ''f'']
     else if n = 13 then [CHR 0x5C, CHR ''r'']
     else if n < 32 \<or> 126 < n then CHR 0x5C # ''u00'' @ [hex_digit (n div 16), hex_digit n]
     else [c])"

definition json_string :: "string \<Rightarrow> string" where
  "json_string s = [CHR 0x22] @ concat (map escape_char s) @ [CHR 0x22]"

fun dumps :: "bool \<Rightarrow> (pynum \<Rightarrow> string) \<Rightarrow> json \<Rightarrow> string" where
  "dumps sk fr JNull = ''null''"
| "dumps sk fr (JBool b) = (if b then ''true'' else ''false'')"
| "dumps sk fr (JInt i) = show_int i"
| "dumps sk fr (JFloat q) = fr q"
| "dumps sk fr (JStr s) = json_string s"
| "dumps sk fr (JArr vs) = ''['' @ join '', '' (map (dumps sk fr) vs) @ '']''"
| "dumps sk fr (JObj kvs) =
     (let fields = map (\<lambda>(k, v). (k, dumps sk fr v)) kvs in
      ''{'' @ join '', '' (map (\<lambda>(k, v). json_string k @ '': '' @ v)
         (if sk then sort_key fst fields else fields)) @ ''}'')"

section \<open>Reading\<close>

text \<open>\<open>value.get(key)\<close> on a dictionary, \<open>JNull\<close> standing for \<open>None\<close>.\<close>

definition jget :: "(string \<times> json) list \<Rightarrow> string \<Rightarrow> json" where
  "jget d k = (case map_of d k of None \<Rightarrow> JNull | Some v \<Rightarrow> v)"

fun as_obj :: "json \<Rightarrow> (string \<times> json) list option" where
  "as_obj (JObj d) = Some d"
| "as_obj _ = None"

fun as_list :: "json \<Rightarrow> json list option" where
  "as_list (JArr vs) = Some vs"
| "as_list _ = None"

fun as_str :: "json \<Rightarrow> string option" where
  "as_str (JStr s) = Some s"
| "as_str _ = None"

text \<open>\<open>isinstance(value, int)\<close> holds of \<open>True\<close> and \<open>False\<close>, too.\<close>

fun as_int :: "json \<Rightarrow> int option" where
  "as_int (JInt i) = Some i"
| "as_int (JBool b) = Some (if b then 1 else 0)"
| "as_int _ = None"

section \<open>Times\<close>

text \<open>The civil date of a day counted from 1970-01-01.\<close>

definition civil_date :: "int \<Rightarrow> int \<times> int \<times> int" where
  "civil_date days =
    (let z = days + 719468; era = z div 146097; doe = z mod 146097;
         yoe = (doe - doe div 1460 + doe div 36524 - doe div 146096) div 365;
         doy = doe - (365 * yoe + yoe div 4 - yoe div 100);
         mp = (5 * doy + 2) div 153;
         d = doy - (153 * mp + 2) div 5 + 1;
         m = (if mp < 10 then mp + 3 else mp - 9);
         y = yoe + era * 400 + (if m \<le> 2 then 1 else 0)
     in (y, m, d))"

definition padded :: "nat \<Rightarrow> int \<Rightarrow> string" where
  "padded k i = (let s = show_nat (nat i) in replicate (k - length s) (CHR ''0'') @ s)"

definition isoformat_utc :: "int \<Rightarrow> string" where
  "isoformat_utc t =
    (let secs = t div 1000000; micros = t mod 1000000;
         day = secs div 86400; s = secs mod 86400; (y, m, d) = civil_date day
     in padded 4 y @ ''-'' @ padded 2 m @ ''-'' @ padded 2 d @ ''T'' @
        padded 2 (s div 3600) @ '':'' @ padded 2 (s div 60 mod 60) @ '':'' @ padded 2 (s mod 60) @
        (if micros = 0 then [] else ''.'' @ padded 6 micros) @ ''+00:00'')"

end
