(* ===== verification/Schemas.thy ===== *)
theory Schemas
  imports Domain
begin

text \<open>
  The Pydantic models of \<open>domain/schemas.py\<close>: the manual request, the artifact classes and the
  review. Constructing a model runs its field constraints, its field validators and its model
  validators; the model of that is a \<open>validate_\<close> function that returns the value or raises
  \<open>ValidationError\<close> with the validator's message (\<open>field\<close> for a field constraint).
\<close>

definition len_between :: "nat \<Rightarrow> nat \<Rightarrow> string \<Rightarrow> bool" where
  "len_between lo hi s = (lo \<le> length s \<and> length s \<le> hi)"

definition check :: "bool \<Rightarrow> string \<Rightarrow> unit res" where
  "check b msg = require b (ValidationError msg)"

definition also_check :: "unit res \<Rightarrow> unit res \<Rightarrow> unit res" where
  "also_check r k = bind_res r (\<lambda>_. k)"

fun checks :: "(bool \<times> string) list \<Rightarrow> unit res" where
  "checks [] = Inr ()"
| "checks ((b, msg) # cs) = (if b then checks cs else Inl (ValidationError msg))"

lemma checks_Inr: "checks cs = Inr u \<longleftrightarrow> (\<forall>(b, msg) \<in> set cs. b)"
  by (induction cs rule: checks.induct) auto

lemma checks_Inl: "checks cs = Inl e \<Longrightarrow> \<exists>m. e = ValidationError m"
  by (induction cs rule: checks.induct) (auto split: if_splits)

declare checks.simps [simp del]

lemma also_check_Inr [simp]: "also_check r k = Inr u \<longleftrightarrow> r = Inr () \<and> k = Inr ()"
  by (auto simp: also_check_def bind_res_Inr_iff)

text \<open>\<open>Field(ge=0, le=1)\<close> on a float; NaN fails both comparisons.\<close>

definition unit_interval :: "pynum \<Rightarrow> bool" where
  "unit_interval x = (\<not> num_lt x (PyInt 0) \<and> \<not> num_lt (PyInt 1) x \<and> x \<noteq> PyNaN)"

section \<open>The manual request\<close>

record run_create =
  rc_role :: agent_role
  rc_repository_id :: int
  rc_pinned_sha :: string
  rc_task_text :: string
  rc_evaluation_case_id :: "string option"
  rc_budget :: budget

definition validate_run_create :: "run_create \<Rightarrow> run_create res" where
  "validate_run_create d = bind_res
    (checks
      [(0 < rc_repository_id d, ''field''),
       (len_between 40 64 (rc_pinned_sha d), ''field''),
       (len_between 1 20000 (rc_task_text d), ''field''),
       (case rc_evaluation_case_id d of None \<Rightarrow> True | Some c \<Rightarrow> length c \<le> 255, ''field''),
       (immutable_sha (rc_pinned_sha d), ''pinned_sha must be a lowercase immutable Git SHA'')])
    (\<lambda>_. Inr d)"

lemma validate_run_create_Inr:
  "validate_run_create d = Inr d' \<longleftrightarrow>
     d' = d \<and> 0 < rc_repository_id d \<and> immutable_sha (rc_pinned_sha d) \<and>
     len_between 1 20000 (rc_task_text d) \<and>
     (\<forall>c. rc_evaluation_case_id d = Some c \<longrightarrow> length c \<le> 255)"
  by (auto simp: validate_run_create_def bind_res_Inr_iff checks_Inr immutable_sha_def
      len_between_def split: option.splits)

lemma validate_run_create_Inl: "validate_run_create d = Inl e \<Longrightarrow> \<exists>m. e = ValidationError m"
  by (auto simp: validate_run_create_def bind_res_Inl_iff dest: checks_Inl)

section \<open>Artifacts\<close>

record citation =
  cit_claim_id :: string
  cit_source_kind :: string
  cit_locator :: string
  cit_pinned_sha :: string
  cit_excerpt_hash :: string

record claim =
  claim_id :: string
  claim_statement :: string
  claim_material :: bool

record artifact_base =
  art_schema_version :: string
  art_run_id :: uuid
  art_role :: agent_role
  art_pinned_sha :: string
  art_created_at :: int
  art_claims :: "claim list"
  art_unknowns :: "string list"
  art_citations :: "citation list"

definition check_citation :: "citation \<Rightarrow> unit res" where
  "check_citation c = checks
    [(len_between 1 100 (cit_claim_id c), ''field''),
     (len_between 1 100 (cit_source_kind c), ''field''),
     (len_between 1 2000 (cit_locator c), ''field''),
     (len_between 40 64 (cit_pinned_sha c), ''field''),
     (immutable_sha (cit_pinned_sha c), ''SHA must be lowercase hexadecimal and immutable''),
     (length (cit_excerpt_hash c) = 64, ''field''),
     (list_all is_lower_hex (cit_excerpt_hash c), ''excerpt_hash must be lowercase hexadecimal'')]"

definition check_claim :: "claim \<Rightarrow> unit res" where
  "check_claim c = checks
    [(len_between 1 100 (claim_id c), ''field''),
     (len_between 1 10000 (claim_statement c), ''field'')]"

fun check_all :: "('a \<Rightarrow> unit res) \<Rightarrow> 'a list \<Rightarrow> unit res" where
  "check_all f [] = Inr ()"
| "check_all f (x # xs) = also_check (f x) (check_all f xs)"

lemma check_all_Inr: "check_all f xs = Inr u \<longleftrightarrow> (\<forall>x \<in> set xs. f x = Inr ())"
  by (induction xs) auto

text \<open>\<open>stable_claims_and_citations\<close>\<close>

definition stable_claims_and_citations :: "'a artifact_base_scheme \<Rightarrow> unit res" where
  "stable_claims_and_citations a =
    (let claim_ids = map claim_id (art_claims a) in checks
      [(distinct claim_ids, ''claim IDs must be unique''),
       (list_all (\<lambda>c. cit_claim_id c \<in> set claim_ids) (art_citations a),
          ''citations must refer to a claim in the artifact''),
       (list_all (\<lambda>c. cit_pinned_sha c = art_pinned_sha a) (art_citations a),
          ''citation SHA must match artifact SHA'')])"

definition check_artifact_base :: "'a artifact_base_scheme \<Rightarrow> unit res" where
  "check_artifact_base a =
    also_check (checks
      [(art_schema_version a = ''1'', ''field''),
       (len_between 40 64 (art_pinned_sha a), ''field''),
       (immutable_sha (art_pinned_sha a), ''SHA must be lowercase hexadecimal and immutable'')])
    (also_check (check_all check_claim (art_claims a))
    (also_check (check_all check_citation (art_citations a))
      (stable_claims_and_citations a)))"

record evidence_locator =
  el_path :: string
  el_symbol :: "string option"
  el_reason :: string

record scout_plan_step =
  ps_order :: int
  ps_summary :: string
  ps_files :: "string list"
  ps_tests :: "string list"

record scout_artifact = artifact_base +
  sa_relevant_files :: "evidence_locator list"
  sa_relevant_symbols :: "evidence_locator list"
  sa_dependency_analysis :: string
  sa_blast_radius :: string
  sa_affected_tests :: "string list"
  sa_plan :: "scout_plan_step list"
  sa_risks :: "string list"
  sa_confidence :: pynum

definition material_claims :: "'a artifact_base_scheme \<Rightarrow> string list" where
  "material_claims a = map claim_id (filter claim_material (art_claims a))"

definition cited_claims :: "'a artifact_base_scheme \<Rightarrow> string list" where
  "cited_claims a = map cit_claim_id (art_citations a)"

text \<open>\<open>material_claims_have_citations\<close>: the missing claims are named, sorted.\<close>

definition material_claims_have_citations :: "'a artifact_base_scheme \<Rightarrow> unit res" where
  "material_claims_have_citations a =
    (let missing = sorted_list_of_set (set (material_claims a) - set (cited_claims a)) in
     check (missing = []) (''material claims require citations: '' @ join '','' missing))"

definition validate_scout :: "scout_artifact \<Rightarrow> scout_artifact res" where
  "validate_scout a = bind_res
    (also_check (check_artifact_base a)
      (also_check
        (checks [(list_all (\<lambda>s. 1 \<le> ps_order s) (sa_plan a), ''field''),
                 (unit_interval (sa_confidence a), ''field'')])
        (material_claims_have_citations a)))
    (\<lambda>_. Inr a)"

record terminal_error = artifact_base +
  te_code :: string
  te_message :: string
  te_next_action :: "string option"

datatype risk_tier = Low | Medium | High | Critical

record risk_artifact = artifact_base +
  ra_risk_tier :: risk_tier
  ra_confidence :: pynum
  ra_likely_failure_modes :: "string list"
  ra_required_proof :: "string list"
  ra_reviewer_expertise :: "string list"
  ra_unavailable_signals :: "string list"

definition validate_risk :: "risk_artifact \<Rightarrow> risk_artifact res" where
  "validate_risk a = bind_res
    (also_check (check_artifact_base a) (checks [(unit_interval (ra_confidence a), ''field'')]))
    (\<lambda>_. Inr a)"

datatype failure_class = Repository | External | Flaky | Permission | Secret | Infrastructure

fun failure_class_value :: "failure_class \<Rightarrow> string" where
  "failure_class_value Repository = ''repository''"
| "failure_class_value External = ''external''"
| "failure_class_value Flaky = ''flaky''"
| "failure_class_value Permission = ''permission''"
| "failure_class_value Secret = ''secret''"
| "failure_class_value Infrastructure = ''infrastructure''"

record ci_diagnosis_artifact = artifact_base +
  ci_failure_class :: failure_class
  ci_diagnosis :: string
  ci_reproduction_recipe :: "string option"
  ci_validation_recipe :: "string option"
  ci_patch_proposed :: bool

definition validate_ci_diagnosis :: "ci_diagnosis_artifact \<Rightarrow> ci_diagnosis_artifact res" where
  "validate_ci_diagnosis a = bind_res (check_artifact_base a) (\<lambda>_. Inr a)"

record refusal_artifact = artifact_base +
  rf_failure_class :: string
  rf_missing_precondition :: string
  rf_next_action :: string

record recipe_evidence =
  re_recipe_name :: string
  re_image_digest :: string
  re_exit_code :: int
  re_started_at :: int
  re_finished_at :: int
  re_output_hash :: string

record patch_artifact = artifact_base +
  pa_base_sha :: string
  pa_unified_diff :: string
  pa_changed_paths :: "string list"
  pa_patch_hash :: string
  pa_reproduction :: recipe_evidence
  pa_validation :: recipe_evidence
  pa_policy_result :: string

definition patch_identity :: "patch_artifact \<Rightarrow> unit res" where
  "patch_identity a = checks
    [(pa_base_sha a = art_pinned_sha a, ''patch base SHA must match pinned SHA''),
     (sha256_hex (utf8 (pa_unified_diff a)) = pa_patch_hash a,
        ''patch hash does not match unified diff''),
     (pa_changed_paths a \<noteq> [], ''patch must declare changed paths'')]"

definition validate_patch :: "patch_artifact \<Rightarrow> patch_artifact res" where
  "validate_patch a = bind_res
    (also_check (check_artifact_base a)
      (also_check
        (checks
          [(immutable_sha (pa_base_sha a), ''SHA must be lowercase hexadecimal and immutable''),
           (len_between 1 100000 (pa_unified_diff a), ''field''),
           (length (pa_patch_hash a) = 64, ''field''),
           (length (re_output_hash (pa_reproduction a)) = 64, ''field''),
           (length (re_output_hash (pa_validation a)) = 64, ''field'')])
        (patch_identity a)))
    (\<lambda>_. Inr a)"

datatype review_outcome = Successful | ReviewFailed | CorrectlyRefused

datatype review_disposition = Accepted | Edited | ReviewRejected

record human_review_create =
  hr_reviewer :: string
  hr_outcome :: review_outcome
  hr_minutes :: int
  hr_disposition :: review_disposition
  hr_missing_evidence :: "string list"
  hr_notes :: "string option"

definition validate_human_review :: "human_review_create \<Rightarrow> human_review_create res" where
  "validate_human_review h = bind_res
    (checks
      [(len_between 1 255 (hr_reviewer h), ''field''),
       (0 \<le> hr_minutes h \<and> hr_minutes h \<le> 1440, ''field''),
       (case hr_notes h of None \<Rightarrow> True | Some n \<Rightarrow> length n \<le> 10000, ''field'')])
    (\<lambda>_. Inr h)"

section \<open>What a validated artifact guarantees\<close>

lemma check_artifact_base_Inr:
  "check_artifact_base a = Inr u \<Longrightarrow>
     distinct (map claim_id (art_claims a)) \<and> immutable_sha (art_pinned_sha a) \<and>
     (\<forall>c \<in> set (art_citations a).
        cit_pinned_sha c = art_pinned_sha a \<and>
        (\<exists>k \<in> set (art_claims a). claim_id k = cit_claim_id c) \<and>
        length (cit_excerpt_hash c) = 64 \<and> list_all is_lower_hex (cit_excerpt_hash c))"
proof -
  assume ok: "check_artifact_base a = Inr u"
  from ok have cits: "\<forall>c \<in> set (art_citations a). check_citation c = Inr ()"
    and stable: "stable_claims_and_citations a = Inr ()" and sha: "immutable_sha (art_pinned_sha a)"
    by (simp_all add: check_artifact_base_def checks_Inr check_all_Inr)
  from stable have "distinct (map claim_id (art_claims a))"
    and refs: "\<forall>c \<in> set (art_citations a). cit_claim_id c \<in> set (map claim_id (art_claims a))"
    and shas: "\<forall>c \<in> set (art_citations a). cit_pinned_sha c = art_pinned_sha a"
    by (simp_all add: stable_claims_and_citations_def checks_Inr list_all_iff Let_def)
  moreover have "\<exists>k \<in> set (art_claims a). claim_id k = cit_claim_id c" if "c \<in> set (art_citations a)" for c
    using refs that by fastforce
  moreover have "length (cit_excerpt_hash c) = 64 \<and> list_all is_lower_hex (cit_excerpt_hash c)"
    if "c \<in> set (art_citations a)" for c
    using cits that by (simp add: check_citation_def checks_Inr)
  ultimately show ?thesis using sha by blast
qed

lemma material_cited_iff:
  "material_claims_have_citations a = Inr u \<longleftrightarrow> set (material_claims a) \<subseteq> set (cited_claims a)"
  by (simp add: material_claims_have_citations_def check_def Let_def)

text \<open>
  A Scout artifact that passes validation is grounded: its claim ids are unique, every
  citation names a claim of the artifact, carries the artifact's own immutable SHA and a
  64-character lowercase hexadecimal hash, and every material claim has a citation.
\<close>

theorem validated_scout_is_grounded:
  assumes "validate_scout a = Inr b"
  shows "b = a \<and> distinct (map claim_id (art_claims a)) \<and> immutable_sha (art_pinned_sha a) \<and>
    (\<forall>c \<in> set (art_citations a).
       cit_pinned_sha c = art_pinned_sha a \<and>
       (\<exists>k \<in> set (art_claims a). claim_id k = cit_claim_id c) \<and>
       length (cit_excerpt_hash c) = 64 \<and> list_all is_lower_hex (cit_excerpt_hash c)) \<and>
    (\<forall>k \<in> set (art_claims a). claim_material k \<longrightarrow>
       (\<exists>c \<in> set (art_citations a). cit_claim_id c = claim_id k))"
proof -
  from assms have base: "check_artifact_base a = Inr ()"
    and cited: "set (material_claims a) \<subseteq> set (cited_claims a)" and "b = a"
    by (auto simp: validate_scout_def bind_res_Inr_iff material_cited_iff)
  have "\<exists>c \<in> set (art_citations a). cit_claim_id c = claim_id k"
    if "k \<in> set (art_claims a)" "claim_material k" for k
  proof -
    from that have "claim_id k \<in> set (material_claims a)" by (simp add: material_claims_def)
    with cited have "claim_id k \<in> set (cited_claims a)" by blast
    then show ?thesis by (force simp: cited_claims_def)
  qed
  with check_artifact_base_Inr [OF base] \<open>b = a\<close> show ?thesis by blast
qed

definition example_sha :: string where
  "example_sha = replicate 40 (CHR ''a'')"

lemma immutable_example_sha: "immutable_sha example_sha"
  by code_simp

definition example_scout :: scout_artifact where
  "example_scout =
    \<lparr>art_schema_version = ''1'', art_run_id = 7, art_role = SCOUT, art_pinned_sha = example_sha,
     art_created_at = 0,
     art_claims = [\<lparr>claim_id = ''c1'', claim_statement = ''entry point'', claim_material = True\<rparr>],
     art_unknowns = [],
     art_citations = [\<lparr>cit_claim_id = ''c1'', cit_source_kind = ''file'',
       cit_locator = ''src/a.py#L1-L2'', cit_pinned_sha = example_sha,
       cit_excerpt_hash = replicate 64 (CHR ''0'')\<rparr>],
     sa_relevant_files = [], sa_relevant_symbols = [], sa_dependency_analysis = ''none'',
     sa_blast_radius = ''small'', sa_affected_tests = [], sa_plan = [], sa_risks = [],
     sa_confidence = PyFloat (1 / 2)\<rparr>"

lemma example_scout_valid: "validate_scout example_scout = Inr example_scout"
  by code_simp

theorem validated_scout_is_grounded_witness:
  "distinct (map claim_id (art_claims example_scout)) \<and>
   (\<exists>c \<in> set (art_citations example_scout). cit_claim_id c = ''c1'')"
  using validated_scout_is_grounded [OF example_scout_valid] by (simp add: example_scout_def)

end
