(* ===== verification/Manifest.thy ===== *)
theory Manifest
  imports Settings Schemas
begin

text \<open>
  \<open>executor/manifest.py\<close>: the execution manifest of a target repository, its recipes and budgets
  with their validators, and the validation of a request to run one of the recipes.
\<close>

section \<open>Recipes\<close>

datatype recipe_kind = Setup_Recipe | Reproduce_Recipe | Validate_Recipe

datatype recipe_adapter = Noop_V1 | Pytest_V1 | Pytest_After_Patch_V1 | Ruff_Check_V1

fun adapter_value :: "recipe_adapter \<Rightarrow> string" where
  "adapter_value Noop_V1 = ''noop_v1''"
| "adapter_value Pytest_V1 = ''pytest_v1''"
| "adapter_value Pytest_After_Patch_V1 = ''pytest_after_patch_v1''"
| "adapter_value Ruff_Check_V1 = ''ruff_check_v1''"

fun ADAPTER_ARGUMENT_SCHEMAS :: "recipe_adapter \<Rightarrow> string" where
  "ADAPTER_ARGUMENT_SCHEMAS Noop_V1 = ''none_v1''"
| "ADAPTER_ARGUMENT_SCHEMAS Pytest_V1 = ''test_selector_v1''"
| "ADAPTER_ARGUMENT_SCHEMAS Pytest_After_Patch_V1 = ''patch_test_selector_v1''"
| "ADAPTER_ARGUMENT_SCHEMAS Ruff_Check_V1 = ''none_v1''"

record recipe =
  re_kind :: recipe_kind
  re_image :: string
  re_adapter :: recipe_adapter
  re_working_directory :: string
  re_arguments_schema :: string
  re_timeout_seconds :: int
  re_network :: string
  re_required_local_services :: "string list"
  re_expected_output_artifacts :: "string list"

definition immutable_image :: "string \<Rightarrow> bool" where
  "immutable_image v \<longleftrightarrow> re_fullmatch image_digest_pattern v \<noteq> None"

definition safe_output_artifact :: "string \<Rightarrow> bool" where
  "safe_output_artifact item \<longleftrightarrow> \<not> (item = [] \<or> item = ''result.json'' \<or> starts_with ''/'' item \<or>
     ''..'' \<in> set (split_on (CHR ''/'') item) \<or> CHR 0x00 \<in> set item)"

definition validate_recipe :: "recipe \<Rightarrow> recipe res" where
  "validate_recipe r = bind_res
    (checks
      [(immutable_image (re_image r), ''recipe image must use an immutable digest''),
       (re_working_directory r = ''/work/workspace'',
        ''v1 recipes must run inside the ephemeral executor workspace''),
       (0 < re_timeout_seconds r \<and> re_timeout_seconds r \<le> 3600, ''field''),
       (re_network r = ''none'', ''v1 recipes must disable network access''),
       (list_all safe_output_artifact (re_expected_output_artifacts r),
        ''output artifacts must be relative to the output directory''),
       (re_arguments_schema r = ADAPTER_ARGUMENT_SCHEMAS (re_adapter r),
        adapter_value (re_adapter r) @ '' requires the '' @ ADAPTER_ARGUMENT_SCHEMAS (re_adapter r) @
          '' arguments schema'')])
    (\<lambda>_. Inr r)"

section \<open>Manifests\<close>

record manifest_budgets =
  mf_max_model_turns :: int
  mf_max_tool_calls :: int
  mf_max_wall_seconds :: int
  mf_max_usd :: pynum

definition default_manifest_budgets :: manifest_budgets where
  "default_manifest_budgets = \<lparr>mf_max_model_turns = 12, mf_max_tool_calls = 40,
     mf_max_wall_seconds = 1200, mf_max_usd = PyFloat 3\<rparr>"

record execution_manifest =
  em_manifest_version :: string
  em_repository_id :: int
  em_repository :: string
  em_allowed_source_paths :: "string list"
  em_protected_paths :: "string list"
  em_recipes :: "(string \<times> recipe) list"
  em_redaction_patterns :: "string list"
  em_budgets :: manifest_budgets

definition validate_budgets :: "manifest_budgets \<Rightarrow> unit res" where
  "validate_budgets b = checks
    [(1 \<le> mf_max_model_turns b \<and> mf_max_model_turns b \<le> 100, ''field''),
     (1 \<le> mf_max_tool_calls b \<and> mf_max_tool_calls b \<le> 1000, ''field''),
     (1 \<le> mf_max_wall_seconds b \<and> mf_max_wall_seconds b \<le> 86400, ''field''),
     (num_gt (mf_max_usd b) (PyInt 0) \<and> \<not> num_gt (mf_max_usd b) (PyInt 100), ''field'')]"

definition name_char :: "char \<Rightarrow> bool" where
  "name_char c \<longleftrightarrow> is_ascii_alnum c \<or> c \<in> set ''_.-''"

definition canonical_repository :: "string \<Rightarrow> bool" where
  "canonical_repository v \<longleftrightarrow>
     re_fullmatch (seqs [plus (Cls name_char), lit ''/'', plus (Cls name_char)]) v \<noteq> None"

definition safe_glob :: "string \<Rightarrow> bool" where
  "safe_glob item \<longleftrightarrow> \<not> (item = [] \<or> starts_with ''/'' item \<or> ''..'' \<in> set (split_on (CHR ''/'') item))"

definition validate_manifest :: "execution_manifest \<Rightarrow> execution_manifest res" where
  "validate_manifest m =
    bind_res (checks
      [(canonical_repository (em_repository m), ''repository must be a canonical owner/name''),
       (list_all safe_glob (em_allowed_source_paths m), ''manifest paths must be repository-relative globs''),
       (list_all safe_glob (em_protected_paths m), ''manifest paths must be repository-relative globs'')])
   (\<lambda>_. bind_res (check_all (\<lambda>(_, r). bind_res (validate_recipe r) (\<lambda>_. Inr ())) (em_recipes m))
   (\<lambda>_. bind_res (validate_budgets (em_budgets m)) (\<lambda>_. Inr m)))"

section \<open>Requests\<close>

record recipe_request =
  rq_run_id :: string
  rq_source_sha :: string
  rq_recipe_name :: string
  rq_arguments :: "(string \<times> json) list"

fun contains_command_key :: "json \<Rightarrow> bool" where
  "contains_command_key (JObj d) =
     list_ex (\<lambda>(k, v). lower k \<in> {''command'', ''cmd'', ''shell'', ''script''} \<or> contains_command_key v) d"
| "contains_command_key (JArr vs) = list_ex contains_command_key vs"
| "contains_command_key _ = False"

definition safe_selector :: "string \<Rightarrow> bool" where
  "safe_selector s \<longleftrightarrow> s \<noteq> [] \<and> length s \<le> 500 \<and>
     list_all (\<lambda>c. c \<notin> set '';|&`$'' \<and> c \<noteq> LF) s"

definition validate_arguments :: "string \<Rightarrow> (string \<times> json) list \<Rightarrow> unit res" where
  "validate_arguments schema arguments =
    (if schema \<in> {''v1'', ''none_v1''}
     then require (arguments = []) (ValueError (schema @ '' does not accept arguments''))
     else if schema = ''test_selector_v1''
     then (case as_str (jget arguments ''selector'') of
         None \<Rightarrow> Inl (ValueError ''test_selector_v1 requires only a string selector'')
       | Some selector \<Rightarrow>
           if list_ex (\<lambda>(k, _). k \<noteq> ''selector'') arguments
           then Inl (ValueError ''test_selector_v1 requires only a string selector'')
           else require (safe_selector selector) (ValueError ''test selector contains unsafe characters''))
     else if schema = ''patch_test_selector_v1''
     then (if set (map fst arguments) \<noteq> {''selector'', ''unified_diff''}
         then Inl (ValueError ''patch_test_selector_v1 requires selector and unified_diff'')
         else case (as_str (jget arguments ''selector''), as_str (jget arguments ''unified_diff'')) of
           (Some selector, Some diff) \<Rightarrow>
             if \<not> safe_selector selector
             then Inl (ValueError ''test selector contains unsafe characters'')
             else require (diff \<noteq> [] \<and> length (utf8 diff) \<le> 100000)
                    (ValueError ''unified diff is empty or oversized'')
         | _ \<Rightarrow> Inl (ValueError ''patch_test_selector_v1 arguments must be strings''))
     else Inl (ValueError ''unknown recipe arguments schema''))"

definition validate_recipe_request :: "execution_manifest \<Rightarrow> recipe_request \<Rightarrow> recipe res" where
  "validate_recipe_request m q = (case map_of (em_recipes m) (rq_recipe_name q) of
     None \<Rightarrow> Inl (ValueError ''unknown manifest recipe'')
   | Some r \<Rightarrow>
       if rq_run_id q = [] \<or> length (rq_source_sha q) \<notin> {40, 64}
       then Inl (ValueError ''run ID and immutable source SHA are required'')
       else if contains_command_key (JObj (rq_arguments q))
       then Inl (ValueError ''recipe arguments cannot contain command text'')
       else bind_res (validate_arguments (re_arguments_schema r) (rq_arguments q)) (\<lambda>_. Inr r))"

section \<open>What a validated manifest and request give\<close>

lemma validate_recipe_Inr:
  "validate_recipe r = Inr r' \<longleftrightarrow> r' = r \<and> immutable_image (re_image r) \<and>
     re_working_directory r = ''/work/workspace'' \<and> 0 < re_timeout_seconds r \<and>
     re_timeout_seconds r \<le> 3600 \<and> re_network r = ''none'' \<and>
     list_all safe_output_artifact (re_expected_output_artifacts r) \<and>
     re_arguments_schema r = ADAPTER_ARGUMENT_SCHEMAS (re_adapter r)"
  by (auto simp: validate_recipe_def bind_res_Inr_iff checks_Inr)

lemma validate_manifest_Inr:
  assumes "validate_manifest m = Inr m'"
  shows "m' = m \<and> (\<forall>(k, r) \<in> set (em_recipes m). validate_recipe r = Inr r)"
    and "validate_budgets (em_budgets m) = Inr ()"
  using assms by (auto simp: validate_manifest_def bind_res_Inr_iff check_all_Inr validate_recipe_Inr)

lemma validate_recipe_request_Inr:
  assumes "validate_manifest m = Inr m" and "validate_recipe_request m q = Inr r"
  shows "map_of (em_recipes m) (rq_recipe_name q) = Some r \<and> validate_recipe r = Inr r \<and>
     validate_arguments (ADAPTER_ARGUMENT_SCHEMAS (re_adapter r)) (rq_arguments q) = Inr () \<and>
     \<not> contains_command_key (JObj (rq_arguments q))"
proof -
  have r: "map_of (em_recipes m) (rq_recipe_name q) = Some r"
    "\<not> contains_command_key (JObj (rq_arguments q))"
    "validate_arguments (re_arguments_schema r) (rq_arguments q) = Inr ()"
    using assms(2) by (auto simp: validate_recipe_request_def bind_res_Inr_iff split: option.splits if_splits)
  from map_of_SomeD [OF r(1)] have "validate_recipe r = Inr r"
    using validate_manifest_Inr(1) [OF assms(1)] by auto
  with r show ?thesis by (simp add: validate_recipe_Inr)
qed

end
