(* ===== verification/Store.thy ===== *)
theory Store
  imports Manifest
begin

text \<open>
  The tables of \<open>db/models.py\<close> as records, and the database as the list of rows of each table in
  insertion order, with the clock and the supply of fresh row ids. A session's reads are filters
  and finds over the lists; \<open>session.add\<close> appends a row, and raises \<open>IntegrityError\<close> where the
  table has a unique constraint that the row would break; an attribute assigned on a loaded row
  updates that row. \<open>in_transaction\<close> is \<open>with session.begin()\<close>: an exception undoes the writes.
\<close>

type_synonym time = int \<comment> \<open>microseconds since the epoch, UTC\<close>

type_synonym metadata = "(string \<times> string) list"

section \<open>Rows\<close>

record webhook_event =
  we_id :: uuid
  we_delivery_id :: string
  we_event_name :: "string option"
  we_repository_id :: "int option"
  we_payload_hash :: string
  we_signature_valid :: bool
  we_rejection_reason :: "string option"

record run =
  run_id :: uuid
  run_role :: agent_role
  run_source :: run_source
  run_repository_id :: int
  run_pull_number :: "int option"
  run_check_run_id :: "int option"
  run_pinned_sha :: string
  run_task_text :: string
  run_status :: run_status
  run_manifest_version :: string
  run_policy_version :: string
  run_prompt_hash :: "string option"
  run_model_config :: "(string \<times> json) list"
  run_budget :: budget
  run_evaluation_case_id :: "string option"
  run_created_at :: time
  run_terminal_at :: "time option"

record run_transition =
  tr_id :: uuid
  tr_run :: uuid
  tr_from :: "run_status option"
  tr_to :: run_status
  tr_reason :: string
  tr_actor :: string
  tr_metadata :: metadata
  tr_at :: time

record run_lease =
  ls_run :: uuid
  ls_worker :: string
  ls_acquired_at :: time
  ls_heartbeat_at :: time
  ls_expires_at :: time
  ls_attempt :: int

text \<open>
  What \<open>content_json\<close> holds: the dump of one of the artifact classes, or the stub that replaces a
  blocked one.
\<close>

datatype any_artifact =
    Scout_Artifact scout_artifact
  | Risk_Artifact risk_artifact
  | Ci_Artifact ci_diagnosis_artifact
  | Refusal_Artifact refusal_artifact
  | Patch_Artifact patch_artifact
  | Terminal_Error terminal_error

datatype artifact_content = Dumped any_artifact | Blocked_Stub artifact_base

record artifact_row =
  ar_id :: uuid
  ar_run :: uuid
  ar_kind :: string
  ar_schema_version :: string
  ar_content :: artifact_content
  ar_content_hash :: string
  ar_redaction_state :: string

record citation_row =
  cr_artifact :: uuid
  cr_citation :: citation

record policy_decision =
  pd_run :: uuid
  pd_policy_name :: string
  pd_input_hash :: string
  pd_outcome :: policy_outcome
  pd_reason_code :: string
  pd_changed_paths :: "string list"

record tool_call_row =
  tc_run :: uuid
  tc_sequence :: int
  tc_tool_name :: string
  tc_request :: json
  tc_result_summary :: json
  tc_status :: string
  tc_duration_ms :: int

record model_call_row =
  mc_run :: uuid
  mc_sequence :: int
  mc_model_id :: string
  mc_provider :: string
  mc_fallback :: bool
  mc_prompt_hash :: "string option"
  mc_tool_definitions_hash :: "string option"
  mc_provider_allowlist :: "string list"
  mc_trace_export :: "string option"
  mc_usage :: json
  mc_billed_cost :: pynum
  mc_latency_ms :: int
  mc_trace_id :: "string option"

record redaction_event =
  rv_run :: uuid
  rv_detector_name :: string
  rv_content_hash :: string
  rv_source_locator :: string
  rv_resolution_state :: string

record causal_link =
  cl_source :: uuid
  cl_target :: uuid
  cl_relation :: string

record webhook_run_link =
  wl_event :: uuid
  wl_run :: uuid

record pull_request_opt_in =
  oi_repository_id :: int
  oi_pull_number :: int
  oi_expires_at :: time

record human_review =
  hv_run :: uuid
  hv_review :: human_review_create

record evaluation_row =
  ev_run :: uuid
  ev_dataset_split :: string
  ev_evaluator_version :: string
  ev_scores :: "(string \<times> bool \<times> string) list"
  ev_passed :: bool

record target_manifest =
  tm_id :: uuid
  tm_repository_id :: int
  tm_version :: string
  tm_content :: execution_manifest
  tm_content_hash :: string
  tm_approved_at :: time
  tm_retired_at :: "time option"

record db =
  db_now :: time
  db_next :: uuid
  db_webhook_events :: "webhook_event list"
  db_runs :: "run list"
  db_transitions :: "run_transition list"
  db_leases :: "run_lease list"
  db_artifacts :: "artifact_row list"
  db_citations :: "citation_row list"
  db_decisions :: "policy_decision list"
  db_tool_calls :: "tool_call_row list"
  db_model_calls :: "model_call_row list"
  db_redaction_events :: "redaction_event list"
  db_causal_links :: "causal_link list"
  db_webhook_links :: "webhook_run_link list"
  db_opt_ins :: "pull_request_opt_in list"
  db_reviews :: "human_review list"
  db_evaluations :: "evaluation_row list"
  db_manifests :: "target_manifest list"
  db_zone :: int

text \<open>
  The last field is not a table: \<open>db_zone\<close> is how far the time zone of the database sessions
  (PostgreSQL's setting \<open>TimeZone\<close>, which the source never sets) lies east of UTC, in microseconds.
  It is what a time without a zone is read in when it is compared with a \<open>timestamptz\<close> column.
\<close>

definition empty_db :: "time \<Rightarrow> db" where
  "empty_db t =
    \<lparr>db_now = t, db_next = 0, db_webhook_events = [], db_runs = [], db_transitions = [],
     db_leases = [], db_artifacts = [], db_citations = [], db_decisions = [], db_tool_calls = [],
     db_model_calls = [], db_redaction_events = [], db_causal_links = [], db_webhook_links = [],
     db_opt_ins = [], db_reviews = [], db_evaluations = [], db_manifests = [],
     db_zone = 0\<rparr>"

section \<open>Access\<close>

definition fresh_id :: "(db, uuid) act" where
  "fresh_id s = (Inr (db_next s), s\<lparr>db_next := Suc (db_next s)\<rparr>)"

definition find_run :: "db \<Rightarrow> uuid \<Rightarrow> run option" where
  "find_run s rid = find (\<lambda>r. run_id r = rid) (db_runs s)"

definition update_run :: "uuid \<Rightarrow> (run \<Rightarrow> run) \<Rightarrow> db \<Rightarrow> db" where
  "update_run rid f s = s\<lparr>db_runs := map (\<lambda>r. if run_id r = rid then f r else r) (db_runs s)\<rparr>"

text \<open>A handler that holds the ORM object of a run reads its row.\<close>

definition with_run :: "uuid \<Rightarrow> (run \<Rightarrow> (db, 'a) act) \<Rightarrow> (db, 'a) act" where
  "with_run rid k s = (case find_run s rid of
     None \<Rightarrow> (Inl (OtherError ''ObjectDeletedError'' (uuid_str rid)), s)
   | Some r \<Rightarrow> k r s)"

definition find_lease :: "db \<Rightarrow> uuid \<Rightarrow> run_lease option" where
  "find_lease s rid = find (\<lambda>l. ls_run l = rid) (db_leases s)"

definition update_lease :: "uuid \<Rightarrow> (run_lease \<Rightarrow> run_lease) \<Rightarrow> db \<Rightarrow> db" where
  "update_lease rid f s = s\<lparr>db_leases := map (\<lambda>l. if ls_run l = rid then f l else l) (db_leases s)\<rparr>"

definition in_transaction :: "(db, 'a) act \<Rightarrow> (db, 'a) act" where
  "in_transaction m s = (case m s of (Inl e, _) \<Rightarrow> (Inl e, s) | (Inr x, t) \<Rightarrow> (Inr x, t))"

definition seconds :: "int \<Rightarrow> time" where
  "seconds n = 1000000 * n"

lemma keeps_in_transaction [keeps_intros]: "keeps I m \<Longrightarrow> keeps I (in_transaction m)"
  by (auto simp: keeps_def in_transaction_def split: prod.splits sum.splits)

lemma keeps_with_run [keeps_intros]: "(\<And>r. keeps I (k r)) \<Longrightarrow> keeps I (with_run rid k)"
  by (auto simp: keeps_def with_run_def split: option.splits)

section \<open>Reading a row back\<close>

lemma find_run_Some: "find_run s rid = Some r \<Longrightarrow> r \<in> set (db_runs s) \<and> run_id r = rid"
  by (auto simp: find_run_def find_Some_iff)

lemma find_run_None: "find_run s rid = None \<longleftrightarrow> rid \<notin> run_id ` set (db_runs s)"
  by (auto simp: find_run_def find_None_iff)

lemma find_run_mem:
  "distinct (map run_id (db_runs s)) \<Longrightarrow> r \<in> set (db_runs s) \<Longrightarrow> find_run s (run_id r) = Some r"
  by (cases "find_run s (run_id r)")
    (auto simp: find_run_None dest!: find_run_Some dest: map_of_is_SomeI
      simp: distinct_map inj_on_def)

lemma find_map_same:
  "(\<And>x. x \<in> set xs \<Longrightarrow> k (f x) = k x) \<Longrightarrow>
     find (\<lambda>x. k x = i) (map f xs) = map_option f (find (\<lambda>x. k x = i) xs)"
  by (induction xs) auto

lemma find_snoc:
  "find P (xs @ [x]) = (case find P xs of Some q \<Rightarrow> Some q | None \<Rightarrow> if P x then Some x else None)"
  by (induction xs) auto

lemma find_run_update:
  assumes "\<And>r. run_id (f r) = run_id r"
  shows "find_run (update_run rid f s) i =
    (if i = rid then map_option f (find_run s i) else find_run s i)"
proof -
  have "find_run (update_run rid f s) i =
      map_option (\<lambda>r. if run_id r = rid then f r else r) (find_run s i)"
    unfolding find_run_def update_run_def by (simp add: find_map_same assms)
  then show ?thesis
    by (cases "find_run s i") (auto dest: find_run_Some)
qed

lemma update_run_ids:
  assumes "\<And>r. run_id (f r) = run_id r"
  shows "map run_id (db_runs (update_run rid f s)) = map run_id (db_runs s)"
  by (simp add: update_run_def assms)

lemma update_run_frame [simp]:
  "db_now (update_run rid f s) = db_now s"
  "db_next (update_run rid f s) = db_next s"
  "db_transitions (update_run rid f s) = db_transitions s"
  "db_leases (update_run rid f s) = db_leases s"
  "db_artifacts (update_run rid f s) = db_artifacts s"
  "db_decisions (update_run rid f s) = db_decisions s"
  "db_opt_ins (update_run rid f s) = db_opt_ins s"
  "db_webhook_events (update_run rid f s) = db_webhook_events s"
  by (simp_all add: update_run_def)

lemma update_lease_frame [simp]:
  "db_now (update_lease rid f s) = db_now s"
  "db_next (update_lease rid f s) = db_next s"
  "db_runs (update_lease rid f s) = db_runs s"
  "db_transitions (update_lease rid f s) = db_transitions s"
  by (simp_all add: update_lease_def)

lemma find_lease_Some: "find_lease s rid = Some l \<Longrightarrow> l \<in> set (db_leases s) \<and> ls_run l = rid"
  by (auto simp: find_lease_def find_Some_iff)

lemma find_lease_None: "find_lease s rid = None \<longleftrightarrow> rid \<notin> ls_run ` set (db_leases s)"
  by (auto simp: find_lease_def find_None_iff)

lemma find_lease_update:
  assumes "\<And>l. ls_run (f l) = ls_run l"
  shows "find_lease (update_lease rid f s) i =
    (if i = rid then map_option f (find_lease s i) else find_lease s i)"
proof -
  have "find_lease (update_lease rid f s) i =
      map_option (\<lambda>l. if ls_run l = rid then f l else l) (find_lease s i)"
    unfolding find_lease_def update_lease_def by (simp add: find_map_same assms)
  then show ?thesis
    by (cases "find_lease s i") (auto dest: find_lease_Some)
qed

end
