(* ===== verification/PushGate.thy ===== *)
theory PushGate
  imports Redaction PatchPolicy Store Json
begin

text \<open>
  \<open>policy/push_gate.py\<close> and \<open>policy/audit.py\<close>: the decision whether a patch may be pushed, and the
  durable record of a decision. The hash of a decision is over the sorted JSON of its context,
  in which the diff itself is represented by the content hash of its redaction.
\<close>

record push_context =
  pc_run_id :: string
  pc_pinned_sha :: string
  pc_observed_head_sha :: string
  pc_patch_base_sha :: string
  pc_opt_in_expires_at :: "time option"
  pc_same_repository_branch :: bool
  pc_reproduction_passed :: bool
  pc_validation_passed :: bool
  pc_failure_class :: string
  pc_attempt_count :: int
  pc_diff :: string

definition context_json :: "push_context \<Rightarrow> json" where
  "context_json c = JObj
    [(''run_id'', JStr (pc_run_id c)),
     (''pinned_sha'', JStr (pc_pinned_sha c)),
     (''observed_head_sha'', JStr (pc_observed_head_sha c)),
     (''patch_base_sha'', JStr (pc_patch_base_sha c)),
     (''opt_in_expires_at'', case pc_opt_in_expires_at c of
        None \<Rightarrow> JNull | Some t \<Rightarrow> JStr (isoformat_utc t)),
     (''same_repository_branch'', JBool (pc_same_repository_branch c)),
     (''reproduction_passed'', JBool (pc_reproduction_passed c)),
     (''validation_passed'', JBool (pc_validation_passed c)),
     (''failure_class'', JStr (pc_failure_class c)),
     (''attempt_count'', JInt (pc_attempt_count c)),
     (''diff_hash'', JStr (red_content_hash (redact (pc_diff c) [])))]"

definition context_hash :: "push_context \<Rightarrow> string" where
  "context_hash c = sha256_hex (utf8 (dumps True (\<lambda>_. []) (context_json c)))"

definition deny :: "push_context \<Rightarrow> string \<Rightarrow> policy_result" where
  "deny c reason = \<lparr>pr_outcome = DENY, pr_reason_code = reason, pr_changed_paths = [],
     pr_input_hash = context_hash c\<rparr>"

definition evaluate_push_gate :: "push_context \<Rightarrow> patch_policy \<Rightarrow> time \<Rightarrow> policy_result" where
  "evaluate_push_gate c policy now =
    (if pc_opt_in_expires_at c = None \<or> the (pc_opt_in_expires_at c) \<le> now
     then deny c ''missing_or_expired_opt_in''
     else if \<not> pc_same_repository_branch c then deny c ''fork_branch_refused''
     else if pc_observed_head_sha c \<noteq> pc_pinned_sha c \<or> pc_patch_base_sha c \<noteq> pc_pinned_sha c
     then deny c ''stale_head_sha''
     else if pc_failure_class c \<noteq> ''repository'' \<or> \<not> pc_reproduction_passed c
     then deny c ''unreproduced_or_external_failure''
     else if \<not> pc_validation_passed c then deny c ''validation_not_passed''
     else if pc_attempt_count c \<noteq> 0 then deny c ''one_attempt_policy''
     else if red_detected (redact (pc_diff c) []) then deny c ''secret_detection''
     else let patch_result = validate_unified_diff (pc_diff c) policy in
       \<lparr>pr_outcome = pr_outcome patch_result, pr_reason_code = pr_reason_code patch_result,
        pr_changed_paths = pr_changed_paths patch_result, pr_input_hash = context_hash c\<rparr>)"

definition record_decision :: "uuid \<Rightarrow> string \<Rightarrow> policy_result \<Rightarrow> (db, unit) act" where
  "record_decision rid policy_name result = modify (\<lambda>s. s\<lparr>db_decisions := db_decisions s @
     [\<lparr>pd_run = rid, pd_policy_name = policy_name, pd_input_hash = pr_input_hash result,
       pd_outcome = pr_outcome result, pd_reason_code = pr_reason_code result,
       pd_changed_paths = pr_changed_paths result\<rparr>]\<rparr>)"

text \<open>\<open>DatabaseCapabilityAudit.record\<close>; the run id is the text of a UUID the caller has.\<close>

definition audit_record ::
    "uuid \<Rightarrow> string \<Rightarrow> policy_outcome \<Rightarrow> string \<Rightarrow> string \<Rightarrow> (db, unit) act" where
  "audit_record rid policy_name outcome reason_code input_hash =
    modify (\<lambda>s. s\<lparr>db_decisions := db_decisions s @
     [\<lparr>pd_run = rid, pd_policy_name = policy_name, pd_input_hash = input_hash,
       pd_outcome = outcome, pd_reason_code = reason_code, pd_changed_paths = []\<rparr>]\<rparr>)"

section \<open>What the gate lets through\<close>

lemma gate_hash [simp]: "pr_input_hash (evaluate_push_gate c policy now) = context_hash c"
  by (simp add: evaluate_push_gate_def deny_def Let_def)

lemma deny_outcome [simp]: "pr_outcome (deny c reason) = DENY" "pr_reason_code (deny c reason) = reason"
  by (simp_all add: deny_def)

lemma push_gate_allow_iff:
  "pr_outcome (evaluate_push_gate c policy now) = ALLOW \<longleftrightarrow>
     (\<exists>t. pc_opt_in_expires_at c = Some t \<and> now < t) \<and> pc_same_repository_branch c \<and>
     pc_observed_head_sha c = pc_pinned_sha c \<and> pc_patch_base_sha c = pc_pinned_sha c \<and>
     pc_failure_class c = ''repository'' \<and> pc_reproduction_passed c \<and> pc_validation_passed c \<and>
     pc_attempt_count c = 0 \<and> \<not> red_detected (redact (pc_diff c) []) \<and>
     pr_outcome (validate_unified_diff (pc_diff c) policy) = ALLOW"
  by (cases "pc_opt_in_expires_at c") (auto simp: evaluate_push_gate_def Let_def)

text \<open>
  C9: The push gate allows a push exactly when the opt-in has not expired, the branch is in the
  same repository, the observed head and the patch's base are both the pinned SHA, the failure is
  a reproduced repository failure, the validation passed, it is the first attempt, no secret
  pattern matches the diff, and the patch policy allows the diff.
\<close>

theorem push_gate_allows_exactly:
  "pr_outcome (evaluate_push_gate c policy now) = ALLOW \<longleftrightarrow>
     (\<exists>t. pc_opt_in_expires_at c = Some t \<and> now < t) \<and> pc_same_repository_branch c \<and>
     pc_observed_head_sha c = pc_pinned_sha c \<and> pc_patch_base_sha c = pc_pinned_sha c \<and>
     pc_failure_class c = ''repository'' \<and> pc_reproduction_passed c \<and> pc_validation_passed c \<and>
     pc_attempt_count c = 0 \<and> \<not> red_detected (redact (pc_diff c) []) \<and>
     pr_outcome (validate_unified_diff (pc_diff c) policy) = ALLOW"
  by (rule push_gate_allow_iff)

text \<open>
  The gate fails closed on a moved head: if the observed head differs from the pinned SHA, the
  push is denied whatever else holds, and while the opt-in is valid for a branch of the same
  repository the reason is \<open>stale_head_sha\<close>; the decision names no path as changed.
\<close>

theorem stale_head_is_denied:
  assumes "pc_observed_head_sha c \<noteq> pc_pinned_sha c"
  shows "pr_outcome (evaluate_push_gate c policy now) = DENY \<and>
    pr_changed_paths (evaluate_push_gate c policy now) = [] \<and>
    (pc_opt_in_expires_at c = Some t \<and> now < t \<and> pc_same_repository_branch c \<longrightarrow>
       pr_reason_code (evaluate_push_gate c policy now) = ''stale_head_sha'')"
  using assms by (simp add: evaluate_push_gate_def deny_def)

definition example_context :: push_context where
  "example_context = \<lparr>pc_run_id = uuid_str 4, pc_pinned_sha = ''aa'', pc_observed_head_sha = ''aa'',
     pc_patch_base_sha = ''aa'', pc_opt_in_expires_at = Some (seconds 50),
     pc_same_repository_branch = True, pc_reproduction_passed = True, pc_validation_passed = True,
     pc_failure_class = ''repository'', pc_attempt_count = 0, pc_diff = example_diff\<rparr>"

theorem stale_head_is_denied_witness:
  "pr_reason_code (evaluate_push_gate (example_context\<lparr>pc_observed_head_sha := ''bb''\<rparr>) example_policy 0) =
     ''stale_head_sha''"
  using stale_head_is_denied [of "example_context\<lparr>pc_observed_head_sha := ''bb''\<rparr>" example_policy 0
      "seconds 50"]
  by (simp add: example_context_def seconds_def)

lemma example_diff_clean_1: "\<not> re_search pat_private_key example_diff"
  by code_simp

lemma example_diff_clean_2: "\<not> re_search pat_github_token example_diff"
  by code_simp

lemma example_diff_clean_3: "\<not> re_search pat_jwt example_diff"
  by code_simp

lemma example_diff_clean_4: "\<not> re_search pat_connection_string example_diff"
  by code_simp

lemma example_diff_clean_5: "\<not> re_search pat_bearer_token example_diff"
  by code_simp

lemma example_diff_clean_6: "\<not> re_search pat_secret_assignment example_diff"
  by code_simp

lemma example_diff_clean: "\<not> red_detected (redact example_diff [])"
  by (simp add: redact_detected_iff redaction_patterns_def example_diff_clean_1 example_diff_clean_2
      example_diff_clean_3 example_diff_clean_4 example_diff_clean_5 example_diff_clean_6)

end
