(* ===== verification/RunService.thy ===== *)
theory RunService
  imports Store
begin

text \<open>
  \<open>runs/service.py\<close>: creating a run, the only operation that changes a run's status, superseding
  the runs of an older head, causal links and the transition history. The invariant \<open>history_ok\<close>
  is the rule of \<open>docs/data-model.md\<close> that the mutable summary columns agree with the append-only
  transition history. The locale \<open>run_invariant\<close> is the contract between the run service and the
  handlers built on it: an invariant that transitions and writes to other tables keep is kept by
  every handler (\<open>attempt_invariant\<close> asks it for the transitions of an attempt only); it is interpreted on \<open>history_ok\<close>, on the immutability of a terminal run and on
  the append-only history.
\<close>

section \<open>Operations\<close>

definition record_transition ::
    "uuid \<Rightarrow> run_status option \<Rightarrow> run_status \<Rightarrow> string \<Rightarrow> string \<Rightarrow> metadata \<Rightarrow> (db, unit) act" where
  "record_transition rid source target reason_code actor md s =
    (Inr (), s\<lparr>db_next := Suc (db_next s),
       db_transitions := db_transitions s @
         [\<lparr>tr_id = db_next s, tr_run = rid, tr_from = source, tr_to = target,
           tr_reason = reason_code, tr_actor = actor, tr_metadata = md, tr_at = db_now s\<rparr>]\<rparr>)"

definition set_status :: "time \<Rightarrow> run_status \<Rightarrow> run \<Rightarrow> run" where
  "set_status now target r =
     r\<lparr>run_status := target,
       run_terminal_at := (if target \<in> terminal_statuses then Some now else run_terminal_at r)\<rparr>"

definition transition_run ::
    "uuid \<Rightarrow> run_status \<Rightarrow> string \<Rightarrow> string \<Rightarrow> metadata \<Rightarrow> (db, unit) act" where
  "transition_run rid target reason_code actor md = with_run rid (\<lambda>r.
    if target \<notin> allowed_next (run_status r)
    then throw (InvalidTransitionError
           (status_value (run_status r) @ '' cannot transition to '' @ status_value target))
    else then_act (modify (\<lambda>s. update_run rid (set_status (db_now s) target) s))
           (record_transition rid (Some (run_status r)) target reason_code actor md))"

definition new_run :: "uuid \<Rightarrow> time \<Rightarrow> run_create \<Rightarrow> run_source \<Rightarrow> run" where
  "new_run rid now data source =
    \<lparr>run_id = rid, run_role = rc_role data, run_source = source,
     run_repository_id = rc_repository_id data, run_pull_number = None, run_check_run_id = None,
     run_pinned_sha = rc_pinned_sha data, run_task_text = rc_task_text data,
     run_status = RECEIVED, run_manifest_version = ''unselected'', run_policy_version = ''v1'',
     run_prompt_hash = None, run_model_config = [], run_budget = rc_budget data,
     run_evaluation_case_id = rc_evaluation_case_id data, run_created_at = now,
     run_terminal_at = None\<rparr>"

definition add_run :: "run_create \<Rightarrow> run_source \<Rightarrow> (db, uuid) act" where
  "add_run data source s =
    (Inr (db_next s), s\<lparr>db_next := Suc (db_next s),
       db_runs := db_runs s @ [new_run (db_next s) (db_now s) data source]\<rparr>)"

definition create_queued_run :: "run_create \<Rightarrow> run_source \<Rightarrow> string \<Rightarrow> (db, uuid) act" where
  "create_queued_run data source actor = bind_act (add_run data source) (\<lambda>rid.
     then_act (record_transition rid None RECEIVED ''intake_received'' actor [])
    (then_act (transition_run rid QUEUED ''intake_accepted'' actor [])
    (ret rid)))"

definition link_runs :: "uuid \<Rightarrow> uuid \<Rightarrow> string \<Rightarrow> (db, unit) act" where
  "link_runs source target relation s =
    (if source = target
     then (Inl (ValueError ''a run cannot be causally linked to itself''), s)
     else let link = \<lparr>cl_source = source, cl_target = target, cl_relation = relation\<rparr> in
       if link \<in> set (db_causal_links s) then (Inl (IntegrityError ''uq_run_causal_link''), s)
       else (Inr (), s\<lparr>db_causal_links := db_causal_links s @ [link]\<rparr>))"

definition active_statuses :: "run_status set" where
  "active_statuses = fst ` set allowed_transitions - terminal_statuses"

definition supersede_candidates :: "db \<Rightarrow> int \<Rightarrow> int \<Rightarrow> string \<Rightarrow> run list" where
  "supersede_candidates s repository_id pull_number newer_sha =
     filter (\<lambda>r. run_repository_id r = repository_id \<and> run_pull_number r = Some pull_number \<and>
       run_pinned_sha r \<noteq> newer_sha \<and> run_status r \<in> active_statuses) (db_runs s)"

fun supersede_loop :: "string \<Rightarrow> string \<Rightarrow> uuid list \<Rightarrow> (db, uuid list) act" where
  "supersede_loop newer_sha actor [] = ret []"
| "supersede_loop newer_sha actor (c # cs) = with_run c (\<lambda>r.
     if SUPERSEDED \<in> allowed_next (run_status r)
     then then_act
            (transition_run c SUPERSEDED ''newer_human_head_sha'' actor
               [(''replacement_sha'', newer_sha)])
            (bind_act (supersede_loop newer_sha actor cs) (\<lambda>sup. ret (c # sup)))
     else supersede_loop newer_sha actor cs)"

definition supersede_active_runs ::
    "int \<Rightarrow> int \<Rightarrow> string \<Rightarrow> string \<Rightarrow> (db, uuid list) act" where
  "supersede_active_runs repository_id pull_number newer_sha actor s =
     supersede_loop newer_sha actor
       (map run_id (supersede_candidates s repository_id pull_number newer_sha)) s"

definition get_run :: "uuid \<Rightarrow> (db, run) act" where
  "get_run rid s = (case find_run s rid of
     None \<Rightarrow> (Inl (RunNotFoundError (uuid_str rid)), s)
   | Some r \<Rightarrow> (Inr r, s))"

text \<open>
  Transitions of one instant, which is that of their transaction, come in the order of their ids; these
  are random UUIDs, so the order of ids is a parameter.
\<close>

definition list_transitions :: "(uuid \<Rightarrow> nat) \<Rightarrow> db \<Rightarrow> uuid \<Rightarrow> run_transition list" where
  "list_transitions rank s rid =
     sort_key tr_at (sort_key (\<lambda>t. rank (tr_id t)) (filter (\<lambda>t. tr_run t = rid) (db_transitions s)))"

section \<open>The history invariant\<close>

definition history :: "db \<Rightarrow> uuid \<Rightarrow> run_transition list" where
  "history s rid = filter (\<lambda>t. tr_run t = rid) (db_transitions s)"

text \<open>A chain of transition records from one status to another, each step allowed.\<close>

definition step_ok :: "run_status option \<Rightarrow> run_status \<Rightarrow> bool" where
  "step_ok p t = (case p of None \<Rightarrow> t = RECEIVED | Some s \<Rightarrow> t \<in> allowed_next s)"

fun chain_ok :: "run_status option \<Rightarrow> run_transition list \<Rightarrow> run_status option \<Rightarrow> bool" where
  "chain_ok p [] q = (p = q)"
| "chain_ok p (t # ts) q = (tr_from t = p \<and> step_ok p (tr_to t) \<and> chain_ok (Some (tr_to t)) ts q)"

definition run_ok :: "db \<Rightarrow> run \<Rightarrow> bool" where
  "run_ok s r \<longleftrightarrow> chain_ok None (history s (run_id r)) (Some (run_status r)) \<and>
     (run_terminal_at r \<noteq> None \<longleftrightarrow> run_status r \<in> terminal_statuses)"

definition history_ok :: "db \<Rightarrow> bool" where
  "history_ok s \<longleftrightarrow> distinct (map run_id (db_runs s)) \<and>
     (\<forall>r \<in> set (db_runs s). run_id r < db_next s \<and> run_ok s r) \<and>
     (\<forall>t \<in> set (db_transitions s). tr_run t \<in> run_id ` set (db_runs s))"

lemma chain_ok_snoc:
  "chain_ok p (ts @ [t]) q \<longleftrightarrow>
     (\<exists>u. chain_ok p ts u \<and> tr_from t = u \<and> step_ok u (tr_to t) \<and> q = Some (tr_to t))"
  by (induction ts arbitrary: p) auto

lemma chain_ok_target: "chain_ok p ts q \<Longrightarrow> ts \<noteq> [] \<Longrightarrow> q = Some (tr_to (last ts))"
  by (induction ts arbitrary: p) auto

lemma set_status_id [simp]:
  "run_id (set_status now t r) = run_id r"
  "run_status (set_status now t r) = t"
  by (simp_all add: set_status_def)

lemma history_ok_empty: "history_ok (empty_db t)"
  by (simp add: history_ok_def empty_db_def)

lemma transition_run_cases:
  assumes "transition_run rid target reason actor md s = (res, t)"
  obtains (missing) e where "find_run s rid = None" "res = Inl e" "t = s"
  | (refused) r where "find_run s rid = Some r" "target \<notin> allowed_next (run_status r)"
      "res = Inl (InvalidTransitionError
         (status_value (run_status r) @ '' cannot transition to '' @ status_value target))"
      "t = s"
  | (moved) r where "find_run s rid = Some r" "target \<in> allowed_next (run_status r)" "res = Inr ()"
      "t = snd (record_transition rid (Some (run_status r)) target reason actor md
                 (update_run rid (set_status (db_now s) target) s))"
  using assms
  by (auto simp: transition_run_def with_run_def act_defs record_transition_def
      split: option.splits if_splits)

lemma moved_history_ok:
  assumes ok: "history_ok s" and r: "find_run s rid = Some r"
    and target: "target \<in> allowed_next (run_status r)"
  shows "history_ok (snd (record_transition rid (Some (run_status r)) target reason actor md
                 (update_run rid (set_status (db_now s) target) s)))"
    (is "history_ok ?t")
proof -
  have runs: "db_runs ?t =
      map (\<lambda>q. if run_id q = rid then set_status (db_now s) target q else q) (db_runs s)"
    by (simp add: record_transition_def update_run_def)
  have ids: "map run_id (db_runs ?t) = map run_id (db_runs s)"
    unfolding runs by (simp add: comp_def)
  have "run_id ` set (db_runs ?t) = set (map run_id (db_runs ?t))" by simp
  then have idset: "run_id ` set (db_runs ?t) = run_id ` set (db_runs s)"
    unfolding ids by simp
  obtain t where hist: "db_transitions ?t = db_transitions s @ [t]" "tr_run t = rid"
      "tr_from t = Some (run_status r)" "tr_to t = target"
    by (simp add: record_transition_def)
  have h: "history ?t i = (if i = rid then history s i @ [t] else history s i)" for i
    using hist by (simp add: history_def)
  have "run_id q < db_next ?t \<and> run_ok ?t q" if q: "q \<in> set (db_runs ?t)" for q
  proof -
    from q obtain p where p: "p \<in> set (db_runs s)"
      "q = (if run_id p = rid then set_status (db_now s) target p else p)"
      unfolding runs by auto
    from ok p(1) have okp: "run_id p < db_next s" "run_ok s p" by (auto simp: history_ok_def)
    show ?thesis
    proof (cases "run_id p = rid")
      case True
      with ok p(1) r have "p = r"
        by (metis find_run_mem history_ok_def option.inject)
      with okp p(2) True h hist target show ?thesis
        by (auto simp: run_ok_def chain_ok_snoc step_ok_def record_transition_def set_status_def
            terminal_statuses_def)
    next
      case False
      with okp p(2) h show ?thesis
        by (auto simp: run_ok_def record_transition_def)
    qed
  qed
  moreover have "tr_run u \<in> run_id ` set (db_runs ?t)" if "u \<in> set (db_transitions ?t)" for u
  proof -
    from find_run_Some [OF r] have "rid \<in> run_id ` set (db_runs s)" by auto
    with ok that hist show ?thesis unfolding idset by (auto simp: history_ok_def)
  qed
  ultimately show ?thesis
    using ok unfolding history_ok_def ids by blast
qed

lemma transition_run_history_ok: "keeps history_ok (transition_run rid target reason actor md)"
proof
  fix s assume ok: "history_ok s"
  obtain res t where eq: "transition_run rid target reason actor md s = (res, t)" by fastforce
  then have "history_ok t"
    by (cases rule: transition_run_cases) (use ok moved_history_ok in auto)
  with eq show "history_ok (snd (transition_run rid target reason actor md s))" by simp
qed

section \<open>The contract of the run service\<close>

text \<open>
  Writes that are not transitions: rows of the tables other than runs, transitions and leases, and
  the columns of a run a handler sets without touching its status. An invariant that does not
  speak of the leases is kept by whatever happens to them, too.
\<close>

definition same_runs :: "db \<Rightarrow> db \<Rightarrow> bool" where
  "same_runs s t \<longleftrightarrow> db_runs t = db_runs s \<and> db_transitions t = db_transitions s \<and>
     db_leases t = db_leases s \<and> db_next s \<le> db_next t"

definition columns_only :: "(run \<Rightarrow> run) \<Rightarrow> bool" where
  "columns_only f \<longleftrightarrow> (\<forall>r. run_id (f r) = run_id r \<and> run_status (f r) = run_status r \<and>
     run_terminal_at (f r) = run_terminal_at r)"

text \<open>Of these, the ones an attempt makes leave what the run is about as it is.\<close>

definition attributes_only :: "(run \<Rightarrow> run) \<Rightarrow> bool" where
  "attributes_only f \<longleftrightarrow> columns_only f \<and> (\<forall>r. run_role (f r) = run_role r \<and>
     run_repository_id (f r) = run_repository_id r \<and> run_pull_number (f r) = run_pull_number r \<and>
     run_pinned_sha (f r) = run_pinned_sha r)"

locale run_frame =
  fixes I :: "db \<Rightarrow> bool"
  assumes keeps_same_runs: "same_runs s t \<Longrightarrow> I s \<Longrightarrow> I t"
    and keeps_attributes: "attributes_only f \<Longrightarrow> I s \<Longrightarrow> I (update_run rid f s)"
begin

lemma keeps_modify_frame: "(\<And>s. same_runs s (f s)) \<Longrightarrow> keeps I (modify f)"
  by (auto simp: keeps_def intro: keeps_same_runs)

lemma keeps_modify_run: "attributes_only f \<Longrightarrow> keeps I (modify (update_run rid f))"
  by (auto simp: keeps_def intro: keeps_attributes)

end

text \<open>An attempt of a leased run moves it through these statuses only.\<close>

definition attempt_targets :: "run_status set" where
  "attempt_targets = {SNAPSHOTTING, RUNNING, EVALUATING} \<union> terminal_statuses"

lemma attempt_targets_mem [simp]:
  "SNAPSHOTTING \<in> attempt_targets" "RUNNING \<in> attempt_targets" "EVALUATING \<in> attempt_targets"
  "SUCCEEDED \<in> attempt_targets" "REFUSED \<in> attempt_targets" "FAILED \<in> attempt_targets"
  "BUDGET_EXHAUSTED \<in> attempt_targets"
  by (simp_all add: attempt_targets_def terminal_statuses_def)

locale attempt_invariant = run_frame +
  assumes keeps_step: "target \<in> attempt_targets \<Longrightarrow> keeps I (transition_run rid target reason actor md)"

locale run_invariant = run_frame +
  assumes keeps_transition: "keeps I (transition_run rid target reason actor md)"
begin

lemma keeps_supersede_loop: "keeps I (supersede_loop newer_sha actor cs)"
  by (induction cs) (auto intro!: keeps_intros keeps_transition)

lemma keeps_supersede: "keeps I (supersede_active_runs repo pull newer_sha actor)"
  using keeps_supersede_loop by (simp add: keeps_def supersede_active_runs_def)

lemma keeps_link: "keeps I (link_runs source target relation)"
proof
  fix s assume "I s"
  then show "I (snd (link_runs source target relation s))"
    by (auto simp: link_runs_def Let_def intro!: keeps_same_runs [of s] simp: same_runs_def)
qed

lemma keeps_get_run: "keeps I (get_run rid)"
  by (auto simp: keeps_def get_run_def split: option.splits)

lemmas keeps_service = keeps_transition keeps_supersede keeps_link keeps_get_run

end

sublocale run_invariant \<subseteq> attempt_invariant
  by unfold_locales (rule keeps_transition)

locale lease_free_invariant = run_invariant +
  assumes keeps_leases: "I s \<Longrightarrow> I (s\<lparr>db_leases := ls\<rparr>)"
    and keeps_clock: "I s \<Longrightarrow> I (s\<lparr>db_now := now\<rparr>)"
begin

lemma keeps_update_lease: "I s \<Longrightarrow> I (update_lease rid f s)"
  by (simp add: update_lease_def keeps_leases)

end

lemma history_same_runs: "same_runs s t \<Longrightarrow> history_ok s \<Longrightarrow> history_ok t"
  by (fastforce simp: same_runs_def history_ok_def run_ok_def history_def)

lemma history_columns:
  assumes "columns_only f" and "history_ok s"
  shows "history_ok (update_run rid f s)"
proof -
  have ids: "map run_id (db_runs (update_run rid f s)) = map run_id (db_runs s)"
    using assms(1) by (intro update_run_ids) (simp add: columns_only_def)
  then have idset: "run_id ` set (db_runs (update_run rid f s)) = run_id ` set (db_runs s)"
    by (metis set_map)
  have "run_ok (update_run rid f s) q \<and> run_id q < db_next s"
    if "q \<in> set (db_runs (update_run rid f s))" for q
  proof -
    from that obtain p where p: "p \<in> set (db_runs s)" "q = (if run_id p = rid then f p else p)"
      by (auto simp: update_run_def)
    with assms show ?thesis
      by (auto simp: history_ok_def run_ok_def history_def columns_only_def)
  qed
  with assms(2) show ?thesis
    by (simp add: history_ok_def ids idset)
qed

lemma history_attributes: "attributes_only f \<Longrightarrow> history_ok s \<Longrightarrow> history_ok (update_run rid f s)"
  by (simp add: attributes_only_def history_columns)

lemma history_leases: "history_ok s \<Longrightarrow> history_ok (s\<lparr>db_leases := ls\<rparr>)"
  and history_clock: "history_ok s \<Longrightarrow> history_ok (s\<lparr>db_now := now\<rparr>)"
  by (simp_all add: history_ok_def run_ok_def history_def)

interpretation history: lease_free_invariant history_ok
  by unfold_locales
    (auto intro: transition_run_history_ok history_same_runs history_attributes history_leases
      history_clock)

text \<open>The history only grows: what has been recorded stays as the beginning of the table.\<close>

definition history_extends :: "run_transition list \<Rightarrow> db \<Rightarrow> bool" where
  "history_extends old s \<longleftrightarrow> (\<exists>more. db_transitions s = old @ more)"

interpretation append_only: lease_free_invariant "history_extends old" for old
proof
  show "keeps (history_extends old) (transition_run rid target reason actor md)"
    for rid target reason actor md
  proof
    fix s assume ext: "history_extends old s"
    obtain res t where eq: "transition_run rid target reason actor md s = (res, t)" by fastforce
    then have "history_extends old t"
      by (cases rule: transition_run_cases)
        (use ext in \<open>auto simp: history_extends_def record_transition_def\<close>)
    with eq show "history_extends old (snd (transition_run rid target reason actor md s))" by simp
  qed
qed (auto simp: history_extends_def same_runs_def)

text \<open>A run that has reached a terminal status, with the time it did.\<close>

definition ended_as :: "uuid \<Rightarrow> run_status \<Rightarrow> time option \<Rightarrow> db \<Rightarrow> bool" where
  "ended_as rid st tm s \<longleftrightarrow> st \<in> terminal_statuses \<and>
     (\<exists>r. find_run s rid = Some r \<and> run_status r = st \<and> run_terminal_at r = tm)"

lemma ended_as_transition: "keeps (ended_as rid st tm) (transition_run i target reason actor md)"
proof
  fix s assume ended: "ended_as rid st tm s"
  obtain res t where eq: "transition_run i target reason actor md s = (res, t)" by fastforce
  then have "ended_as rid st tm t"
  proof (cases rule: transition_run_cases)
    case (moved r)
    have "i \<noteq> rid"
    proof
      assume "i = rid"
      with moved ended have "run_status r \<in> terminal_statuses" by (auto simp: ended_as_def)
      with moved(2) show False by (auto simp: terminal_statuses_def)
    qed
    moreover have "find_run t rid = find_run (update_run i (set_status (db_now s) target) s) rid"
      using moved(4) by (simp add: record_transition_def find_run_def)
    ultimately show ?thesis using ended by (simp add: ended_as_def find_run_update)
  qed (use ended in simp_all)
  with eq show "ended_as rid st tm (snd (transition_run i target reason actor md s))" by simp
qed

interpretation terminal: lease_free_invariant "ended_as rid st tm" for rid st tm
proof
  show "same_runs s t \<Longrightarrow> ended_as rid st tm s \<Longrightarrow> ended_as rid st tm t" for s t
    by (simp add: same_runs_def ended_as_def find_run_def)
  show "attributes_only f \<Longrightarrow> ended_as rid st tm s \<Longrightarrow> ended_as rid st tm (update_run i f s)" for f s i
    by (auto simp: ended_as_def attributes_only_def columns_only_def find_run_update)
  show "ended_as rid st tm s \<Longrightarrow> ended_as rid st tm (s\<lparr>db_leases := ls\<rparr>)"
    and "ended_as rid st tm s \<Longrightarrow> ended_as rid st tm (s\<lparr>db_now := now\<rparr>)" for s ls now
    by (simp_all add: ended_as_def find_run_def)
qed (rule ended_as_transition)

text \<open>A run that has ended, but not in success.\<close>

definition ended_badly :: "uuid \<Rightarrow> db \<Rightarrow> bool" where
  "ended_badly rid s \<longleftrightarrow>
     (\<exists>r. find_run s rid = Some r \<and> run_status r \<in> terminal_statuses \<and> run_status r \<noteq> SUCCEEDED)"

lemma ended_badly_iff: "ended_badly rid s \<longleftrightarrow> (\<exists>st tm. st \<noteq> SUCCEEDED \<and> ended_as rid st tm s)"
  by (auto simp: ended_badly_def ended_as_def)

interpretation failure: lease_free_invariant "ended_badly rid" for rid
proof
  show "keeps (ended_badly rid) (transition_run i target reason actor md)" for i target reason actor md
    using terminal.keeps_transition unfolding ended_badly_iff keeps_def by meson
  show "same_runs s t \<Longrightarrow> ended_badly rid s \<Longrightarrow> ended_badly rid t" for s t
    using terminal.keeps_same_runs unfolding ended_badly_iff by meson
  show "attributes_only f \<Longrightarrow> ended_badly rid s \<Longrightarrow> ended_badly rid (update_run i f s)" for f s i
    using terminal.keeps_attributes unfolding ended_badly_iff by meson
  show "ended_badly rid s \<Longrightarrow> ended_badly rid (s\<lparr>db_leases := ls\<rparr>)" for s ls
    using terminal.keeps_leases unfolding ended_badly_iff by meson
  show "ended_badly rid s \<Longrightarrow> ended_badly rid (s\<lparr>db_now := now\<rparr>)" for s now
    using terminal.keeps_clock unfolding ended_badly_iff by meson
qed

section \<open>Creating a run\<close>

definition moved :: "uuid \<Rightarrow> run_status \<Rightarrow> run_status \<Rightarrow> string \<Rightarrow> string \<Rightarrow> metadata \<Rightarrow> db \<Rightarrow> db" where
  "moved rid from target reason actor md s =
     snd (record_transition rid (Some from) target reason actor md
       (update_run rid (set_status (db_now s) target) s))"

lemma transition_run_moved:
  "find_run s rid = Some r \<Longrightarrow> target \<in> allowed_next (run_status r) \<Longrightarrow>
     transition_run rid target reason actor md s =
       (Inr (), moved rid (run_status r) target reason actor md s)"
  by (simp add: transition_run_def with_run_def act_defs moved_def record_transition_def)

lemma transition_run_refused:
  "find_run s rid = Some r \<Longrightarrow> target \<notin> allowed_next (run_status r) \<Longrightarrow>
     transition_run rid target reason actor md s =
       (Inl (InvalidTransitionError
          (status_value (run_status r) @ '' cannot transition to '' @ status_value target)), s)"
  by (simp add: transition_run_def with_run_def)

lemma find_run_moved:
  "find_run (moved rid from target reason actor md s) i =
    (if i = rid then map_option (set_status (db_now s) target) (find_run s i) else find_run s i)"
proof -
  have "find_run (moved rid from target reason actor md s) i =
      find_run (update_run rid (set_status (db_now s) target) s) i"
    by (simp add: moved_def record_transition_def find_run_def)
  then show ?thesis by (simp add: find_run_update)
qed

lemma moved_frame [simp]:
  "db_now (moved rid from target reason actor md s) = db_now s"
  "db_next (moved rid from target reason actor md s) = Suc (db_next s)"
  "db_leases (moved rid from target reason actor md s) = db_leases s"
  "db_artifacts (moved rid from target reason actor md s) = db_artifacts s"
  "db_decisions (moved rid from target reason actor md s) = db_decisions s"
  "db_opt_ins (moved rid from target reason actor md s) = db_opt_ins s"
  "db_webhook_events (moved rid from target reason actor md s) = db_webhook_events s"
  by (simp_all add: moved_def record_transition_def)

lemma history_moved:
  "history (moved rid from target reason actor md s) i = history s i @
     (if i = rid then
        [\<lparr>tr_id = db_next s, tr_run = rid, tr_from = Some from, tr_to = target, tr_reason = reason,
          tr_actor = actor, tr_metadata = md, tr_at = db_now s\<rparr>] else [])"
  by (simp add: moved_def record_transition_def history_def)

text \<open>The database after a run has been created and queued.\<close>

definition with_queued_run :: "run_create \<Rightarrow> run_source \<Rightarrow> string \<Rightarrow> db \<Rightarrow> db" where
  "with_queued_run data source actor s =
     (let s1 = snd (add_run data source s);
          s2 = snd (record_transition (db_next s) None RECEIVED ''intake_received'' actor [] s1)
      in moved (db_next s) RECEIVED QUEUED ''intake_accepted'' actor [] s2)"

lemma history_ok_fresh:
  assumes "history_ok s"
  shows "find_run s (db_next s) = None" and "history s (db_next s) = []"
proof -
  from assms have bound: "\<forall>i \<in> run_id ` set (db_runs s). i < db_next s"
    by (auto simp: history_ok_def)
  then show "find_run s (db_next s) = None" unfolding find_run_None by blast
  have "tr_run t \<noteq> db_next s" if "t \<in> set (db_transitions s)" for t
  proof -
    from assms that have "tr_run t \<in> run_id ` set (db_runs s)" by (simp add: history_ok_def)
    with bound have "tr_run t < db_next s" by (rule bspec)
    then show ?thesis by simp
  qed
  then show "history s (db_next s) = []" by (simp add: history_def)
qed

lemma find_run_append:
  "find_run (s\<lparr>db_runs := db_runs s @ [r]\<rparr>) i =
     (case find_run s i of Some q \<Rightarrow> Some q | None \<Rightarrow> if run_id r = i then Some r else None)"
  by (simp add: find_run_def find_snoc)

lemma created_history_ok:
  assumes ok: "history_ok s"
  shows "history_ok (snd (record_transition (db_next s) None RECEIVED ''intake_received'' actor []
           (snd (add_run data source s))))" (is "history_ok ?t")
proof -
  note fresh = history_ok_fresh [OF ok]
  have runs: "db_runs ?t = db_runs s @ [new_run (db_next s) (db_now s) data source]"
    by (simp add: record_transition_def add_run_def)
  obtain t where t: "db_transitions ?t = db_transitions s @ [t]" "tr_run t = db_next s"
      "tr_from t = None" "tr_to t = RECEIVED"
    by (simp add: record_transition_def add_run_def)
  have h: "history ?t i = (if i = db_next s then [t] else history s i)" for i
    using t fresh(2) by (simp add: history_def)
  have new: "run_id (new_run (db_next s) (db_now s) data source) = db_next s"
    "run_ok ?t (new_run (db_next s) (db_now s) data source)"
    using h t by (auto simp: new_run_def run_ok_def step_ok_def terminal_statuses_def)
  have bound: "\<forall>r \<in> set (db_runs s). run_id r < db_next s" using ok by (simp add: history_ok_def)
  have old: "run_ok ?t r" if "r \<in> set (db_runs s)" for r
    using ok that bound h by (auto simp: history_ok_def run_ok_def)
  have next_id: "db_next ?t = Suc (Suc (db_next s))"
    by (simp add: record_transition_def add_run_def)
  have "db_next s \<notin> run_id ` set (db_runs s)" using bound by fastforce
  with ok old new bound t show ?thesis
    unfolding history_ok_def runs next_id by (auto simp: less_SucI)
qed

lemma create_queued_run_eq:
  assumes ok: "history_ok s"
  shows "create_queued_run data source actor s =
           (Inr (db_next s), with_queued_run data source actor s)"
    and "find_run (with_queued_run data source actor s) i =
      (if i = db_next s
       then Some ((new_run (db_next s) (db_now s) data source)\<lparr>run_status := QUEUED\<rparr>)
       else find_run s i)"
    and "history_ok (with_queued_run data source actor s)"
proof -
  define s2 where "s2 = snd (record_transition (db_next s) None RECEIVED ''intake_received'' actor []
           (snd (add_run data source s)))"
  have ok2: "history_ok s2" unfolding s2_def by (rule created_history_ok [OF ok])
  have found: "find_run s2 i =
      (if i = db_next s then Some (new_run (db_next s) (db_now s) data source) else find_run s i)" for i
  proof -
    have "find_run s2 i =
        find_run (s\<lparr>db_runs := db_runs s @ [new_run (db_next s) (db_now s) data source]\<rparr>) i"
      by (simp add: s2_def record_transition_def add_run_def find_run_def)
    then show ?thesis
      using history_ok_fresh(1) [OF ok]
      by (auto simp: find_run_append new_run_def split: option.splits)
  qed
  let ?r = "new_run (db_next s) (db_now s) data source"
  have step: "find_run s2 (db_next s) = Some ?r" "QUEUED \<in> allowed_next (run_status ?r)"
    using found by (simp_all add: new_run_def)
  have eq: "with_queued_run data source actor s =
      moved (db_next s) RECEIVED QUEUED ''intake_accepted'' actor [] s2"
    by (simp add: with_queued_run_def s2_def Let_def)
  have received: "run_status ?r = RECEIVED" by (simp add: new_run_def)
  have m1: "add_run data source s = (Inr (db_next s), snd (add_run data source s))"
    by (simp add: add_run_def)
  have m2: "record_transition (db_next s) None RECEIVED ''intake_received'' actor []
      (snd (add_run data source s)) = (Inr (), s2)"
    by (simp add: s2_def record_transition_def)
  show "create_queued_run data source actor s =
           (Inr (db_next s), with_queued_run data source actor s)"
    unfolding create_queued_run_def
    by (subst bind_act_Inr, rule m1, subst then_act_Inr, rule m2,
        subst then_act_Inr, rule transition_run_moved [OF step]) (simp add: eq received)
  show "find_run (with_queued_run data source actor s) i =
      (if i = db_next s then Some (?r\<lparr>run_status := QUEUED\<rparr>) else find_run s i)"
    unfolding eq find_run_moved found
    by (simp add: set_status_def terminal_statuses_def new_run_def)
  have "history_ok (snd (transition_run (db_next s) QUEUED ''intake_accepted'' actor [] s2))"
    using transition_run_history_ok ok2 by (simp add: keeps_def)
  with transition_run_moved [OF step, of "''intake_accepted''" actor "[]"]
  show "history_ok (with_queued_run data source actor s)" by (simp add: eq received)
qed

lemma create_queued_run_history_ok: "keeps history_ok (create_queued_run data source actor)"
  by (auto simp: create_queued_run_eq)

section \<open>The contract of intake\<close>

text \<open>
  Handlers that take in work create runs, and complete the columns of the run they have created. An
  invariant that creation and these writes keep as well is kept by every handler of the system.
\<close>

locale intake_invariant = lease_free_invariant +
  assumes keeps_create: "keeps I (create_queued_run data source actor)"
    and keeps_columns: "columns_only f \<Longrightarrow> I s \<Longrightarrow> I (update_run rid f s)"

lemma create_queued_run_extends: "keeps (history_extends old) (create_queued_run data source actor)"
proof -
  have "keeps (history_extends old) (add_run data source)"
    "keeps (history_extends old) (record_transition rid p t reason actor md)" for rid p t reason md
    by (auto simp: keeps_def add_run_def record_transition_def history_extends_def)
  then show ?thesis
    unfolding create_queued_run_def by (intro keeps_intros append_only.keeps_transition)
qed

lemma create_queued_run_ended: "keeps (ended_as rid st tm) (create_queued_run data source actor)"
proof -
  have "keeps (ended_as rid st tm) (add_run data source)"
    "keeps (ended_as rid st tm) (record_transition i p t reason actor md)" for i p t reason md
    by (auto simp: keeps_def add_run_def record_transition_def ended_as_def find_run_def find_snoc)
  then show ?thesis
    unfolding create_queued_run_def by (intro keeps_intros terminal.keeps_transition)
qed

interpretation history_intake: intake_invariant history_ok
  by unfold_locales (rule create_queued_run_history_ok, rule history_columns)

interpretation append_only_intake: intake_invariant "history_extends old" for old
  by unfold_locales (rule create_queued_run_extends, simp add: history_extends_def)

interpretation terminal_intake: intake_invariant "ended_as rid st tm" for rid st tm
  by unfold_locales (rule create_queued_run_ended, auto simp: ended_as_def columns_only_def find_run_update)

text \<open>
  Creating a run in a database whose history is consistent returns a fresh id; the new run is
  queued with the request's role, repository, SHA, task and budget, its recorded history is
  \<open>received\<close> then \<open>queued\<close>, every other run and its history is unchanged, and the summary columns
  still agree with the history.
\<close>

theorem create_queued_run_correct:
  assumes "history_ok s" and "create_queued_run data source actor s = (res, t)"
  obtains rid r where "res = Inr rid" "find_run s rid = None" "find_run t rid = Some r"
    "run_status r = QUEUED" "run_role r = rc_role data" "run_pinned_sha r = rc_pinned_sha data"
    "run_repository_id r = rc_repository_id data" "run_task_text r = rc_task_text data"
    "run_budget r = rc_budget data" "run_terminal_at r = None"
    "map tr_to (history t rid) = [RECEIVED, QUEUED]"
    "map tr_from (history t rid) = [None, Some RECEIVED]"
    "\<And>i. i \<noteq> rid \<Longrightarrow> find_run t i = find_run s i \<and> history t i = history s i"
    "history_ok t"
proof -
  note created = create_queued_run_eq [OF assms(1), of data source actor]
  from assms(2) created(1) have t: "t = with_queued_run data source actor s" "res = Inr (db_next s)"
    by simp_all
  let ?r = "(new_run (db_next s) (db_now s) data source)\<lparr>run_status := QUEUED\<rparr>"
  have h: "history t i = history s i @ (if i = db_next s then
      [\<lparr>tr_id = Suc (db_next s), tr_run = db_next s, tr_from = None, tr_to = RECEIVED,
        tr_reason = ''intake_received'', tr_actor = actor, tr_metadata = [], tr_at = db_now s\<rparr>,
       \<lparr>tr_id = Suc (Suc (db_next s)), tr_run = db_next s, tr_from = Some RECEIVED, tr_to = QUEUED,
        tr_reason = ''intake_accepted'', tr_actor = actor, tr_metadata = [], tr_at = db_now s\<rparr>]
      else [])" for i
    unfolding t with_queued_run_def Let_def history_moved
    by (simp add: record_transition_def add_run_def history_def)
  show thesis
  proof (rule that [of "db_next s" ?r])
    show "find_run t (db_next s) = Some ?r" by (simp add: t created(2))
    show "find_run t i = find_run s i \<and> history t i = history s i" if "i \<noteq> db_next s" for i
      using that by (simp add: h) (simp add: t created(2))
  qed (use history_ok_fresh [OF assms(1)] h created(3) in \<open>simp_all add: t new_run_def\<close>)
qed

definition example_request :: run_create where
  "example_request = \<lparr>rc_role = CI, rc_repository_id = 11, rc_pinned_sha = example_sha,
     rc_task_text = ''fix the build'', rc_evaluation_case_id = None,
     rc_budget = [(''max_seconds'', PyInt 60)]\<rparr>"

definition one_queued :: db where
  "one_queued = with_queued_run example_request WEBHOOK ''webhook'' (empty_db 5)"

lemma one_queued_facts:
  "create_queued_run example_request WEBHOOK ''webhook'' (empty_db 5) = (Inr 0, one_queued)"
  "find_run one_queued i = (if i = 0
     then Some ((new_run 0 5 example_request WEBHOOK)\<lparr>run_status := QUEUED\<rparr>) else None)"
  "history_ok one_queued"
  using create_queued_run_eq [OF history_ok_empty [of 5], of example_request WEBHOOK "''webhook''"]
  by (simp_all add: one_queued_def empty_db_def find_run_def)

theorem create_queued_run_correct_witness:
  "\<exists>rid r. find_run one_queued rid = Some r \<and> run_status r = QUEUED \<and>
     map tr_to (history one_queued rid) = [RECEIVED, QUEUED]"
proof (rule create_queued_run_correct [OF history_ok_empty one_queued_facts(1)])
  fix rid r
  assume "find_run one_queued rid = Some r" "run_status r = QUEUED"
    "map tr_to (history one_queued rid) = [RECEIVED, QUEUED]"
  then show ?thesis by (intro exI conjI)
qed

section \<open>Superseding\<close>

definition supersedable :: "db \<Rightarrow> uuid \<Rightarrow> bool" where
  "supersedable s i \<longleftrightarrow> (\<exists>r. find_run s i = Some r \<and> SUPERSEDED \<in> allowed_next (run_status r))"

lemma supersede_loop_spec:
  "distinct cs \<Longrightarrow> (\<And>c. c \<in> set cs \<Longrightarrow> find_run s c \<noteq> None) \<Longrightarrow>
   \<exists>t. supersede_loop newer_sha actor cs s = (Inr (filter (supersedable s) cs), t) \<and> db_now t = db_now s \<and>
     (\<forall>i. find_run t i = (if i \<in> set cs \<and> supersedable s i
        then map_option (set_status (db_now s) SUPERSEDED) (find_run s i) else find_run s i))"
proof (induction cs arbitrary: s)
  case Nil
  then show ?case by simp
next
  case (Cons c cs)
  from Cons.prems obtain r where r: "find_run s c = Some r" by fastforce
  show ?case
  proof (cases "SUPERSEDED \<in> allowed_next (run_status r)")
    case False
    with r have no: "\<not> supersedable s c" by (simp add: supersedable_def)
    obtain t where t: "supersede_loop newer_sha actor cs s = (Inr (filter (supersedable s) cs), t)"
      "db_now t = db_now s"
      "\<forall>i. find_run t i = (if i \<in> set cs \<and> supersedable s i
         then map_option (set_status (db_now s) SUPERSEDED) (find_run s i) else find_run s i)"
      using Cons.IH [of s] Cons.prems by auto
    with False r no show ?thesis
      by (intro exI [of _ t]) (auto simp: with_run_def)
  next
    case True
    define u where "u = moved c (run_status r) SUPERSEDED ''newer_human_head_sha'' actor
        [(''replacement_sha'', newer_sha)] s"
    have u: "find_run u i = (if i = c then Some (set_status (db_now s) SUPERSEDED r)
        else find_run s i)" for i
      using r by (simp add: u_def find_run_moved)
    have same: "supersedable u i = supersedable s i" if "i \<noteq> c" for i
      using that u by (simp add: supersedable_def)
    have flt: "filter (supersedable u) cs = filter (supersedable s) cs"
    proof (rule filter_cong [OF refl])
      fix i assume "i \<in> set cs"
      with Cons.prems(1) have "i \<noteq> c" by auto
      then show "supersedable u i = supersedable s i" by (rule same)
    qed
    have now: "db_now u = db_now s" by (simp add: u_def)
    have "distinct cs" "\<And>i. i \<in> set cs \<Longrightarrow> find_run u i \<noteq> None"
      using Cons.prems u by auto
    from Cons.IH [OF this, unfolded flt now]
    obtain t where t: "supersede_loop newer_sha actor cs u = (Inr (filter (supersedable s) cs), t)"
      "db_now t = db_now s"
      "\<forall>i. find_run t i = (if i \<in> set cs \<and> supersedable u i
         then map_option (set_status (db_now s) SUPERSEDED) (find_run u i) else find_run u i)"
      by blast
    have yes: "supersedable s c" using True r by (simp add: supersedable_def)
    have "transition_run c SUPERSEDED ''newer_human_head_sha'' actor
        [(''replacement_sha'', newer_sha)] s = (Inr (), u)"
      unfolding u_def using transition_run_moved [OF r True] .
    with True r t(1) yes have
      "supersede_loop newer_sha actor (c # cs) s = (Inr (filter (supersedable s) (c # cs)), t)"
      by (simp add: with_run_def)
    moreover have "find_run t i = (if i \<in> set (c # cs) \<and> supersedable s i
        then map_option (set_status (db_now s) SUPERSEDED) (find_run s i) else find_run s i)" for i
      using t(3) u same yes r Cons.prems(1) by auto
    ultimately show ?thesis using t(2) by blast
  qed
qed

text \<open>
  The runs a newer head replaces: those of the pull request with another SHA that are past intake,
  not being pushed and not yet terminal.
\<close>

definition superseded_by_head :: "int \<Rightarrow> int \<Rightarrow> string \<Rightarrow> run \<Rightarrow> bool" where
  "superseded_by_head repository_id pull_number newer_sha r \<longleftrightarrow>
     run_repository_id r = repository_id \<and> run_pull_number r = Some pull_number \<and>
     run_pinned_sha r \<noteq> newer_sha \<and>
     run_status r \<in> {QUEUED, LEASED, SNAPSHOTTING, RUNNING, EVALUATING, READY_TO_PUSH}"

lemma superseded_by_head_iff:
  "superseded_by_head repo pull sha r \<longleftrightarrow>
     run_repository_id r = repo \<and> run_pull_number r = Some pull \<and> run_pinned_sha r \<noteq> sha \<and>
     run_status r \<in> active_statuses \<and> SUPERSEDED \<in> allowed_next (run_status r)"
  by (cases "run_status r")
    (auto simp: superseded_by_head_def active_statuses_def allowed_transitions_def
      terminal_statuses_def)

text \<open>
  C11: A newer head supersedes exactly the older work of its pull request: the call returns the
  runs of that repository and pull request with another SHA whose status is between \<open>queued\<close> and
  \<open>ready_to_push\<close>, each of them is then \<open>superseded\<close> with its end time set, every other run is
  unchanged, and the summary columns still agree with the history.
\<close>

theorem supersede_exactly_older_active_runs:
  assumes "history_ok s"
  obtains ids t where "supersede_active_runs repo pull sha actor s = (Inr ids, t)"
    "history_ok t"
    "\<And>i. i \<in> set ids \<longleftrightarrow> (\<exists>r. find_run s i = Some r \<and> superseded_by_head repo pull sha r)"
    "\<And>i. find_run t i = (if i \<in> set ids
       then map_option (\<lambda>r. r\<lparr>run_status := SUPERSEDED, run_terminal_at := Some (db_now s)\<rparr>) (find_run s i)
       else find_run s i)"
proof -
  define cs where "cs = map run_id (supersede_candidates s repo pull sha)"
  have dist: "distinct (map run_id (db_runs s))" using assms by (simp add: history_ok_def)
  then have dcs: "distinct cs"
    unfolding cs_def supersede_candidates_def by (simp add: distinct_map_filter)
  have found: "i \<in> set cs \<longleftrightarrow> (\<exists>r. find_run s i = Some r \<and> r \<in> set (supersede_candidates s repo pull sha))" for i
  proof
    assume "i \<in> set cs"
    then obtain r where "r \<in> set (supersede_candidates s repo pull sha)" "run_id r = i"
      by (auto simp: cs_def)
    with find_run_mem [OF dist, of r] show
      "\<exists>r. find_run s i = Some r \<and> r \<in> set (supersede_candidates s repo pull sha)"
      by (auto simp: supersede_candidates_def)
  qed (auto simp: cs_def dest: find_run_Some)
  from supersede_loop_spec [OF dcs, of s sha actor] found obtain t where
    t: "supersede_loop sha actor cs s = (Inr (filter (supersedable s) cs), t)"
    "\<forall>i. find_run t i = (if i \<in> set cs \<and> supersedable s i
       then map_option (set_status (db_now s) SUPERSEDED) (find_run s i) else find_run s i)"
    by auto
  have eq: "supersede_active_runs repo pull sha actor s = (Inr (filter (supersedable s) cs), t)"
    using t(1) by (simp add: supersede_active_runs_def cs_def)
  show thesis
  proof (rule that [OF eq])
    show "history_ok t"
      using history.keeps_supersede assms eq by (rule keepsD)
    show "i \<in> set (filter (supersedable s) cs) \<longleftrightarrow>
        (\<exists>r. find_run s i = Some r \<and> superseded_by_head repo pull sha r)" for i
      by (auto simp: found superseded_by_head_iff supersedable_def supersede_candidates_def
          dest: find_run_Some)
    have "set_status (db_now s) SUPERSEDED =
        (\<lambda>r. r\<lparr>run_status := SUPERSEDED, run_terminal_at := Some (db_now s)\<rparr>)"
      by (simp add: set_status_def terminal_statuses_def fun_eq_iff)
    with t(2) show "find_run t i = (if i \<in> set (filter (supersedable s) cs)
       then map_option (\<lambda>r. r\<lparr>run_status := SUPERSEDED, run_terminal_at := Some (db_now s)\<rparr>) (find_run s i)
       else find_run s i)" for i
      by simp
  qed
qed

theorem supersede_exactly_older_active_runs_witness:
  "\<exists>ids t. supersede_active_runs 11 7 (replicate 40 (CHR ''b'')) ''webhook''
       (update_run 0 (\<lambda>r. r\<lparr>run_pull_number := Some 7\<rparr>) one_queued) = (Inr ids, t) \<and> 0 \<in> set ids"
    (is "\<exists>ids t. supersede_active_runs _ _ ?sha _ ?s = _ \<and> _")
proof (rule supersede_exactly_older_active_runs)
  show "history_ok ?s"
    using one_queued_facts(3) by (intro history_columns) (simp add: columns_only_def)
next
  fix ids t
  assume "supersede_active_runs 11 7 ?sha ''webhook'' ?s = (Inr ids, t)"
    and "i \<in> set ids \<longleftrightarrow> (\<exists>r. find_run ?s i = Some r \<and> superseded_by_head 11 7 ?sha r)" for i
  then show ?thesis
    by (simp add: find_run_update one_queued_facts(2) superseded_by_head_def new_run_def
        example_request_def example_sha_def)
qed

end
