(* ===== verification/Artifacts.thy ===== *)
theory Artifacts
  imports Redaction RunService
begin

text \<open>
  \<open>runs/artifacts.py\<close>: storing an artifact behind the redaction of its serialization. Pydantic's
  \<open>model_dump_json\<close> is the parameter \<open>dump\<close>; the content of the row is the artifact itself (its
  dump in JSON mode) or the stub that replaces it.
\<close>

fun base_of :: "any_artifact \<Rightarrow> artifact_base" where
  "base_of (Scout_Artifact a) = artifact_base.truncate a"
| "base_of (Risk_Artifact a) = artifact_base.truncate a"
| "base_of (Ci_Artifact a) = artifact_base.truncate a"
| "base_of (Refusal_Artifact a) = artifact_base.truncate a"
| "base_of (Patch_Artifact a) = artifact_base.truncate a"
| "base_of (Terminal_Error a) = artifact_base.truncate a"

definition blocked_stub :: "artifact_base \<Rightarrow> artifact_base" where
  "blocked_stub b = b\<lparr>art_claims := [],
     art_unknowns := [''artifact content blocked by redaction policy''], art_citations := []\<rparr>"

definition content_citations :: "artifact_content \<Rightarrow> citation list" where
  "content_citations c = (case c of Dumped a \<Rightarrow> art_citations (base_of a) | Blocked_Stub b \<Rightarrow> art_citations b)"

definition store_artifact ::
    "(any_artifact \<Rightarrow> string) \<Rightarrow> any_artifact \<Rightarrow> string \<Rightarrow> string \<Rightarrow> (db, artifact_row) act" where
  "store_artifact dump a kind state s =
    (let serialized = dump a; redaction = redact serialized []; base = base_of a;
         content = (if red_detected redaction then Blocked_Stub (blocked_stub base) else Dumped a);
         row = \<lparr>ar_id = db_next s, ar_run = art_run_id base, ar_kind = kind,
                ar_schema_version = art_schema_version base, ar_content = content,
                ar_content_hash = sha256_hex (utf8 serialized),
                ar_redaction_state = (if red_detected redaction then ''blocked'' else state)\<rparr>
     in if list_ex (\<lambda>r. ar_run r = art_run_id base \<and> ar_kind r = kind) (db_artifacts s)
        then (Inl (IntegrityError ''uq_artifacts_run_kind''), s)
        else (Inr row, s\<lparr>db_next := Suc (db_next s), db_artifacts := db_artifacts s @ [row],
           db_citations := db_citations s @
             map (\<lambda>c. \<lparr>cr_artifact = db_next s, cr_citation = c\<rparr>) (content_citations content),
           db_redaction_events := db_redaction_events s @
             map (\<lambda>n. \<lparr>rv_run = art_run_id base, rv_detector_name = n,
                       rv_content_hash = red_content_hash redaction,
                       rv_source_locator = ''artifact:'' @ kind, rv_resolution_state = ''blocked''\<rparr>)
               (detector_names redaction)\<rparr>))"

definition get_artifact :: "db \<Rightarrow> uuid \<Rightarrow> string \<Rightarrow> artifact_row option" where
  "get_artifact s rid kind = find (\<lambda>r. ar_run r = rid \<and> ar_kind r = kind) (db_artifacts s)"

section \<open>Frame\<close>

lemma store_artifact_same_runs: "same_runs s (snd (store_artifact dump a kind state s))"
  by (simp add: store_artifact_def same_runs_def Let_def)

context run_frame
begin

lemma keeps_store_artifact: "keeps I (store_artifact dump a kind state)"
  by (auto simp: keeps_def intro: keeps_same_runs [OF store_artifact_same_runs])

end

lemma get_artifact_None:
  "get_artifact s rid kind = None \<longleftrightarrow>
     \<not> list_ex (\<lambda>r. ar_run r = rid \<and> ar_kind r = kind) (db_artifacts s)"
  by (auto simp: get_artifact_def find_None_iff list_ex_iff)

text \<open>One row for each kind of a run, as the unique constraint has it.\<close>

definition artifacts_unique :: "db \<Rightarrow> bool" where
  "artifacts_unique s = distinct (map (\<lambda>r. (ar_run r, ar_kind r)) (db_artifacts s))"

lemma store_artifact_unique: "keeps artifacts_unique (store_artifact dump a kind state)"
proof
  fix s assume "artifacts_unique s"
  then show "artifacts_unique (snd (store_artifact dump a kind state s))"
    by (auto simp: artifacts_unique_def store_artifact_def Let_def list_ex_iff)
qed

section \<open>What is stored\<close>

lemma stub_content: "content_citations (Blocked_Stub (blocked_stub b)) = []"
  by (simp add: content_citations_def blocked_stub_def)

text \<open>
  C37: What is stored of an artifact of a new kind is the artifact or nothing of it: when no secret
  pattern matches its serialization, the row holds the artifact itself with its citations and the
  given state; when one does, the row is a blocked stub without claims and citations, no citation
  row is written and every detector leaves an event with the hash of the serialization. Either
  way the row is found again under its run and kind, and a second one of that kind is refused.
\<close>

theorem stored_artifact_is_whole_or_blocked:
  assumes "get_artifact s (art_run_id (base_of a)) kind = None"
  obtains row t where "store_artifact dump a kind state s = (Inr row, t)"
    "get_artifact t (art_run_id (base_of a)) kind = Some row"
    "ar_content_hash row = sha256_hex (utf8 (dump a))"
    "\<not> (\<exists>r \<in> set (map snd redaction_patterns). re_search r (dump a)) \<Longrightarrow>
       ar_content row = Dumped a \<and> ar_redaction_state row = state \<and>
       db_redaction_events t = db_redaction_events s \<and>
       db_citations t = db_citations s @
         map (\<lambda>c. \<lparr>cr_artifact = ar_id row, cr_citation = c\<rparr>) (art_citations (base_of a))"
    "\<exists>r \<in> set (map snd redaction_patterns). re_search r (dump a) \<Longrightarrow>
       ar_content row = Blocked_Stub (blocked_stub (base_of a)) \<and> ar_redaction_state row = ''blocked'' \<and>
       db_citations t = db_citations s \<and>
       (\<exists>ev evs. db_redaction_events t = db_redaction_events s @ ev # evs \<and>
          (\<forall>e \<in> set (ev # evs). rv_content_hash e = sha256_hex (utf8 (dump a))))"
    "fst (store_artifact dump b kind' state' t) =
       Inl (IntegrityError ''uq_artifacts_run_kind'') \<or>
     (art_run_id (base_of b), kind') \<noteq> (art_run_id (base_of a), kind)"
proof -
  from assms have fresh: "\<not> list_ex (\<lambda>r. ar_run r = art_run_id (base_of a) \<and> ar_kind r = kind) (db_artifacts s)"
    by (simp add: get_artifact_None)
  have det: "red_detected (redact (dump a) []) \<longleftrightarrow> (\<exists>r \<in> set (map snd redaction_patterns). re_search r (dump a))"
    by (simp add: redact_detected_iff)
  obtain row t where run: "store_artifact dump a kind state s = (Inr row, t)"
    and row: "ar_run row = art_run_id (base_of a)" "ar_kind row = kind"
      "ar_content_hash row = sha256_hex (utf8 (dump a))"
      "ar_content row = (if red_detected (redact (dump a) []) then Blocked_Stub (blocked_stub (base_of a))
         else Dumped a)"
      "ar_redaction_state row = (if red_detected (redact (dump a) []) then ''blocked'' else state)"
    and t: "db_artifacts t = db_artifacts s @ [row]"
      "db_citations t = db_citations s @
         map (\<lambda>c. \<lparr>cr_artifact = ar_id row, cr_citation = c\<rparr>) (content_citations (ar_content row))"
      "db_redaction_events t = db_redaction_events s @
         map (\<lambda>n. \<lparr>rv_run = art_run_id (base_of a), rv_detector_name = n,
                   rv_content_hash = red_content_hash (redact (dump a) []),
                   rv_source_locator = ''artifact:'' @ kind, rv_resolution_state = ''blocked''\<rparr>)
           (detector_names (redact (dump a) []))"
    using fresh by (simp add: store_artifact_def Let_def)
  have found: "get_artifact t (art_run_id (base_of a)) kind = Some row"
    using assms row t(1) by (simp add: get_artifact_def find_snoc)
  show thesis
  proof (rule that [OF run found row(3)])
    assume "\<not> (\<exists>r \<in> set (map snd redaction_patterns). re_search r (dump a))"
    then have "\<not> red_detected (redact (dump a) [])" by (simp add: det)
    with row t red0.clean_names show "ar_content row = Dumped a \<and> ar_redaction_state row = state \<and>
       db_redaction_events t = db_redaction_events s \<and>
       db_citations t = db_citations s @
         map (\<lambda>c. \<lparr>cr_artifact = ar_id row, cr_citation = c\<rparr>) (art_citations (base_of a))"
      by (simp add: content_citations_def)
  next
    assume "\<exists>r \<in> set (map snd redaction_patterns). re_search r (dump a)"
    then have d: "red_detected (redact (dump a) [])" by (simp add: det)
    then obtain n ns where "detector_names (redact (dump a) []) = n # ns"
      using redact_detected by (metis neq_Nil_conv)
    with d row t show "ar_content row = Blocked_Stub (blocked_stub (base_of a)) \<and>
       ar_redaction_state row = ''blocked'' \<and> db_citations t = db_citations s \<and>
       (\<exists>ev evs. db_redaction_events t = db_redaction_events s @ ev # evs \<and>
          (\<forall>e \<in> set (ev # evs). rv_content_hash e = sha256_hex (utf8 (dump a))))"
      by (simp add: stub_content redact_hash)
  next
    show "fst (store_artifact dump b kind' state' t) = Inl (IntegrityError ''uq_artifacts_run_kind'') \<or>
      (art_run_id (base_of b), kind') \<noteq> (art_run_id (base_of a), kind)"
      using row(1,2) t(1) by (auto simp: store_artifact_def Let_def)
  qed
qed

theorem stored_artifact_is_whole_or_blocked_witness:
  "\<exists>row t. store_artifact (\<lambda>_. ''password=0123456789abcdef'') (Scout_Artifact example_scout) ''scout'' ''clean''
       (empty_db 0) = (Inr row, t) \<and> ar_redaction_state row = ''blocked'' \<and> db_citations t = []"
proof (rule stored_artifact_is_whole_or_blocked
    [of "empty_db 0" "Scout_Artifact example_scout" "''scout''" "\<lambda>_. ''password=0123456789abcdef''" "''clean''"])
  show "get_artifact (empty_db 0) (art_run_id (base_of (Scout_Artifact example_scout))) ''scout'' = None"
    by (simp add: get_artifact_def empty_db_def)
next
  have secret: "\<exists>r \<in> set (map snd redaction_patterns). re_search r ''password=0123456789abcdef''"
    by code_simp
  fix row t
  assume run: "store_artifact (\<lambda>_. ''password=0123456789abcdef'') (Scout_Artifact example_scout) ''scout''
      ''clean'' (empty_db 0) = (Inr row, t)"
    and "\<exists>r \<in> set (map snd redaction_patterns). re_search r ''password=0123456789abcdef'' \<Longrightarrow>
       ar_content row = Blocked_Stub (blocked_stub (base_of (Scout_Artifact example_scout))) \<and>
       ar_redaction_state row = ''blocked'' \<and> db_citations t = db_citations (empty_db 0) \<and>
       (\<exists>ev evs. db_redaction_events t = db_redaction_events (empty_db 0) @ ev # evs \<and>
          (\<forall>e \<in> set (ev # evs). rv_content_hash e = sha256_hex (utf8 ''password=0123456789abcdef'')))"
  with secret have "ar_redaction_state row = ''blocked''" "db_citations t = db_citations (empty_db 0)"
    by blast+
  with run show ?thesis by (intro exI conjI) (simp_all add: empty_db_def)
qed

end
