(* ===== verification/CiPush.thy ===== *)
theory CiPush
  imports PushGate Artifacts PatchApply
begin

text \<open>
  \<open>runs/ci_push.py\<close> and the write path of \<open>gateway/github.py\<close>: the gate is evaluated, recorded and
  evaluated again, the head is read once more, and only then the writer is called. The writer is
  the protocol \<open>GitHubBranchWriter\<close>: two operations on a remote state, parameters here and
  instantiated by the GitHub App writer in the theory after this one. The state of a push is the
  database together with the remote. The clock is read again after the precheck: the time at which
  the gate is asked for the second time and the time written as that of the push are parameters.
\<close>

type_synonym 'w world = "db \<times> 'w"

definition on_db :: "(db, 'a) act \<Rightarrow> ('w world, 'a) act" where
  "on_db m s = (case m (fst s) of (r, t) \<Rightarrow> (r, (t, snd s)))"

definition on_remote :: "('w, 'a) act \<Rightarrow> ('w world, 'a) act" where
  "on_remote m s = (case m (snd s) of (r, w) \<Rightarrow> (r, (fst s, w)))"

record 'w branch_writer =
  head_sha :: "int \<Rightarrow> string \<Rightarrow> ('w, string) act"
  apply_unified_diff :: "int \<Rightarrow> string \<Rightarrow> string \<Rightarrow> string \<Rightarrow> string \<Rightarrow> ('w, string) act"

record validated_patch_request =
  vr_repository_id :: int
  vr_branch :: string
  vr_context :: push_context

definition apply_validated_patch ::
    "time \<Rightarrow> 'w branch_writer \<Rightarrow> validated_patch_request \<Rightarrow> patch_policy \<Rightarrow>
     (string \<Rightarrow> policy_result \<Rightarrow> (db, unit) act) \<Rightarrow> ('w world, string) act" where
  "apply_validated_patch recheck_at writer request policy audit =
    (let c = vr_context request; decision = evaluate_push_gate c policy recheck_at in
     then_act (on_db (audit ''ci_push_gate'' decision))
      (if pr_outcome decision \<noteq> ALLOW then throw (PermissionError (pr_reason_code decision))
       else bind_act (on_remote (head_sha writer (vr_repository_id request) (vr_branch request)))
        (\<lambda>head. if head \<noteq> pc_pinned_sha c
          then then_act (on_db (audit ''ci_exact_sha_recheck''
                 \<lparr>pr_outcome = DENY, pr_reason_code = ''stale_head_sha'',
                  pr_changed_paths = pr_changed_paths decision,
                  pr_input_hash = pr_input_hash decision\<rparr>))
               (throw (PermissionError ''stale_head_sha''))
          else bind_act (on_remote (apply_unified_diff writer (vr_repository_id request)
                 (vr_branch request) (pc_pinned_sha c) (pc_diff c) (pc_run_id c)))
               (\<lambda>result. then_act (on_db (audit ''ci_github_write'' decision)) (ret result)))))"

text \<open>What \<open>push_validated_patch\<close> is told besides the run and the patch.\<close>

record push_evidence =
  pe_branch :: string
  pe_observed_head_sha :: string
  pe_same_repository_branch :: bool
  pe_reproduction_passed :: bool
  pe_validation_passed :: bool
  pe_failure_class :: string

definition find_opt_in :: "db \<Rightarrow> int \<Rightarrow> int \<Rightarrow> pull_request_opt_in option" where
  "find_opt_in s repo pull =
     find (\<lambda>o_in. oi_repository_id o_in = repo \<and> oi_pull_number o_in = pull) (db_opt_ins s)"

definition push_context_of :: "run \<Rightarrow> int \<Rightarrow> patch_artifact \<Rightarrow> push_evidence \<Rightarrow> db \<Rightarrow> push_context" where
  "push_context_of r pull artifact ev s =
    \<lparr>pc_run_id = uuid_str (run_id r), pc_pinned_sha = run_pinned_sha r,
     pc_observed_head_sha = pe_observed_head_sha ev, pc_patch_base_sha = pa_base_sha artifact,
     pc_opt_in_expires_at = map_option oi_expires_at (find_opt_in s (run_repository_id r) pull),
     pc_same_repository_branch = pe_same_repository_branch ev,
     pc_reproduction_passed = pe_reproduction_passed ev,
     pc_validation_passed = pe_validation_passed ev, pc_failure_class = pe_failure_class ev,
     pc_attempt_count = int (length (filter (\<lambda>a. ar_run a = run_id r \<and> ar_kind a = ''patch'')
       (db_artifacts s))),
     pc_diff = pa_unified_diff artifact\<rparr>"

definition push_precheck ::
    "push_context \<Rightarrow> patch_artifact \<Rightarrow> patch_policy \<Rightarrow> time \<Rightarrow> policy_result" where
  "push_precheck c artifact policy now =
    (let decision = evaluate_push_gate c policy now in
     if pr_outcome decision = ALLOW \<and> set (pr_changed_paths decision) \<noteq> set (pa_changed_paths artifact)
     then \<lparr>pr_outcome = DENY, pr_reason_code = ''changed_paths_mismatch'',
           pr_changed_paths = pr_changed_paths decision, pr_input_hash = pr_input_hash decision\<rparr>
     else decision)"

definition refuse :: "uuid \<Rightarrow> run_status \<Rightarrow> string \<Rightarrow> string \<Rightarrow> ('w world, 'a option) act" where
  "refuse rid target reason actor =
    then_act (on_db (transition_run rid target reason actor [])) (ret None)"

definition push_write ::
    "time \<Rightarrow> time \<Rightarrow> 'w branch_writer \<Rightarrow> validated_patch_request \<Rightarrow> patch_policy \<Rightarrow> uuid \<Rightarrow> string \<Rightarrow>
     ('w world, string option) act" where
  "push_write recheck_at pushed_at writer request policy rid actor =
    try_else (apply_validated_patch recheck_at writer request policy (record_decision rid))
      (\<lambda>e. case e of PermissionError msg \<Rightarrow> refuse rid REFUSED msg actor | _ \<Rightarrow> throw e)
      (\<lambda>commit.
        then_act (on_db (transition_run rid SUCCEEDED ''validated_patch_pushed'' actor
             [(''commit_sha'', commit), (''pushed_at'', isoformat_utc pushed_at)]))
          (ret (Some commit)))"

definition push_gated ::
    "(any_artifact \<Rightarrow> string) \<Rightarrow> time \<Rightarrow> time \<Rightarrow> run \<Rightarrow> int \<Rightarrow> patch_artifact \<Rightarrow> push_evidence \<Rightarrow>
     'w branch_writer \<Rightarrow> patch_policy \<Rightarrow> string \<Rightarrow> ('w world, string option) act" where
  "push_gated dump recheck_at pushed_at r pull artifact ev writer policy actor = with_state (\<lambda>s.
    (let rid = run_id r; c = push_context_of r pull artifact ev (fst s);
         decision = push_precheck c artifact policy (db_now (fst s))
     in then_act (on_db (record_decision rid ''ci_push_precheck'' decision))
       (then_act (on_db (store_artifact dump (Patch_Artifact artifact) ''patch'' ''clean''))
       (if pr_outcome decision = DENY
        then refuse rid (if pr_reason_code decision = ''stale_head_sha'' then SUPERSEDED else REFUSED)
               (pr_reason_code decision) actor
        else then_act (on_db (transition_run rid READY_TO_PUSH ''ci_push_precheck_passed'' actor []))
            (then_act (on_db (transition_run rid PUSHING ''ci_exact_sha_recheck_started'' actor []))
            (push_write recheck_at pushed_at writer \<lparr>vr_repository_id = run_repository_id r, vr_branch = pe_branch ev,
               vr_context = c\<rparr> policy rid actor))))))"

definition push_validated_patch ::
    "(any_artifact \<Rightarrow> string) \<Rightarrow> time \<Rightarrow> time \<Rightarrow> uuid \<Rightarrow> patch_artifact \<Rightarrow> push_evidence \<Rightarrow> 'w branch_writer \<Rightarrow>
     patch_policy \<Rightarrow> string \<Rightarrow> ('w world, string option) act" where
  "push_validated_patch dump recheck_at pushed_at rid artifact ev writer policy actor =
    bind_act (on_db (with_run rid ret)) (\<lambda>r.
      if run_role r \<noteq> CI \<or> run_status r \<noteq> EVALUATING
      then throw (ValueError ''only evaluating CI runs can enter the push gate'')
      else if art_run_id artifact \<noteq> run_id r \<or> art_pinned_sha artifact \<noteq> run_pinned_sha r
      then throw (ValueError ''patch artifact identity does not match the durable run'')
      else (case run_pull_number r of
         None \<Rightarrow> refuse rid REFUSED ''missing_pull_request_branch'' actor
       | Some pull \<Rightarrow>
          if pe_branch ev = [] then refuse rid REFUSED ''missing_pull_request_branch'' actor
          else push_gated dump recheck_at pushed_at r pull artifact ev writer policy actor))"

section \<open>The steps of a push\<close>

lemma on_db_run: "m (fst s) = (r, t) \<Longrightarrow> on_db m s = (r, (t, snd s))"
  by (simp add: on_db_def)

lemma on_remote_run: "m (snd s) = (r, w) \<Longrightarrow> on_remote m s = (r, (fst s, w))"
  by (simp add: on_remote_def)

lemma keeps_on_db [keeps_intros]: "keeps I m \<Longrightarrow> keeps (\<lambda>s. I (fst s)) (on_db m)"
  by (auto simp: keeps_def on_db_def split: prod.splits)

lemma keeps_on_remote [keeps_intros]: "keeps (\<lambda>s. I (fst s)) (on_remote m)"
  by (auto simp: keeps_def on_remote_def split: prod.splits)

lemma record_decision_run:
  "record_decision rid name result s = (Inr (), snd (record_decision rid name result s))"
  by (simp add: record_decision_def)

lemma record_decision_frame [simp]:
  "find_run (snd (record_decision rid name result s)) i = find_run s i"
  "db_now (snd (record_decision rid name result s)) = db_now s"
  "db_artifacts (snd (record_decision rid name result s)) = db_artifacts s"
  by (simp_all add: record_decision_def find_run_def)

lemma store_artifact_frame [simp]:
  "find_run (snd (store_artifact dump a kind state s)) i = find_run s i"
  "db_now (snd (store_artifact dump a kind state s)) = db_now s"
  by (simp_all add: store_artifact_def find_run_def Let_def)

lemma record_decision_same_runs: "same_runs s (snd (record_decision rid name result s))"
  by (simp add: record_decision_def same_runs_def)

context run_invariant
begin

lemma keeps_record_decision: "keeps I (record_decision rid name result)"
  by (auto simp: keeps_def intro: keeps_same_runs [OF record_decision_same_runs])

lemma keeps_apply_validated:
  "keeps (\<lambda>s. I (fst s)) (apply_validated_patch recheck_at writer request policy (record_decision rid))"
  unfolding apply_validated_patch_def Let_def by (intro keeps_intros keeps_record_decision)

lemma keeps_push_validated_patch:
  "keeps (\<lambda>s. I (fst s)) (push_validated_patch dump recheck_at pushed_at rid artifact ev writer policy actor)"
proof -
  have refuse: "keeps (\<lambda>s. I (fst s)) (refuse i target reason actor)" for i target reason
    unfolding refuse_def by (intro keeps_intros keeps_transition)
  have written: "keeps (\<lambda>s. I (fst s)) (push_write recheck_at pushed_at writer request policy i actor)" for request i
    unfolding push_write_def
    by (intro keeps_intros keeps_transition keeps_apply_validated)
      (auto intro: keeps_throw refuse split: exn.splits)
  show ?thesis
    unfolding push_validated_patch_def push_gated_def Let_def
    by (auto intro!: keeps_intros keeps_transition keeps_record_decision keeps_store_artifact refuse written
        split: option.splits)
qed

end

lemma apply_validated_denied:
  assumes "pr_outcome (evaluate_push_gate (vr_context q) policy recheck_at) = DENY"
  shows "apply_validated_patch recheck_at writer q policy (record_decision rid) (d, w) =
    (Inl (PermissionError (pr_reason_code (evaluate_push_gate (vr_context q) policy recheck_at))),
     (snd (record_decision rid ''ci_push_gate'' (evaluate_push_gate (vr_context q) policy recheck_at) d), w))"
  using assms
  by (simp add: apply_validated_patch_def Let_def then_act_def bind_act_def on_db_def record_decision_def)

lemma apply_validated_allowed:
  assumes "pr_outcome (evaluate_push_gate (vr_context q) policy recheck_at) = ALLOW"
    and "apply_validated_patch recheck_at writer q policy (record_decision rid) (d, w) = (res, (d', w'))"
  obtains (read_fails) e where "head_sha writer (vr_repository_id q) (vr_branch q) w = (Inl e, w')"
      "res = Inl e"
  | (stale) head where "head_sha writer (vr_repository_id q) (vr_branch q) w = (Inr head, w')"
      "head \<noteq> pc_pinned_sha (vr_context q)" "res = Inl (PermissionError ''stale_head_sha'')"
  | (written) w1 where
      "head_sha writer (vr_repository_id q) (vr_branch q) w = (Inr (pc_pinned_sha (vr_context q)), w1)"
      "apply_unified_diff writer (vr_repository_id q) (vr_branch q) (pc_pinned_sha (vr_context q))
         (pc_diff (vr_context q)) (pc_run_id (vr_context q)) w1 = (res, w')"
  using assms
  by (auto simp: apply_validated_patch_def Let_def then_act_def bind_act_def on_db_def on_remote_def
      record_decision_def split: prod.splits sum.splits if_splits)

lemma apply_validated_frame:
  assumes "apply_validated_patch recheck_at writer q policy (record_decision rid) (d, w) = (res, (d', w'))"
  shows "find_run d' i = find_run d i \<and> db_now d' = db_now d"
  using assms
  by (auto simp: apply_validated_patch_def Let_def then_act_def bind_act_def on_db_def on_remote_def
      record_decision_def find_run_def split: prod.splits sum.splits if_splits)

lemma refuse_remote: "refuse rid target reason actor (d, w) = (res, (d', w')) \<Longrightarrow> w' = w \<and> (\<forall>x. res \<noteq> Inr (Some x))"
  by (auto simp: refuse_def then_act_def bind_act_def on_db_def split: prod.splits sum.splits)

text \<open>What a push has before it asks the gate: a run, its pull request and the patch of that run.\<close>

definition push_admitted :: "db \<Rightarrow> uuid \<Rightarrow> patch_artifact \<Rightarrow> push_evidence \<Rightarrow> run \<Rightarrow> int \<Rightarrow> bool" where
  "push_admitted d rid artifact ev r pull \<longleftrightarrow> find_run d rid = Some r \<and> run_role r = CI \<and>
     run_status r = EVALUATING \<and> art_run_id artifact = rid \<and> art_pinned_sha artifact = run_pinned_sha r \<and>
     run_pull_number r = Some pull \<and> pe_branch ev \<noteq> []"

lemma push_validated_gated:
  "push_admitted d rid artifact ev r pull \<Longrightarrow>
   push_validated_patch dump recheck_at pushed_at rid artifact ev writer policy actor (d, w) =
     push_gated dump recheck_at pushed_at r pull artifact ev writer policy actor (d, w)"
  by (auto simp: push_validated_patch_def push_admitted_def bind_act_def on_db_def with_run_def
      dest: find_run_Some)

lemma push_not_admitted:
  assumes "\<And>r pull. \<not> push_admitted d rid artifact ev r pull"
    and "push_validated_patch dump recheck_at pushed_at rid artifact ev writer policy actor (d, w) = (res, (d', w'))"
  shows "w' = w \<and> (\<forall>x. res \<noteq> Inr (Some x))"
proof (cases "find_run d rid")
  case None
  with assms(2) show ?thesis
    by (auto simp: push_validated_patch_def bind_act_def on_db_def with_run_def)
next
  case (Some r)
  then have "run_id r = rid" by (auto dest: find_run_Some)
  with Some assms(2) assms(1) [of r] show ?thesis
    by (auto simp: push_validated_patch_def bind_act_def on_db_def with_run_def push_admitted_def
        split: if_splits option.splits dest: refuse_remote)
qed

definition prechecked :: "(any_artifact \<Rightarrow> string) \<Rightarrow> uuid \<Rightarrow> patch_artifact \<Rightarrow> policy_result \<Rightarrow> db \<Rightarrow> db" where
  "prechecked dump rid artifact decision d =
     snd (store_artifact dump (Patch_Artifact artifact) ''patch'' ''clean''
       (snd (record_decision rid ''ci_push_precheck'' decision d)))"

lemma find_run_prechecked [simp]:
  "find_run (prechecked dump rid artifact decision d) i = find_run d i"
  "db_now (prechecked dump rid artifact decision d) = db_now d"
  by (simp_all add: prechecked_def)

lemma store_patch_first:
  assumes "get_artifact d (art_run_id artifact) ''patch'' = None"
  obtains row where "store_artifact dump (Patch_Artifact artifact) ''patch'' ''clean''
       (snd (record_decision rid ''ci_push_precheck'' decision d)) =
     (Inr row, prechecked dump rid artifact decision d)"
  using assms
  by (auto simp: prechecked_def store_artifact_def Let_def get_artifact_None artifact_base.truncate_def)

lemma store_patch_again:
  assumes "get_artifact d (art_run_id artifact) ''patch'' \<noteq> None"
  shows "store_artifact dump (Patch_Artifact artifact) ''patch'' ''clean''
       (snd (record_decision rid ''ci_push_precheck'' decision d)) =
     (Inl (IntegrityError ''uq_artifacts_run_kind''),
      snd (record_decision rid ''ci_push_precheck'' decision d))"
proof -
  have "list_ex (\<lambda>r. ar_run r = art_run_id artifact \<and> ar_kind r = ''patch'') (db_artifacts d)"
    using assms unfolding get_artifact_None by simp
  then show ?thesis
    by (simp add: store_artifact_def Let_def artifact_base.truncate_def)
qed

lemma push_gated_run:
  assumes adm: "push_admitted d rid artifact ev r pull"
    and first: "get_artifact d rid ''patch'' = None"
    and decision: "decision = push_precheck (push_context_of r pull artifact ev d) artifact policy (db_now d)"
  shows "push_gated dump recheck_at pushed_at r pull artifact ev writer policy actor (d, w) =
    (let d2 = prechecked dump rid artifact decision d in
     if pr_outcome decision = DENY
     then (Inr None, (moved rid EVALUATING
            (if pr_reason_code decision = ''stale_head_sha'' then SUPERSEDED else REFUSED)
            (pr_reason_code decision) actor [] d2, w))
     else push_write recheck_at pushed_at writer \<lparr>vr_repository_id = run_repository_id r, vr_branch = pe_branch ev,
            vr_context = push_context_of r pull artifact ev d\<rparr> policy rid actor
          (moved rid READY_TO_PUSH PUSHING ''ci_exact_sha_recheck_started'' actor []
             (moved rid EVALUATING READY_TO_PUSH ''ci_push_precheck_passed'' actor [] d2), w))"
proof -
  have rid: "run_id r = rid" and found: "find_run d rid = Some r" and st: "run_status r = EVALUATING"
    and own: "art_run_id artifact = rid"
    using adm by (auto simp: push_admitted_def dest: find_run_Some)
  let ?d2 = "prechecked dump rid artifact decision d"
  let ?d3 = "moved rid EVALUATING READY_TO_PUSH ''ci_push_precheck_passed'' actor [] ?d2"
  obtain row where stored: "store_artifact dump (Patch_Artifact artifact) ''patch'' ''clean''
       (snd (record_decision rid ''ci_push_precheck'' decision d)) = (Inr row, ?d2)"
    using first own by (auto intro: store_patch_first [of d artifact])
  have deny: "transition_run rid (if b then SUPERSEDED else REFUSED) reason actor [] ?d2 =
      (Inr (), moved rid EVALUATING (if b then SUPERSEDED else REFUSED) reason actor [] ?d2)" for b reason
    using transition_run_moved [of ?d2 rid r] found st by simp
  have ready: "transition_run rid READY_TO_PUSH reason actor [] ?d2 =
      (Inr (), moved rid EVALUATING READY_TO_PUSH reason actor [] ?d2)" for reason
    using transition_run_moved [of ?d2 rid r READY_TO_PUSH] found st by simp
  have pushing: "transition_run rid PUSHING reason actor [] ?d3 =
      (Inr (), moved rid READY_TO_PUSH PUSHING reason actor [] ?d3)" for reason
    using transition_run_moved [of ?d3 rid "set_status (db_now d) READY_TO_PUSH r" PUSHING] found
    by (simp add: find_run_moved)
  show ?thesis
    unfolding push_gated_def with_state_app Let_def rid fst_conv decision [symmetric]
    by (subst then_act_Inr, rule on_db_run, rule record_decision_run,
        subst then_act_Inr, rule on_db_run, simp only: fst_conv snd_conv, rule stored)
      (simp add: refuse_def then_act_def bind_act_def on_db_def deny ready pushing)
qed

lemma push_gated_again:
  assumes adm: "push_admitted d rid artifact ev r pull" and again: "get_artifact d rid ''patch'' \<noteq> None"
  shows "\<exists>d'. push_gated dump recheck_at pushed_at r pull artifact ev writer policy actor (d, w) =
      (Inl (IntegrityError ''uq_artifacts_run_kind''), (d', w)) \<and> find_run d' rid = Some r"
proof -
  have own: "art_run_id artifact = rid" "run_id r = rid" "find_run d rid = Some r"
    using adm by (auto simp: push_admitted_def dest: find_run_Some)
  define decision where
    "decision = push_precheck (push_context_of r pull artifact ev d) artifact policy (db_now d)"
  let ?d1 = "snd (record_decision rid ''ci_push_precheck'' decision d)"
  have "push_gated dump recheck_at pushed_at r pull artifact ev writer policy actor (d, w) =
      (Inl (IntegrityError ''uq_artifacts_run_kind''), (?d1, w))"
    unfolding push_gated_def with_state_app Let_def fst_conv own(2) decision_def [symmetric]
    by (subst then_act_Inr, rule on_db_run, rule record_decision_run)
      (use again own(1) store_patch_again [of d artifact]
        in \<open>simp add: then_act_def bind_act_def on_db_def\<close>)
  with own(3) show ?thesis by (intro exI [of _ ?d1]) simp
qed

lemma push_write_result:
  assumes "push_write recheck_at pushed_at writer q policy rid actor (d, w) = (res, (d', w'))"
    and "pr_outcome (evaluate_push_gate (vr_context q) policy recheck_at) = ALLOW"
    and "res = Inr (Some commit)"
  obtains w1 where
      "head_sha writer (vr_repository_id q) (vr_branch q) w = (Inr (pc_pinned_sha (vr_context q)), w1)"
      "apply_unified_diff writer (vr_repository_id q) (vr_branch q) (pc_pinned_sha (vr_context q))
         (pc_diff (vr_context q)) (pc_run_id (vr_context q)) w1 = (Inr commit, w')"
      "\<exists>x. find_run d' rid = Some x \<and> run_status x = SUCCEEDED"
proof -
  obtain r1 d1 w1 where applied: "apply_validated_patch recheck_at writer q policy (record_decision rid) (d, w) = (r1, (d1, w1))"
    by (metis prod.exhaust)
  show thesis
  proof (cases r1)
    case (Inl e)
    with applied assms(1,3) show thesis
      by (cases e) (auto simp: push_write_def dest: refuse_remote)
  next
    case (Inr c)
    with applied assms(1,3) obtain md where
      tr: "transition_run rid SUCCEEDED ''validated_patch_pushed'' actor md d1 = (Inr (), d')"
      and same: "w1 = w'" "c = commit"
      by (auto simp: push_write_def then_act_def bind_act_def on_db_def split: prod.splits sum.splits)
    from tr obtain x where "find_run d' rid = Some x" "run_status x = SUCCEEDED"
    proof (cases rule: transition_run_cases)
      case (moved r)
      then have "find_run d' rid = Some (set_status (db_now d1) SUCCEEDED r)"
        by (simp add: moved_def [symmetric] find_run_moved)
      with that show thesis by simp
    qed simp_all
    with applied [unfolded Inr] same show thesis
      by (cases rule: apply_validated_allowed [OF assms(2)]) (use that in auto)
  qed
qed

lemma precheck_allows:
  "pr_outcome (push_precheck c artifact policy now) \<noteq> DENY \<longleftrightarrow>
     pr_outcome (evaluate_push_gate c policy now) = ALLOW \<and>
     set (pr_changed_paths (evaluate_push_gate c policy now)) = set (pa_changed_paths artifact)"
  by (cases "pr_outcome (evaluate_push_gate c policy now)") (auto simp: push_precheck_def Let_def)

lemma push_write_denied:
  assumes "push_write recheck_at pushed_at writer q policy rid actor (d, w) = (res, (d', w'))"
    and "pr_outcome (evaluate_push_gate (vr_context q) policy recheck_at) \<noteq> ALLOW"
  shows "w' = w \<and> (\<forall>x. res \<noteq> Inr (Some x))"
proof -
  have "pr_outcome (evaluate_push_gate (vr_context q) policy recheck_at) = DENY"
    using assms(2) by (cases "pr_outcome (evaluate_push_gate (vr_context q) policy recheck_at)") auto
  from apply_validated_denied [OF this, of writer rid d w] assms(1) show ?thesis
    by (auto simp: push_write_def dest: refuse_remote)
qed

text \<open>A push that has touched the remote, or returns a commit, has passed the gate, both times.\<close>

lemma push_gate_passed:
  assumes "push_validated_patch dump recheck_at pushed_at rid artifact ev writer policy actor (d, w) = (res, (d', w'))"
    and "w' \<noteq> w \<or> res = Inr (Some commit)"
  shows "\<exists>r pull. push_admitted d rid artifact ev r pull \<and> get_artifact d rid ''patch'' = None \<and>
    pr_outcome (evaluate_push_gate (push_context_of r pull artifact ev d) policy (db_now d)) = ALLOW \<and>
    pr_outcome (evaluate_push_gate (push_context_of r pull artifact ev d) policy recheck_at) = ALLOW \<and>
    set (pr_changed_paths (evaluate_push_gate (push_context_of r pull artifact ev d) policy (db_now d))) =
      set (pa_changed_paths artifact)"
proof -
  obtain r pull where adm: "push_admitted d rid artifact ev r pull"
    using push_not_admitted [OF _ assms(1)] assms(2) by blast
  note run = assms(1) [unfolded push_validated_gated [OF adm]]
  have own: "art_run_id artifact = rid" "run_id r = rid"
    using adm by (auto simp: push_admitted_def dest: find_run_Some)
  have first: "get_artifact d rid ''patch'' = None"
  proof (rule ccontr)
    assume "get_artifact d rid ''patch'' \<noteq> None"
    from push_gated_again [OF adm this, of dump recheck_at pushed_at writer policy actor w] run assms(2) show False by auto
  qed
  define decision where
    "decision = push_precheck (push_context_of r pull artifact ev d) artifact policy (db_now d)"
  have allowed: "pr_outcome decision \<noteq> DENY"
    using run assms(2) unfolding push_gated_run [OF adm first decision_def] by (auto simp: Let_def)
  moreover have "pr_outcome (evaluate_push_gate (push_context_of r pull artifact ev d) policy recheck_at) = ALLOW"
  proof (rule ccontr)
    assume deny: "pr_outcome (evaluate_push_gate (push_context_of r pull artifact ev d) policy recheck_at) \<noteq> ALLOW"
    from run allowed obtain d4 where "push_write recheck_at pushed_at writer
        \<lparr>vr_repository_id = run_repository_id r, vr_branch = pe_branch ev,
         vr_context = push_context_of r pull artifact ev d\<rparr> policy rid actor (d4, w) = (res, (d', w'))"
      unfolding push_gated_run [OF adm first decision_def] by (auto simp: Let_def)
    from push_write_denied [OF this] deny assms(2) show False by auto
  qed
  ultimately show ?thesis
    using adm first unfolding decision_def precheck_allows by blast
qed

text \<open>
  C1: Nothing reaches the remote branch but through the gate: if a push has touched the remote or
  returns a commit, the run is a CI run in \<open>evaluating\<close> that owns the patch and names a pull
  request, it has no stored patch from before, the gate allows the push in the context built from
  the run, its opt-in and the evidence, when it is asked first and when it is asked again right
  before the head is read, and the diff changes exactly the paths the artifact
  declares.
\<close>

theorem push_reaches_remote_only_through_gate:
  assumes "push_validated_patch dump recheck_at pushed_at rid artifact ev writer policy actor (d, w) = (res, (d', w'))"
    and "w' \<noteq> w \<or> res = Inr (Some commit)"
  shows "\<exists>r pull. push_admitted d rid artifact ev r pull \<and> get_artifact d rid ''patch'' = None \<and>
    pr_outcome (evaluate_push_gate (push_context_of r pull artifact ev d) policy (db_now d)) = ALLOW \<and>
    pr_outcome (evaluate_push_gate (push_context_of r pull artifact ev d) policy recheck_at) = ALLOW \<and>
    set (pr_changed_paths (evaluate_push_gate (push_context_of r pull artifact ev d) policy (db_now d))) =
      set (pa_changed_paths artifact)"
  by (rule push_gate_passed [OF assms])

text \<open>
  C2: A push that returns a commit has read the branch head as the pinned SHA after the gate was
  passed, and the commit is the writer's answer for exactly that repository, branch, base SHA,
  diff and run, asked in the remote state the read left; the run has \<open>succeeded\<close>.
\<close>

theorem pushed_commit_is_for_pinned_head:
  assumes "push_validated_patch dump recheck_at pushed_at rid artifact ev writer policy actor (d, w) =
      (Inr (Some commit), (d', w'))"
  shows "\<exists>r w1 x. find_run d rid = Some r \<and>
    head_sha writer (run_repository_id r) (pe_branch ev) w = (Inr (run_pinned_sha r), w1) \<and>
    apply_unified_diff writer (run_repository_id r) (pe_branch ev) (run_pinned_sha r)
      (pa_unified_diff artifact) (uuid_str rid) w1 = (Inr commit, w') \<and>
    find_run d' rid = Some x \<and> run_status x = SUCCEEDED"
proof -
  obtain r pull where adm: "push_admitted d rid artifact ev r pull"
    using push_not_admitted [OF _ assms] by blast
  have own: "art_run_id artifact = rid" "run_id r = rid" "find_run d rid = Some r"
    using adm by (auto simp: push_admitted_def dest: find_run_Some)
  note run = assms [unfolded push_validated_gated [OF adm]]
  have first: "get_artifact d rid ''patch'' = None"
  proof (rule ccontr)
    assume "get_artifact d rid ''patch'' \<noteq> None"
    from push_gated_again [OF adm this, of dump recheck_at pushed_at writer policy actor w] run show False by auto
  qed
  define c where "c = push_context_of r pull artifact ev d"
  define decision where "decision = push_precheck c artifact policy (db_now d)"
  note gated = push_gated_run [OF adm first decision_def [unfolded c_def]]
  let ?q = "\<lparr>vr_repository_id = run_repository_id r, vr_branch = pe_branch ev, vr_context = c\<rparr>"
  have allowed: "pr_outcome decision \<noteq> DENY"
    using run unfolding gated by (auto simp: Let_def)
  have gate: "pr_outcome (evaluate_push_gate c policy recheck_at) = ALLOW"
    using push_gate_passed [OF assms disjI2 [OF refl]] adm by (auto simp: c_def push_admitted_def)
  define d4 where "d4 = moved rid READY_TO_PUSH PUSHING ''ci_exact_sha_recheck_started'' actor []
      (moved rid EVALUATING READY_TO_PUSH ''ci_push_precheck_passed'' actor []
        (prechecked dump rid artifact decision d))"
  have written: "push_write recheck_at pushed_at writer ?q policy rid actor (d4, w) = (Inr (Some commit), (d', w'))"
    using run allowed unfolding gated c_def [symmetric] d4_def by (simp add: Let_def)
  from push_write_result [OF written _ refl] gate obtain w1 where
    "head_sha writer (run_repository_id r) (pe_branch ev) w = (Inr (pc_pinned_sha c), w1)"
    "apply_unified_diff writer (run_repository_id r) (pe_branch ev) (pc_pinned_sha c)
       (pc_diff c) (pc_run_id c) w1 = (Inr commit, w')"
    "\<exists>x. find_run d' rid = Some x \<and> run_status x = SUCCEEDED"
    by auto
  with own show ?thesis by (auto simp: c_def push_context_of_def)
qed

text \<open>
  The gate's reason \<open>one_attempt_policy\<close> is never recorded by this flow as a refusal of the
  run: when a patch of the run has been stored before, storing the new one violates the unique
  constraint, so the call raises \<open>IntegrityError\<close> after the decision, the remote is not touched and
  the run stays in \<open>evaluating\<close>.
\<close>

theorem second_attempt_raises:
  assumes "push_admitted d rid artifact ev r pull" and "get_artifact d rid ''patch'' \<noteq> None"
  shows "\<exists>d'. push_validated_patch dump recheck_at pushed_at rid artifact ev writer policy actor (d, w) =
      (Inl (IntegrityError ''uq_artifacts_run_kind''), (d', w)) \<and> find_run d' rid = Some r"
  unfolding push_validated_gated [OF assms(1)] using assms by (rule push_gated_again)

lemma push_write_succeeds:
  assumes "pr_outcome (evaluate_push_gate (vr_context q) policy recheck_at) = ALLOW"
    and "head_sha writer (vr_repository_id q) (vr_branch q) w = (Inr (pc_pinned_sha (vr_context q)), w1)"
    and "apply_unified_diff writer (vr_repository_id q) (vr_branch q) (pc_pinned_sha (vr_context q))
         (pc_diff (vr_context q)) (pc_run_id (vr_context q)) w1 = (Inr commit, w2)"
    and "find_run d rid = Some r" and "run_status r = PUSHING"
  shows "\<exists>d'. push_write recheck_at pushed_at writer q policy rid actor (d, w) = (Inr (Some commit), (d', w2))"
proof -
  obtain d1 where applied: "apply_validated_patch recheck_at writer q policy (record_decision rid) (d, w) = (Inr commit, (d1, w2))"
    using assms(1-3)
    by (simp add: apply_validated_patch_def Let_def then_act_def bind_act_def on_db_def on_remote_def
        record_decision_def)
  with apply_validated_frame [of recheck_at writer q policy rid d w] assms(4) have "find_run d1 rid = Some r" by metis
  with transition_run_moved [of d1 rid r SUCCEEDED "''validated_patch_pushed''" actor] assms(5)
  show ?thesis
    by (simp add: push_write_def try_else_def applied then_act_def bind_act_def on_db_def)
qed

lemma allowed_push:
  assumes adm: "push_admitted d rid artifact ev r pull" and first: "get_artifact d rid ''patch'' = None"
    and gate: "pr_outcome (evaluate_push_gate (push_context_of r pull artifact ev d) policy (db_now d)) = ALLOW"
    and still: "pr_outcome (evaluate_push_gate (push_context_of r pull artifact ev d) policy recheck_at) = ALLOW"
    and paths: "set (changed_paths (pa_unified_diff artifact)) = set (pa_changed_paths artifact)"
    and head: "head_sha writer (run_repository_id r) (pe_branch ev) w = (Inr (run_pinned_sha r), w1)"
    and applied: "apply_unified_diff writer (run_repository_id r) (pe_branch ev) (run_pinned_sha r)
      (pa_unified_diff artifact) (uuid_str rid) w1 = (Inr commit, w2)"
  shows "\<exists>d'. push_validated_patch dump recheck_at pushed_at rid artifact ev writer policy actor (d, w) =
    (Inr (Some commit), (d', w2))"
proof -
  have own: "run_id r = rid" "find_run d rid = Some r"
    using adm by (auto simp: push_admitted_def dest: find_run_Some)
  define c where "c = push_context_of r pull artifact ev d"
  have c: "pc_pinned_sha c = run_pinned_sha r" "pc_diff c = pa_unified_diff artifact"
    "pc_run_id c = uuid_str rid"
    by (simp_all add: c_def push_context_of_def own)
  note gate' = gate [folded c_def]
  have "pr_changed_paths (evaluate_push_gate c policy (db_now d)) = changed_paths (pc_diff c)"
    using gate' validate_unified_diff_paths [of "pc_diff c" policy] push_gate_allow_iff [of c policy]
    by (auto simp: evaluate_push_gate_def Let_def)
  then have allowed: "pr_outcome (push_precheck c artifact policy (db_now d)) \<noteq> DENY"
    unfolding precheck_allows using gate' paths c by simp
  define decision where "decision = push_precheck c artifact policy (db_now d)"
  define d4 where "d4 = moved rid READY_TO_PUSH PUSHING ''ci_exact_sha_recheck_started'' actor []
      (moved rid EVALUATING READY_TO_PUSH ''ci_push_precheck_passed'' actor []
        (prechecked dump rid artifact decision d))"
  let ?q = "\<lparr>vr_repository_id = run_repository_id r, vr_branch = pe_branch ev, vr_context = c\<rparr>"
  have "push_gated dump recheck_at pushed_at r pull artifact ev writer policy actor (d, w) =
      push_write recheck_at pushed_at writer ?q policy rid actor (d4, w)"
    using push_gated_run [OF adm first decision_def [unfolded c_def], folded c_def] allowed
    by (simp add: decision_def [symmetric] d4_def Let_def)
  moreover have "\<exists>d'. push_write recheck_at pushed_at writer ?q policy rid actor (d4, w) = (Inr (Some commit), (d', w2))"
  proof (rule push_write_succeeds)
    show "find_run d4 rid = Some (set_status (db_now d) PUSHING (set_status (db_now d) READY_TO_PUSH r))"
      by (simp add: d4_def find_run_moved own)
  qed (use still [folded c_def] head applied c in \<open>simp_all add: d4_def\<close>)
  ultimately show ?thesis by (simp add: push_validated_gated [OF adm])
qed

text \<open>
  A push that the gate allows both times goes through: for an admitted run without a stored patch whose
  diff changes exactly the declared paths, when the branch head is still the pinned SHA and the
  writer returns a commit, the push returns that commit and the remote is left as the writer left
  it.
\<close>

theorem allowed_push_succeeds:
  assumes adm: "push_admitted d rid artifact ev r pull" and first: "get_artifact d rid ''patch'' = None"
    and gate: "pr_outcome (evaluate_push_gate (push_context_of r pull artifact ev d) policy (db_now d)) = ALLOW"
    and still: "pr_outcome (evaluate_push_gate (push_context_of r pull artifact ev d) policy recheck_at) = ALLOW"
    and paths: "set (changed_paths (pa_unified_diff artifact)) = set (pa_changed_paths artifact)"
    and head: "head_sha writer (run_repository_id r) (pe_branch ev) w = (Inr (run_pinned_sha r), w1)"
    and applied: "apply_unified_diff writer (run_repository_id r) (pe_branch ev) (run_pinned_sha r)
      (pa_unified_diff artifact) (uuid_str rid) w1 = (Inr commit, w2)"
  shows "\<exists>d'. push_validated_patch dump recheck_at pushed_at rid artifact ev writer policy actor (d, w) =
    (Inr (Some commit), (d', w2))"
  using assms by (rule allowed_push)

section \<open>A concrete push\<close>

text \<open>
  A CI run taken to \<open>evaluating\<close> by the run service, with an opt-in for its pull request, and a
  writer that counts its calls.
\<close>

definition evaluating_db :: db where
  "evaluating_db = (snd (then_act (transition_run 0 LEASED ''worker_claimed'' ''worker:a'' [])
     (then_act (transition_run 0 SNAPSHOTTING ''check_evidence_policy_checked'' ''worker'' [])
     (then_act (transition_run 0 RUNNING ''ci_diagnosis_started'' ''worker'' [])
     (transition_run 0 EVALUATING ''ci_diagnosis_validated'' ''worker'' [])))
     (update_run 0 (\<lambda>r. r\<lparr>run_pull_number := Some 7\<rparr>) one_queued)))
     \<lparr>db_opt_ins := [\<lparr>oi_repository_id = 11, oi_pull_number = 7, oi_expires_at = seconds 50\<rparr>]\<rparr>"

definition example_recipe :: recipe_evidence where
  "example_recipe = \<lparr>re_recipe_name = ''test'', re_image_digest = ''sha256:0'', re_exit_code = 0,
     re_started_at = 0, re_finished_at = 1, re_output_hash = replicate 64 (CHR ''0'')\<rparr>"

definition example_patch :: patch_artifact where
  "example_patch = \<lparr>art_schema_version = ''1'', art_run_id = 0, art_role = CI,
     art_pinned_sha = example_sha, art_created_at = 0, art_claims = [], art_unknowns = [],
     art_citations = [], pa_base_sha = example_sha, pa_unified_diff = example_diff,
     pa_changed_paths = [''src/x.py''], pa_patch_hash = replicate 64 (CHR ''0''),
     pa_reproduction = example_recipe, pa_validation = example_recipe, pa_policy_result = ''allow''\<rparr>"

definition example_evidence :: push_evidence where
  "example_evidence = \<lparr>pe_branch = ''fix'', pe_observed_head_sha = example_sha,
     pe_same_repository_branch = True, pe_reproduction_passed = True, pe_validation_passed = True,
     pe_failure_class = ''repository''\<rparr>"

definition counting_writer :: "nat branch_writer" where
  "counting_writer = \<lparr>head_sha = (\<lambda>_ _ n. (Inr example_sha, n + 1)),
     apply_unified_diff = (\<lambda>_ _ _ _ _ n. (Inr ''c0ffee'', n + 1))\<rparr>"

lemma evaluating_run:
  "push_admitted evaluating_db 0 example_patch example_evidence (the (find_run evaluating_db 0)) 7"
  "run_repository_id (the (find_run evaluating_db 0)) = 11"
  "run_pinned_sha (the (find_run evaluating_db 0)) = example_sha"
  "get_artifact evaluating_db 0 ''patch'' = None"
  by code_simp+

lemma example_gate:
  assumes "now < seconds 50"
  shows "pr_outcome (evaluate_push_gate
     (push_context_of (the (find_run evaluating_db 0)) 7 example_patch example_evidence evaluating_db)
     example_policy now) = ALLOW" (is "pr_outcome (evaluate_push_gate ?c _ _) = _")
proof -
  have "map_option oi_expires_at (find_opt_in evaluating_db 11 7) = Some (seconds 50)"
    "filter (\<lambda>a. ar_run a = run_id (the (find_run evaluating_db 0)) \<and> ar_kind a = ''patch'')
       (db_artifacts evaluating_db) = []"
    by code_simp+
  then have "pc_opt_in_expires_at ?c = Some (seconds 50)"
    "pc_same_repository_branch ?c" "pc_observed_head_sha ?c = pc_pinned_sha ?c"
    "pc_patch_base_sha ?c = pc_pinned_sha ?c" "pc_failure_class ?c = ''repository''"
    "pc_reproduction_passed ?c" "pc_validation_passed ?c" "pc_attempt_count ?c = 0"
    and diff: "pc_diff ?c = example_diff"
    by (simp_all add: push_context_of_def evaluating_run example_evidence_def example_patch_def)
  moreover have "\<not> red_detected (redact (pc_diff ?c) [])"
    unfolding diff by (rule example_diff_clean)
  moreover have "pr_outcome (validate_unified_diff (pc_diff ?c) example_policy) = ALLOW"
    unfolding diff validate_unified_diff_allow by (intro conjI) code_simp+
  ultimately show ?thesis using assms unfolding push_gate_allow_iff by blast
qed

lemma example_times: "db_now evaluating_db < seconds 50" "seconds 1 < seconds 50"
  by code_simp+

lemma example_push_hyps:
  "set (changed_paths (pa_unified_diff example_patch)) = set (pa_changed_paths example_patch)"
  "head_sha counting_writer (run_repository_id (the (find_run evaluating_db 0)))
      (pe_branch example_evidence) 0 = (Inr (run_pinned_sha (the (find_run evaluating_db 0))), 1)"
  "apply_unified_diff counting_writer (run_repository_id (the (find_run evaluating_db 0)))
      (pe_branch example_evidence) (run_pinned_sha (the (find_run evaluating_db 0)))
      (pa_unified_diff example_patch) (uuid_str 0) 1 = (Inr ''c0ffee'', 2)"
proof -
  show "set (changed_paths (pa_unified_diff example_patch)) = set (pa_changed_paths example_patch)"
    by code_simp
qed (simp_all add: counting_writer_def evaluating_run)

theorem allowed_push_succeeds_witness:
  "\<exists>d'. push_validated_patch (\<lambda>_. []) (seconds 1) (seconds 2) 0 example_patch example_evidence counting_writer example_policy
     ''worker'' (evaluating_db, 0) = (Inr (Some ''c0ffee''), (d', 2))"
  by (rule allowed_push_succeeds [OF evaluating_run(1,4) example_gate [OF example_times(1)] example_gate [OF example_times(2)] example_push_hyps])

lemma example_push:
  "\<exists>d'. push_validated_patch (\<lambda>_. []) (seconds 1) (seconds 2) 0 example_patch example_evidence counting_writer example_policy
     ''worker'' (evaluating_db, 0) = (Inr (Some ''c0ffee''), (d', 2))"
  by (rule allowed_push [OF evaluating_run(1,4) example_gate [OF example_times(1)] example_gate [OF example_times(2)] example_push_hyps])

theorem push_reaches_remote_only_through_gate_witness:
  "\<exists>r pull. push_admitted evaluating_db 0 example_patch example_evidence r pull \<and>
     pr_outcome (evaluate_push_gate (push_context_of r pull example_patch example_evidence evaluating_db)
       example_policy (db_now evaluating_db)) = ALLOW"
proof -
  obtain d' where "push_validated_patch (\<lambda>_. []) (seconds 1) (seconds 2) 0 example_patch example_evidence counting_writer
      example_policy ''worker'' (evaluating_db, 0) = (Inr (Some ''c0ffee''), (d', 2))"
    using example_push by blast
  from push_reaches_remote_only_through_gate [OF this disjI1] show ?thesis by auto
qed

theorem pushed_commit_is_for_pinned_head_witness:
  "\<exists>r w1. find_run evaluating_db 0 = Some r \<and>
     head_sha counting_writer (run_repository_id r) ''fix'' 0 = (Inr (run_pinned_sha r), w1)"
proof -
  obtain d' where "push_validated_patch (\<lambda>_. []) (seconds 1) (seconds 2) 0 example_patch example_evidence counting_writer
      example_policy ''worker'' (evaluating_db, 0) = (Inr (Some ''c0ffee''), (d', 2))"
    using example_push by blast
  from pushed_commit_is_for_pinned_head [OF this] show ?thesis by (auto simp: example_evidence_def)
qed

definition patched_db :: db where
  "patched_db = evaluating_db\<lparr>db_artifacts := [\<lparr>ar_id = 50, ar_run = 0, ar_kind = ''patch'',
     ar_schema_version = ''1'', ar_content = Blocked_Stub (artifact_base.truncate example_patch),
     ar_content_hash = [], ar_redaction_state = ''clean''\<rparr>]\<rparr>"

theorem second_attempt_raises_witness:
  "\<exists>d'. push_validated_patch (\<lambda>_. []) (seconds 1) (seconds 2) 0 example_patch example_evidence counting_writer example_policy
     ''worker'' (patched_db, 0) = (Inl (IntegrityError ''uq_artifacts_run_kind''), (d', 0)) \<and>
     map_option run_status (find_run d' 0) = Some EVALUATING"
proof -
  let ?r = "the (find_run evaluating_db 0)"
  have same: "find_run patched_db 0 = find_run evaluating_db 0"
    by (simp add: patched_db_def find_run_def)
  have adm: "push_admitted patched_db 0 example_patch example_evidence ?r 7"
    using evaluating_run(1) unfolding push_admitted_def same .
  have "get_artifact patched_db 0 ''patch'' \<noteq> None"
    by (simp add: patched_db_def get_artifact_def)
  from second_attempt_raises [OF adm this, of "\<lambda>_. []" "seconds 1" "seconds 2" counting_writer example_policy "''worker''" 0]
    adm show ?thesis by (auto simp: push_admitted_def)
qed

end
