(* ===== verification/Snapshot.thy ===== *)
theory Snapshot
  imports Domain
begin

text \<open>
  \<open>tools/snapshot.py\<close>: the immutable source snapshot and the reads an agent may make of it. The
  dictionary of files is an association list in insertion order; \<open>ast.parse\<close> (the definitions of a
  file, in the order of \<open>ast.walk\<close>) and \<open>re.compile\<close> of a query are parameters. Paths are read as
  \<open>PurePosixPath\<close> does: empty and \<open>.\<close> components do not count.
\<close>

definition MAX_READ_LINES :: int where "MAX_READ_LINES = 200"
definition MAX_READ_BYTES :: nat where "MAX_READ_BYTES = 32000"
definition MAX_SEARCH_RESULTS :: int where "MAX_SEARCH_RESULTS = 50"
definition MAX_MATCH_BYTES :: nat where "MAX_MATCH_BYTES = 1000"

record source_locator =
  sl_locator :: string
  sl_pinned_sha :: string
  sl_content_hash :: string

record tree_entry =
  te_path :: string
  te_object_type :: string

record file_read_result =
  fr_text :: string
  fr_locator :: source_locator
  fr_truncated :: bool

record text_match =
  tm_path :: string
  tm_line :: nat
  tm_text :: string
  tm_locator :: source_locator
  tm_truncated :: bool

record structure_match =
  sm_path :: string
  sm_line :: nat
  sm_symbol :: string
  sm_kind :: string
  sm_locator :: source_locator

record history_entry =
  he_commit_sha :: string
  he_subject :: string
  he_paths :: "string list"
  he_locator :: string

record snapshot =
  sn_pinned_sha :: string
  sn_files :: "(string \<times> string) list"
  sn_history :: "history_entry list"

section \<open>Paths and bounded text\<close>

definition path_parts :: "string \<Rightarrow> string list" where
  "path_parts p = filter (\<lambda>x. x \<noteq> [] \<and> x \<noteq> ''.'') (split_on (CHR ''/'') p)"

definition safe_path :: "string \<Rightarrow> bool" where
  "safe_path p = (\<not> starts_with ''/'' p \<and> ''..'' \<notin> set (path_parts p) \<and> NUL \<notin> set p)"

definition check_path :: "string \<Rightarrow> unit res" where
  "check_path p = require (safe_path p) (ValueError ''snapshot path must be repository-relative'')"

text \<open>
  \<open>decode(errors="ignore")\<close> on a beginning of an encoded string: a lead byte without its
  continuation is dropped.
\<close>

fun decode_ignore :: "bytes \<Rightarrow> string" where
  "decode_ignore [] = []"
| "decode_ignore [c] = (if (of_char c :: nat) < 128 then [c] else [])"
| "decode_ignore (c # d # r) =
     (if (of_char c :: nat) < 128 then c # decode_ignore (d # r)
      else if (of_char c :: nat) \<in> {194, 195} \<and> 128 \<le> (of_char d :: nat) \<and> (of_char d :: nat) < 192
      then char_of (((of_char c :: nat) - 192) * 64 + (of_char d - 128)) # decode_ignore r
      else decode_ignore (d # r))"

definition truncate_utf8 :: "string \<Rightarrow> nat \<Rightarrow> string" where
  "truncate_utf8 v max_bytes =
    (if length (utf8 v) \<le> max_bytes then v else decode_ignore (take max_bytes (utf8 v)))"

definition line_window :: "string list \<Rightarrow> int \<Rightarrow> int \<Rightarrow> string list" where
  "line_window ls a b = take (nat (b - (a - 1))) (drop (nat (a - 1)) ls)"

section \<open>Operations\<close>

definition make_snapshot ::
    "string \<Rightarrow> (string \<times> string) list \<Rightarrow> history_entry list \<Rightarrow> snapshot res" where
  "make_snapshot sha files history =
    (if \<not> immutable_sha sha then Inl (ValueError ''snapshot requires an immutable lowercase SHA'')
     else bind_res (traverse check_path (map fst files)) (\<lambda>_.
       Inr \<lparr>sn_pinned_sha = sha, sn_files = files, sn_history = history\<rparr>))"

definition locator_text :: "string \<Rightarrow> int \<Rightarrow> int \<Rightarrow> string" where
  "locator_text path a b = path @ ''#L'' @ show_int a @ ''-L'' @ show_int b"

definition excerpt_locator :: "snapshot \<Rightarrow> string \<Rightarrow> int \<Rightarrow> int \<Rightarrow> string \<Rightarrow> source_locator" where
  "excerpt_locator sn path a b excerpt =
    \<lparr>sl_locator = locator_text path a b, sl_pinned_sha = sn_pinned_sha sn,
     sl_content_hash = sha256_hex (utf8 excerpt)\<rparr>"

definition locator_of :: "snapshot \<Rightarrow> string \<Rightarrow> int \<Rightarrow> int \<Rightarrow> source_locator" where
  "locator_of sn path a b =
    (let content = (case map_of (sn_files sn) path of None \<Rightarrow> [] | Some c \<Rightarrow> c) in
     excerpt_locator sn path a b
       (truncate_utf8 (join [LF] (line_window (splitlines content) a b)) MAX_READ_BYTES))"

definition list_tree :: "snapshot \<Rightarrow> string \<Rightarrow> int \<Rightarrow> tree_entry list res" where
  "list_tree sn pre_path depth =
    (if \<not> (0 \<le> depth \<and> depth \<le> 32) then Inl (ValueError ''tree depth must be between 0 and 32'')
     else bind_res (if pre_path = [] then Inr () else check_path pre_path) (\<lambda>_.
       Inr (map (\<lambda>p. \<lparr>te_path = p, te_object_type = ''file''\<rparr>)
         (filter (\<lambda>p. (pre_path = [] \<or> prefix (path_parts pre_path) (path_parts p)) \<and>
             int (length (path_parts p)) -
               (if pre_path = [] then 0 else int (length (path_parts pre_path))) \<le> depth)
           (sort (map fst (sn_files sn)))))))"

definition read_file :: "snapshot \<Rightarrow> string \<Rightarrow> int \<Rightarrow> int \<Rightarrow> file_read_result res" where
  "read_file sn path start_line end_line = bind_res (check_path path) (\<lambda>_.
    if start_line < 1 \<or> end_line < start_line \<or> end_line - start_line \<ge> MAX_READ_LINES
    then Inl (ValueError ''invalid or oversized line window'')
    else (case map_of (sn_files sn) path of
       None \<Rightarrow> Inl (FileNotFoundError path)
     | Some content \<Rightarrow>
        (let ls = splitlines content;
             full_text = join [LF] (line_window ls start_line end_line);
             text = truncate_utf8 full_text MAX_READ_BYTES;
             actual_end = min end_line (min (int (length ls))
               (start_line + int (length (filter (\<lambda>c. c = LF) text))))
         in Inr \<lparr>fr_text = text,
                 fr_locator = excerpt_locator sn path start_line actual_end text,
                 fr_truncated = (end_line < int (length ls) \<or> text \<noteq> full_text)\<rparr>)))"

definition file_matches :: "snapshot \<Rightarrow> (string \<Rightarrow> bool) \<Rightarrow> string \<times> string \<Rightarrow> text_match list" where
  "file_matches sn hit f = (case f of (path, content) \<Rightarrow>
     map (\<lambda>(number, line). \<lparr>tm_path = path, tm_line = number,
            tm_text = truncate_utf8 line MAX_MATCH_BYTES,
            tm_locator = locator_of sn path (int number) (int number),
            tm_truncated = (MAX_MATCH_BYTES < length (utf8 line))\<rparr>)
       (filter (\<lambda>(number, line). hit line)
         (zip [1 ..< Suc (length (splitlines content))] (splitlines content))))"

definition search_text ::
    "(string \<Rightarrow> (string \<Rightarrow> bool) option) \<Rightarrow> snapshot \<Rightarrow> string \<Rightarrow> string \<Rightarrow> bool \<Rightarrow> int \<Rightarrow>
     text_match list res" where
  "search_text compile sn query path_prefix regex limit =
    (if query = [] \<or> length query > 1000
     then Inl (ValueError ''search query must contain 1 to 1000 characters'')
     else if \<not> (1 \<le> limit \<and> limit \<le> MAX_SEARCH_RESULTS)
     then Inl (ValueError ''search limit must be between 1 and 50'')
     else bind_res (if path_prefix = [] then Inr () else check_path path_prefix) (\<lambda>_.
       case (if regex then compile query else Some (contains query)) of
         None \<Rightarrow> Inl (ValueError ''invalid regular expression'')
       | Some hit \<Rightarrow> Inr (take (nat limit) (concat (map (file_matches sn hit)
           (filter (\<lambda>f. starts_with path_prefix (fst f)) (sn_files sn)))))))"

text \<open>A definition in a parsed file: its name, whether it is a class, its first and last line.\<close>

record py_definition =
  df_name :: string
  df_class :: bool
  df_line :: nat
  df_end :: nat

definition is_identifier_start :: "char \<Rightarrow> bool" where
  "is_identifier_start c = (let n = (of_char c :: nat) in is_upper c \<or> is_lower c \<or> n = 95 \<or>
     n \<in> {170, 181, 186} \<or> (192 \<le> n \<and> n \<noteq> 215 \<and> n \<noteq> 247))"

definition is_identifier :: "string \<Rightarrow> bool" where
  "is_identifier s = (s \<noteq> [] \<and> is_identifier_start (hd s) \<and>
     list_all (\<lambda>c. is_identifier_start c \<or> is_digit c \<or> (of_char c :: nat) = 183) s)"

definition structure_matches ::
    "(string \<Rightarrow> py_definition list option) \<Rightarrow> snapshot \<Rightarrow> string \<Rightarrow> string \<times> string \<Rightarrow>
     structure_match list" where
  "structure_matches parse sn symbol f = (case f of (path, content) \<Rightarrow>
     (case parse content of
        None \<Rightarrow> []
      | Some defs \<Rightarrow> map (\<lambda>d. \<lparr>sm_path = path, sm_line = df_line d, sm_symbol = df_name d,
            sm_kind = (if df_class d then ''class'' else ''function''),
            sm_locator = locator_of sn path (int (df_line d)) (int (df_end d))\<rparr>)
          (filter (\<lambda>d. df_name d = symbol) defs)))"

text \<open>A limit that the loop never meets exactly (below 1) stops nothing.\<close>

definition search_structure ::
    "(string \<Rightarrow> py_definition list option) \<Rightarrow> snapshot \<Rightarrow> string \<Rightarrow> string \<Rightarrow> string \<Rightarrow> int \<Rightarrow>
     structure_match list res" where
  "search_structure parse sn symbol language path_prefix limit =
    (if language \<noteq> ''python''
     then Inl (ValueError ''only the configured Python structure adapter is available'')
     else if symbol = [] \<or> length symbol > 255 \<or> \<not> is_identifier symbol
     then Inl (ValueError ''symbol must be a Python identifier'')
     else (let found = concat (map (structure_matches parse sn symbol)
               (filter (\<lambda>f. ends_with ''.py'' (fst f) \<and> starts_with path_prefix (fst f))
                 (sort_key fst (sn_files sn))))
           in Inr (if limit < 1 then found else take (nat limit) found)))"

definition git_history :: "snapshot \<Rightarrow> string \<Rightarrow> int \<Rightarrow> history_entry list res" where
  "git_history sn path_prefix limit =
    (if \<not> (1 \<le> limit \<and> limit \<le> 100) then Inl (ValueError ''history limit must be between 1 and 100'')
     else bind_res (if path_prefix = [] then Inr () else check_path path_prefix) (\<lambda>_.
       Inr (take (nat limit) (filter
         (\<lambda>e. path_prefix = [] \<or> list_ex (starts_with path_prefix) (he_paths e)) (sn_history sn)))))"

section \<open>Truncation\<close>

fun fit :: "nat \<Rightarrow> string \<Rightarrow> string" where
  "fit n [] = []"
| "fit n (c # s) = (if length (utf8_char c) \<le> n then c # fit (n - length (utf8_char c)) s else [])"

lemma decode_ignore_ascii: "(of_char c :: nat) < 128 \<Longrightarrow> decode_ignore (c # r) = c # decode_ignore r"
  by (cases r) simp_all

lemma decode_ignore_char:
  assumes "\<not> (of_char c :: nat) < 128"
  obtains b1 b2 where "utf8_char c = [b1, b2]" "decode_ignore [b1] = []"
    "\<And>r. decode_ignore (b1 # b2 # r) = c # decode_ignore r"
proof -
  define n where "n = (of_char c :: nat)"
  have n: "128 \<le> n" "n < 256" and c: "c = char_of n"
    using assms by (simp_all add: n_def)
  let ?b1 = "char_of (192 + n div 64) :: char" and ?b2 = "char_of (128 + n mod 64) :: char"
  have bytes: "(of_char ?b1 :: nat) = 192 + n div 64" "(of_char ?b2 :: nat) = 128 + n mod 64"
    using n by (auto simp: of_char_of)
  from n have "n div 64 = 2 \<or> n div 64 = 3" by auto
  then have lead: "(of_char ?b1 :: nat) \<in> {194, 195}" unfolding bytes by auto
  have whole: "n div 64 * 64 + n mod 64 = n" by simp
  show thesis
  proof (rule that [of ?b1 ?b2])
    show "utf8_char c = [?b1, ?b2]" using assms by (simp add: utf8_char_def n_def Let_def)
    show "decode_ignore [?b1] = []" using lead by auto
    show "decode_ignore (?b1 # ?b2 # r) = c # decode_ignore r" for r
    proof -
      have "\<not> (of_char ?b1 :: nat) < 128" "128 \<le> (of_char ?b2 :: nat)" "(of_char ?b2 :: nat) < 192"
        unfolding bytes by simp_all
      moreover have "((of_char ?b1 :: nat) - 192) * 64 + (of_char ?b2 - 128) = n"
        unfolding bytes using whole by simp
      ultimately show ?thesis using lead by (simp only: decode_ignore.simps if_True if_False simp_thms c)
    qed
  qed
qed

lemma decode_ignore_take: "decode_ignore (take n (utf8 s)) = fit n s"
proof (induction s arbitrary: n)
  case (Cons c s)
  show ?case
  proof (cases "(of_char c :: nat) < 128")
    case True
    then have "utf8_char c = [c]" by (simp add: utf8_char_def)
    with True Cons.IH [of "n - 1"] show ?thesis
      by (cases n) (simp_all add: utf8_Cons decode_ignore_ascii)
  next
    case False
    then obtain b1 b2 where b: "utf8_char c = [b1, b2]" "decode_ignore [b1] = []"
      "\<And>r. decode_ignore (b1 # b2 # r) = c # decode_ignore r"
      by (rule decode_ignore_char) blast
    consider "n = 0" | "n = 1" | m where "n = Suc (Suc m)" by (metis One_nat_def not0_implies_Suc)
    then show ?thesis
      by cases (use b Cons.IH in \<open>simp_all add: utf8_Cons numeral_2_eq_2\<close>)
  qed
qed simp

lemma fit_all: "length (utf8 s) \<le> n \<Longrightarrow> fit n s = s"
  by (induction s arbitrary: n) (auto simp: utf8_Cons)

lemma truncate_fit: "truncate_utf8 v m = fit m v"
  by (simp add: truncate_utf8_def decode_ignore_take fit_all)

lemma fit_prefix: "prefix (fit n s) s"
  by (induction n s rule: fit.induct) auto

lemma fit_length: "length (utf8 (fit n s)) \<le> n"
  by (induction n s rule: fit.induct) (auto simp: utf8_Cons)

lemma fit_between: "prefix (fit n s) t \<Longrightarrow> prefix t s \<Longrightarrow> fit n t = fit n s"
proof (induction n s arbitrary: t rule: fit.induct)
  case (2 n c s)
  show ?case
  proof (cases t)
    case Nil
    with 2(2) show ?thesis by (simp split: if_splits)
  next
    case (Cons d t')
    with 2(3) have t: "t = c # t'" "prefix t' s" by simp_all
    show ?thesis
    proof (cases "length (utf8_char c) \<le> n")
      case True
      with 2(2) t(1) have "prefix (fit (n - length (utf8_char c)) s) t'" by simp
      from 2(1) [OF True this t(2)] True t(1) show ?thesis by simp
    next
      case False
      with t(1) show ?thesis by simp
    qed
  qed
qed simp

section \<open>Windows of lines\<close>

lemma prefix_join_take:
  assumes "\<forall>w \<in> set W. LF \<notin> set w" and "prefix t (join [LF] W)"
  shows "prefix t (join [LF] (take (Suc (length (filter (\<lambda>c. c = LF) t))) W))"
  using assms
proof (induction W arbitrary: t)
  case more: (Cons w W')
  show ?case
  proof (cases W')
    case Nil
    with more.prems show ?thesis by simp
  next
    case W': (Cons v W)
    show ?thesis
    proof (cases "prefix t w")
      case True
      then have "set t \<subseteq> set w" by (rule set_mono_prefix)
      with more.prems(1) have "filter (\<lambda>c. c = LF) t = []" by (auto simp: filter_empty_conv)
      with True show ?thesis by simp
    next
      case False
      have "prefix t (w @ LF # join [LF] W')" using more.prems(2) W' by simp
      with False obtain u where u: "t = w @ u" "prefix u (LF # join [LF] W')"
        unfolding prefix_append by blast
      with False obtain t' where t': "t = w @ LF # t'" "prefix t' (join [LF] W')"
        by (cases u) auto
      have "filter (\<lambda>c. c = LF) w = []" using more.prems(1) by (auto simp: filter_empty_conv)
      moreover have "prefix t' (join [LF] (take (Suc (length (filter (\<lambda>c. c = LF) t'))) W'))"
        using more.IH [OF _ t'(2)] more.prems(1) by simp
      ultimately show ?thesis using t'(1) W' by simp
    qed
  qed
qed simp

end
