(* ===== verification/Evaluators.thy ===== *)
theory Evaluators
  imports "HOL-Library.AList" Snapshot RunService
begin

text \<open>
  \<open>evaluation/evaluators.py\<close> and \<open>evaluation/service.py\<close>: the deterministic checks of an artifact
  and the stored evaluation. The regular expression of a locator has a single reading: its last
  \<open>#\<close> starts the line window. The three-digit rendering of a recall is a parameter.
\<close>

record evaluation_result =
  er_name :: string
  er_passed :: bool
  er_detail :: string

definition listed :: "string list \<Rightarrow> string" where
  "listed xs = (if join '','' xs = [] then ''complete'' else join '','' xs)"

definition citation_coverage :: "artifact_base \<Rightarrow> evaluation_result" where
  "citation_coverage a =
    (let missing = map claim_id (filter (\<lambda>c. claim_material c \<and>
           claim_id c \<notin> set (map cit_claim_id (art_citations a))) (art_claims a))
     in \<lparr>er_name = ''citation_coverage'', er_passed = (missing = []), er_detail = listed missing\<rparr>)"

definition risk_evidence_coverage :: "artifact_base \<Rightarrow> evaluation_result" where
  "risk_evidence_coverage a =
    (let result = citation_coverage a in
     if art_claims a = []
     then \<lparr>er_name = ''risk_evidence_coverage'', er_passed = False,
           er_detail = ''risk output has no evidence claims''\<rparr>
     else \<lparr>er_name = ''risk_evidence_coverage'', er_passed = er_passed result,
           er_detail = er_detail result\<rparr>)"

text \<open>\<open>^(.+)#L(\d+)-L(\d+)$\<close> with \<open>fullmatch\<close>\<close>

definition locator_parts :: "string \<Rightarrow> (string \<times> int \<times> int) option" where
  "locator_parts s =
    (let window = rev (takeWhile (\<lambda>c. c \<noteq> CHR ''#'') (rev s));
         before = rev (tl (dropWhile (\<lambda>c. c \<noteq> CHR ''#'') (rev s)))
     in if CHR ''#'' \<notin> set s \<or> before = [] \<or> LF \<in> set before then None
        else (case eat ''L'' window of
            None \<Rightarrow> None
          | Some r1 \<Rightarrow> (case eat_number r1 of
              None \<Rightarrow> None
            | Some (a, r2) \<Rightarrow> (case eat ''-L'' r2 of
                None \<Rightarrow> None
              | Some r3 \<Rightarrow> (case eat_number r3 of
                  Some (b, []) \<Rightarrow> Some (before, a, b)
                | _ \<Rightarrow> None)))))"

definition unresolved :: "snapshot \<Rightarrow> citation \<Rightarrow> bool" where
  "unresolved sn c =
    (if cit_pinned_sha c \<noteq> sn_pinned_sha sn then True
     else (case locator_parts (cit_locator c) of
        None \<Rightarrow> cit_source_kind c \<notin> set [''commit'', ''diff'', ''check_run'', ''tool_result'']
      | Some (path, a, b) \<Rightarrow> (case read_file sn path a b of
            Inl e \<Rightarrow> True
          | Inr result \<Rightarrow> fr_text result = [] \<or>
              sha256_hex (utf8 (fr_text result)) \<noteq> cit_excerpt_hash c)))"

definition citation_resolution :: "artifact_base \<Rightarrow> snapshot \<Rightarrow> evaluation_result" where
  "citation_resolution a sn =
    (let missing = map cit_locator (filter (unresolved sn) (art_citations a))
     in \<lparr>er_name = ''citation_resolution'', er_passed = (missing = []), er_detail = listed missing\<rparr>)"

definition scout_relevant_file_recall ::
    "(rat \<Rightarrow> string) \<Rightarrow> scout_artifact \<Rightarrow> string list \<Rightarrow> evaluation_result" where
  "scout_relevant_file_recall fmt a expected =
    (let actual = set (map el_path (sa_relevant_files a)); wanted = remdups expected
     in if wanted = []
        then \<lparr>er_name = ''relevant_file_recall'', er_passed = False,
              er_detail = ''fixture has no expected paths''\<rparr>
        else (let recall = of_nat (length (filter (\<lambda>p. p \<in> actual) wanted)) / of_nat (length wanted)
              in \<lparr>er_name = ''relevant_file_recall'', er_passed = (recall = 1), er_detail = fmt recall\<rparr>))"

definition tool_permission_compliance :: "string list \<Rightarrow> string list \<Rightarrow> evaluation_result" where
  "tool_permission_compliance requested allowed =
    (let denied = sorted_list_of_set (set requested - set allowed)
     in \<lparr>er_name = ''tool_permission_compliance'', er_passed = (denied = []), er_detail = listed denied\<rparr>)"

text \<open>A score dictionary: a later result of the same name takes the place of an earlier one.\<close>

definition scores :: "evaluation_result list \<Rightarrow> (string \<times> bool \<times> string) list" where
  "scores rs = foldl (\<lambda>d r. AList.update (er_name r) (er_passed r, er_detail r) d) [] rs"

definition store_evaluation ::
    "uuid \<Rightarrow> string \<Rightarrow> string \<Rightarrow> evaluation_result list \<Rightarrow> (db, unit) act" where
  "store_evaluation rid split version results =
    (if split \<notin> set [''development'', ''held_out''] then throw (ValueError ''unknown dataset split'')
     else if version = [] then throw (ValueError ''evaluator version is required'')
     else modify (\<lambda>s. s\<lparr>db_evaluations := db_evaluations s @
        [\<lparr>ev_run = rid, ev_dataset_split = split, ev_evaluator_version = version,
          ev_scores = scores results,
          ev_passed = (results \<noteq> [] \<and> list_all er_passed results)\<rparr>]\<rparr>))"

section \<open>Reading back a locator\<close>

lemma locator_parts_text:
  assumes "0 \<le> a" and "0 \<le> b" and "path \<noteq> []" and "LF \<notin> set path"
  shows "locator_parts (locator_text path a b) = Some (path, a, b)"
proof -
  define window where "window = ''L'' @ show_int a @ ''-L'' @ show_int b"
  have ints: "show_int a = show_nat (nat a)" "show_int b = show_nat (nat b)"
    using assms by (simp_all add: show_int_def)
  have digits: "CHR ''#'' \<notin> set (show_nat n)" for n
  proof
    assume "CHR ''#'' \<in> set (show_nat n)"
    with show_nat_digits [of n] have "is_digit CHR ''#''" unfolding list_all_iff by blast
    then show False by (simp add: is_digit_def)
  qed
  then have none: "CHR ''#'' \<notin> set window" unfolding window_def ints by auto
  have shape: "locator_text path a b = path @ CHR ''#'' # window"
    by (simp add: locator_text_def window_def)
  have "takeWhile (\<lambda>c. c \<noteq> CHR ''#'') (rev window @ CHR ''#'' # rev path) = rev window"
    "dropWhile (\<lambda>c. c \<noteq> CHR ''#'') (rev window @ CHR ''#'' # rev path) = CHR ''#'' # rev path"
    using none by (auto simp: takeWhile_append dropWhile_append takeWhile_eq_all_conv [THEN iffD2])
  then have split: "rev (takeWhile (\<lambda>c. c \<noteq> CHR ''#'') (rev (locator_text path a b))) = window"
    "rev (tl (dropWhile (\<lambda>c. c \<noteq> CHR ''#'') (rev (locator_text path a b)))) = path"
    by (simp_all add: shape)
  have "eat_number (show_nat (nat a) @ ''-L'' @ show_nat (nat b)) = Some (a, ''-L'' @ show_nat (nat b))"
    using assms(1) by (subst eat_number_show) simp_all
  moreover have "eat_number (show_nat (nat b)) = Some (b, [])"
    using assms(2) eat_number_show [of "[]" "nat b"] by simp
  ultimately show ?thesis
    using assms(3,4) unfolding locator_parts_def split Let_def
    by (simp add: shape window_def ints eat_append [of "''L''", simplified] eat_append [of "''-L''", simplified])
qed

section \<open>Evidence that has been read resolves\<close>

lemma check_path_Inr [simp]: "check_path p = Inr u \<longleftrightarrow> safe_path p"
  by (simp add: check_path_def)

lemma read_file_Inr:
  "read_file sn path a b = Inr result \<longleftrightarrow>
     safe_path path \<and> 1 \<le> a \<and> a \<le> b \<and> b - a < MAX_READ_LINES \<and>
     (\<exists>content. map_of (sn_files sn) path = Some content \<and>
       (let ls = splitlines content; full = join [LF] (line_window ls a b); text = fit MAX_READ_BYTES full
        in result = \<lparr>fr_text = text,
             fr_locator = excerpt_locator sn path a (min b (min (int (length ls))
               (a + int (length (filter (\<lambda>c. c = LF) text))))) text,
             fr_truncated = (b < int (length ls) \<or> text \<noteq> full)\<rparr>))"
  by (auto simp: read_file_def bind_res_Inr_iff Let_def truncate_fit split: option.splits)

lemma line_window_shorter:
  assumes "1 \<le> a" and "e \<le> b"
  shows "line_window ls a e = take (nat (e - (a - 1))) (line_window ls a b)"
  using assms by (simp add: line_window_def min_def)

lemma read_again:
  assumes read: "read_file sn path a b = Inr result" and some: "fr_text result \<noteq> []"
  obtains e again where "sl_locator (fr_locator result) = locator_text path a e" "1 \<le> a" "a \<le> e"
    "sl_pinned_sha (fr_locator result) = sn_pinned_sha sn"
    "sl_content_hash (fr_locator result) = sha256_hex (utf8 (fr_text result))"
    "read_file sn path a e = Inr again" "fr_text again = fr_text result"
proof -
  from read obtain content where ok: "safe_path path" "1 \<le> a" "a \<le> b" "b - a < MAX_READ_LINES"
    and content: "map_of (sn_files sn) path = Some content"
    and res: "result = (let ls = splitlines content; full = join [LF] (line_window ls a b);
        text = fit MAX_READ_BYTES full
        in \<lparr>fr_text = text,
            fr_locator = excerpt_locator sn path a (min b (min (int (length ls))
              (a + int (length (filter (\<lambda>c. c = LF) text))))) text,
            fr_truncated = (b < int (length ls) \<or> text \<noteq> full)\<rparr>)"
    unfolding read_file_Inr by (auto simp: Let_def)
  define ls where "ls = splitlines content"
  define W where "W = line_window ls a b"
  define t where "t = fit MAX_READ_BYTES (join [LF] W)"
  define n where "n = length (filter (\<lambda>c. c = LF) t)"
  define e where "e = min b (min (int (length ls)) (a + int n))"
  have t: "fr_text result = t" "fr_locator result = excerpt_locator sn path a e t"
    by (simp_all add: res ls_def W_def t_def n_def e_def Let_def)
  have "W \<noteq> []" using some t by (auto simp: t_def)
  then have long: "nat (a - 1) < length ls" by (auto simp: W_def line_window_def)
  have len: "int (length W) = min (b - (a - 1)) (int (length ls) - (a - 1))"
    using ok long by (simp add: W_def line_window_def of_nat_min of_nat_diff min.commute)
  have e: "a \<le> e" "e \<le> b" "e - (a - 1) = min (int (length W)) (1 + int n)"
    using ok long unfolding len by (auto simp: e_def min_def)
  have "line_window ls a e = take (nat (e - (a - 1))) W"
    unfolding W_def by (rule line_window_shorter [OF ok(2) e(2)])
  also have "\<dots> = take (Suc n) W" unfolding e(3) by (simp add: min_def nat_add_distrib)
  finally have again: "line_window ls a e = take (Suc n) W" .
  have clean: "\<forall>w \<in> set W. LF \<notin> set w"
    using splitlines_no_LF by (auto simp: W_def line_window_def ls_def dest!: in_set_takeD in_set_dropD)
  have "prefix t (join [LF] (take (Suc n) W))"
    unfolding n_def by (rule prefix_join_take [OF clean]) (simp add: t_def fit_prefix)
  moreover have "prefix (join [LF] (take k W)) (join [LF] W)" for k
  proof (induction W arbitrary: k)
    case (Cons w W)
    show ?case
    proof (cases k)
      case (Suc j)
      with Cons [of j] show ?thesis by (cases W; cases j) (auto simp: prefix_def)
    qed simp
  qed simp
  ultimately have same: "fit MAX_READ_BYTES (join [LF] (take (Suc n) W)) = t"
    unfolding t_def by (intro fit_between)
  obtain r where r: "read_file sn path a e = Inr r" "fr_text r = t"
    using ok e content unfolding read_file_Inr by (auto simp: ls_def [symmetric] again same Let_def)
  show thesis
    by (rule that [of e r]) (use t r ok e in \<open>simp_all add: excerpt_locator_def\<close>)
qed

text \<open>A citation copied from a read: its locator, SHA and hash are the result's.\<close>

definition cites_read :: "snapshot \<Rightarrow> citation \<Rightarrow> string \<Rightarrow> int \<Rightarrow> int \<Rightarrow> bool" where
  "cites_read sn c path a b = (case read_file sn path a b of
     Inl e \<Rightarrow> False
   | Inr result \<Rightarrow> fr_text result \<noteq> [] \<and> cit_locator c = sl_locator (fr_locator result) \<and>
       cit_pinned_sha c = sl_pinned_sha (fr_locator result) \<and>
       cit_excerpt_hash c = sl_content_hash (fr_locator result))"

lemma cites_read_resolved:
  assumes "cites_read sn c path a b" and "path \<noteq> []" and "LF \<notin> set path"
  shows "\<not> unresolved sn c"
proof -
  from assms(1) obtain result where result: "read_file sn path a b = Inr result" "fr_text result \<noteq> []"
    and c: "cit_locator c = sl_locator (fr_locator result)"
      "cit_pinned_sha c = sl_pinned_sha (fr_locator result)"
      "cit_excerpt_hash c = sl_content_hash (fr_locator result)"
    by (auto simp: cites_read_def split: sum.splits)
  from read_again [OF result] obtain e again where
    e: "sl_locator (fr_locator result) = locator_text path a e" "1 \<le> a" "a \<le> e"
    "sl_pinned_sha (fr_locator result) = sn_pinned_sha sn"
    "sl_content_hash (fr_locator result) = sha256_hex (utf8 (fr_text result))"
    "read_file sn path a e = Inr again" "fr_text again = fr_text result" .
  have "locator_parts (cit_locator c) = Some (path, a, e)"
    unfolding c e by (rule locator_parts_text) (use e assms in simp_all)
  with c e result(2) show ?thesis by (simp add: unresolved_def)
qed

text \<open>
  What an agent has read it can cite: when every citation of an artifact copies the locator,
  the SHA and the content hash of some non-empty \<open>read_file\<close> of the snapshot, however the read was
  truncated, the citations resolve.
\<close>

theorem read_evidence_resolves:
  assumes "\<forall>c \<in> set (art_citations art). \<exists>path a b.
    cites_read sn c path a b \<and> path \<noteq> [] \<and> LF \<notin> set path"
  shows "er_passed (citation_resolution art sn)"
  using assms cites_read_resolved by (fastforce simp: citation_resolution_def filter_empty_conv Let_def)

text \<open>
  Resolved citations are evidence: when the citations of an artifact resolve, each carries the
  snapshot's SHA, and each whose locator names a line window names an existing file and a window
  of at most 200 lines whose text, cut at 32000 bytes, is not empty and has the citation's hash.
\<close>

theorem resolved_citations_are_evidence:
  assumes "er_passed (citation_resolution art sn)" and "c \<in> set (art_citations art)"
  shows "cit_pinned_sha c = sn_pinned_sha sn \<and>
    (\<forall>path a b. locator_parts (cit_locator c) = Some (path, a, b) \<longrightarrow>
      (\<exists>content. map_of (sn_files sn) path = Some content \<and> safe_path path \<and>
        1 \<le> a \<and> a \<le> b \<and> b - a < 200 \<and>
        (let excerpt = truncate_utf8 (join [LF] (line_window (splitlines content) a b)) 32000
         in excerpt \<noteq> [] \<and> sha256_hex (utf8 excerpt) = cit_excerpt_hash c)))"
proof -
  from assms have "\<not> unresolved sn c"
    by (auto simp: citation_resolution_def filter_empty_conv Let_def)
  then show ?thesis
    by (auto simp: unresolved_def read_file_Inr Let_def truncate_fit MAX_READ_LINES_def
        MAX_READ_BYTES_def split: if_splits sum.splits)
qed

definition example_snapshot :: snapshot where
  "example_snapshot = \<lparr>sn_pinned_sha = example_sha,
     sn_files = [(''src/a.py'', join [LF] [''x = 1'', ''y = 2'', ''z = 3''])], sn_history = []\<rparr>"

definition example_read :: file_read_result where
  "example_read = \<lparr>fr_text = join [LF] [''y = 2'', ''z = 3''],
     fr_locator = excerpt_locator example_snapshot ''src/a.py'' 2 3 (join [LF] [''y = 2'', ''z = 3'']),
     fr_truncated = False\<rparr>"

lemma example_read_eq: "read_file example_snapshot ''src/a.py'' 2 9 = Inr example_read"
proof -
  define content where "content = join [LF] [''x = 1'', ''y = 2'', ''z = 3'']"
  define full where "full = join [LF] [''y = 2'', ''z = 3'']"
  have found: "map_of (sn_files example_snapshot) ''src/a.py'' = Some content"
    by (simp add: example_snapshot_def content_def)
  have window: "join [LF] (line_window (splitlines content) 2 9) = full"
    unfolding content_def full_def by code_simp
  have cut: "fit MAX_READ_BYTES full = full"
    unfolding full_def by (rule fit_all) code_simp
  have count: "length (filter (\<lambda>c. c = LF) full) = 1" "length (splitlines content) = 3"
    unfolding full_def content_def by code_simp+
  have "safe_path ''src/a.py''" by code_simp
  moreover have "example_read = \<lparr>fr_text = full,
      fr_locator = excerpt_locator example_snapshot ''src/a.py'' 2 3 full, fr_truncated = False\<rparr>"
    by (simp only: example_read_def full_def)
  ultimately show ?thesis
    unfolding read_file_Inr by (simp add: MAX_READ_LINES_def found window cut count)
qed

definition citing_artifact :: artifact_base where
  "citing_artifact = \<lparr>art_schema_version = ''1'', art_run_id = 7, art_role = SCOUT,
     art_pinned_sha = example_sha, art_created_at = 0, art_claims = [], art_unknowns = [],
     art_citations = [\<lparr>cit_claim_id = ''c1'', cit_source_kind = ''file'',
       cit_locator = sl_locator (fr_locator example_read), cit_pinned_sha = example_sha,
       cit_excerpt_hash = sl_content_hash (fr_locator example_read)\<rparr>]\<rparr>"

lemma citing_artifact_reads:
  "\<forall>c \<in> set (art_citations citing_artifact). cites_read example_snapshot c ''src/a.py'' 2 9"
proof -
  have "fr_text example_read \<noteq> []" "sl_pinned_sha (fr_locator example_read) = example_sha"
    by (simp_all add: example_read_def excerpt_locator_def example_snapshot_def)
  then show ?thesis by (simp add: citing_artifact_def cites_read_def example_read_eq)
qed

lemma citing_artifact_resolves: "er_passed (citation_resolution citing_artifact example_snapshot)"
proof -
  have "\<not> unresolved example_snapshot c" if "c \<in> set (art_citations citing_artifact)" for c
    using citing_artifact_reads that by (intro cites_read_resolved [of _ _ "''src/a.py''" 2 9]) simp_all
  then have "filter (unresolved example_snapshot) (art_citations citing_artifact) = []"
    unfolding filter_empty_conv by blast
  then show ?thesis by (simp add: citation_resolution_def)
qed

theorem read_evidence_resolves_witness:
  "er_passed (citation_resolution citing_artifact example_snapshot)"
proof (rule read_evidence_resolves, intro ballI)
  fix c assume "c \<in> set (art_citations citing_artifact)"
  with citing_artifact_reads have "cites_read example_snapshot c ''src/a.py'' 2 9" by blast
  then show "\<exists>path a b. cites_read example_snapshot c path a b \<and> path \<noteq> [] \<and> LF \<notin> set path"
    by (intro exI [of _ "''src/a.py''"] exI conjI) simp_all
qed

theorem resolved_citations_are_evidence_witness:
  "cit_pinned_sha (hd (art_citations citing_artifact)) = sn_pinned_sha example_snapshot"
  using resolved_citations_are_evidence
    [OF citing_artifact_resolves, of "hd (art_citations citing_artifact)"]
  by (simp add: citing_artifact_def)

end
