(* ===== verification/Capability.thy ===== *)
theory Capability
  imports PushGate Evaluators
begin

text \<open>
  \<open>gateway/capability.py\<close>: the role-gated facade over the read port. The port is the protocol
  \<open>GitHubReadPort\<close>, three operations on a remote state; the audit port is the durable record of
  decisions, or none. The locale \<open>read_gate\<close> states what the facade promises of an operation: it
  asks the port only after an audited allow, and never without the role and the repository.
\<close>

section \<open>Evidence\<close>

text \<open>
  \<open>PullRequestDiffEvidence\<close> and \<open>CheckEvidence\<close> are handed through: the fields the agents' tools and
  the orchestration read are their identities, and their JSON dump.
\<close>

record diff_evidence =
  de_repository_id :: int
  de_pull_number :: int
  de_head_sha :: string
  de_dump :: json

record check_evidence =
  ce_repository_id :: int
  ce_check_run_id :: int
  ce_head_sha :: string
  ce_dump :: json

record 'w read_port =
  port_snapshot :: "int \<Rightarrow> string \<Rightarrow> ('w, snapshot) act"
  port_diff :: "int \<Rightarrow> int \<Rightarrow> string \<Rightarrow> ('w, diff_evidence) act"
  port_check :: "int \<Rightarrow> int \<Rightarrow> string \<Rightarrow> ('w, check_evidence) act"

record 'w capability_gateway =
  cg_port :: "'w read_port"
  cg_allowed :: "int list"
  cg_audited :: bool

section \<open>Operations\<close>

definition input_hash :: "agent_role \<Rightarrow> int \<Rightarrow> string \<Rightarrow> string list \<Rightarrow> string" where
  "input_hash role repository_id pinned_sha resource =
     sha256_hex (utf8 (join '':'' ([role_value role, show_int repository_id, pinned_sha] @ resource)))"

definition audit_named ::
    "'w capability_gateway \<Rightarrow> uuid \<Rightarrow> string \<Rightarrow> policy_outcome \<Rightarrow> string \<Rightarrow> string \<Rightarrow> (db \<times> 'w, unit) act" where
  "audit_named g rid policy_name outcome reason h =
    (if cg_audited g
     then (\<lambda>s. (Inr (), (snd (audit_record rid policy_name outcome reason h (fst s)), snd s)))
     else ret ())"

definition ask_port :: "('w, 'a) act \<Rightarrow> (db \<times> 'w, 'a) act" where
  "ask_port m s = (case m (snd s) of (r, w) \<Rightarrow> (r, (fst s, w)))"

definition refuse_read ::
    "'w capability_gateway \<Rightarrow> uuid \<Rightarrow> string \<Rightarrow> string \<Rightarrow> string \<Rightarrow> string \<Rightarrow> (db \<times> 'w, 'a) act" where
  "refuse_read g rid policy_name reason h msg =
    then_act (audit_named g rid policy_name DENY reason h) (throw (PermissionError msg))"

definition fetch_snapshot ::
    "'w capability_gateway \<Rightarrow> uuid \<Rightarrow> agent_role \<Rightarrow> int \<Rightarrow> string \<Rightarrow> (db \<times> 'w, snapshot) act" where
  "fetch_snapshot g rid role repository_id pinned_sha =
    (let h = input_hash role repository_id pinned_sha []; name = ''github_snapshot_read'' in
     if role \<notin> {SCOUT, ASSESSOR, CI}
     then refuse_read g rid name ''role_cannot_read'' h ''role cannot read a repository snapshot''
     else if repository_id \<notin> set (cg_allowed g)
     then refuse_read g rid name ''repository_not_allowlisted'' h ''repository is not allowlisted''
     else if \<not> immutable_sha pinned_sha
     then refuse_read g rid name ''mutable_source_reference'' h ''mutable source reference refused''
     else then_act (audit_named g rid name ALLOW ''pinned_snapshot_read'' h)
            (ask_port (port_snapshot (cg_port g) repository_id pinned_sha)))"

definition authorize_repository_and_sha ::
    "'w capability_gateway \<Rightarrow> uuid \<Rightarrow> string \<Rightarrow> int \<Rightarrow> string \<Rightarrow> string \<Rightarrow> (db \<times> 'w, unit) act" where
  "authorize_repository_and_sha g rid policy_name repository_id pinned_sha h =
    (if repository_id \<notin> set (cg_allowed g)
     then refuse_read g rid policy_name ''repository_not_allowlisted'' h ''repository is not allowlisted''
     else if \<not> immutable_sha pinned_sha
     then refuse_read g rid policy_name ''mutable_source_reference'' h ''mutable source reference refused''
     else ret ())"

definition fetch_pull_request_diff ::
    "'w capability_gateway \<Rightarrow> uuid \<Rightarrow> agent_role \<Rightarrow> int \<Rightarrow> int \<Rightarrow> string \<Rightarrow> (db \<times> 'w, diff_evidence) act" where
  "fetch_pull_request_diff g rid role repository_id pull_number pinned_sha =
    (let h = input_hash role repository_id pinned_sha [show_int pull_number];
         name = ''github_pull_request_diff_read'' in
     if role \<notin> {ASSESSOR, CI}
     then refuse_read g rid name ''role_cannot_read_diff'' h ''role cannot read pull-request diff evidence''
     else then_act (authorize_repository_and_sha g rid name repository_id pinned_sha h)
       (if pull_number < 1
        then refuse_read g rid name ''invalid_pull_number'' h ''invalid pull number''
        else then_act (audit_named g rid name ALLOW ''pinned_diff_read'' h)
               (ask_port (port_diff (cg_port g) repository_id pull_number pinned_sha))))"

definition fetch_check_evidence ::
    "'w capability_gateway \<Rightarrow> uuid \<Rightarrow> agent_role \<Rightarrow> int \<Rightarrow> int \<Rightarrow> string \<Rightarrow> (db \<times> 'w, check_evidence) act" where
  "fetch_check_evidence g rid role repository_id check_run_id pinned_sha =
    (let h = input_hash role repository_id pinned_sha [show_int check_run_id];
         name = ''github_check_evidence_read'' in
     if role \<noteq> CI
     then refuse_read g rid name ''role_cannot_read_check'' h ''role cannot read check evidence''
     else then_act (authorize_repository_and_sha g rid name repository_id pinned_sha h)
       (if check_run_id < 1
        then refuse_read g rid name ''invalid_check_run_id'' h ''invalid check-run ID''
        else then_act (audit_named g rid name ALLOW ''pinned_check_read'' h)
               (ask_port (port_check (cg_port g) repository_id check_run_id pinned_sha))))"

section \<open>The contract of a gated read\<close>

definition decided :: "uuid \<Rightarrow> string \<Rightarrow> policy_outcome \<Rightarrow> string \<Rightarrow> string \<Rightarrow> policy_decision" where
  "decided rid policy_name outcome reason h =
    \<lparr>pd_run = rid, pd_policy_name = policy_name, pd_input_hash = h, pd_outcome = outcome,
     pd_reason_code = reason, pd_changed_paths = []\<rparr>"

text \<open>
  A read is refused with the remote untouched, or allowed and then is the port's answer; with an
  audit port, exactly one decision is recorded, before the port is asked.
\<close>

locale read_gate =
  fixes read :: "'w capability_gateway \<Rightarrow> uuid \<Rightarrow> agent_role \<Rightarrow> int \<Rightarrow> 'k \<Rightarrow> string \<Rightarrow> (db \<times> 'w, 'a) act"
    and ask :: "'w read_port \<Rightarrow> int \<Rightarrow> 'k \<Rightarrow> string \<Rightarrow> ('w, 'a) act"
    and permitted :: "agent_role \<Rightarrow> 'k \<Rightarrow> bool"
    and policy_name :: string
    and allow_reason :: string
    and hash :: "agent_role \<Rightarrow> int \<Rightarrow> string \<Rightarrow> 'k \<Rightarrow> string"
  assumes allowed: "permitted role k \<Longrightarrow> repo \<in> set (cg_allowed g) \<Longrightarrow> immutable_sha sha \<Longrightarrow>
      read g rid role repo k sha s =
        (case ask (cg_port g) repo k sha (snd s) of (r, w) \<Rightarrow>
           (r, ((if cg_audited g then (fst s)\<lparr>db_decisions := db_decisions (fst s) @
                   [decided rid policy_name ALLOW allow_reason (hash role repo sha k)]\<rparr>
                 else fst s), w)))"
    and refused: "\<not> (permitted role k \<and> repo \<in> set (cg_allowed g) \<and> immutable_sha sha) \<Longrightarrow>
      \<exists>msg reason. read g rid role repo k sha s =
        (Inl (PermissionError msg), ((if cg_audited g then (fst s)\<lparr>db_decisions := db_decisions (fst s) @
                   [decided rid policy_name DENY reason (hash role repo sha k)]\<rparr>
                 else fst s), snd s))"
begin

lemma touches_port_only_if_permitted:
  assumes "read g rid role repo k sha (d, w) = (r, (d', w'))" and "w' \<noteq> w \<or> (\<exists>x. r = Inr x)"
  shows "permitted role k \<and> repo \<in> set (cg_allowed g) \<and> immutable_sha sha \<and>
    ask (cg_port g) repo k sha w = (r, w')"
proof -
  have perm: "permitted role k \<and> repo \<in> set (cg_allowed g) \<and> immutable_sha sha"
  proof (rule ccontr)
    assume "\<not> ?thesis"
    from refused [OF this, of rid "(d, w)"] assms show False by auto
  qed
  with allowed [of role k repo g sha rid "(d, w)"] assms(1) show ?thesis
    by (auto split: prod.splits)
qed

lemma one_decision:
  assumes "read g rid role repo k sha (d, w) = (r, (d', w'))" and "cg_audited g"
  shows "\<exists>p. d' = d\<lparr>db_decisions := db_decisions d @ [p]\<rparr> \<and> pd_run p = rid \<and>
    pd_policy_name p = policy_name \<and> pd_input_hash p = hash role repo sha k \<and>
    (pd_outcome p = ALLOW \<longleftrightarrow> permitted role k \<and> repo \<in> set (cg_allowed g) \<and> immutable_sha sha)"
proof (cases "permitted role k \<and> repo \<in> set (cg_allowed g) \<and> immutable_sha sha")
  case True
  with allowed [of role k repo g sha rid "(d, w)"] assms show ?thesis
    by (auto simp: decided_def split: prod.splits)
next
  case False
  from refused [OF False, of rid "(d, w)"] assms False show ?thesis
    by (auto simp: decided_def)
qed

end

lemmas gated_read_defs = refuse_read_def authorize_repository_and_sha_def audit_named_def ask_port_def
  audit_record_def decided_def

interpretation snapshot_read: read_gate "\<lambda>g rid role repo (_ :: unit) sha. fetch_snapshot g rid role repo sha"
  "\<lambda>p repo _ sha. port_snapshot p repo sha" "\<lambda>role _. True" "''github_snapshot_read''"
  "''pinned_snapshot_read''" "\<lambda>role repo sha _. input_hash role repo sha []"
proof
  fix g :: "'w capability_gateway" and role repo sha rid and s :: "db \<times> 'w"
  have role: "role \<in> {SCOUT, ASSESSOR, CI}" by (cases role) simp_all
  show "repo \<in> set (cg_allowed g) \<Longrightarrow> immutable_sha sha \<Longrightarrow> fetch_snapshot g rid role repo sha s =
        (case port_snapshot (cg_port g) repo sha (snd s) of (r, w) \<Rightarrow>
           (r, ((if cg_audited g then (fst s)\<lparr>db_decisions := db_decisions (fst s) @
                   [decided rid ''github_snapshot_read'' ALLOW ''pinned_snapshot_read''
                      (input_hash role repo sha [])]\<rparr>
                 else fst s), w)))"
    using role by (auto simp: fetch_snapshot_def gated_read_defs act_defs Let_def split: prod.splits)
  show "\<not> (True \<and> repo \<in> set (cg_allowed g) \<and> immutable_sha sha) \<Longrightarrow>
      \<exists>msg reason. fetch_snapshot g rid role repo sha s =
        (Inl (PermissionError msg), ((if cg_audited g then (fst s)\<lparr>db_decisions := db_decisions (fst s) @
                   [decided rid ''github_snapshot_read'' DENY reason (input_hash role repo sha [])]\<rparr>
                 else fst s), snd s))"
    using role by (auto simp: fetch_snapshot_def gated_read_defs act_defs Let_def)
qed

interpretation diff_read: read_gate fetch_pull_request_diff port_diff
  "\<lambda>role pull. role \<in> {ASSESSOR, CI} \<and> 1 \<le> pull" "''github_pull_request_diff_read''"
  "''pinned_diff_read''" "\<lambda>role repo sha pull. input_hash role repo sha [show_int pull]"
  by unfold_locales
    (auto simp: fetch_pull_request_diff_def gated_read_defs act_defs Let_def split: prod.splits)

interpretation check_read: read_gate fetch_check_evidence port_check
  "\<lambda>role check. role = CI \<and> 1 \<le> check" "''github_check_evidence_read''"
  "''pinned_check_read''" "\<lambda>role repo sha check. input_hash role repo sha [show_int check]"
  by unfold_locales
    (auto simp: fetch_check_evidence_def gated_read_defs act_defs Let_def split: prod.splits)

section \<open>Least privilege\<close>

text \<open>
  C28: A read reaches GitHub only with the role and the scope for it: whenever an operation of the
  facade changes the remote's state or returns evidence, the repository is allowlisted and the SHA
  immutable, a pull request's diff is never read for a scout nor a check for any role but CI, and
  the answer is the port's own.
\<close>

theorem reads_need_role_and_allowlist:
  "(fetch_snapshot g rid role repo sha (d, w) = (rs, (d', w')) \<and> (w' \<noteq> w \<or> rs = Inr sn) \<longrightarrow>
      repo \<in> set (cg_allowed g) \<and> immutable_sha sha \<and> port_snapshot (cg_port g) repo sha w = (rs, w')) \<and>
   (fetch_pull_request_diff g rid role repo pull sha (d, w) = (rd, (d', w')) \<and> (w' \<noteq> w \<or> rd = Inr de) \<longrightarrow>
      role \<noteq> SCOUT \<and> 1 \<le> pull \<and> repo \<in> set (cg_allowed g) \<and> immutable_sha sha \<and>
      port_diff (cg_port g) repo pull sha w = (rd, w')) \<and>
   (fetch_check_evidence g rid role repo cid sha (d, w) = (rc, (d', w')) \<and> (w' \<noteq> w \<or> rc = Inr ce) \<longrightarrow>
      role = CI \<and> 1 \<le> cid \<and> repo \<in> set (cg_allowed g) \<and> immutable_sha sha \<and>
      port_check (cg_port g) repo cid sha w = (rc, w'))"
  using snapshot_read.touches_port_only_if_permitted [where g = g and rid = rid and role = role and repo = repo and sha = sha and d = d and w = w and d' = d' and w' = w' and r = rs]
    diff_read.touches_port_only_if_permitted [where g = g and rid = rid and role = role and repo = repo and sha = sha and d = d and w = w and d' = d' and w' = w' and k = pull and r = rd]
    check_read.touches_port_only_if_permitted [where g = g and rid = rid and role = role and repo = repo and sha = sha and d = d and w = w and d' = d' and w' = w' and k = cid and r = rc]
  by auto

text \<open>
  With an audit port every attempted read leaves exactly one decision, under the run and the
  hash of role, repository, SHA and resource, and it says \<open>allow\<close> exactly when the read was
  permitted; nothing else of the database changes.
\<close>

theorem every_read_is_audited_once:
  assumes "cg_audited g"
    and "fetch_pull_request_diff g rid role repo pull sha (d, w) = (r, (d', w'))"
  shows "\<exists>p. d' = d\<lparr>db_decisions := db_decisions d @ [p]\<rparr> \<and> pd_run p = rid \<and>
    pd_policy_name p = ''github_pull_request_diff_read'' \<and>
    pd_input_hash p = input_hash role repo sha [show_int pull] \<and>
    (pd_outcome p = ALLOW \<longleftrightarrow>
       role \<in> {ASSESSOR, CI} \<and> 1 \<le> pull \<and> repo \<in> set (cg_allowed g) \<and> immutable_sha sha)"
  using diff_read.one_decision [OF assms(2,1)] by auto

definition example_port :: "nat read_port" where
  "example_port = \<lparr>port_snapshot = (\<lambda>repo sha n. (Inr example_snapshot, n + 1)),
     port_diff = (\<lambda>repo pull sha n. (Inr \<lparr>de_repository_id = repo, de_pull_number = pull,
        de_head_sha = sha, de_dump = JNull\<rparr>, n + 1)),
     port_check = (\<lambda>repo cid sha n. (Inr \<lparr>ce_repository_id = repo, ce_check_run_id = cid,
        ce_head_sha = sha, ce_dump = JNull\<rparr>, n + 1))\<rparr>"

definition example_gateway :: "nat capability_gateway" where
  "example_gateway = \<lparr>cg_port = example_port, cg_allowed = [11], cg_audited = True\<rparr>"

lemma example_reads:
  "\<exists>d' r. fetch_pull_request_diff example_gateway 0 ASSESSOR 11 7 example_sha (empty_db 0, 0) = (Inr r, (d', 1))"
  "\<exists>d' r. fetch_pull_request_diff example_gateway 0 SCOUT 11 7 example_sha (empty_db 0, 0) = (r, (d', 0))"
  using immutable_example_sha
  by (simp_all add: fetch_pull_request_diff_def gated_read_defs act_defs Let_def example_gateway_def
      example_port_def)

theorem reads_need_role_and_allowlist_witness:
  "\<exists>x. port_diff example_port 11 7 example_sha 0 = (Inr x, 1)"
proof -
  obtain d' x where "fetch_pull_request_diff example_gateway 0 ASSESSOR 11 7 example_sha (empty_db 0, 0) =
      (Inr x, (d', 1))"
    using example_reads(1) by blast
  with reads_need_role_and_allowlist [where g = example_gateway and rid = 0 and role = ASSESSOR and
      repo = 11 and sha = example_sha and d = "empty_db 0" and w = 0 and d' = d' and w' = 1 and pull = 7
      and rd = "Inr x" and de = x]
  show ?thesis by (auto simp: example_gateway_def)
qed

theorem every_read_is_audited_once_witness:
  "\<exists>d' p. d' = (empty_db 0)\<lparr>db_decisions := [p]\<rparr> \<and> pd_outcome p = DENY"
proof -
  obtain d' r where "fetch_pull_request_diff example_gateway 0 SCOUT 11 7 example_sha (empty_db 0, 0) =
      (r, (d', 0))"
    using example_reads(2) by blast
  from every_read_is_audited_once [OF _ this] obtain p where
    "d' = (empty_db 0)\<lparr>db_decisions := db_decisions (empty_db 0) @ [p]\<rparr>" "pd_outcome p \<noteq> ALLOW"
    by (auto simp: example_gateway_def)
  then show ?thesis by (cases "pd_outcome p") (auto simp: empty_db_def)
qed

end
