(* ===== verification/Registry.thy ===== *)
theory Registry
  imports Capability
begin

text \<open>
  \<open>tools/registry.py\<close>: the read tools of one run, their budget, the record of every call and the
  citation locators seen in results. A request is the dictionary of arguments the model sent;
  what pydantic accepts for a field of type int, str or bool, \<open>re.compile\<close>, \<open>ast.parse\<close> and the
  representation of floats are parameters (\<open>tool_env\<close>). A call takes its sequence number under the
  lock, runs, and appends its record under the lock: \<open>tool_step\<close> interleaves the calls of several
  threads between those two points.
\<close>

record tool_env =
  env_int :: "json \<Rightarrow> int option"
  env_str :: "json \<Rightarrow> string option"
  env_bool :: "json \<Rightarrow> bool option"
  env_compile :: "string \<Rightarrow> (string \<Rightarrow> bool) option"
  env_parse :: "string \<Rightarrow> py_definition list option"
  env_float :: "pynum \<Rightarrow> string"

section \<open>Requests\<close>

datatype tool_input =
    List_Tree string int
  | Read_File string int int
  | Search_Text string string bool int
  | Search_Structure string string string int
  | Git_History string int
  | Inspect_Diff
  | Inspect_Check

definition arg ::
    "(json \<Rightarrow> 'a option) \<Rightarrow> ('a \<Rightarrow> bool) \<Rightarrow> (string \<times> json) list \<Rightarrow> string \<Rightarrow> 'a option \<Rightarrow> 'a res" where
  "arg conv ok args key dflt = (case map_of args key of
     None \<Rightarrow> (case dflt of None \<Rightarrow> Inl (ValidationError key) | Some d \<Rightarrow> Inr d)
   | Some v \<Rightarrow> (case conv v of
       Some x \<Rightarrow> if ok x then Inr x else Inl (ValidationError key)
     | None \<Rightarrow> Inl (ValidationError key)))"

definition in_range :: "int \<Rightarrow> int \<Rightarrow> int \<Rightarrow> bool" where
  "in_range lo hi i \<longleftrightarrow> lo \<le> i \<and> i \<le> hi"

definition list_tree_input :: "tool_env \<Rightarrow> (string \<times> json) list \<Rightarrow> tool_input res" where
  "list_tree_input env args =
    bind_res (arg (env_str env) (\<lambda>_. True) args ''prefix'' (Some [])) (\<lambda>p.
    bind_res (arg (env_int env) (in_range 0 32) args ''depth'' (Some 8)) (\<lambda>d.
    Inr (List_Tree p d)))"

definition read_file_input :: "tool_env \<Rightarrow> (string \<times> json) list \<Rightarrow> tool_input res" where
  "read_file_input env args =
    bind_res (arg (env_str env) (len_between 1 2000) args ''path'' None) (\<lambda>p.
    bind_res (arg (env_int env) (\<lambda>i. 1 \<le> i) args ''start_line'' (Some 1)) (\<lambda>a.
    bind_res (arg (env_int env) (\<lambda>i. 1 \<le> i) args ''end_line'' (Some 200)) (\<lambda>b.
    Inr (Read_File p a b))))"

definition search_text_input :: "tool_env \<Rightarrow> (string \<times> json) list \<Rightarrow> tool_input res" where
  "search_text_input env args =
    bind_res (arg (env_str env) (len_between 1 1000) args ''query'' None) (\<lambda>q.
    bind_res (arg (env_str env) (\<lambda>_. True) args ''path_prefix'' (Some [])) (\<lambda>p.
    bind_res (arg (env_bool env) (\<lambda>_. True) args ''regex'' (Some False)) (\<lambda>r.
    bind_res (arg (env_int env) (in_range 1 50) args ''limit'' (Some 30)) (\<lambda>l.
    Inr (Search_Text q p r l)))))"

definition search_structure_input :: "tool_env \<Rightarrow> (string \<times> json) list \<Rightarrow> tool_input res" where
  "search_structure_input env args =
    bind_res (arg (env_str env) (len_between 1 255) args ''symbol'' None) (\<lambda>y.
    bind_res (arg as_str (\<lambda>l. l = ''python'') args ''language'' (Some ''python'')) (\<lambda>lang.
    bind_res (arg (env_str env) (\<lambda>_. True) args ''path_prefix'' (Some [])) (\<lambda>p.
    bind_res (arg (env_int env) (in_range 1 50) args ''limit'' (Some 30)) (\<lambda>l.
    Inr (Search_Structure y lang p l)))))"

definition git_history_input :: "tool_env \<Rightarrow> (string \<times> json) list \<Rightarrow> tool_input res" where
  "git_history_input env args =
    bind_res (arg (env_str env) (\<lambda>_. True) args ''path_prefix'' (Some [])) (\<lambda>p.
    bind_res (arg (env_int env) (in_range 1 100) args ''limit'' (Some 20)) (\<lambda>l.
    Inr (Git_History p l)))"

text \<open>\<open>extra="forbid"\<close>: the evidence tools take no argument at all.\<close>

definition no_input :: "tool_input \<Rightarrow> (string \<times> json) list \<Rightarrow> tool_input res" where
  "no_input i args = (if args = [] then Inr i else Inl (ValidationError ''extra_forbidden''))"

section \<open>The registry\<close>

record tool_execution =
  tx_sequence :: int
  tx_tool_name :: string
  tx_request :: json
  tx_result_summary :: json
  tx_status :: string
  tx_duration_ms :: int

record registry =
  rg_role :: agent_role
  rg_snapshot :: snapshot
  rg_max_calls :: int
  rg_diff :: "diff_evidence option"
  rg_check :: "check_evidence option"
  rg_extra_patterns :: "rx list"
  rg_records :: "tool_execution list"
  rg_next :: int
  rg_call_limit :: "int option"
  rg_request_limit :: "int option"
  rg_locators :: "(string \<times> string \<times> string) list"

definition new_registry ::
    "agent_role \<Rightarrow> snapshot \<Rightarrow> int \<Rightarrow> diff_evidence option \<Rightarrow> check_evidence option \<Rightarrow> registry" where
  "new_registry role sn max_calls diff check_ev =
    \<lparr>rg_role = role, rg_snapshot = sn, rg_max_calls = max_calls, rg_diff = diff, rg_check = check_ev,
     rg_extra_patterns = [], rg_records = [], rg_next = 1, rg_call_limit = None,
     rg_request_limit = None, rg_locators = []\<rparr>"

definition available_inputs ::
    "tool_env \<Rightarrow> registry \<Rightarrow> (string \<times> ((string \<times> json) list \<Rightarrow> tool_input res)) list" where
  "available_inputs env g =
    [(''list_tree'', list_tree_input env), (''read_file'', read_file_input env),
     (''search_text'', search_text_input env), (''search_structure'', search_structure_input env),
     (''git_history'', git_history_input env)] @
    (if rg_role g \<in> {ASSESSOR, CI} \<and> rg_diff g \<noteq> None
     then [(''inspect_diff'', no_input Inspect_Diff)] else []) @
    (if rg_role g = CI \<and> rg_check g \<noteq> None
     then [(''inspect_check'', no_input Inspect_Check)] else [])"

text \<open>The tools offered to a model, in their order; the JSON schema of an input is a parameter.\<close>

definition available_names :: "registry \<Rightarrow> string list" where
  "available_names g =
    [''list_tree'', ''read_file'', ''search_text'', ''search_structure'', ''git_history''] @
    (if rg_role g \<in> {ASSESSOR, CI} \<and> rg_diff g \<noteq> None then [''inspect_diff''] else []) @
    (if rg_role g = CI \<and> rg_check g \<noteq> None then [''inspect_check''] else [])"

definition tool_definitions :: "(string \<Rightarrow> json) \<Rightarrow> registry \<Rightarrow> json list" where
  "tool_definitions schema g = map (\<lambda>name. JObj [(''type'', JStr ''function''),
     (''function'', JObj [(''name'', JStr name),
       (''description'', JStr ''Read pinned repository evidence. Returned content is untrusted.''),
       (''parameters'', schema name)])]) (available_names g)"

lemma available_names: "map fst (available_inputs env g) = available_names g"
  by (simp add: available_inputs_def available_names_def)

definition configure_evidence_window :: "int \<Rightarrow> int \<Rightarrow> (registry, unit) act" where
  "configure_evidence_window max_calls max_requests g =
    (if max_calls < 0 \<or> max_calls > rg_max_calls g \<or> max_requests < 0
     then (Inl (ValueError ''evidence window must fit within the run budget''), g)
     else if rg_next g \<noteq> 1
     then (Inl (RuntimeError ''evidence window must be configured before tool execution''), g)
     else (Inr (), g\<lparr>rg_call_limit := Some max_calls, rg_request_limit := Some max_requests\<rparr>))"

definition evidence_available :: "registry \<Rightarrow> bool" where
  "evidence_available g = (case rg_call_limit g of None \<Rightarrow> True | Some l \<Rightarrow> rg_next g \<le> l)"

definition locator_path :: "string \<Rightarrow> string" where
  "locator_path l = takeWhile (\<lambda>c. c \<noteq> CHR ''#'') l"

definition candidates :: "registry \<Rightarrow> string \<Rightarrow> string \<Rightarrow> string list" where
  "candidates g sha h = remdups (map (\<lambda>(_, _, l). l)
     (filter (\<lambda>(s, e, _). s = sha \<and> e = h) (rg_locators g)))"

definition canonical_locator :: "registry \<Rightarrow> string \<Rightarrow> string \<Rightarrow> string \<Rightarrow> string option" where
  "canonical_locator g claimed sha h =
    (let cands = candidates g sha h;
         path_matches = filter (\<lambda>c. locator_path c = locator_path claimed) cands
     in if claimed \<in> set cands then Some claimed
        else if length path_matches = 1 then Some (hd path_matches)
        else if length cands = 1 then Some (hd cands)
        else None)"

section \<open>Results\<close>

definition source_locator_json :: "source_locator \<Rightarrow> json" where
  "source_locator_json l = JObj
    [(''locator'', JStr (sl_locator l)), (''pinned_sha'', JStr (sl_pinned_sha l)),
     (''content_hash'', JStr (sl_content_hash l)), (''untrusted'', JBool True)]"

definition tree_entry_json :: "tree_entry \<Rightarrow> json" where
  "tree_entry_json e = JObj [(''path'', JStr (te_path e)), (''object_type'', JStr (te_object_type e))]"

definition file_read_json :: "file_read_result \<Rightarrow> json" where
  "file_read_json f = JObj
    [(''text'', JStr (fr_text f)), (''locator'', source_locator_json (fr_locator f)),
     (''truncated'', JBool (fr_truncated f))]"

definition text_match_json :: "text_match \<Rightarrow> json" where
  "text_match_json m = JObj
    [(''path'', JStr (tm_path m)), (''line'', JInt (int (tm_line m))), (''text'', JStr (tm_text m)),
     (''locator'', source_locator_json (tm_locator m)), (''truncated'', JBool (tm_truncated m))]"

definition structure_match_json :: "structure_match \<Rightarrow> json" where
  "structure_match_json m = JObj
    [(''path'', JStr (sm_path m)), (''line'', JInt (int (sm_line m))), (''symbol'', JStr (sm_symbol m)),
     (''kind'', JStr (sm_kind m)), (''locator'', source_locator_json (sm_locator m))]"

definition history_entry_json :: "history_entry \<Rightarrow> json" where
  "history_entry_json h = JObj
    [(''commit_sha'', JStr (he_commit_sha h)), (''subject'', JStr (he_subject h)),
     (''paths'', JArr (map JStr (he_paths h))), (''locator'', JStr (he_locator h)),
     (''untrusted'', JBool True)]"

definition dump_list :: "('a \<Rightarrow> json) \<Rightarrow> 'a list res \<Rightarrow> json res" where
  "dump_list f r = bind_res r (\<lambda>xs. Inr (JArr (map f xs)))"

definition unavailable :: exn where
  "unavailable = ValueError ''tool is not available to this role''"

definition dispatch :: "tool_env \<Rightarrow> registry \<Rightarrow> tool_input \<Rightarrow> json res" where
  "dispatch env g i = (let sn = rg_snapshot g in case i of
     List_Tree p d \<Rightarrow> dump_list tree_entry_json (list_tree sn p d)
   | Read_File p a b \<Rightarrow> bind_res (read_file sn p a b) (\<lambda>f. Inr (file_read_json f))
   | Search_Text q p r l \<Rightarrow> dump_list text_match_json (search_text (env_compile env) sn q p r l)
   | Search_Structure y lang p l \<Rightarrow>
       dump_list structure_match_json (search_structure (env_parse env) sn y lang p l)
   | Git_History p l \<Rightarrow> dump_list history_entry_json (git_history sn p l)
   | Inspect_Diff \<Rightarrow> (case rg_diff g of Some d \<Rightarrow> Inr (de_dump d) | None \<Rightarrow> Inl unavailable)
   | Inspect_Check \<Rightarrow> (case rg_check g of Some c \<Rightarrow> Inr (ce_dump c) | None \<Rightarrow> Inl unavailable))"

text \<open>\<open>visit\<close>: the dictionaries inside a result that carry the three fields as strings.\<close>

definition locator_triple :: "(string \<times> json) list \<Rightarrow> (string \<times> string \<times> string) list" where
  "locator_triple d =
    (case (as_str (jget d ''pinned_sha''), as_str (jget d ''content_hash''), as_str (jget d ''locator'')) of
       (Some s, Some h, Some l) \<Rightarrow> [(s, h, l)]
     | _ \<Rightarrow> [])"

fun found_locators :: "json \<Rightarrow> (string \<times> string \<times> string) list" where
  "found_locators (JArr vs) = concat (map found_locators vs)"
| "found_locators (JObj d) = locator_triple d @ concat (map (\<lambda>(k, v). found_locators v) d)"
| "found_locators _ = []"

text \<open>What \<open>json.loads\<close> reads back from \<open>json.dumps(result, sort_keys=True)\<close>.\<close>

fun sorted_json :: "json \<Rightarrow> json" where
  "sorted_json (JArr vs) = JArr (map sorted_json vs)"
| "sorted_json (JObj d) = JObj (sort_key fst (map (\<lambda>(k, v). (k, sorted_json v)) d))"
| "sorted_json v = v"

section \<open>Execution\<close>

definition redacted_request :: "tool_env \<Rightarrow> (string \<times> json) list \<Rightarrow> json" where
  "redacted_request env args =
    (let result = redact (dumps True (env_float env) (JObj args)) [] in
     if red_detected result
     then JObj [(''redacted'', JBool True), (''content_hash'', JStr (red_content_hash result))]
     else JObj args)"

definition blocked_result :: json where
  "blocked_result = JObj [(''blocked'', JStr ''tool result blocked by redaction policy'')]"

definition result_payload :: "tool_env \<Rightarrow> registry \<Rightarrow> json \<Rightarrow> (string \<times> json) list" where
  "result_payload env g result =
    (let redaction = redact (dumps True (env_float env) result) (rg_extra_patterns g) in
     [(''untrusted_source'', JBool True), (''redacted'', JBool (red_detected redaction)),
      (''content_hash'', JStr (red_content_hash redaction)),
      (''result'', if red_detected redaction then blocked_result else sorted_json result)])"

definition error_payload :: "exn \<Rightarrow> (string \<times> json) list" where
  "error_payload e =
    [(''untrusted_source'', JBool True), (''error'', JStr ''tool request failed validation''),
     (''error_type'', JStr (exn_type_name e))]"

definition closed_payload :: "(string \<times> json) list" where
  "closed_payload =
    [(''untrusted_source'', JBool True),
     (''error'', JStr ''evidence window closed; return the final artifact'')]"

definition tool_result :: "tool_env \<Rightarrow> registry \<Rightarrow> string \<Rightarrow> (string \<times> json) list \<Rightarrow> json res" where
  "tool_result env g name args =
    bind_res (case map_of (available_inputs env g) name of
       None \<Rightarrow> Inl unavailable
     | Some validate \<Rightarrow> validate args) (dispatch env g)"

definition remember :: "json \<Rightarrow> registry \<Rightarrow> registry" where
  "remember result g = g\<lparr>rg_locators := rg_locators g @ found_locators result\<rparr>"

definition execute_allowed ::
    "tool_env \<Rightarrow> string \<Rightarrow> (string \<times> json) list \<Rightarrow> (registry, string \<times> (string \<times> json) list) act" where
  "execute_allowed env name args g =
    (case tool_result env g name args of
       Inr result \<Rightarrow> (Inr (''ok'', result_payload env g result), remember result g)
     | Inl e \<Rightarrow>
        if is_value_error e \<or> is_file_not_found e
        then (Inr (''contract_error'', error_payload e), g)
        else (Inl e, g))"

definition reserve :: "int option \<Rightarrow> (registry, int \<times> bool) act" where
  "reserve model_requests g =
    (if rg_next g > rg_max_calls g then (Inl (RuntimeError ''tool call budget exhausted''), g)
     else (Inr (rg_next g,
         (case rg_call_limit g of None \<Rightarrow> True | Some l \<Rightarrow> rg_next g \<le> l) \<and>
         (case (rg_request_limit g, model_requests) of
            (Some l, Some r) \<Rightarrow> r \<le> l
          | _ \<Rightarrow> True)),
       g\<lparr>rg_next := rg_next g + 1\<rparr>))"

definition payload_summary :: "(string \<times> json) list \<Rightarrow> json" where
  "payload_summary p = JObj
    [(''content_hash'', jget p ''content_hash''),
     (''redacted'', case map_of p ''redacted'' of None \<Rightarrow> JBool False | Some b \<Rightarrow> b),
     (''error_type'', jget p ''error_type'')]"

definition append_record ::
    "tool_env \<Rightarrow> int \<Rightarrow> string \<Rightarrow> (string \<times> json) list \<Rightarrow> int \<Rightarrow> string \<Rightarrow> (string \<times> json) list \<Rightarrow>
     (registry, unit) act" where
  "append_record env seq name args elapsed_ms status p = modify (\<lambda>g. g\<lparr>rg_records := rg_records g @
     [\<lparr>tx_sequence = seq, tx_tool_name = name, tx_request = redacted_request env args,
       tx_result_summary = payload_summary p, tx_status = status, tx_duration_ms = elapsed_ms\<rparr>]\<rparr>)"

definition run_reserved ::
    "tool_env \<Rightarrow> string \<Rightarrow> (string \<times> json) list \<Rightarrow> int \<Rightarrow> int \<times> bool \<Rightarrow>
     (registry, (string \<times> json) list) act" where
  "run_reserved env name args elapsed_ms ticket =
    bind_act (if snd ticket then execute_allowed env name args
              else ret (''policy_refused'', closed_payload))
      (\<lambda>(status, p). then_act (append_record env (fst ticket) name args elapsed_ms status p) (ret p))"

definition execute ::
    "tool_env \<Rightarrow> string \<Rightarrow> (string \<times> json) list \<Rightarrow> int option \<Rightarrow> int \<Rightarrow>
     (registry, (string \<times> json) list) act" where
  "execute env name args model_requests elapsed_ms =
    bind_act (reserve model_requests) (run_reserved env name args elapsed_ms)"


section \<open>Interleaved calls\<close>

type_synonym pending_call = "(int \<times> bool) \<times> string \<times> (string \<times> json) list"

text \<open>
  The registry, the calls under way, and what was asked for: the sequence numbers given out, each
  with the number of model requests its caller had made.
\<close>

type_synonym tool_config = "registry \<times> pending_call list \<times> (int \<times> int option) list"

inductive tool_step :: "tool_env \<Rightarrow> tool_config \<Rightarrow> tool_config \<Rightarrow> bool" for env where
  begin_call: "reserve requests g = (Inr ticket, g') \<Longrightarrow>
      tool_step env (g, calls, asked) (g', (ticket, name, args) # calls, (fst ticket, requests) # asked)"
| refuse_call: "reserve requests g = (Inl e, g') \<Longrightarrow> tool_step env (g, calls, asked) (g', calls, asked)"
| end_call: "c \<in> set calls \<Longrightarrow> c = (ticket, name, args) \<Longrightarrow>
      run_reserved env name args elapsed_ms ticket g = (r, g') \<Longrightarrow>
      tool_step env (g, calls, asked) (g', remove1 c calls, asked)"

lemma execute_is_steps:
  assumes "execute env name args requests ms g = (r, g')"
  shows "\<exists>asked. (tool_step env)\<^sup>*\<^sup>* (g, [], []) (g', [], asked)"
proof (rule bind_act_cases [OF assms [unfolded execute_def]])
  fix e assume "reserve requests g = (Inl e, g')"
  then show ?thesis by (blast intro: tool_step.refuse_call)
next
  fix ticket u
  assume reserved: "reserve requests g = (Inr ticket, u)"
    and run: "run_reserved env name args ms ticket u = (r, g')"
  let ?asked = "[(fst ticket, requests)]"
  have "tool_step env (g, [], []) (u, [(ticket, name, args)], ?asked)"
    using reserved by (rule tool_step.begin_call)
  moreover have "tool_step env (u, [(ticket, name, args)], ?asked)
      (g', remove1 (ticket, name, args) [(ticket, name, args)], ?asked)"
    using run by (intro tool_step.end_call) auto
  ultimately have "(tool_step env)\<^sup>*\<^sup>* (g, [], []) (g', [], ?asked)"
    by (simp add: converse_rtranclp_into_rtranclp)
  then show ?thesis by blast
qed

text \<open>What calls leave alone, and what a call adds.\<close>

definition same_source :: "registry \<Rightarrow> registry \<Rightarrow> bool" where
  "same_source g g' \<longleftrightarrow> rg_role g' = rg_role g \<and> rg_snapshot g' = rg_snapshot g \<and>
     rg_max_calls g' = rg_max_calls g \<and> rg_diff g' = rg_diff g \<and> rg_check g' = rg_check g \<and>
     rg_extra_patterns g' = rg_extra_patterns g \<and> rg_call_limit g' = rg_call_limit g \<and>
     rg_request_limit g' = rg_request_limit g"

lemma same_source_refl [simp]: "same_source g g"
  by (simp add: same_source_def)

lemma same_source_trans: "same_source g u \<Longrightarrow> same_source u g' \<Longrightarrow> same_source g g'"
  by (simp add: same_source_def)

lemma tool_result_frame:
  assumes "rg_role g' = rg_role g" "rg_snapshot g' = rg_snapshot g" "rg_diff g' = rg_diff g"
    "rg_check g' = rg_check g"
  shows "tool_result env g' = tool_result env g"
proof -
  have "dispatch env g' = dispatch env g"
    by (intro ext) (simp add: dispatch_def Let_def assms split: tool_input.split)
  moreover have "available_inputs env g' = available_inputs env g"
    by (simp add: available_inputs_def assms)
  ultimately show ?thesis by (intro ext) (simp only: tool_result_def)
qed

lemma tool_result_cong: "same_source g g' \<Longrightarrow> tool_result env g' = tool_result env g"
  by (rule tool_result_frame) (simp_all add: same_source_def)

text \<open>The evidence window: a number of calls, and a number of requests to the model.\<close>

definition window_open :: "registry \<Rightarrow> int \<Rightarrow> int option \<Rightarrow> bool" where
  "window_open g q requests \<longleftrightarrow> (\<forall>l. rg_call_limit g = Some l \<longrightarrow> q \<le> l) \<and>
     (\<forall>l r. rg_request_limit g = Some l \<and> requests = Some r \<longrightarrow> r \<le> l)"

lemma reserve_cases:
  assumes "reserve requests g = (r, g')"
  obtains (exhausted) e where "r = Inl e" "g' = g" "rg_next g > rg_max_calls g"
  | (reserved) "r = Inr (rg_next g, window_open g (rg_next g) requests)" "g' = g\<lparr>rg_next := rg_next g + 1\<rparr>"
      "rg_next g \<le> rg_max_calls g"
  using assms by (auto simp: reserve_def window_open_def split: if_splits option.splits)

lemma execute_allowed_cases:
  assumes "execute_allowed env name args g = (r, g')"
  obtains (result) v where "tool_result env g name args = Inr v"
      "r = Inr (''ok'', result_payload env g v)" "g' = remember v g"
  | (contract) e where "tool_result env g name args = Inl e"
      "r = Inr (''contract_error'', error_payload e)" "g' = g"
  | (raised) e where "tool_result env g name args = Inl e" "r = Inl e" "g' = g"
  using assms by (auto simp: execute_allowed_def split: sum.splits if_splits)

text \<open>A call that was refused shows nothing but the notice that the window is closed.\<close>

definition refused_row :: "tool_execution \<Rightarrow> bool" where
  "refused_row x \<longleftrightarrow> tx_status x = ''policy_refused'' \<and> tx_result_summary x = payload_summary closed_payload"

lemma run_reserved_cases:
  assumes "run_reserved env name args ms ticket g = (r, g')"
  obtains (raised) e where "r = Inl e" "g' = g"
  | (recorded) u row p where "r = Inr p" "u = g \<or> (\<exists>v. tool_result env g name args = Inr v \<and> u = remember v g)"
      "g' = u\<lparr>rg_records := rg_records u @ [row]\<rparr>" "tx_sequence row = fst ticket"
      "\<not> snd ticket \<Longrightarrow> refused_row row"
proof -
  obtain res u where run: "(if snd ticket then execute_allowed env name args
      else ret (''policy_refused'', closed_payload)) g = (res, u)"
    by fastforce
  have u: "u = g \<or> (\<exists>v. tool_result env g name args = Inr v \<and> u = remember v g)"
    and refused: "\<not> snd ticket \<Longrightarrow> res = Inr (''policy_refused'', closed_payload)"
    and raised: "res = Inl e \<Longrightarrow> u = g" for e
    using run by (auto split: if_splits elim: execute_allowed_cases)
  show thesis
  proof (cases res)
    case (Inl e)
    with assms run raised show thesis by (intro that(1) [of e]) (simp_all add: run_reserved_def)
  next
    case (Inr sp)
    define row where "row = \<lparr>tx_sequence = fst ticket, tx_tool_name = name,
       tx_request = redacted_request env args, tx_result_summary = payload_summary (snd sp),
       tx_status = fst sp, tx_duration_ms = ms\<rparr>"
    from assms run Inr have "r = Inr (snd sp)" "g' = u\<lparr>rg_records := rg_records u @ [row]\<rparr>"
      by (simp_all add: run_reserved_def append_record_def row_def act_defs split: prod.splits)
    with u refused Inr show thesis
      by (intro that(2) [of "snd sp" u row]) (simp_all add: row_def refused_row_def)
  qed
qed

lemma reserve_same_source: "reserve requests g = (r, g') \<Longrightarrow> same_source g g'"
  by (erule reserve_cases) (auto simp: same_source_def)

lemma run_reserved_same_source: "run_reserved env name args ms ticket g = (r, g') \<Longrightarrow> same_source g g'"
  by (erule run_reserved_cases) (auto simp: same_source_def remember_def)

lemma tool_step_same_source: "tool_step env c c' \<Longrightarrow> same_source (fst c) (fst c')"
  by (induction rule: tool_step.induct) (auto dest: reserve_same_source run_reserved_same_source)

lemma tool_steps_same_source: "(tool_step env)\<^sup>*\<^sup>* c c' \<Longrightarrow> same_source (fst c) (fst c')"
  by (induction rule: rtranclp_induct) (auto intro: same_source_trans tool_step_same_source)


section \<open>The invariant of the calls\<close>

definition sequences :: "registry \<times> pending_call list \<Rightarrow> int list" where
  "sequences c = map tx_sequence (rg_records (fst c)) @ map (\<lambda>p. fst (fst p)) (snd c)"

definition seen_in_result :: "tool_env \<Rightarrow> registry \<Rightarrow> string \<times> string \<times> string \<Rightarrow> bool" where
  "seen_in_result env g t \<longleftrightarrow>
     (\<exists>name args v. tool_result env g name args = Inr v \<and> t \<in> set (found_locators v))"

definition calls_ok :: "tool_env \<Rightarrow> registry \<times> pending_call list \<Rightarrow> bool" where
  "calls_ok env c \<longleftrightarrow> (let g = fst c in
     distinct (sequences c) \<and> set (sequences c) \<subseteq> {1 ..< rg_next g} \<and>
     1 \<le> rg_next g \<and> rg_next g \<le> max 1 (rg_max_calls g + 1) \<and>
     (\<forall>t \<in> set (rg_locators g). seen_in_result env g t))"

definition unused :: "registry \<Rightarrow> bool" where
  "unused g \<longleftrightarrow> rg_records g = [] \<and> rg_next g = 1 \<and> rg_locators g = []"

lemma calls_ok_unused: "unused g \<Longrightarrow> calls_ok env (g, [])"
  by (simp add: unused_def calls_ok_def sequences_def)

lemma seen_in_result_cong: "same_source g g' \<Longrightarrow> seen_in_result env g' = seen_in_result env g"
  by (intro ext) (simp add: seen_in_result_def tool_result_cong)

lemma window_open_cong: "same_source g g' \<Longrightarrow> window_open g' = window_open g"
  by (intro ext) (simp add: window_open_def same_source_def)

lemma calls_ok_reserved:
  assumes "calls_ok env (g, calls)" and "rg_next g \<le> rg_max_calls g"
  shows "calls_ok env (g\<lparr>rg_next := rg_next g + 1\<rparr>, ((rg_next g, ok), name, args) # calls)"
proof -
  have "same_source g (g\<lparr>rg_next := rg_next g + 1\<rparr>)" by (simp add: same_source_def)
  then show ?thesis
    using assms
    by (auto simp: calls_ok_def sequences_def Let_def seen_in_result_cong)
qed

lemma calls_ok_remember:
  assumes "calls_ok env (g, calls)" and "tool_result env g name args = Inr v"
  shows "calls_ok env (remember v g, calls)"
proof -
  define g' where "g' = remember v g"
  have same: "same_source g g'" by (simp add: g'_def same_source_def remember_def)
  have "seen_in_result env g t" if "t \<in> set (found_locators v)" for t
    using assms(2) that unfolding seen_in_result_def by blast
  then show ?thesis
    using assms(1)
    unfolding calls_ok_def fst_conv snd_conv Let_def g'_def [symmetric]
      seen_in_result_cong [OF same]
    by (auto simp: g'_def sequences_def remember_def)
qed

lemma calls_ok_recorded:
  assumes "calls_ok env (g, calls)" and "c \<in> set calls"
    and "tx_sequence row = fst (fst c)"
  shows "calls_ok env (g\<lparr>rg_records := rg_records g @ [row]\<rparr>, remove1 c calls)"
proof -
  define g' where "g' = g\<lparr>rg_records := rg_records g @ [row]\<rparr>"
  have same: "same_source g g'" by (simp add: g'_def same_source_def)
  obtain xs ys where calls: "calls = xs @ c # ys" "remove1 c calls = xs @ ys"
    using split_list_first [OF assms(2)] by (auto simp: remove1_append)
  have "distinct (sequences (g', remove1 c calls)) = distinct (sequences (g, calls))"
    "set (sequences (g', remove1 c calls)) = set (sequences (g, calls))"
    using assms(3) unfolding calls(2) unfolding calls(1) by (auto simp: g'_def sequences_def)
  then show ?thesis
    using assms(1,3) set_remove1_subset [of c calls]
    unfolding calls_ok_def fst_conv snd_conv Let_def g'_def [symmetric]
      seen_in_result_cong [OF same]
    by (auto simp: g'_def)
qed


lemma calls_ok_dropped: "calls_ok env (g, calls) \<Longrightarrow> c \<in> set calls \<Longrightarrow> calls_ok env (g, remove1 c calls)"
proof -
  assume ok: "calls_ok env (g, calls)" and c: "c \<in> set calls"
  obtain xs ys where "calls = xs @ c # ys" "remove1 c calls = xs @ ys"
    using split_list_first [OF c] by (auto simp: remove1_append)
  with ok show ?thesis by (auto simp: calls_ok_def sequences_def Let_def)
qed

abbreviation calls_of :: "tool_config \<Rightarrow> registry \<times> pending_call list" where
  "calls_of c \<equiv> (fst c, fst (snd c))"

lemma calls_ok_step: "tool_step env c c' \<Longrightarrow> calls_ok env (calls_of c) \<Longrightarrow> calls_ok env (calls_of c')"
proof (induction rule: tool_step.induct)
  case (begin_call requests g ticket g' calls asked name args)
  from begin_call(1) show ?case
    using begin_call(2) by (cases rule: reserve_cases) (auto intro: calls_ok_reserved)
next
  case (refuse_call requests g e g' calls)
  then show ?case by (auto elim: reserve_cases)
next
  case (end_call c calls ticket name args ms g r g')
  from end_call(3) show ?case
  proof (cases rule: run_reserved_cases)
    case (raised e)
    with end_call(1,4) show ?thesis by (simp add: calls_ok_dropped)
  next
    case (recorded u row p)
    then have "calls_ok env (u, calls)" using end_call(4) by (auto intro: calls_ok_remember)
    with recorded end_call(1,2) show ?thesis by (auto intro: calls_ok_recorded)
  qed
qed

lemma calls_ok_steps: "(tool_step env)\<^sup>*\<^sup>* c c' \<Longrightarrow> calls_ok env (calls_of c) \<Longrightarrow> calls_ok env (calls_of c')"
  by (induction rule: rtranclp_induct) (auto intro: calls_ok_step)

lemma calls_ok_execute:
  "execute env name args requests ms g = (r, g') \<Longrightarrow> calls_ok env (g, []) \<Longrightarrow> calls_ok env (g', [])"
  by (drule execute_is_steps) (auto dest: calls_ok_steps)

text \<open>What was asked for outside the window is not run.\<close>

definition not_run :: "registry \<Rightarrow> pending_call list \<Rightarrow> int \<Rightarrow> bool" where
  "not_run g calls q \<longleftrightarrow> (\<forall>p \<in> set calls. fst (fst p) = q \<longrightarrow> \<not> snd (fst p)) \<and>
     (\<forall>x \<in> set (rg_records g). tx_sequence x = q \<longrightarrow> refused_row x)"

definition asked_ok :: "tool_config \<Rightarrow> bool" where
  "asked_ok c = (case c of (g, calls, asked) \<Rightarrow>
     distinct (map fst asked) \<and> (\<forall>q \<in> set (map fst asked). q < rg_next g) \<and>
     set (sequences (g, calls)) \<subseteq> set (map fst asked) \<and>
     (\<forall>a \<in> set asked. \<not> window_open g (fst a) (snd a) \<longrightarrow> not_run g calls (fst a)))"

lemma asked_ok_unused: "unused g \<Longrightarrow> asked_ok (g, [], [])"
  by (simp add: asked_ok_def unused_def sequences_def)

lemma not_run_unknown: "q \<notin> set (sequences (g, calls)) \<Longrightarrow> not_run g calls q"
  by (auto simp: not_run_def sequences_def)

lemma asked_ok_begun:
  assumes "asked_ok (g, calls, asked)"
  shows "asked_ok (g\<lparr>rg_next := rg_next g + 1\<rparr>,
    ((rg_next g, window_open g (rg_next g) requests), name, args) # calls, (rg_next g, requests) # asked)"
proof -
  let ?g = "g\<lparr>rg_next := rg_next g + 1\<rparr>" and ?c = "((rg_next g, window_open g (rg_next g) requests), name, args)"
  have asked: "distinct (map fst asked)" "\<forall>q \<in> set (map fst asked). q < rg_next g"
    "set (sequences (g, calls)) \<subseteq> set (map fst asked)"
    "\<forall>a \<in> set asked. \<not> window_open g (fst a) (snd a) \<longrightarrow> not_run g calls (fst a)"
    using assms by (simp_all add: asked_ok_def)
  have same: "window_open ?g = window_open g"
    by (rule window_open_cong) (simp add: same_source_def)
  have new: "rg_next g \<notin> set (map fst asked)" using asked(2) by blast
  then have "\<not> window_open g (rg_next g) requests \<Longrightarrow> not_run ?g (?c # calls) (rg_next g)"
    using not_run_unknown [of "rg_next g" g calls] asked(3) by (auto simp: not_run_def)
  moreover have "not_run ?g (?c # calls) (fst a)" if "a \<in> set asked" "\<not> window_open g (fst a) (snd a)" for a
    using asked(4) that new by (auto simp: not_run_def)
  ultimately show ?thesis
    using asked(1-3) new unfolding asked_ok_def split_conv same by (auto simp: sequences_def)
qed

lemma asked_ok_dropped: "asked_ok (g, calls, asked) \<Longrightarrow> asked_ok (g, remove1 c calls, asked)"
proof -
  have sub: "set (remove1 c calls) \<subseteq> set calls" by (rule set_remove1_subset)
  then have "set (sequences (g, remove1 c calls)) \<subseteq> set (sequences (g, calls))"
    by (auto simp: sequences_def)
  moreover have "not_run g calls q \<Longrightarrow> not_run g (remove1 c calls) q" for q
    using sub unfolding not_run_def by blast
  ultimately show "asked_ok (g, calls, asked) \<Longrightarrow> asked_ok (g, remove1 c calls, asked)"
    unfolding asked_ok_def split_conv by blast
qed

lemma asked_ok_recorded:
  assumes "asked_ok (g, calls, asked)" and "same_source g u" and "rg_records u = rg_records g" and "rg_next u = rg_next g"
    and "tx_sequence row \<in> set (map fst asked)"
    and "\<And>a. a \<in> set asked \<Longrightarrow> fst a = tx_sequence row \<Longrightarrow> \<not> window_open g (fst a) (snd a) \<Longrightarrow> refused_row row"
  shows "asked_ok (u\<lparr>rg_records := rg_records u @ [row]\<rparr>, calls, asked)"
proof -
  let ?u = "u\<lparr>rg_records := rg_records u @ [row]\<rparr>"
  have same: "window_open ?u = window_open g"
    by (rule window_open_cong) (use assms(2) in \<open>simp add: same_source_def\<close>)
  have "not_run ?u calls (fst a)" if "a \<in> set asked" "\<not> window_open g (fst a) (snd a)" "not_run g calls (fst a)" for a
    using that assms(6) [OF that(1) _ that(2)] assms(3) by (auto simp: not_run_def)
  then show ?thesis
    using assms(1,3,4,5) unfolding asked_ok_def split_conv same by (auto simp: sequences_def)
qed

lemma asked_ok_ended:
  assumes "asked_ok (g, calls, asked)" and "same_source g u" and "rg_records u = rg_records g" and "rg_next u = rg_next g"
    and "c \<in> set calls" and "tx_sequence row = fst (fst c)" and "\<not> snd (fst c) \<Longrightarrow> refused_row row"
  shows "asked_ok (u\<lparr>rg_records := rg_records u @ [row]\<rparr>, remove1 c calls, asked)"
proof (rule asked_ok_dropped [OF asked_ok_recorded [OF assms(1-4)]])
  show "tx_sequence row \<in> set (map fst asked)"
    using assms(1,5,6) by (auto simp: asked_ok_def sequences_def)
  fix a assume "a \<in> set asked" "fst a = tx_sequence row" "\<not> window_open g (fst a) (snd a)"
  with assms(1,5,6) have "\<not> snd (fst c)" by (auto simp: asked_ok_def not_run_def)
  then show "refused_row row" by (rule assms(7))
qed

lemma asked_ok_step: "tool_step env c c' \<Longrightarrow> asked_ok c \<Longrightarrow> asked_ok c'"
proof (induction rule: tool_step.induct)
  case (begin_call requests g ticket g' calls asked name args)
  from begin_call(1) show ?case
    using begin_call(2) by (cases rule: reserve_cases) (auto intro: asked_ok_begun)
next
  case (refuse_call requests g e g' calls)
  then show ?case by (auto elim: reserve_cases)
next
  case (end_call c calls ticket name args ms g r g' asked)
  from end_call(3) show ?case
  proof (cases rule: run_reserved_cases)
    case (raised e)
    with end_call(4) show ?thesis by (simp add: asked_ok_dropped)
  next
    case (recorded u row p)
    have "same_source g u" "rg_records u = rg_records g" "rg_next u = rg_next g"
      using recorded(2) by (auto simp: remember_def same_source_def)
    from asked_ok_ended [OF end_call(4) this end_call(1)] recorded end_call(2) show ?thesis by auto
  qed
qed

lemma asked_ok_steps: "(tool_step env)\<^sup>*\<^sup>* c c' \<Longrightarrow> asked_ok c \<Longrightarrow> asked_ok c'"
  by (induction rule: rtranclp_induct) (auto intro: asked_ok_step)

lemma execute_same_source: "execute env name args requests ms g = (r, g') \<Longrightarrow> same_source g g'"
  by (drule execute_is_steps) (auto dest: tool_steps_same_source)

lemma calls_ok_bounds:
  assumes "calls_ok env (g, calls)"
  shows "set (sequences (g, calls)) \<subseteq> {1..rg_max_calls g}"
    "int (length (sequences (g, calls))) \<le> max 0 (rg_max_calls g)"
proof -
  from assms show sub: "set (sequences (g, calls)) \<subseteq> {1..rg_max_calls g}"
    by (fastforce simp: calls_ok_def Let_def)
  from assms have "length (sequences (g, calls)) = card (set (sequences (g, calls)))"
    by (simp add: calls_ok_def Let_def distinct_card)
  also have "\<dots> \<le> card {1..rg_max_calls g}"
    using sub by (rule card_mono [rotated]) simp
  finally show "int (length (sequences (g, calls))) \<le> max 0 (rg_max_calls g)" by simp
qed

text \<open>
  C14: However the calls of an unused registry interleave, they stay within the run's budget: every
  sequence number, of a recorded call or of one under way, was given out once and lies between 1 and
  the maximum, so there are at most as many calls as the budget allows; and a call asked for outside
  the evidence window, because its number is above the limit of calls or because its caller had made
  more requests to the model than the limit of requests, is not run: its record is a refusal that
  shows nothing but the notice (\<open>not_run\<close>).
\<close>

theorem tool_calls_within_budget:
  assumes "unused g" and "(tool_step env)\<^sup>*\<^sup>* (g, [], []) (g', calls, asked)"
  shows "distinct (sequences (g', calls)) \<and> set (sequences (g', calls)) \<subseteq> {1..rg_max_calls g} \<and>
    int (length (rg_records g') + length calls) \<le> max 0 (rg_max_calls g) \<and>
    distinct (map fst asked) \<and> set (sequences (g', calls)) \<subseteq> set (map fst asked) \<and>
    (\<forall>a \<in> set asked. \<not> window_open g (fst a) (snd a) \<longrightarrow> not_run g' calls (fst a))"
proof -
  have ok: "calls_ok env (g', calls)"
    using calls_ok_steps [OF assms(2)] calls_ok_unused [OF assms(1)] by simp
  have same: "same_source g g'"
    using tool_steps_same_source [OF assms(2)] by simp
  then have "rg_max_calls g' = rg_max_calls g" by (simp add: same_source_def)
  with calls_ok_bounds [OF ok] ok asked_ok_steps [OF assms(2) asked_ok_unused [OF assms(1)]] show ?thesis
    unfolding window_open_cong [OF same, symmetric]
    by (simp add: calls_ok_def asked_ok_def Let_def sequences_def)
qed

section \<open>Citation locators\<close>

lemma candidates_seen: "l \<in> set (candidates g sha h) \<longleftrightarrow> (sha, h, l) \<in> set (rg_locators g)"
  by (force simp: candidates_def)

lemma canonical_locator_mem:
  "canonical_locator g claimed sha h = Some l \<Longrightarrow> l \<in> set (candidates g sha h)"
  by (auto simp: canonical_locator_def Let_def length_Suc_conv filter_eq_Cons_iff split: if_splits)

lemma canonical_locator_seen:
  "calls_ok env (g, []) \<Longrightarrow> canonical_locator g claimed sha h = Some l \<Longrightarrow> seen_in_result env g (sha, h, l)"
  by (auto simp: calls_ok_def Let_def candidates_seen dest!: canonical_locator_mem)

lemma canonical_locator_exact:
  "(sha, h, l) \<in> set (rg_locators g) \<Longrightarrow> canonical_locator g l sha h = Some l"
  by (simp add: canonical_locator_def candidates_seen)

section \<open>Redaction of results\<close>

lemma sort_key_map_snd:
  "sort_key fst (map (\<lambda>(k, v). (k, f v)) xs) = map (\<lambda>(k, v). (k, f v)) (sort_key fst xs)"
proof (induction xs)
  case (Cons x xs)
  have "insort_key fst (case x of (k, v) \<Rightarrow> (k, f v)) (map (\<lambda>(k, v). (k, f v)) ys) =
      map (\<lambda>(k, v). (k, f v)) (insort_key fst x ys)" for ys
    by (induction ys) (auto split: prod.splits)
  with Cons.IH show ?case by simp
qed simp

lemma sort_key_idem: "sort_key f (sort_key f xs) = sort_key f xs"
  by (simp add: sorted_sort_id sort_key_id_if_sorted)

lemma dumps_sorted_json: "dumps True fr (sorted_json v) = dumps True fr v"
proof (induction v rule: sorted_json.induct)
  case (2 d)
  have same: "map (\<lambda>(k, v). (k, dumps True fr v)) (map (\<lambda>(k, v). (k, sorted_json v)) d) =
      map (\<lambda>(k, v). (k, dumps True fr v)) d"
    using "2.IH" by force
  have "sort_key fst (map (\<lambda>(k, v). (k, dumps True fr v))
      (sort_key fst (map (\<lambda>(k, v). (k, sorted_json v)) d))) =
    sort_key fst (map (\<lambda>(k, v). (k, dumps True fr v)) d)"
    unfolding sort_key_map_snd [symmetric] sort_key_idem same ..
  then show ?case by (simp add: Let_def)
qed (auto cong: map_cong simp: comp_def)


lemma execute_payload:
  assumes "execute env name args requests ms g = (Inr p, g')"
  shows "p = closed_payload \<or> (\<exists>e. p = error_payload e) \<or>
    (\<exists>v. tool_result env g name args = Inr v \<and> p = result_payload env g v)"
proof -
  from assms obtain ticket u where reserved: "reserve requests g = (Inr ticket, u)"
    and run: "run_reserved env name args ms ticket u = (Inr p, g')"
    unfolding execute_def by (elim bind_act_cases) auto
  have same: "same_source g u" using reserved by (rule reserve_same_source)
  then have "result_payload env u = result_payload env g"
    by (intro ext) (simp add: result_payload_def same_source_def)
  with run show ?thesis
    unfolding tool_result_cong [OF same, symmetric]
    by (auto simp: run_reserved_def append_record_def act_defs split: if_splits prod.splits sum.splits
        elim!: execute_allowed_cases)
qed

lemma tool_result_available:
  assumes "tool_result env g name args = Inr v"
  shows "(name = ''inspect_diff'' \<longrightarrow> rg_role g \<in> {ASSESSOR, CI} \<and> rg_diff g \<noteq> None) \<and>
    (name = ''inspect_check'' \<longrightarrow> rg_role g = CI \<and> rg_check g \<noteq> None)"
  using assms by (auto simp: tool_result_def available_inputs_def unavailable_def split: if_splits)

text \<open>
  C36: What a tool call returns to the model is redacted and within the role: a result in the answer
  is the blocked notice, or the JSON of the tool's own result whose serialization no built-in
  pattern and no pattern of the manifest matches; a diff is inspected by assessors and CI agents
  only, check evidence by CI agents only.
\<close>

theorem tool_results_are_redacted:
  assumes "execute env name args requests ms g = (Inr p, g')" and "map_of p ''result'' = Some r"
  shows "(r = blocked_result \<or> (\<exists>v. tool_result env g name args = Inr v \<and> r = sorted_json v \<and>
      \<not> red_detected (redact (dumps True (env_float env) r) (rg_extra_patterns g)))) \<and>
    (name = ''inspect_diff'' \<longrightarrow> rg_role g \<in> {ASSESSOR, CI}) \<and>
    (name = ''inspect_check'' \<longrightarrow> rg_role g = CI)"
proof -
  from assms obtain v where v: "tool_result env g name args = Inr v" "p = result_payload env g v"
    by (auto simp: closed_payload_def error_payload_def dest!: execute_payload)
  then have "r = blocked_result \<or> r = sorted_json v \<and>
      \<not> red_detected (redact (dumps True (env_float env) (sorted_json v)) (rg_extra_patterns g))"
    using assms(2) unfolding dumps_sorted_json
    by (auto simp: result_payload_def Let_def split: if_splits)
  with v(1) tool_result_available [OF v(1)] show ?thesis by blast
qed

section \<open>Examples\<close>

definition example_env :: tool_env where
  "example_env = \<lparr>env_int = as_int, env_str = as_str,
     env_bool = (\<lambda>v. case v of JBool b \<Rightarrow> Some b | _ \<Rightarrow> None), env_compile = (\<lambda>_. None),
     env_parse = (\<lambda>_. None), env_float = (\<lambda>_. ''0.0'')\<rparr>"

definition example_registry :: registry where
  "example_registry = new_registry SCOUT example_snapshot 2 None None"

lemma example_registry_unused: "unused example_registry"
  by (simp add: example_registry_def new_registry_def unused_def)

definition windowed_registry :: registry where
  "windowed_registry = snd (configure_evidence_window 2 3 example_registry)"

text \<open>A caller that has made four requests to the model when three are in the window is refused.\<close>

theorem tool_calls_within_budget_witness:
  "map tx_status (rg_records (snd (execute example_env ''list_tree'' [] (Some 4) 5 windowed_registry))) = [''policy_refused''] \<and>
   \<not> window_open windowed_registry 1 (Some 4) \<and>
   set (sequences (snd (execute example_env ''list_tree'' [] (Some 4) 5 windowed_registry), [])) \<subseteq> {1..2}"
proof -
  let ?g = "snd (execute example_env ''list_tree'' [] (Some 4) 5 windowed_registry)"
  have rows: "map tx_sequence (rg_records ?g) = [1]" "rg_max_calls windowed_registry = 2" "unused windowed_registry"
    by (simp_all add: execute_def run_reserved_def append_record_def reserve_def act_defs windowed_registry_def
        configure_evidence_window_def example_registry_def new_registry_def unused_def)
  have closed: "\<not> window_open windowed_registry 1 (Some 4)"
    by (simp add: window_open_def windowed_registry_def configure_evidence_window_def example_registry_def new_registry_def)
  have "reserve (Some 4) windowed_registry = (Inr (1, False), windowed_registry\<lparr>rg_next := 2\<rparr>)"
    by (simp add: reserve_def windowed_registry_def configure_evidence_window_def example_registry_def new_registry_def)
  then have begun: "tool_step example_env (windowed_registry, [], [])
      (windowed_registry\<lparr>rg_next := 2\<rparr>, [((1, False), ''list_tree'', [])], [(1, Some 4)])"
    using tool_step.begin_call by fastforce
  have "run_reserved example_env ''list_tree'' [] 5 (1, False) (windowed_registry\<lparr>rg_next := 2\<rparr>) =
      (fst (execute example_env ''list_tree'' [] (Some 4) 5 windowed_registry), ?g)"
    using \<open>reserve _ _ = _\<close> by (simp add: execute_def)
  from tool_step.end_call [OF _ refl this, of "[((1, False), ''list_tree'', [])]" "[(1, Some 4)]"]
  have "tool_step example_env (windowed_registry\<lparr>rg_next := 2\<rparr>, [((1, False), ''list_tree'', [])], [(1, Some 4)])
      (?g, [], [(1, Some 4)])" by simp
  with begun have "(tool_step example_env)\<^sup>*\<^sup>* (windowed_registry, [], []) (?g, [], [(1, Some 4)])"
    by (rule converse_rtranclp_into_rtranclp [OF _ r_into_rtranclp])
  from tool_calls_within_budget [OF rows(3) this] closed rows show ?thesis
    by (auto simp: not_run_def refused_row_def map_eq_Cons_conv)
qed

lemma example_history_call:
  "execute example_env ''git_history'' [] None 5 example_registry =
     (Inr (result_payload example_env example_registry (JArr [])),
      snd (execute example_env ''git_history'' [] None 5 example_registry))"
proof -
  have "tool_result example_env g ''git_history'' [] = Inr (JArr [])"
    if "rg_snapshot g = example_snapshot" for g
    using that by (simp add: tool_result_def available_inputs_def git_history_input_def arg_def
        dispatch_def git_history_def dump_list_def example_snapshot_def)
  then show ?thesis
    by (simp add: execute_def reserve_def run_reserved_def execute_allowed_def append_record_def
        act_defs example_registry_def new_registry_def result_payload_def)
qed

lemma empty_result_clean: "\<not> red_detected (redact ''[]'' [])"
proof -
  have "\<not> list_ex (\<lambda>r. re_search r ''[]'') (map snd redaction_patterns)" by code_simp
  then show ?thesis by (simp add: redact_detected_iff list_ex_iff)
qed

theorem tool_results_are_redacted_witness:
  "map_of (result_payload example_env example_registry (JArr [])) ''result'' = Some (JArr []) \<and>
   rg_role example_registry = SCOUT \<and>
   (JArr [] = blocked_result \<or> (\<exists>v. tool_result example_env example_registry ''git_history'' [] = Inr v \<and>
      JArr [] = sorted_json v))"
proof -
  have found: "map_of (result_payload example_env example_registry (JArr [])) ''result'' = Some (JArr [])"
    by (simp add: result_payload_def Let_def example_registry_def new_registry_def empty_result_clean)
  from tool_results_are_redacted [OF example_history_call found] found show ?thesis
    by (simp add: example_registry_def new_registry_def) blast
qed

end
