(* ===== verification/Orchestrator.thy ===== *)
theory Orchestrator
  imports Agents CiPush
begin

text \<open>
  \<open>runs/orchestrator.py\<close>: one attempt of a leased run, from the pinned configuration through the
  snapshot, the agent and the record of what happened to a terminal status. A handler works on the
  database together with the outside world; the agent's exception is caught by the chain of
  \<open>except\<close> clauses in \<open>model_failure\<close>. The clock readings around the agent are an argument.
\<close>

section \<open>The provider\<close>

record call_metadata =
  cm_provider :: string
  cm_usage :: json
  cm_billed_cost :: pynum

text \<open>What \<open>getattr\<close> finds on the gateway object after the attempt, and its trace exporter's sink.\<close>

record 'w provider = "'w model_gateway" +
  gw_last_call :: "'w \<Rightarrow> call_metadata option"
  gw_last_request :: "'w \<Rightarrow> model_request option"
  gw_last_allowlist :: "'w \<Rightarrow> string list option"
  gw_emit :: "(string \<Rightarrow> string \<Rightarrow> trace_payload \<Rightarrow> ('w, unit) act) option"

record 'w orchestration =
  or_env :: tool_env
  or_dump :: "any_artifact \<Rightarrow> string"
  or_gateway :: "'w provider"
  or_model_id :: string
  or_elapsed_ms :: int

section \<open>Configuration and budget\<close>

definition pin_model_configuration :: "uuid \<Rightarrow> string \<Rightarrow> string \<Rightarrow> bool \<Rightarrow> (db, unit) act" where
  "pin_model_configuration rid system_prompt model_id evaluation = modify (update_run rid (\<lambda>r.
     r\<lparr>run_prompt_hash := Some (sha256_hex (utf8 system_prompt)),
       run_model_config := [(''model_id'', JStr model_id), (''data_collection'', JStr ''deny''),
         (''evaluation'', JBool evaluation)]\<rparr>))"

definition budget_get :: "run \<Rightarrow> string \<Rightarrow> pynum \<Rightarrow> pynum" where
  "budget_get r key dflt = (case map_of (run_budget r) key of None \<Rightarrow> dflt | Some v \<Rightarrow> v)"

text \<open>\<open>float(x)\<close> is the number itself here: the rounding of large integers is not modelled.\<close>

definition run_model_budget :: "run \<Rightarrow> model_budget res" where
  "run_model_budget r =
    bind_res (py_int (budget_get r ''model_turns'' (PyInt 12))) (\<lambda>turns.
    bind_res (py_int (budget_get r ''tool_calls'' (PyInt 40))) (\<lambda>calls.
    bind_res (py_int (budget_get r ''wall_seconds'' (PyInt 1200))) (\<lambda>wall.
    Inr \<lparr>mb_max_turns = turns, mb_max_tool_calls = calls,
         mb_max_usd = budget_get r ''usd'' (PyInt 3), mb_max_wall_seconds = wall\<rparr>)))"

definition loaded :: "uuid \<Rightarrow> ('w world, run) act" where
  "loaded rid = on_db (with_run rid ret)"

definition transit :: "uuid \<Rightarrow> run_status \<Rightarrow> string \<Rightarrow> ('w world, unit) act" where
  "transit rid target reason = on_db (transition_run rid target reason ''worker'' [])"

section \<open>Records of an attempt\<close>

definition call_settings :: "bool \<Rightarrow> string option \<Rightarrow> string option \<Rightarrow> string list \<Rightarrow> json" where
  "call_settings fallback prompt tool_hash allowlist =
    (let str = (\<lambda>v. case v of None \<Rightarrow> JNull | Some t \<Rightarrow> JStr t) in JObj
      [(''data_collection'', JStr ''deny''), (''fallback'', JBool fallback),
       (''prompt_hash'', str prompt), (''tool_definitions_hash'', str tool_hash),
       (''provider_allowlist'', JArr (map JStr allowlist))])"

definition trace_text :: "tool_env \<Rightarrow> run \<Rightarrow> string \<Rightarrow> string \<Rightarrow> json \<Rightarrow> json \<Rightarrow> pynum \<Rightarrow> int \<Rightarrow> string" where
  "trace_text env r model_id provider settings usage cost ms = dumps True (env_float env) (JObj
    [(''run_id'', JStr (uuid_str (run_id r))), (''role'', JStr (role_value (run_role r))),
     (''pinned_sha'', JStr (run_pinned_sha r)), (''model_id'', JStr model_id),
     (''provider'', JStr provider), (''settings'', settings), (''usage'', usage),
     (''billed_cost'', JFloat cost), (''latency_ms'', JInt ms)])"

text \<open>The trace id, the state of the export and the detections of a blocked one.\<close>

definition export_trace ::
    "'w provider \<Rightarrow> uuid \<Rightarrow> string \<Rightarrow>
     ('w world, string option \<times> string option \<times> redaction_event list) act" where
  "export_trace gw rid trace_payload = (case gw_emit gw of
     None \<Rightarrow> ret (None, None, [])
   | Some emit \<Rightarrow> try_else (on_remote (export emit (uuid_str rid) ''model-call'' trace_payload))
       (\<lambda>e. ret (None, Some ''failed'', []))
       (\<lambda>x. ret (te_trace_id x,
          Some (if te_detector_names x \<noteq> [] then ''blocked'' else ''exported''),
          map (\<lambda>n. \<lparr>rv_run = rid, rv_detector_name = n, rv_content_hash = te_content_hash x,
             rv_source_locator = ''trace:model-call'', rv_resolution_state = ''blocked''\<rparr>)
            (te_detector_names x))))"

definition add_model_call :: "model_call_row \<Rightarrow> (db, unit) act" where
  "add_model_call row s =
    (if list_ex (\<lambda>c. mc_run c = mc_run row \<and> mc_sequence c = mc_sequence row) (db_model_calls s)
     then (Inl (IntegrityError ''uq_model_calls_sequence''), s)
     else (Inr (), s\<lparr>db_model_calls := db_model_calls s @ [row]\<rparr>))"

definition record_model_call :: "'w orchestration \<Rightarrow> uuid \<Rightarrow> ('w world, unit) act" where
  "record_model_call oc rid = bind_act (loaded rid) (\<lambda>r. with_state (\<lambda>s.
    (let gw = or_gateway oc; w = snd s;
         sequence = int (length (filter (\<lambda>c. mc_run c = rid) (db_model_calls (fst s)))) + 1;
         meta = gw_last_call gw w; request = gw_last_request gw w;
         allowlist = (case gw_last_allowlist gw w of
            Some l \<Rightarrow> l
          | None \<Rightarrow> (case request of None \<Rightarrow> [] | Some q \<Rightarrow> mq_provider_allowlist q));
         provider = (case meta of None \<Rightarrow> ''configured_gateway'' | Some m \<Rightarrow> cm_provider m);
         usage = (case meta of None \<Rightarrow> JObj [] | Some m \<Rightarrow> cm_usage m);
         cost = (case meta of None \<Rightarrow> PyFloat 0 | Some m \<Rightarrow> cm_billed_cost m);
         fallback = (case request of None \<Rightarrow> False
            | Some q \<Rightarrow> \<not> mq_evaluation q \<and> length allowlist \<noteq> 1);
         prompt = (case request of None \<Rightarrow> run_prompt_hash r | Some q \<Rightarrow> Some (prompt_hash q));
         tool_hash = map_option mq_tool_definitions_hash request;
         payload = trace_text (or_env oc) r (or_model_id oc) provider
           (call_settings fallback prompt tool_hash allowlist) usage cost (or_elapsed_ms oc)
     in bind_act (export_trace gw rid payload) (\<lambda>(trace_id, state, events).
          then_act (on_db (modify (\<lambda>d. d\<lparr>db_redaction_events := db_redaction_events d @ events\<rparr>)))
           (on_db (add_model_call
             \<lparr>mc_run = rid, mc_sequence = sequence, mc_model_id = or_model_id oc,
              mc_provider = provider, mc_fallback = fallback, mc_prompt_hash = prompt,
              mc_tool_definitions_hash = tool_hash, mc_provider_allowlist = allowlist,
              mc_trace_export = state, mc_usage = usage, mc_billed_cost = cost,
              mc_latency_ms = or_elapsed_ms oc, mc_trace_id = trace_id\<rparr>))))))"

definition record_terminal_error ::
    "'w orchestration \<Rightarrow> uuid \<Rightarrow> string \<Rightarrow> string \<Rightarrow> run_status \<Rightarrow> ('w world, unit) act" where
  "record_terminal_error oc rid code message status = bind_act (loaded rid) (\<lambda>r. with_state (\<lambda>s.
    (let redaction = redact (take 1000 message) [];
         safe = (if red_detected redaction then ''error detail blocked by redaction policy''
                 else red_text redaction);
         error = \<lparr>art_schema_version = ''1'', art_run_id = rid, art_role = run_role r,
           art_pinned_sha = run_pinned_sha r, art_created_at = db_now (fst s), art_claims = [],
           art_unknowns = [], art_citations = [], te_code = code, te_message = safe,
           te_next_action = Some ''inspect the run evidence and correct the failed precondition''\<rparr>
     in then_act (of_res (check_artifact_base error))
       (then_act (on_db (store_artifact (or_dump oc) (Terminal_Error error) ''terminal_error'' ''clean''))
         (transit rid status code)))))"

definition add_tool_call :: "uuid \<Rightarrow> tool_execution \<Rightarrow> (db, unit) act" where
  "add_tool_call rid x s =
    (if list_ex (\<lambda>c. tc_run c = rid \<and> tc_sequence c = tx_sequence x) (db_tool_calls s)
     then (Inl (IntegrityError ''uq_tool_calls_sequence''), s)
     else (Inr (), s\<lparr>db_tool_calls := db_tool_calls s @
       [\<lparr>tc_run = rid, tc_sequence = tx_sequence x, tc_tool_name = tx_tool_name x,
         tc_request = tx_request x, tc_result_summary = tx_result_summary x,
         tc_status = tx_status x, tc_duration_ms = tx_duration_ms x\<rparr>]\<rparr>))"

definition record_tool_calls :: "uuid \<Rightarrow> registry option \<Rightarrow> ('w world, unit) act" where
  "record_tool_calls rid tools = (case tools of
     None \<Rightarrow> ret ()
   | Some g \<Rightarrow> on_db (for_each (add_tool_call rid) (rg_records g)))"

section \<open>The tools of a run\<close>

definition source_unavailable :: "exn \<Rightarrow> bool" where
  "source_unavailable e \<longleftrightarrow> is_file_not_found e \<or> is_permission_error e \<or> is_value_error e"

definition audited :: "'w capability_gateway \<Rightarrow> 'w capability_gateway" where
  "audited g = (if cg_audited g then g else g\<lparr>cg_audited := True\<rparr>)"

definition read_diff ::
    "'w capability_gateway \<Rightarrow> run \<Rightarrow> ('w world, diff_evidence option) act" where
  "read_diff g r = (case run_pull_number r of
     None \<Rightarrow> ret None
   | Some pull \<Rightarrow> bind_act (fetch_pull_request_diff g (run_id r) (run_role r) (run_repository_id r)
       pull (run_pinned_sha r)) (\<lambda>d. ret (Some d)))"

definition read_check ::
    "'w capability_gateway \<Rightarrow> run \<Rightarrow> ('w world, check_evidence option) act" where
  "read_check g r = (case run_check_run_id r of
     None \<Rightarrow> ret None
   | Some check_id \<Rightarrow>
       if run_role r \<noteq> CI then ret None
       else bind_act (fetch_check_evidence g (run_id r) (run_role r) (run_repository_id r)
         check_id (run_pinned_sha r)) (\<lambda>c. ret (Some c)))"

definition none_if_unavailable :: "exn \<Rightarrow> ('w world, 'a option) act" where
  "none_if_unavailable e = (if source_unavailable e then ret None else throw e)"

definition run_registry ::
    "run \<Rightarrow> snapshot \<Rightarrow> diff_evidence option \<Rightarrow> check_evidence option \<Rightarrow> ('w world, registry) act" where
  "run_registry r sn diff check_ev =
    bind_act (of_res (py_int (budget_get r ''tool_calls'' (PyInt 40)))) (\<lambda>max_calls.
      ret (new_registry (run_role r) sn max_calls diff check_ev))"

definition snapshot_tools ::
    "'w capability_gateway option \<Rightarrow> run \<Rightarrow> ('w world, registry option) act" where
  "snapshot_tools capability r = (case capability of
     None \<Rightarrow> ret None
   | Some g0 \<Rightarrow> (let g = audited g0 in
       try_else (fetch_snapshot g (run_id r) (run_role r) (run_repository_id r) (run_pinned_sha r))
         none_if_unavailable
         (\<lambda>sn. try_else (bind_act (read_diff g r) (\<lambda>d. bind_act (read_check g r) (\<lambda>c. ret (d, c))))
            none_if_unavailable
            (\<lambda>(d, c). bind_act (run_registry r sn d c) (\<lambda>t. ret (Some t))))))"

section \<open>The end of an attempt\<close>

text \<open>The \<open>except\<close> clauses around the agent; \<open>invalid\<close> is the code of a \<open>ValueError\<close>.\<close>

definition model_failure ::
    "'w orchestration \<Rightarrow> uuid \<Rightarrow> string \<Rightarrow> registry option \<Rightarrow> exn \<Rightarrow> ('w world, unit) act" where
  "model_failure oc rid invalid tools e =
    then_act
      (case e of
         BudgetExhaustedError m \<Rightarrow> record_terminal_error oc rid ''budget_exhausted'' m BUDGET_EXHAUSTED
       | ModelGatewayError m \<Rightarrow> record_terminal_error oc rid ''model_gateway_failure'' m FAILED
       | _ \<Rightarrow>
          if is_value_error e
          then record_terminal_error oc rid invalid (exn_message e) REFUSED
          else record_terminal_error oc rid ''model_gateway_failure'' (exn_type_name e) FAILED)
      (then_act (record_model_call oc rid) (record_tool_calls rid tools))"

definition agent_run ::
    "('w agent_state, 'a) act \<Rightarrow> registry option \<Rightarrow> ('w world, 'a res \<times> registry option) act" where
  "agent_run m tools = (\<lambda>(d, w). case m (w, tools) of (r, (w', tools')) \<Rightarrow> (Inr (r, tools'), (d, w')))"

definition stored_or_refused ::
    "'w orchestration \<Rightarrow> uuid \<Rightarrow> any_artifact \<Rightarrow> string \<Rightarrow> ('w world, unit) act \<Rightarrow> ('w world, unit) act" where
  "stored_or_refused oc rid artifact kind go_on =
    bind_act (on_db (store_artifact (or_dump oc) artifact kind ''clean'')) (\<lambda>row.
      if ar_redaction_state row = ''blocked'' then transit rid REFUSED ''artifact_secret_detection''
      else go_on)"

text \<open>
  The attempt from the agent on: the agent, then either the error and the records, or the records,
  the validated output and what is done with it.
\<close>

definition attempt ::
    "'w orchestration \<Rightarrow> uuid \<Rightarrow> string \<Rightarrow> ('w agent_state, 'a) act \<Rightarrow> registry option \<Rightarrow>
     ('a \<Rightarrow> time \<Rightarrow> ('w world, unit) act) \<Rightarrow> ('w world, unit) act" where
  "attempt oc rid invalid agent tools finish =
    bind_act (agent_run agent tools) (\<lambda>(r, tools'). case r of
       Inl e \<Rightarrow> model_failure oc rid invalid tools' e
     | Inr artifact \<Rightarrow>
         then_act (record_model_call oc rid)
        (then_act (record_tool_calls rid tools')
        (with_state (\<lambda>s. finish artifact (db_now (fst s))))))"

section \<open>Scout\<close>

definition finish_scout ::
    "'w orchestration \<Rightarrow> uuid \<Rightarrow> scout_artifact \<Rightarrow> time \<Rightarrow> ('w world, unit) act" where
  "finish_scout oc rid artifact now =
    then_act (transit rid EVALUATING ''scout_output_validated'')
      (stored_or_refused oc rid (Scout_Artifact (artifact\<lparr>art_created_at := now\<rparr>)) ''scout''
        (transit rid SUCCEEDED ''scout_artifact_stored''))"

definition scout_with_tools ::
    "'w orchestration \<Rightarrow> run \<Rightarrow> registry option \<Rightarrow> ('w world, unit) act" where
  "scout_with_tools oc r tools =
    then_act (transit (run_id r) RUNNING ''scout_started'')
    (bind_act (of_res (run_model_budget r)) (\<lambda>b.
      attempt oc (run_id r) ''invalid_model_output''
        (run_scout (or_env oc) (model_gateway.truncate (or_gateway oc)) (run_id r) (run_pinned_sha r)
          (run_task_text r) (or_model_id oc) b (run_evaluation_case_id r \<noteq> None))
        tools (finish_scout oc (run_id r))))"

definition orchestrate_scout ::
    "'w orchestration \<Rightarrow> 'w capability_gateway option \<Rightarrow> uuid \<Rightarrow> ('w world, unit) act" where
  "orchestrate_scout oc capability rid = bind_act (loaded rid) (\<lambda>r.
    if run_role r \<noteq> SCOUT \<or> run_status r \<noteq> LEASED
    then throw (ValueError ''only leased Scout runs can be orchestrated'')
    else
      then_act (on_db (pin_model_configuration rid SCOUT_SYSTEM_PROMPT (or_model_id oc)
          (run_evaluation_case_id r \<noteq> None)))
     (then_act (transit rid SNAPSHOTTING ''snapshot_policy_checked'')
       (case capability of
          None \<Rightarrow> scout_with_tools oc r None
        | Some g \<Rightarrow>
            try_else (fetch_snapshot (audited g) rid (run_role r) (run_repository_id r) (run_pinned_sha r))
              (\<lambda>e. if source_unavailable e then transit rid REFUSED ''snapshot_unavailable'' else throw e)
              (\<lambda>sn. bind_act (run_registry r sn None None)
                (\<lambda>t. scout_with_tools oc r (Some t))))))"

section \<open>Assessor\<close>

definition finish_assessor ::
    "'w orchestration \<Rightarrow> uuid \<Rightarrow> risk_artifact \<Rightarrow> time \<Rightarrow> ('w world, unit) act" where
  "finish_assessor oc rid artifact now =
    then_act (transit rid EVALUATING ''risk_output_validated'')
      (stored_or_refused oc rid (Risk_Artifact (artifact\<lparr>art_created_at := now\<rparr>)) ''risk''
        (transit rid SUCCEEDED ''risk_artifact_stored''))"

definition orchestrate_assessor ::
    "'w orchestration \<Rightarrow> 'w capability_gateway option \<Rightarrow> uuid \<Rightarrow> ('w world, unit) act" where
  "orchestrate_assessor oc capability rid = bind_act (loaded rid) (\<lambda>r.
    if run_role r \<noteq> ASSESSOR \<or> run_status r \<noteq> LEASED
    then throw (ValueError ''only leased assessor runs can be orchestrated'')
    else
      then_act (on_db (pin_model_configuration rid ASSESSOR_SYSTEM_PROMPT (or_model_id oc)
          (run_evaluation_case_id r \<noteq> None)))
     (then_act (transit rid SNAPSHOTTING ''diff_policy_checked'')
     (bind_act (snapshot_tools capability r) (\<lambda>tools.
       if capability \<noteq> None \<and> tools = None then transit rid REFUSED ''snapshot_unavailable''
       else
         then_act (transit rid RUNNING ''assessor_started'')
        (bind_act (of_res (run_model_budget r)) (\<lambda>b.
          attempt oc rid ''invalid_risk_output''
            (run_assessor (or_env oc) (model_gateway.truncate (or_gateway oc)) rid (run_pinned_sha r)
              (run_task_text r) (or_model_id oc) b (run_evaluation_case_id r \<noteq> None))
            tools (finish_assessor oc rid)))))))"

section \<open>CI\<close>

definition refuse_ci_failure :: "uuid \<Rightarrow> string \<Rightarrow> ('w world, unit) act" where
  "refuse_ci_failure rid redacted_log = bind_act (loaded rid) (\<lambda>r.
    if run_role r \<noteq> CI \<or> run_status r \<noteq> LEASED
    then throw (ValueError ''only leased CI runs can be diagnosed'')
    else then_act (transit rid SNAPSHOTTING ''check_log_loaded'')
      (let failure_class = classify_failure redacted_log in
       if failure_class \<noteq> ''repository''
       then transit rid REFUSED (''ci_'' @ failure_class @ ''_failure'')
       else transit rid RUNNING ''ci_repository_failure''))"

definition finish_ci ::
    "'w orchestration \<Rightarrow> uuid \<Rightarrow> ci_diagnosis_artifact \<Rightarrow> time \<Rightarrow> ('w world, unit) act" where
  "finish_ci oc rid artifact now =
    then_act (transit rid EVALUATING ''ci_diagnosis_validated'')
      (stored_or_refused oc rid (Ci_Artifact (artifact\<lparr>art_created_at := now\<rparr>)) ''ci_diagnosis''
        (if requires_refusal artifact
         then bind_act (of_res (build_refusal now artifact
                ''failure is not safely attributable to repository source''
                ''resolve the external precondition and rerun the check''))
           (\<lambda>refusal. then_act
             (on_db (store_artifact (or_dump oc) (Refusal_Artifact refusal) ''refusal'' ''clean''))
             (transit rid REFUSED
               (''ci_'' @ failure_class_value (ci_failure_class artifact) @ ''_failure'')))
         else if ci_patch_proposed artifact
         then transit rid REFUSED ''ci_patch_requires_deterministic_executor_evidence''
         else transit rid SUCCEEDED ''ci_diagnosis_stored''))"

definition orchestrate_ci ::
    "'w orchestration \<Rightarrow> 'w capability_gateway option \<Rightarrow> uuid \<Rightarrow> ('w world, unit) act" where
  "orchestrate_ci oc capability rid = bind_act (loaded rid) (\<lambda>r.
    if run_role r \<noteq> CI \<or> run_status r \<noteq> LEASED
    then throw (ValueError ''only leased CI runs can be orchestrated'')
    else
      then_act (on_db (pin_model_configuration rid CI_SYSTEM_PROMPT (or_model_id oc)
          (run_evaluation_case_id r \<noteq> None)))
     (then_act (transit rid SNAPSHOTTING ''check_evidence_policy_checked'')
     (bind_act (snapshot_tools capability r) (\<lambda>tools.
       if capability \<noteq> None \<and> tools = None then transit rid REFUSED ''snapshot_unavailable''
       else
         then_act (transit rid RUNNING ''ci_diagnosis_started'')
        (bind_act (of_res (run_model_budget r)) (\<lambda>b.
          attempt oc rid ''invalid_ci_output''
            (run_ci_diagnosis (or_env oc) (model_gateway.truncate (or_gateway oc)) rid (run_pinned_sha r)
              (run_task_text r) (or_model_id oc) b (run_evaluation_case_id r \<noteq> None))
            tools (finish_ci oc rid)))))))"


section \<open>Invariants\<close>

lemma keeps_loaded [keeps_intros]: "keeps I (loaded rid)"
  by (auto simp: keeps_def loaded_def on_db_def with_run_def split: prod.splits option.splits)

lemma keeps_agent_run [keeps_intros]: "keeps (\<lambda>s. I (fst s)) (agent_run m tools)"
  by (auto simp: keeps_def agent_run_def split: prod.splits)

lemma add_model_call_same_runs: "same_runs s (snd (add_model_call row s))"
  and add_tool_call_same_runs: "same_runs s (snd (add_tool_call rid x s))"
  by (simp_all add: add_model_call_def add_tool_call_def same_runs_def)

context attempt_invariant
begin

lemma keeps_transit: "target \<in> attempt_targets \<Longrightarrow> keeps (\<lambda>s. I (fst s)) (transit rid target reason)"
  unfolding transit_def by (intro keeps_intros keeps_step)

lemma keeps_pin: "keeps (\<lambda>s. I (fst s)) (on_db (pin_model_configuration rid prompt model ev))"
  unfolding pin_model_configuration_def
  by (intro keeps_intros keeps_modify_run) (simp add: attributes_only_def columns_only_def)

lemma keeps_model_call: "keeps (\<lambda>s. I (fst s)) (record_model_call oc rid)"
proof -
  have "keeps I (add_model_call row)" for row
    by (auto simp: keeps_def intro: keeps_same_runs [OF add_model_call_same_runs])
  moreover have "I (d\<lparr>db_redaction_events := db_redaction_events d @ evs\<rparr>)" if "I d" for d evs
    using that by (rule keeps_same_runs [rotated]) (simp add: same_runs_def)
  moreover have "keeps (\<lambda>s. I (fst s)) (export_trace gw rid pay)" for gw :: "'w provider" and pay
    unfolding export_trace_def by (auto intro!: keeps_intros split: option.splits)
  ultimately show ?thesis
    unfolding record_model_call_def Let_def by (auto intro!: keeps_intros split: prod.splits)
qed

lemma keeps_terminal_error:
  "st \<in> attempt_targets \<Longrightarrow> keeps (\<lambda>s. I (fst s)) (record_terminal_error oc rid code message st)"
  unfolding record_terminal_error_def Let_def by (intro keeps_intros keeps_transit keeps_store_artifact)

lemma keeps_tool_calls: "keeps (\<lambda>s. I (fst s)) (record_tool_calls rid tools)"
proof -
  have "keeps I (add_tool_call rid x)" for x
    by (auto simp: keeps_def intro: keeps_same_runs [OF add_tool_call_same_runs])
  then show ?thesis
    unfolding record_tool_calls_def by (auto intro!: keeps_intros split: option.splits)
qed

lemmas keeps_records = keeps_transit keeps_pin keeps_model_call keeps_terminal_error keeps_tool_calls

lemma keeps_model_failure: "keeps (\<lambda>s. I (fst s)) (model_failure oc rid invalid tools e)"
  unfolding model_failure_def
  by (intro keeps_intros keeps_records) (auto intro!: keeps_intros keeps_records split: exn.splits)

lemma keeps_attempt:
  "(\<And>a now. keeps (\<lambda>s. I (fst s)) (finish a now)) \<Longrightarrow>
     keeps (\<lambda>s. I (fst s)) (attempt oc rid invalid agent tools finish)"
  unfolding attempt_def
  by (auto intro!: keeps_intros keeps_records keeps_model_failure split: prod.splits sum.splits)

lemma keeps_ask_port: "keeps (\<lambda>s. I (fst s)) (ask_port m)"
  by (auto simp: keeps_def ask_port_def split: prod.splits)

lemma keeps_audit_named: "keeps (\<lambda>s. I (fst s)) (audit_named g rid name outcome reason h)"
  by (auto simp: keeps_def audit_named_def audit_record_def same_runs_def intro: keeps_same_runs)

lemma keeps_refuse_read: "keeps (\<lambda>s. I (fst s)) (refuse_read g rid name reason h msg)"
  unfolding refuse_read_def by (intro keeps_intros keeps_audit_named)

lemma keeps_fetches:
  "keeps (\<lambda>s. I (fst s)) (fetch_snapshot g rid role repo sha)"
  "keeps (\<lambda>s. I (fst s)) (fetch_pull_request_diff g rid role repo pull sha)"
  "keeps (\<lambda>s. I (fst s)) (fetch_check_evidence g rid role repo cid sha)"
  unfolding fetch_snapshot_def fetch_pull_request_diff_def fetch_check_evidence_def
    authorize_repository_and_sha_def Let_def
  by (intro keeps_intros keeps_audit_named keeps_refuse_read keeps_ask_port)+

lemma keeps_snapshot_tools: "keeps (\<lambda>s. I (fst s)) (snapshot_tools capability r)"
  unfolding snapshot_tools_def read_diff_def read_check_def run_registry_def none_if_unavailable_def Let_def
  by (auto intro!: keeps_intros keeps_fetches split: option.splits prod.splits)

lemma keeps_finish:
  "keeps (\<lambda>s. I (fst s)) (finish_scout oc rid a now)"
  "keeps (\<lambda>s. I (fst s)) (finish_assessor oc rid b now)"
  "keeps (\<lambda>s. I (fst s)) (finish_ci oc rid c now)"
  unfolding finish_scout_def finish_assessor_def finish_ci_def stored_or_refused_def
  by (intro keeps_intros keeps_transit keeps_store_artifact attempt_targets_mem)+

lemma keeps_orchestrate_scout: "keeps (\<lambda>s. I (fst s)) (orchestrate_scout oc capability rid)"
  unfolding orchestrate_scout_def scout_with_tools_def run_registry_def
  by (auto intro!: keeps_intros attempt_targets_mem keeps_records keeps_fetches keeps_attempt keeps_finish split: option.splits)

lemma keeps_orchestrate_assessor: "keeps (\<lambda>s. I (fst s)) (orchestrate_assessor oc capability rid)"
  unfolding orchestrate_assessor_def
  by (intro keeps_intros attempt_targets_mem keeps_records keeps_snapshot_tools keeps_attempt keeps_finish)

lemma keeps_orchestrate_ci: "keeps (\<lambda>s. I (fst s)) (orchestrate_ci oc capability rid)"
  unfolding orchestrate_ci_def
  by (intro keeps_intros attempt_targets_mem keeps_records keeps_snapshot_tools keeps_attempt keeps_finish)

lemma keeps_refuse_ci_failure: "keeps (\<lambda>s. I (fst s)) (refuse_ci_failure rid redacted_log)"
  unfolding refuse_ci_failure_def Let_def by (intro keeps_intros attempt_targets_mem keeps_transit)

lemmas keeps_orchestrations = keeps_orchestrate_scout keeps_orchestrate_assessor keeps_orchestrate_ci
  keeps_refuse_ci_failure

end

section \<open>How an attempt ends\<close>

text \<open>The run has ended, and in success only with a stored artifact of the kind that satisfies \<open>Q\<close>.\<close>

definition finished :: "uuid \<Rightarrow> string \<Rightarrow> (any_artifact \<Rightarrow> bool) \<Rightarrow> db \<Rightarrow> bool" where
  "finished rid kind Q d \<longleftrightarrow> (\<exists>r. find_run d rid = Some r \<and> run_status r \<in> terminal_statuses \<and>
     (run_status r = SUCCEEDED \<longrightarrow>
        (\<exists>row a. get_artifact d rid kind = Some row \<and> ar_content row = Dumped a \<and> Q a)))"

lemma ended_badly_finished: "ended_badly rid d \<Longrightarrow> finished rid kind Q d"
  by (auto simp: ended_badly_def finished_def)

lemma finished_mono: "finished rid kind P d \<Longrightarrow> (\<And>a. P a \<Longrightarrow> Q a) \<Longrightarrow> finished rid kind Q d"
  by (auto simp: finished_def)

lemma wlp_on_db [wlp_intros]: "wlp m (\<lambda>x t. Q x (t, snd s)) (fst s) \<Longrightarrow> wlp (on_db m) Q s"
  by (auto simp: wlp_def on_db_def split: prod.splits)

lemma wlp_transit:
  assumes "\<And>r. find_run (fst s) rid = Some r \<Longrightarrow> target \<in> allowed_next (run_status r) \<Longrightarrow>
      Q () (moved rid (run_status r) target reason ''worker'' [] (fst s), snd s)"
  shows "wlp (transit rid target reason) Q s"
proof -
  have "wlp (transition_run rid target reason ''worker'' []) (\<lambda>x t. Q x (t, snd s)) (fst s)"
  proof (rule wlpI)
    fix x t
    assume run: "transition_run rid target reason ''worker'' [] (fst s) = (Inr x, t)"
    then obtain r where r: "find_run (fst s) rid = Some r"
      by (cases "find_run (fst s) rid") (simp_all add: transition_run_def with_run_def)
    then have "target \<in> allowed_next (run_status r)"
      using run by (cases "target \<in> allowed_next (run_status r)") (simp_all add: transition_run_refused)
    with r run assms show "Q x (t, snd s)" by (simp add: transition_run_moved)
  qed
  then show ?thesis unfolding transit_def by (rule wlp_on_db)
qed

lemma wlp_transit_badly:
  assumes "target \<in> terminal_statuses" and "target \<noteq> SUCCEEDED"
  shows "wlp (transit rid target reason) (\<lambda>_ t. ended_badly rid (fst t)) s"
  using assms by (intro wlp_transit) (simp add: ended_badly_def find_run_moved set_status_def)

lemma wlp_transit_succeeded:
  assumes "get_artifact (fst s) rid kind = Some row" and "ar_content row = Dumped a" and "Q a"
  shows "wlp (transit rid SUCCEEDED reason) (\<lambda>_ t. finished rid kind Q (fst t)) s"
  using assms
  by (intro wlp_transit)
    (simp add: finished_def find_run_moved set_status_def terminal_statuses_def get_artifact_def)

lemma wlp_terminal_error:
  assumes "target \<in> terminal_statuses" and "target \<noteq> SUCCEEDED"
  shows "wlp (record_terminal_error oc rid code message target) (\<lambda>_ t. ended_badly rid (fst t)) s"
  unfolding record_terminal_error_def Let_def then_act_def
  by (rule wlp_bind, rule wlpI, intro wlp_intros, rule wlpI, rule wlp_transit_badly [OF assms])

lemma wlp_model_failure: "wlp (model_failure oc rid invalid tools e) (\<lambda>_ t. ended_badly rid (fst t)) s"
proof -
  have records: "wlp (then_act (record_model_call oc rid) (record_tool_calls rid tools))
      (\<lambda>_ t. ended_badly rid (fst t)) t" if "ended_badly rid (fst t)" for t
    using that by (intro wlp_keeps [OF keeps_then])
      (auto intro: failure.keeps_model_call failure.keeps_tool_calls)
  show ?thesis
    unfolding model_failure_def
    by (rule wlp_then, rule wlp_mono [OF _ records])
      (auto intro!: wlp_terminal_error simp: terminal_statuses_def split: exn.split)
qed

lemma store_artifact_Inr:
  assumes "store_artifact dump a kind ''clean'' s = (Inr row, t)"
  shows "get_artifact t (art_run_id (base_of a)) kind = Some row \<and>
    (ar_redaction_state row \<noteq> ''blocked'' \<longrightarrow> ar_content row = Dumped a)"
proof -
  from assms have "\<not> list_ex (\<lambda>r. ar_run r = art_run_id (base_of a) \<and> ar_kind r = kind) (db_artifacts s)"
    by (auto simp: store_artifact_def Let_def split: if_splits)
  moreover from this have "get_artifact s (art_run_id (base_of a)) kind = None"
    by (simp add: get_artifact_None)
  ultimately show ?thesis
    using assms by (auto simp: store_artifact_def get_artifact_def Let_def find_snoc split: if_splits)
qed

lemma wlp_stored_or_refused:
  assumes "art_run_id (base_of a) = rid"
    and "\<And>t row. get_artifact (fst t) rid kind = Some row \<Longrightarrow> ar_content row = Dumped a \<Longrightarrow>
      wlp go_on (\<lambda>_ u. finished rid kind Q (fst u)) t"
  shows "wlp (stored_or_refused oc rid a kind go_on) (\<lambda>_ t. finished rid kind Q (fst t)) s"
  unfolding stored_or_refused_def
proof (rule wlp_bind, rule wlp_on_db, rule wlpI)
  fix row d
  assume stored: "store_artifact (or_dump oc) a kind ''clean'' (fst s) = (Inr row, d)"
  have refused: "wlp (transit rid REFUSED reason) (\<lambda>_ t. finished rid kind Q (fst t)) (d, snd s)" for reason
    by (rule wlp_mono [OF wlp_transit_badly]) (simp_all add: terminal_statuses_def ended_badly_finished)
  show "wlp (if ar_redaction_state row = ''blocked'' then transit rid REFUSED ''artifact_secret_detection''
      else go_on) (\<lambda>_ t. finished rid kind Q (fst t)) (d, snd s)"
    using store_artifact_Inr [OF stored] assms(1) assms(2) [of "(d, snd s)" row] refused
    by (cases "ar_redaction_state row = ''blocked''") simp_all
qed

lemma wlp_attempt:
  assumes "\<And>a w w' tools' now t. agent (w, tools) = (Inr a, (w', tools')) \<Longrightarrow>
      wlp (finish a now) (\<lambda>_ u. finished rid kind Q (fst u)) t"
  shows "wlp (attempt oc rid invalid agent tools finish) (\<lambda>_ t. finished rid kind Q (fst t)) s"
  unfolding attempt_def
proof (rule wlp_bind, rule wlpI, clarify)
  fix r tools' d w
  assume "agent_run agent tools s = (Inr (r, tools'), (d, w))"
  then have run: "agent (snd s, tools) = (r, (w, tools'))"
    by (auto simp: agent_run_def split: prod.splits)
  show "wlp (case r of Inl e \<Rightarrow> model_failure oc rid invalid tools' e
      | Inr artifact \<Rightarrow> then_act (record_model_call oc rid) (then_act (record_tool_calls rid tools')
         (with_state (\<lambda>s. finish artifact (db_now (fst s))))))
      (\<lambda>_ t. finished rid kind Q (fst t)) (d, w)"
  proof (cases r)
    case (Inl e)
    then show ?thesis
      by (auto intro: wlp_mono [OF wlp_model_failure] ended_badly_finished)
  next
    case (Inr a)
    have "wlp (then_act (record_model_call oc rid) (then_act (record_tool_calls rid tools')
        (with_state (\<lambda>s. finish a (db_now (fst s)))))) (\<lambda>_ t. finished rid kind Q (fst t)) (d, w)"
      by (rule wlp_then, rule wlpI, rule wlp_then, rule wlpI, rule wlp_with_state,
          rule assms [OF run [unfolded Inr]])
    with Inr show ?thesis by simp
  qed
qed


lemma wlp_loaded:
  "(\<And>r. find_run (fst s) rid = Some r \<Longrightarrow> run_id r = rid \<Longrightarrow> Q r s) \<Longrightarrow> wlp (loaded rid) Q s"
  by (auto simp: wlp_def loaded_def on_db_def with_run_def split: prod.splits option.splits
      dest: find_run_Some)

lemma wlp_refused: "wlp (transit rid REFUSED reason) (\<lambda>_ t. finished rid kind Q (fst t)) s"
  by (rule wlp_mono [OF wlp_transit_badly]) (simp_all add: terminal_statuses_def ended_badly_finished)

section \<open>Scout\<close>

definition scout_evidence :: "tool_env \<Rightarrow> run \<Rightarrow> snapshot \<Rightarrow> scout_artifact \<Rightarrow> bool" where
  "scout_evidence env r sn a \<longleftrightarrow>
     art_run_id a = run_id r \<and> art_pinned_sha a = run_pinned_sha r \<and>
     er_passed (citation_resolution (artifact_base.truncate a) sn) \<and>
     set (material_claims a) \<subseteq> set (cited_claims a) \<and>
     (\<forall>c \<in> set (art_citations a). seen_in_result env (new_registry SCOUT sn 0 None None)
        (cit_pinned_sha c, cit_excerpt_hash c, cit_locator c))"

lemma run_scout_scout_evidence:
  assumes "run_scout env gw (run_id r) (run_pinned_sha r) task model b evaluation
      (w, Some (new_registry SCOUT sn n None None)) = (Inr a, (w', tools))"
  shows "scout_evidence env r sn (a\<lparr>art_created_at := now\<rparr>)"
proof -
  have "seen_in_result env (new_registry SCOUT sn n None None) =
      seen_in_result env (new_registry SCOUT sn 0 None None)"
    by (intro ext) (simp add: seen_in_result_def new_registry_def
        tool_result_frame [of "\<lparr>rg_role = SCOUT, rg_snapshot = sn, rg_max_calls = n, rg_diff = None,
          rg_check = None, rg_extra_patterns = [], rg_records = [], rg_next = 1, rg_call_limit = None,
          rg_request_limit = None, rg_locators = []\<rparr>"
        "\<lparr>rg_role = SCOUT, rg_snapshot = sn, rg_max_calls = 0, rg_diff = None,
          rg_check = None, rg_extra_patterns = [], rg_records = [], rg_next = 1, rg_call_limit = None,
          rg_request_limit = None, rg_locators = []\<rparr>"])
  moreover have "unused (new_registry SCOUT sn n None None)" by (simp add: unused_def new_registry_def)
  ultimately show ?thesis
    using run_scout_evidence [OF assms]
    by (simp add: scout_evidence_def material_claims_def cited_claims_def citation_resolution_def
        artifact_base.truncate_def new_registry_def)
qed

lemma wlp_scout_with_tools:
  assumes "run_id r = rid" and "run_role r = SCOUT"
  shows "wlp (scout_with_tools oc r (Some (new_registry SCOUT sn n None None)))
    (\<lambda>_ t. finished rid ''scout'' (\<lambda>x. \<exists>a. x = Scout_Artifact a \<and> scout_evidence (or_env oc) r sn a) (fst t)) s"
  unfolding scout_with_tools_def assms(1)
proof (rule wlp_then, rule wlpI, rule wlp_bind, rule wlp_of_res, rule wlp_attempt)
  fix b a w w' tools' now t
  assume "run_scout (or_env oc) (model_gateway.truncate (or_gateway oc)) rid (run_pinned_sha r)
      (run_task_text r) (or_model_id oc) b (run_evaluation_case_id r \<noteq> None)
      (w, Some (new_registry SCOUT sn n None None)) = (Inr a, (w', tools'))"
  then have evidence: "scout_evidence (or_env oc) r sn (a\<lparr>art_created_at := now\<rparr>)"
    unfolding assms(1) [symmetric] by (rule run_scout_scout_evidence)
  then have "art_run_id (base_of (Scout_Artifact (a\<lparr>art_created_at := now\<rparr>))) = rid"
    using assms(1) by (simp add: scout_evidence_def artifact_base.truncate_def)
  with evidence show "wlp (finish_scout oc rid a now) (\<lambda>_ u. finished rid ''scout''
      (\<lambda>x. \<exists>a. x = Scout_Artifact a \<and> scout_evidence (or_env oc) r sn a) (fst u)) t"
    unfolding finish_scout_def
    by (intro wlp_then wlpI wlp_stored_or_refused wlp_transit_succeeded) auto
qed

lemma fetch_snapshot_Inr:
  assumes "fetch_snapshot g rid role repo sha (d, w) = (Inr sn, (d', w'))"
  shows "repo \<in> set (cg_allowed g) \<and> immutable_sha sha \<and> port_snapshot (cg_port g) repo sha w = (Inr sn, w')"
  using snapshot_read.touches_port_only_if_permitted [where g = g and rid = rid and role = role
      and repo = repo and sha = sha and d = d and w = w and d' = d' and w' = w' and r = "Inr sn"] assms
  by auto

text \<open>What the gateway's read of the run's source is, in the world before the attempt.\<close>

definition pinned_source :: "'w capability_gateway \<Rightarrow> run \<Rightarrow> 'w \<Rightarrow> snapshot \<Rightarrow> bool" where
  "pinned_source g r w sn \<longleftrightarrow> run_repository_id r \<in> set (cg_allowed g) \<and> immutable_sha (run_pinned_sha r) \<and>
     fst (port_snapshot (cg_port g) (run_repository_id r) (run_pinned_sha r) w) = Inr sn"

lemma wlp_orchestrate_scout:
  assumes "find_run (fst s) rid = Some r"
  shows "wlp (orchestrate_scout oc (Some g) rid)
    (\<lambda>_ t. finished rid ''scout'' (\<lambda>x. \<exists>sn a. pinned_source g r (snd s) sn \<and> x = Scout_Artifact a \<and>
       scout_evidence (or_env oc) r sn a) (fst t)) s"
proof -
  let ?Q = "\<lambda>_ t. finished rid ''scout'' (\<lambda>x. \<exists>sn a. pinned_source g r (snd s) sn \<and>
      x = Scout_Artifact a \<and> scout_evidence (or_env oc) r sn a) (fst t)"
  have id: "run_id r = rid" using assms by (auto dest: find_run_Some)
  have fetched: "wlp (try_else (fetch_snapshot (audited g) rid (run_role r) (run_repository_id r) (run_pinned_sha r))
      (\<lambda>e. if source_unavailable e then transit rid REFUSED ''snapshot_unavailable'' else throw e)
      (\<lambda>sn. bind_act (run_registry r sn None None) (\<lambda>t. scout_with_tools oc r (Some t)))) ?Q (d, snd s)"
    if role: "run_role r = SCOUT" for d
  proof (rule wlp_try_else)
    fix e t
    show "wlp (if source_unavailable e then transit rid REFUSED ''snapshot_unavailable'' else throw e) ?Q t"
      by (auto intro: wlp_refused wlp_throw)
  next
    show "wlp (fetch_snapshot (audited g) rid (run_role r) (run_repository_id r) (run_pinned_sha r))
       (\<lambda>sn. wlp (bind_act (run_registry r sn None None) (\<lambda>t. scout_with_tools oc r (Some t))) ?Q) (d, snd s)"
    proof (rule wlpI, clarify)
      fix sn d' w'
      assume "fetch_snapshot (audited g) rid (run_role r) (run_repository_id r) (run_pinned_sha r) (d, snd s)
          = (Inr sn, (d', w'))"
      then have "pinned_source g r (snd s) sn"
        by (auto simp: pinned_source_def audited_def split: if_splits dest!: fetch_snapshot_Inr)
      then show "wlp (bind_act (run_registry r sn None None) (\<lambda>t. scout_with_tools oc r (Some t))) ?Q (d', w')"
        unfolding run_registry_def role
        by (intro wlp_intros wlp_mono [OF wlp_scout_with_tools [OF id role]]) (erule finished_mono, blast)
    qed
  qed
  show ?thesis
    unfolding orchestrate_scout_def option.case
  proof (rule wlp_bind, rule wlp_loaded, goal_cases)
    case (1 q)
    with assms have "q = r" by simp
    show ?case
      unfolding \<open>q = r\<close> pin_model_configuration_def
      by (rule wlp_if, rule wlp_throw, rule wlp_then, rule wlp_on_db, rule wlp_modify, rule wlp_then,
          rule wlp_transit, unfold snd_conv, rule fetched, blast)
  qed
qed


section \<open>Assessor and CI\<close>

text \<open>The part the two flows share: without the tools the gateway asked for, the run is refused.\<close>

lemma wlp_tools_then:
  assumes "\<And>tools t. wlp (go_on tools) (\<lambda>_ u. finished rid kind Q (fst u)) t"
  shows "wlp (bind_act (snapshot_tools capability r) (\<lambda>tools.
      if capability \<noteq> None \<and> tools = None then transit rid REFUSED reason else go_on tools))
    (\<lambda>_ t. finished rid kind Q (fst t)) s"
  by (rule wlp_bind, rule wlpI, rule wlp_if) (rule wlp_refused, rule assms)

definition risk_evidence :: "run \<Rightarrow> risk_artifact \<Rightarrow> bool" where
  "risk_evidence r a \<longleftrightarrow> art_run_id a = run_id r \<and> art_pinned_sha a = run_pinned_sha r \<and>
     art_role a = ASSESSOR \<and> art_claims a \<noteq> [] \<and> set (material_claims a) \<subseteq> set (cited_claims a)"

definition repository_diagnosis :: "run \<Rightarrow> ci_diagnosis_artifact \<Rightarrow> bool" where
  "repository_diagnosis r a \<longleftrightarrow> art_run_id a = run_id r \<and> art_pinned_sha a = run_pinned_sha r \<and>
     art_role a = CI \<and> art_claims a \<noteq> [] \<and> set (material_claims a) \<subseteq> set (cited_claims a) \<and>
     ci_failure_class a = Repository \<and> \<not> ci_patch_proposed a"

lemma coverage_passed:
  "er_passed (citation_coverage (artifact_base.truncate a)) \<longleftrightarrow> set (material_claims a) \<subseteq> set (cited_claims a)"
  by (auto simp: citation_coverage_def Let_def filter_empty_conv material_claims_def cited_claims_def
      artifact_base.truncate_def)

lemma run_assessor_Inr:
  assumes "run_assessor env gw (run_id r) (run_pinned_sha r) task model b evaluation s = (Inr a, t)"
  shows "risk_evidence r (a\<lparr>art_created_at := now\<rparr>)"
  using assms coverage_passed [of a]
  by (auto simp: run_assessor_def check_risk_output_Inr risk_evidence_coverage_def Let_def risk_evidence_def
      artifact_base.truncate_def material_claims_def cited_claims_def
      elim!: bind_act_cases split: if_splits)

lemma run_ci_diagnosis_Inr:
  assumes "run_ci_diagnosis env gw (run_id r) (run_pinned_sha r) task model b evaluation s = (Inr a, t)"
  shows "art_run_id a = run_id r \<and> (\<not> requires_refusal a \<longrightarrow> \<not> ci_patch_proposed a \<longrightarrow>
    repository_diagnosis r (a\<lparr>art_created_at := now\<rparr>))"
  using assms coverage_passed [of a]
  by (auto simp: run_ci_diagnosis_def check_ci_output_Inr repository_diagnosis_def requires_refusal_iff
      artifact_base.truncate_def material_claims_def cited_claims_def elim!: bind_act_cases)

lemma wlp_orchestrate_assessor:
  assumes "find_run (fst s) rid = Some r"
  shows "wlp (orchestrate_assessor oc capability rid)
    (\<lambda>_ t. finished rid ''risk'' (\<lambda>x. \<exists>a. x = Risk_Artifact a \<and> risk_evidence r a) (fst t)) s"
proof -
  have id: "run_id r = rid" using assms by (auto dest: find_run_Some)
  have finish: "wlp (finish_assessor oc rid a now)
      (\<lambda>_ u. finished rid ''risk'' (\<lambda>x. \<exists>a. x = Risk_Artifact a \<and> risk_evidence r a) (fst u)) t"
    if "risk_evidence r (a\<lparr>art_created_at := now\<rparr>)" for a now t
  proof -
    have "art_run_id (base_of (Risk_Artifact (a\<lparr>art_created_at := now\<rparr>))) = rid"
      using that id by (simp add: risk_evidence_def artifact_base.truncate_def)
    with that show ?thesis
      unfolding finish_assessor_def
      by (intro wlp_then wlpI wlp_stored_or_refused wlp_transit_succeeded) auto
  qed
  show ?thesis
    unfolding orchestrate_assessor_def
  proof (rule wlp_bind, rule wlp_loaded, goal_cases)
    case (1 q)
    with assms have "q = r" by simp
    show ?case
      unfolding \<open>q = r\<close> id [symmetric]
      by (rule wlp_if, rule wlp_throw, rule wlp_then, rule wlpI, rule wlp_then, rule wlpI,
          rule wlp_tools_then, rule wlp_then, rule wlpI, rule wlp_bind, rule wlp_of_res,
          rule wlp_attempt, rule finish [unfolded id [symmetric]], rule run_assessor_Inr)
  qed
qed

lemma wlp_orchestrate_ci:
  assumes "find_run (fst s) rid = Some r"
  shows "wlp (orchestrate_ci oc capability rid)
    (\<lambda>_ t. finished rid ''ci_diagnosis'' (\<lambda>x. \<exists>a. x = Ci_Artifact a \<and> repository_diagnosis r a) (fst t)) s"
proof -
  let ?Q = "\<lambda>x. \<exists>a. x = Ci_Artifact a \<and> repository_diagnosis r a"
  have id: "run_id r = rid" using assms by (auto dest: find_run_Some)
  have finish: "wlp (finish_ci oc rid a now) (\<lambda>_ u. finished rid ''ci_diagnosis'' ?Q (fst u)) t"
    if a: "art_run_id a = rid" "\<not> requires_refusal a \<Longrightarrow> \<not> ci_patch_proposed a \<Longrightarrow>
      repository_diagnosis r (a\<lparr>art_created_at := now\<rparr>)" for a now t
  proof -
    have refused: "wlp (transit rid REFUSED reason) (\<lambda>_ u. finished rid ''ci_diagnosis'' P (fst u)) t"
      for reason P t by (rule wlp_refused)
    have stored: "wlp (stored_or_refused oc rid (Ci_Artifact (a\<lparr>art_created_at := now\<rparr>)) ''ci_diagnosis''
        (if requires_refusal a
         then bind_act (of_res (build_refusal now a
                ''failure is not safely attributable to repository source''
                ''resolve the external precondition and rerun the check''))
           (\<lambda>refusal. then_act
             (on_db (store_artifact (or_dump oc) (Refusal_Artifact refusal) ''refusal'' ''clean''))
             (transit rid REFUSED
               (''ci_'' @ failure_class_value (ci_failure_class a) @ ''_failure'')))
         else if ci_patch_proposed a
         then transit rid REFUSED ''ci_patch_requires_deterministic_executor_evidence''
         else transit rid SUCCEEDED ''ci_diagnosis_stored''))
        (\<lambda>_ u. finished rid ''ci_diagnosis'' ?Q (fst u)) t" for t
    proof (rule wlp_stored_or_refused, goal_cases)
      case 1
      show ?case using a(1) by (simp add: artifact_base.truncate_def)
    next
      case (2 t row)
      show ?case
        by (intro wlp_if refused wlp_bind [of "of_res _"] wlp_of_res wlp_then wlpI wlp_transit_succeeded
            [OF 2]) (use a(2) in blast)
    qed
    show ?thesis
      unfolding finish_ci_def by (rule wlp_then, rule wlpI, rule stored)
  qed
  show ?thesis
    unfolding orchestrate_ci_def
  proof (rule wlp_bind, rule wlp_loaded, goal_cases)
    case (1 q)
    with assms have "q = r" by simp
    show ?case
      unfolding \<open>q = r\<close> id [symmetric]
      by (rule wlp_if, rule wlp_throw, rule wlp_then, rule wlpI, rule wlp_then, rule wlpI,
          rule wlp_tools_then, rule wlp_then, rule wlpI, rule wlp_bind, rule wlp_of_res,
          rule wlp_attempt, rule finish [unfolded id [symmetric]])
        (drule run_ci_diagnosis_Inr, blast)+
  qed
qed


section \<open>What success means\<close>

text \<open>
  C16: A Scout attempt that returns has ended the run, and in success only with evidence: the source
  was read at the run's SHA from an allowlisted repository, and the run's stored artifact is the
  agent's own, unblocked, with every citation returned by a tool on that source and resolving in
  it, and every material claim cited.
\<close>

theorem scout_success_is_grounded:
  assumes "orchestrate_scout oc (Some g) rid (d, w) = (Inr (), (d', w'))"
    and "find_run d rid = Some r"
  shows "\<exists>r'. find_run d' rid = Some r' \<and> run_status r' \<in> terminal_statuses \<and>
    (run_status r' = SUCCEEDED \<longrightarrow> (\<exists>row a sn. get_artifact d' rid ''scout'' = Some row \<and>
       ar_content row = Dumped (Scout_Artifact a) \<and> pinned_source g r w sn \<and>
       scout_evidence (or_env oc) r sn a))"
  using wlpD [OF wlp_orchestrate_scout [of "(d, w)" rid r oc g] assms(1)] assms(2)
  by (auto simp: finished_def)

text \<open>
  An assessment that returns has ended the run, and in success only with a stored risk artifact
  of the run that makes at least one claim and cites evidence for every material one.
\<close>

theorem risk_success_is_covered:
  assumes "orchestrate_assessor oc capability rid (d, w) = (Inr (), (d', w'))"
    and "find_run d rid = Some r"
  shows "\<exists>r'. find_run d' rid = Some r' \<and> run_status r' \<in> terminal_statuses \<and>
    (run_status r' = SUCCEEDED \<longrightarrow> (\<exists>row a. get_artifact d' rid ''risk'' = Some row \<and>
       ar_content row = Dumped (Risk_Artifact a) \<and> risk_evidence r a))"
  using wlpD [OF wlp_orchestrate_assessor [of "(d, w)" rid r oc capability] assms(1)] assms(2)
  by (auto simp: finished_def)

text \<open>
  C15: A CI attempt that returns has ended the run, and in success only for a cited diagnosis of a
  repository failure that proposes no patch: a failure of any other class and a proposed patch end
  in a refusal, so no CI run succeeds on the model's word that a patch is good.
\<close>

theorem ci_success_is_repository_diagnosis:
  assumes "orchestrate_ci oc capability rid (d, w) = (Inr (), (d', w'))"
    and "find_run d rid = Some r"
  shows "\<exists>r'. find_run d' rid = Some r' \<and> run_status r' \<in> terminal_statuses \<and>
    (run_status r' = SUCCEEDED \<longrightarrow> (\<exists>row a. get_artifact d' rid ''ci_diagnosis'' = Some row \<and>
       ar_content row = Dumped (Ci_Artifact a) \<and> repository_diagnosis r a))"
  using wlpD [OF wlp_orchestrate_ci [of "(d, w)" rid r oc capability] assms(1)] assms(2)
  by (auto simp: finished_def)

section \<open>Examples\<close>

definition leased_run :: "agent_role \<Rightarrow> run" where
  "leased_run role = \<lparr>run_id = 7, run_role = role, run_source = MANUAL, run_repository_id = 11,
     run_pull_number = None, run_check_run_id = None, run_pinned_sha = example_sha,
     run_task_text = ''task'', run_status = LEASED, run_manifest_version = ''unselected'',
     run_policy_version = ''v1'', run_prompt_hash = None, run_model_config = [],
     run_budget = [(''tool_calls'', PyInt 2)], run_evaluation_case_id = None, run_created_at = 0,
     run_terminal_at = None\<rparr>"

definition leased_db :: "agent_role \<Rightarrow> db" where
  "leased_db role = (empty_db 0)\<lparr>db_next := 8, db_runs := [leased_run role]\<rparr>"

definition example_risk :: risk_artifact where
  "example_risk = artifact_base.extend
     ((artifact_base.truncate evidence_scout)\<lparr>art_role := ASSESSOR\<rparr>)
     (risk_artifact.fields Low (PyInt 1) [] [] [] [])"

definition example_diagnosis :: ci_diagnosis_artifact where
  "example_diagnosis = artifact_base.extend
     ((artifact_base.truncate evidence_scout)\<lparr>art_role := CI\<rparr>)
     (ci_diagnosis_artifact.fields Repository ''missing case'' None None False)"

definition example_provider :: "unit provider" where
  "example_provider =
    \<lparr>gw_scout = gw_scout (reading_gateway evidence_scout),
     gw_risk = (\<lambda>_ _ _. Finish (Inr example_risk) ()),
     gw_ci = (\<lambda>_ _ _. Finish (Inr example_diagnosis) ()),
     gw_last_call = (\<lambda>_. None), gw_last_request = (\<lambda>_. None), gw_last_allowlist = (\<lambda>_. None),
     gw_emit = None\<rparr>"

definition example_orchestration :: "unit orchestration" where
  "example_orchestration = \<lparr>or_env = example_env, or_dump = (\<lambda>_. ''[]''), or_gateway = example_provider,
     or_model_id = ''m'', or_elapsed_ms = 5\<rparr>"

definition example_capability :: "unit capability_gateway" where
  "example_capability = \<lparr>cg_port = \<lparr>port_snapshot = (\<lambda>_ _ w. (Inr example_snapshot, w)),
       port_diff = (\<lambda>_ _ _ w. (Inl (FileNotFoundError ''diff''), w)),
       port_check = (\<lambda>_ _ _ w. (Inl (FileNotFoundError ''check''), w))\<rparr>,
     cg_allowed = [11], cg_audited = False\<rparr>"

lemma provider_parts:
  "gw_last_call example_provider = (\<lambda>_. None)" "gw_last_request example_provider = (\<lambda>_. None)"
  "gw_last_allowlist example_provider = (\<lambda>_. None)" "gw_emit example_provider = None"
  "gw_scout (model_gateway.truncate example_provider) = gw_scout (reading_gateway evidence_scout)"
  "gw_risk (model_gateway.truncate example_provider) = (\<lambda>_ _ _. Finish (Inr example_risk) ())"
  "gw_ci (model_gateway.truncate example_provider) = (\<lambda>_ _ _. Finish (Inr example_diagnosis) ())"
  by (simp_all add: example_provider_def model_gateway.truncate_def)

lemmas walk_defs = loaded_def with_run_def find_run_def leased_db_def leased_run_def empty_db_def
  transit_def transition_run_def update_run_def record_transition_def fresh_id_def set_status_def
  allowed_next_def allowed_transitions_def terminal_statuses_def pin_model_configuration_def
  run_model_budget_def budget_get_def py_int_def attempt_def agent_run_def record_model_call_def
  export_trace_def add_model_call_def record_tool_calls_def add_tool_call_def stored_or_refused_def
  store_artifact_def on_db_def act_defs with_state_def try_else_def example_orchestration_def
  provider_parts Let_def empty_result_clean artifact_base.truncate_def

lemma example_run_assessor:
  "run_assessor example_env gw 7 example_sha ''task'' ''m'' b False ((), None) = (Inr example_risk, ((), None))"
  if "gw_risk gw = (\<lambda>_ _ _. Finish (Inr example_risk) ())"
  using that
  by (simp add: run_assessor_def run_agent_loop_def check_risk_output_def risk_evidence_coverage_def
      citation_coverage_def example_risk_def risk_artifact.fields_def artifact_base.extend_def
      artifact_base.truncate_def evidence_scout_def example_scout_def citing_artifact_def act_defs Let_def)

lemma example_assessment:
  "\<exists>d r. orchestrate_assessor example_orchestration None 7 (leased_db ASSESSOR, ()) = (Inr (), (d, ())) \<and>
     find_run d 7 = Some r \<and> run_status r = SUCCEEDED"
  by (simp add: orchestrate_assessor_def snapshot_tools_def finish_assessor_def example_run_assessor walk_defs)

theorem risk_success_is_covered_witness:
  "\<exists>d row a. orchestrate_assessor example_orchestration None 7 (leased_db ASSESSOR, ()) = (Inr (), (d, ())) \<and>
     get_artifact d 7 ''risk'' = Some row \<and> ar_content row = Dumped (Risk_Artifact a) \<and>
     risk_evidence (leased_run ASSESSOR) a"
proof -
  obtain d r where d: "orchestrate_assessor example_orchestration None 7 (leased_db ASSESSOR, ()) = (Inr (), (d, ()))"
    "find_run d 7 = Some r" "run_status r = SUCCEEDED" using example_assessment by blast
  have "find_run (leased_db ASSESSOR) 7 = Some (leased_run ASSESSOR)"
    by (simp add: find_run_def leased_db_def leased_run_def)
  from risk_success_is_covered [OF d(1) this] d(2,3) show ?thesis
    by (auto simp: d(1))
qed

lemma example_run_ci:
  "run_ci_diagnosis example_env gw 7 example_sha ''task'' ''m'' b False ((), None) = (Inr example_diagnosis, ((), None))"
  if "gw_ci gw = (\<lambda>_ _ _. Finish (Inr example_diagnosis) ())"
  using that
  by (simp add: run_ci_diagnosis_def run_agent_loop_def check_ci_output_def
      citation_coverage_def example_diagnosis_def ci_diagnosis_artifact.fields_def artifact_base.extend_def
      artifact_base.truncate_def evidence_scout_def example_scout_def citing_artifact_def act_defs Let_def)

lemma example_diagnosis_plain:
  "requires_refusal example_diagnosis = False" "ci_patch_proposed example_diagnosis = False"
  "ci_patch_proposed (example_diagnosis\<lparr>art_created_at := t\<rparr>) = False"
  by (simp_all add: requires_refusal_iff example_diagnosis_def ci_diagnosis_artifact.fields_def
      artifact_base.extend_def)

lemma example_ci_attempt:
  "\<exists>d r. orchestrate_ci example_orchestration None 7 (leased_db CI, ()) = (Inr (), (d, ())) \<and>
     find_run d 7 = Some r \<and> run_status r = SUCCEEDED"
  by (simp add: orchestrate_ci_def snapshot_tools_def finish_ci_def example_run_ci
      example_diagnosis_plain walk_defs)

theorem ci_success_is_repository_diagnosis_witness:
  "\<exists>d row a. orchestrate_ci example_orchestration None 7 (leased_db CI, ()) = (Inr (), (d, ())) \<and>
     get_artifact d 7 ''ci_diagnosis'' = Some row \<and> ar_content row = Dumped (Ci_Artifact a) \<and>
     repository_diagnosis (leased_run CI) a"
proof -
  obtain d r where d: "orchestrate_ci example_orchestration None 7 (leased_db CI, ()) = (Inr (), (d, ()))"
    "find_run d 7 = Some r" "run_status r = SUCCEEDED" using example_ci_attempt by blast
  have "find_run (leased_db CI) 7 = Some (leased_run CI)"
    by (simp add: find_run_def leased_db_def leased_run_def)
  from ci_success_is_repository_diagnosis [OF d(1) this] d(2,3) show ?thesis
    by (auto simp: d(1))
qed

lemma leased_registry: "new_registry SCOUT example_snapshot 2 None None = example_registry"
  by (simp add: example_registry_def)

lemma example_scouting:
  "\<exists>d r. orchestrate_scout example_orchestration (Some example_capability) 7 (leased_db SCOUT, ()) =
       (Inr (), (d, ())) \<and> find_run d 7 = Some r \<and> run_status r = SUCCEEDED"
proof -
  obtain g x where scout: "run_scout example_env
      (model_gateway.truncate example_provider) 7 example_sha ''task'' ''m'' example_budget False
      ((), Some example_registry) = (Inr evidence_scout, ((), Some g))" "rg_records g = [x]"
    using example_run_scout [OF provider_parts(5)] by blast
  show ?thesis
    using scout leased_registry immutable_example_sha
    by (simp add: orchestrate_scout_def finish_scout_def scout_with_tools_def example_capability_def
      audited_def fetch_snapshot_def audit_named_def audit_record_def ask_port_def
      run_registry_def example_budget_def walk_defs)
qed

theorem scout_success_is_grounded_witness:
  "\<exists>d row a sn. orchestrate_scout example_orchestration (Some example_capability) 7 (leased_db SCOUT, ()) =
       (Inr (), (d, ())) \<and> get_artifact d 7 ''scout'' = Some row \<and>
     ar_content row = Dumped (Scout_Artifact a) \<and> scout_evidence example_env (leased_run SCOUT) sn a"
proof -
  obtain d r where d: "orchestrate_scout example_orchestration (Some example_capability) 7 (leased_db SCOUT, ()) =
    (Inr (), (d, ()))" "find_run d 7 = Some r" "run_status r = SUCCEEDED" using example_scouting by blast
  have "find_run (leased_db SCOUT) 7 = Some (leased_run SCOUT)"
    by (simp add: find_run_def leased_db_def leased_run_def)
  from scout_success_is_grounded [OF d(1) this] d(2,3) obtain row a sn where
    "get_artifact d 7 ''scout'' = Some row" "ar_content row = Dumped (Scout_Artifact a)"
    "scout_evidence (or_env example_orchestration) (leased_run SCOUT) sn a" by auto
  then show ?thesis using d(1) by (auto simp: example_orchestration_def)
qed


end
