(* ===== verification/Leases.thy ===== *)
theory Leases
  imports RunService
begin

text \<open>
  \<open>runs/leases.py\<close> and \<open>runs/heartbeat.py\<close>: claiming the next run, renewing and releasing a lease,
  and the loop of the heartbeat thread. A row lock held by another worker's transaction is a
  parameter (\<open>skip_locked\<close>): the ids of the locked rows. The invariant \<open>leases_ok\<close> says that a run
  has at most one lease and that a leased run is past the queue; every invariant of the run service
  that does not speak of leases is kept by the lease operations.
\<close>

section \<open>Operations\<close>

definition new_lease :: "uuid \<Rightarrow> string \<Rightarrow> time \<Rightarrow> int \<Rightarrow> int \<Rightarrow> run_lease" where
  "new_lease rid worker now lease_seconds attempt =
    \<lparr>ls_run = rid, ls_worker = worker, ls_acquired_at = now, ls_heartbeat_at = now,
     ls_expires_at = now + seconds lease_seconds, ls_attempt = attempt\<rparr>"

definition add_lease :: "run_lease \<Rightarrow> (db, unit) act" where
  "add_lease l s = (case find_lease s (ls_run l) of
     Some _ \<Rightarrow> (Inl (IntegrityError ''run_leases''), s)
   | None \<Rightarrow> (Inr (), s\<lparr>db_leases := db_leases s @ [l]\<rparr>))"

text \<open>\<open>order_by(...).first()\<close>: the first row of a stable sort.\<close>

definition first_by :: "('a \<Rightarrow> int) \<Rightarrow> 'a list \<Rightarrow> 'a option" where
  "first_by k xs = (case sort_key k xs of [] \<Rightarrow> None | x # _ \<Rightarrow> Some x)"

definition next_queued :: "uuid list \<Rightarrow> db \<Rightarrow> run option" where
  "next_queued locked s = first_by run_created_at
     (filter (\<lambda>r. run_status r = QUEUED \<and> run_id r \<notin> set locked) (db_runs s))"

text \<open>
  The expired leases are those with \<open>expires_at < now.replace(tzinfo=None)\<close>: the UTC time without
  its zone, which the database reads in the session's own time zone, so the limit lies \<open>db_zone\<close>
  before the UTC time.
\<close>

definition next_expired :: "uuid list \<Rightarrow> db \<Rightarrow> run_lease option" where
  "next_expired locked s = first_by ls_expires_at
     (filter (\<lambda>l. ls_expires_at l < db_now s - db_zone s \<and> ls_run l \<notin> set locked) (db_leases s))"

definition take_over :: "string \<Rightarrow> time \<Rightarrow> int \<Rightarrow> run_lease \<Rightarrow> run_lease" where
  "take_over worker now lease_seconds l =
     l\<lparr>ls_worker := worker, ls_acquired_at := now, ls_heartbeat_at := now,
       ls_expires_at := now + seconds lease_seconds, ls_attempt := ls_attempt l + 1\<rparr>"

definition claim_next_run ::
    "uuid list \<Rightarrow> uuid list \<Rightarrow> string \<Rightarrow> int \<Rightarrow> (db, uuid option) act" where
  "claim_next_run locked_runs locked_leases worker lease_seconds s =
    (case next_queued locked_runs s of
       Some r \<Rightarrow> then_act (transition_run (run_id r) LEASED ''worker_claimed'' worker [])
                (then_act (add_lease (new_lease (run_id r) worker (db_now s) lease_seconds 1))
                 (ret (Some (run_id r)))) s
     | None \<Rightarrow>
        (case next_expired locked_leases s of
           None \<Rightarrow> (Inr None, s)
         | Some l \<Rightarrow>
            (case find_run s (ls_run l) of
               None \<Rightarrow> (Inr None, s)
             | Some r \<Rightarrow>
                 if run_status r \<noteq> LEASED then (Inr None, s)
                 else (Inr (Some (run_id r)),
                       update_lease (ls_run l) (take_over worker (db_now s) lease_seconds) s))))"

definition heartbeat_lease :: "uuid \<Rightarrow> string \<Rightarrow> int \<Rightarrow> (db, bool) act" where
  "heartbeat_lease rid worker lease_seconds s =
    (case find_lease s rid of
       None \<Rightarrow> (Inr False, s)
     | Some l \<Rightarrow>
        if ls_worker l \<noteq> worker then (Inr False, s)
        else if ls_expires_at l < db_now s then (Inr False, s)
        else (Inr True, update_lease rid
               (\<lambda>l. l\<lparr>ls_heartbeat_at := db_now s, ls_expires_at := db_now s + seconds lease_seconds\<rparr>) s))"

definition release_lease :: "uuid \<Rightarrow> string \<Rightarrow> (db, bool) act" where
  "release_lease rid worker s =
    (case find_lease s rid of
       None \<Rightarrow> (Inr False, s)
     | Some l \<Rightarrow>
        if ls_worker l \<noteq> worker then (Inr False, s)
        else (Inr True, s\<lparr>db_leases := filter (\<lambda>l. ls_run l \<noteq> rid) (db_leases s)\<rparr>))"

subsection \<open>The heartbeat thread\<close>

text \<open>
  The thread wakes up at every interval until the stop event is set. What the other transactions
  have committed between two wake-ups, the time of the wake-up, and a session
  that raises, come from outside: a schedule of beats, whose end is the stop event.
\<close>

datatype beat = Beat "db \<Rightarrow> db" time | Beat_Raises

record heartbeat =
  hb_renewed :: bool
  hb_lost :: bool

definition pass_time :: "(db \<Rightarrow> db) \<Rightarrow> time \<Rightarrow> db \<Rightarrow> db" where
  "pass_time f now s = (f s)\<lparr>db_now := now\<rparr>"

fun heartbeat_run :: "uuid \<Rightarrow> string \<Rightarrow> int \<Rightarrow> beat list \<Rightarrow> heartbeat \<Rightarrow> db \<Rightarrow> heartbeat \<times> db" where
  "heartbeat_run rid worker secs [] h s = (h, s)"
| "heartbeat_run rid worker secs (Beat_Raises # bs) h s = (h\<lparr>hb_lost := True\<rparr>, s)"
| "heartbeat_run rid worker secs (Beat f now # bs) h s =
     (case heartbeat_lease rid worker secs (pass_time f now s) of
        (Inl e, t) \<Rightarrow> (h\<lparr>hb_lost := True\<rparr>, t)
      | (Inr renewed, t) \<Rightarrow>
          if \<not> renewed then (h\<lparr>hb_lost := True\<rparr>, t)
          else heartbeat_run rid worker secs bs (h\<lparr>hb_renewed := True\<rparr>) t)"

text \<open>\<open>__exit__\<close>: a body that ended without an exception still fails when the lease was lost.\<close>

definition lease_lost :: "uuid \<Rightarrow> exn" where
  "lease_lost rid = LeaseLostError (''lease ownership lost for run '' @ uuid_str rid)"

definition heartbeat_exit :: "uuid \<Rightarrow> heartbeat \<Rightarrow> 'a res \<Rightarrow> 'a res" where
  "heartbeat_exit rid h r =
     (case r of Inl e \<Rightarrow> Inl e | Inr x \<Rightarrow> if hb_lost h then Inl (lease_lost rid) else Inr x)"

section \<open>Lemmas on the selections\<close>

lemma first_by_None [simp]: "first_by k xs = None \<longleftrightarrow> xs = []"
proof -
  have "sort_key k xs = [] \<longleftrightarrow> xs = []" by (metis length_0_conv length_sort)
  then show ?thesis by (auto simp: first_by_def split: list.splits)
qed

lemma first_by_Some:
  assumes "first_by k xs = Some x"
  shows "x \<in> set xs" and "y \<in> set xs \<Longrightarrow> k x \<le> k y"
proof -
  from assms obtain ys where ys: "sort_key k xs = x # ys"
    by (auto simp: first_by_def split: list.splits)
  then have set_eq: "set xs = insert x (set ys)" by (metis list.simps(15) set_sort)
  then show "x \<in> set xs" by simp
  have "sorted (map k (x # ys))" by (metis sorted_sort_key ys)
  with set_eq show "y \<in> set xs \<Longrightarrow> k x \<le> k y" by auto
qed

lemma next_queued_Some:
  assumes "next_queued locked s = Some r"
  shows "r \<in> set (db_runs s)" and "run_status r = QUEUED" and "run_id r \<notin> set locked"
    and "q \<in> set (db_runs s) \<Longrightarrow> run_status q = QUEUED \<Longrightarrow> run_id q \<notin> set locked \<Longrightarrow>
           run_created_at r \<le> run_created_at q"
  using first_by_Some [OF assms [unfolded next_queued_def]] by auto

lemma next_queued_None:
  "next_queued locked s = None \<longleftrightarrow>
     (\<forall>r \<in> set (db_runs s). run_status r = QUEUED \<longrightarrow> run_id r \<in> set locked)"
  by (auto simp: next_queued_def filter_empty_conv)

lemma next_expired_Some:
  assumes "next_expired locked s = Some l"
  shows "l \<in> set (db_leases s)" and "ls_expires_at l < db_now s - db_zone s" and "ls_run l \<notin> set locked"
    and "m \<in> set (db_leases s) \<Longrightarrow> ls_expires_at m < db_now s - db_zone s \<Longrightarrow> ls_run m \<notin> set locked \<Longrightarrow>
           ls_expires_at l \<le> ls_expires_at m"
  using first_by_Some [OF assms [unfolded next_expired_def]] by auto

lemma next_expired_None:
  "next_expired locked s = None \<longleftrightarrow>
     (\<forall>l \<in> set (db_leases s). ls_expires_at l < db_now s - db_zone s \<longrightarrow> ls_run l \<in> set locked)"
  by (auto simp: next_expired_def filter_empty_conv)

section \<open>The lease invariant\<close>

definition leases_ok :: "db \<Rightarrow> bool" where
  "leases_ok s \<longleftrightarrow> distinct (map ls_run (db_leases s)) \<and>
     (\<forall>l \<in> set (db_leases s). case find_run s (ls_run l) of
        None \<Rightarrow> False
      | Some r \<Rightarrow> run_status r \<noteq> RECEIVED \<and> run_status r \<noteq> QUEUED)"

lemma leases_ok_iff:
  "leases_ok s \<longleftrightarrow> distinct (map ls_run (db_leases s)) \<and>
     (\<forall>l \<in> set (db_leases s). \<exists>r. find_run s (ls_run l) = Some r \<and>
        run_status r \<noteq> RECEIVED \<and> run_status r \<noteq> QUEUED)"
  by (fastforce simp: leases_ok_def split: option.splits)

lemma leases_ok_empty: "leases_ok (empty_db t)"
  by (simp add: leases_ok_iff empty_db_def)

lemma allowed_next_past_queue: "t \<in> allowed_next st \<Longrightarrow> st \<noteq> RECEIVED \<Longrightarrow> t \<noteq> RECEIVED \<and> t \<noteq> QUEUED"
  by (cases st) auto

lemma leases_ok_moved:
  assumes ok: "leases_ok s" and "find_run s rid = Some r" "target \<in> allowed_next (run_status r)"
  shows "leases_ok (moved rid (run_status r) target reason actor md s)"
  unfolding leases_ok_iff moved_frame find_run_moved
proof (intro conjI ballI)
  show "distinct (map ls_run (db_leases s))" using ok by (simp add: leases_ok_iff)
next
  fix l assume "l \<in> set (db_leases s)"
  with ok obtain q where q: "find_run s (ls_run l) = Some q" "run_status q \<noteq> RECEIVED"
    "run_status q \<noteq> QUEUED"
    by (auto simp: leases_ok_iff)
  with assms(2,3) allowed_next_past_queue [of target "run_status r"]
  show "\<exists>r. (if ls_run l = rid then map_option (set_status (db_now s) target) (find_run s (ls_run l))
      else find_run s (ls_run l)) = Some r \<and> run_status r \<noteq> RECEIVED \<and> run_status r \<noteq> QUEUED"
    by (cases "ls_run l = rid") auto
qed

interpretation leased: run_invariant leases_ok
proof
  show "keeps leases_ok (transition_run rid target reason actor md)" for rid target reason actor md
  proof
    fix s assume ok: "leases_ok s"
    obtain res t where eq: "transition_run rid target reason actor md s = (res, t)" by fastforce
    then have "leases_ok t"
      by (cases rule: transition_run_cases)
        (use ok in \<open>auto simp: leases_ok_moved [unfolded moved_def]\<close>)
    with eq show "leases_ok (snd (transition_run rid target reason actor md s))" by simp
  qed
  show "same_runs s t \<Longrightarrow> leases_ok s \<Longrightarrow> leases_ok t" for s t
    by (simp add: same_runs_def leases_ok_iff find_run_def)
  show "attributes_only f \<Longrightarrow> leases_ok s \<Longrightarrow> leases_ok (update_run rid f s)" for f s rid
    by (fastforce simp: leases_ok_iff attributes_only_def columns_only_def find_run_update)
qed

lemma claim_next_run_cases:
  assumes "claim_next_run lr ll worker secs s = (res, t)" and ok: "leases_ok s"
    and dist: "distinct (map run_id (db_runs s))"
  obtains (queued) r u where "next_queued lr s = Some r" "find_run s (run_id r) = Some r"
      "find_lease s (run_id r) = None"
      "u = moved (run_id r) QUEUED LEASED ''worker_claimed'' worker [] s"
      "res = Inr (Some (run_id r))"
      "t = u\<lparr>db_leases := db_leases s @ [new_lease (run_id r) worker (db_now s) secs 1]\<rparr>"
  | (idle) "next_queued lr s = None" "next_expired ll s = None" "res = Inr None" "t = s"
  | (blocked) l r where "next_queued lr s = None" "next_expired ll s = Some l"
      "find_run s (ls_run l) = Some r" "run_status r \<noteq> LEASED" "res = Inr None" "t = s"
  | (reclaimed) l r where "next_queued lr s = None" "next_expired ll s = Some l"
      "find_run s (ls_run l) = Some r" "run_status r = LEASED" "run_id r = ls_run l"
      "res = Inr (Some (ls_run l))"
      "t = update_lease (ls_run l) (take_over worker (db_now s) secs) s"
proof (cases "next_queued lr s")
  case (Some r)
  note sel = next_queued_Some [OF Some]
  have r: "find_run s (run_id r) = Some r" using find_run_mem [OF dist sel(1)] .
  have free: "find_lease s (run_id r) = None"
  proof (rule ccontr)
    assume "find_lease s (run_id r) \<noteq> None"
    then obtain l where "l \<in> set (db_leases s)" "ls_run l = run_id r"
      by (auto dest: find_lease_Some)
    with ok r sel(2) show False by (auto simp: leases_ok_iff)
  qed
  let ?u = "moved (run_id r) QUEUED LEASED ''worker_claimed'' worker [] s"
  have "transition_run (run_id r) LEASED ''worker_claimed'' worker [] s = (Inr (), ?u)"
    using transition_run_moved [OF r, of LEASED] sel(2) by simp
  moreover have "find_lease ?u (run_id r) = None" using free by (simp add: find_lease_def)
  ultimately have "claim_next_run lr ll worker secs s =
      (Inr (Some (run_id r)),
       ?u\<lparr>db_leases := db_leases s @ [new_lease (run_id r) worker (db_now s) secs 1]\<rparr>)"
    by (simp add: claim_next_run_def Some then_act_def bind_act_def add_lease_def new_lease_def)
  with assms(1) r free Some show thesis by (intro queued) auto
next
  case None
  show thesis
  proof (cases "next_expired ll s")
    case None
    with \<open>next_queued lr s = None\<close> assms(1) show thesis
      by (intro idle) (auto simp: claim_next_run_def)
  next
    case (Some l)
    with ok obtain r where r: "find_run s (ls_run l) = Some r"
      by (auto simp: leases_ok_iff dest: next_expired_Some(1))
    then have "run_id r = ls_run l" by (auto dest: find_run_Some)
    with None Some r assms(1) show thesis
      by (cases "run_status r = LEASED") (auto simp: claim_next_run_def intro: blocked reclaimed)
  qed
qed

lemma claim_leases_ok:
  assumes ok: "leases_ok s" and hist: "history_ok s"
    and claim: "claim_next_run lr ll worker secs s = (res, t)"
  shows "leases_ok t"
proof -
  have dist: "distinct (map run_id (db_runs s))" using hist by (simp add: history_ok_def)
  from claim ok dist show ?thesis
  proof (cases rule: claim_next_run_cases)
    case (queued r u)
    then have st: "run_status r = QUEUED" by (simp add: next_queued_Some(2))
    have "leases_ok u" unfolding queued(4)
      using leases_ok_moved [OF ok queued(2), of LEASED] st by simp
    moreover have "find_run u (run_id r) = Some (set_status (db_now s) LEASED r)"
      using queued(2) by (simp add: queued(4) find_run_moved)
    moreover have "db_leases u = db_leases s" by (simp add: queued(4))
    ultimately show ?thesis
      using queued(3)
      by (auto simp: queued(6) leases_ok_iff new_lease_def find_lease_None find_run_def)
  next
    case (reclaimed l r)
    then show ?thesis
      using ok by (auto simp: leases_ok_iff update_lease_def take_over_def comp_def find_run_def if_distrib
          cong: if_cong)
  qed (use ok in simp_all)
qed

context lease_free_invariant
begin

lemma keeps_add_lease: "keeps I (add_lease l)"
  by (auto simp: keeps_def add_lease_def keeps_leases split: option.splits)

lemma keeps_claim: "keeps I (claim_next_run lr ll worker secs)"
proof
  fix s assume I: "I s"
  have "keeps I (then_act (transition_run rid LEASED ''worker_claimed'' worker [])
      (then_act (add_lease l) (ret x)))" for rid l and x :: "uuid option"
    by (intro keeps_intros keeps_transition keeps_add_lease)
  with I show "I (snd (claim_next_run lr ll worker secs s))"
    by (auto simp: claim_next_run_def keeps_def intro: keeps_update_lease split: option.splits)
qed

lemma keeps_heartbeat: "keeps I (heartbeat_lease rid worker secs)"
  by (auto simp: keeps_def heartbeat_lease_def intro: keeps_update_lease split: option.splits)

lemma keeps_release: "keeps I (release_lease rid worker)"
  by (auto simp: keeps_def release_lease_def intro: keeps_leases split: option.splits)

lemmas keeps_lease_operations = keeps_claim keeps_heartbeat keeps_release

end

section \<open>Claiming\<close>

lemma claim_gives_lease:
  assumes "history_ok s" and "leases_ok s"
    and "claim_next_run lr ll worker secs s = (Inr (Some rid), t)"
  shows "(\<forall>l. find_lease s rid = Some l \<longrightarrow> ls_expires_at l < db_now s - db_zone s) \<and>
    (\<exists>r. find_run t rid = Some r \<and> run_status r = LEASED) \<and>
    (\<exists>l. find_lease t rid = Some l \<and> ls_worker l = worker \<and>
       ls_expires_at l = db_now s + seconds secs) \<and>
    (\<forall>i. i \<noteq> rid \<longrightarrow> find_lease t i = find_lease s i)"
proof -
  have dist: "distinct (map run_id (db_runs s))" using assms(1) by (simp add: history_ok_def)
  from assms(3,2) dist show ?thesis
  proof (cases rule: claim_next_run_cases)
    case (queued r u)
    have "find_run t (run_id r) = Some (set_status (db_now s) LEASED r)"
      using queued(2) find_run_moved [of "run_id r" QUEUED LEASED _ worker "[]" s "run_id r"]
      by (simp add: queued(4,6) find_run_def)
    moreover have "find_lease t i = (case find_lease s i of Some q \<Rightarrow> Some q | None \<Rightarrow>
        if run_id r = i then Some (new_lease (run_id r) worker (db_now s) secs 1) else None)" for i
      unfolding find_lease_def queued(6) by (simp add: find_snoc) (simp add: new_lease_def)
    ultimately show ?thesis
      using queued(3,5) by (auto simp: new_lease_def split: option.splits)
  next
    case (reclaimed l r)
    note sel = next_expired_Some [OF reclaimed(2)]
    have "find_lease s (ls_run l) = Some l"
    proof -
      have "find (\<lambda>m. ls_run m = ls_run l) ls = Some l"
        if "distinct (map ls_run ls)" "l \<in> set ls" for ls
        using that by (induction ls) auto
      then show ?thesis using assms(2) sel(1) by (simp add: find_lease_def leases_ok_iff)
    qed
    moreover have "find_run t i = find_run s i" for i
      by (simp add: reclaimed(7) find_run_def)
    ultimately show ?thesis
      using sel(2) reclaimed by (auto simp: find_lease_update take_over_def)
  qed simp_all
qed

text \<open>
  When a queued run is not locked by another worker, claiming takes the oldest such run: it
  becomes \<open>leased\<close> with a new first-attempt lease of the worker that expires after the lease time,
  no other run and no other lease changes, and both the history and the lease invariants hold
  again.
\<close>

theorem claim_takes_oldest_queued_run:
  assumes "history_ok s" and "leases_ok s"
    and "\<exists>r \<in> set (db_runs s). run_status r = QUEUED \<and> run_id r \<notin> set lr"
  obtains r t where "claim_next_run lr ll worker secs s = (Inr (Some (run_id r)), t)"
    "find_run s (run_id r) = Some r" "run_status r = QUEUED" "run_id r \<notin> set lr"
    "\<And>q. q \<in> set (db_runs s) \<Longrightarrow> run_status q = QUEUED \<Longrightarrow> run_id q \<notin> set lr \<Longrightarrow>
       run_created_at r \<le> run_created_at q"
    "\<And>i. find_run t i = (if i = run_id r then Some (r\<lparr>run_status := LEASED\<rparr>) else find_run s i)"
    "db_leases t = db_leases s @ [new_lease (run_id r) worker (db_now s) secs 1]"
    "history_ok t" "leases_ok t"
proof -
  obtain res t where claim: "claim_next_run lr ll worker secs s = (res, t)" by fastforce
  have dist: "distinct (map run_id (db_runs s))" using assms(1) by (simp add: history_ok_def)
  have some: "next_queued lr s \<noteq> None" using assms(3) by (auto simp: next_queued_None)
  note kept = keepsD [OF history.keeps_claim assms(1) claim]
    claim_leases_ok [OF assms(2) assms(1) claim]
  from claim assms(2) dist show thesis
  proof (cases rule: claim_next_run_cases)
    case (queued r u)
    note sel = next_queued_Some [OF queued(1)]
    have found: "find_run t i = (if i = run_id r then Some (r\<lparr>run_status := LEASED\<rparr>) else find_run s i)" for i
    proof -
      have "find_run t i = find_run u i" by (simp add: queued(6) find_run_def)
      also have "\<dots> = (if i = run_id r then Some (r\<lparr>run_status := LEASED\<rparr>) else find_run s i)"
        using queued(2) by (simp add: queued(4) find_run_moved set_status_def terminal_statuses_def)
      finally show ?thesis .
    qed
    show thesis
      by (rule that [OF claim [unfolded queued(5)] queued(2) sel(2,3) sel(4) found _ kept])
        (simp_all add: queued(6))
  qed (use some in simp_all)
qed

text \<open>
  C8: With the database session at UTC or east of it, two workers never own one run at a time: a
  claimed run is \<open>leased\<close> to the claiming worker until the lease time from now, it had no lease
  before or one that has expired (by at least the zone's offset), and every lease of another run
  is untouched. West of UTC the comparison of \<open>claim_next_run\<close> takes live leases too, see
  \<open>live_lease_is_claimed_west_of_utc\<close>.
\<close>

theorem claim_excludes_live_leases:
  assumes "history_ok s" and "leases_ok s" and "0 \<le> db_zone s"
    and "claim_next_run lr ll worker secs s = (Inr (Some rid), t)"
  shows "(\<forall>l. find_lease s rid = Some l \<longrightarrow>
      ls_expires_at l < db_now s \<and> ls_expires_at l + db_zone s < db_now s) \<and>
    (\<exists>r. find_run t rid = Some r \<and> run_status r = LEASED) \<and>
    (\<exists>l. find_lease t rid = Some l \<and> ls_worker l = worker \<and>
       ls_expires_at l = db_now s + seconds secs) \<and>
    (\<forall>i. i \<noteq> rid \<longrightarrow> find_lease t i = find_lease s i)"
  using claim_gives_lease [OF assms(1,2,4)] assms(3) by fastforce

text \<open>
  A lease left behind by a run that is no longer \<open>leased\<close> (superseded or cancelled while its
  worker was gone) blocks the recovery of every other crashed run: when no queued run is free and
  the lease that expired first belongs to such a run, claiming returns nothing and changes
  nothing, so the next poll does the same, whatever other expired leases there are.
\<close>

theorem stale_lease_blocks_recovery:
  assumes "\<forall>r \<in> set (db_runs s). run_status r = QUEUED \<longrightarrow> run_id r \<in> set lr"
    and "stale \<in> set (db_leases s)" and "ls_expires_at stale < db_now s - db_zone s" and "ls_run stale \<notin> set ll"
    and "\<forall>l \<in> set (db_leases s). l \<noteq> stale \<longrightarrow> ls_expires_at stale < ls_expires_at l"
    and "find_run s (ls_run stale) = Some r" and "run_status r \<noteq> LEASED"
  shows "claim_next_run lr ll worker secs s = (Inr None, s)"
proof -
  have none: "next_queued lr s = None" using assms(1) by (simp add: next_queued_None)
  have "next_expired ll s \<noteq> None" using assms(2-4) by (auto simp: next_expired_None)
  then obtain l where l: "next_expired ll s = Some l" by blast
  from next_expired_Some(4) [OF l assms(2-4)] next_expired_Some(1) [OF l] assms(5)
  have "l = stale" by fastforce
  with none l assms(6,7) show ?thesis by (simp add: claim_next_run_def)
qed

section \<open>Keeping and losing a lease\<close>

lemma heartbeat_lease_iff:
  "heartbeat_lease rid worker secs s = (Inr b, t) \<longleftrightarrow>
     (b \<longleftrightarrow> (\<exists>l. find_lease s rid = Some l \<and> ls_worker l = worker \<and> db_now s \<le> ls_expires_at l)) \<and>
     t = (if b then update_lease rid
            (\<lambda>l. l\<lparr>ls_heartbeat_at := db_now s, ls_expires_at := db_now s + seconds secs\<rparr>) s else s)"
  by (auto simp: heartbeat_lease_def not_less split: option.splits)

lemma heartbeat_lease_returns: "\<exists>b t. heartbeat_lease rid worker secs s = (Inr b, t)"
  by (auto simp: heartbeat_lease_def split: option.splits)

lemma heartbeat_run_kept:
  "heartbeat_run rid worker secs bs h s = (h', t) \<Longrightarrow> \<not> hb_lost h' \<Longrightarrow> bs \<noteq> [] \<Longrightarrow>
     \<exists>l. find_lease t rid = Some l \<and> ls_worker l = worker \<and> hb_renewed h' \<and>
       ls_heartbeat_at l = db_now t \<and> ls_expires_at l = db_now t + seconds secs"
proof (induction rid worker secs bs h s rule: heartbeat_run.induct)
  case (3 rid worker secs f now bs h s)
  let ?s = "pass_time f now s"
  obtain b u where beat: "heartbeat_lease rid worker secs ?s = (Inr b, u)"
    using heartbeat_lease_returns by metis
  with 3 have b: "b" by (auto split: if_splits)
  from beat b have u: "u = update_lease rid (\<lambda>l. l\<lparr>ls_heartbeat_at := db_now ?s,
          ls_expires_at := db_now ?s + seconds secs\<rparr>) ?s"
    by (simp add: heartbeat_lease_iff)
  from beat b obtain l where l: "find_lease ?s rid = Some l" "ls_worker l = worker"
    unfolding heartbeat_lease_iff by blast
  have rest: "heartbeat_run rid worker secs bs (h\<lparr>hb_renewed := True\<rparr>) u = (h', t)"
    using 3(2) beat b by simp
  show ?case
  proof (cases "bs = []")
    case True
    with rest have "t = u" "h' = h\<lparr>hb_renewed := True\<rparr>" by auto
    with u l show ?thesis by (simp add: find_lease_update)
  next
    case False
    show ?thesis by (rule "3.IH" [OF beat [symmetric] refl _ rest]) (use b "3.prems" False in simp_all)
  qed
qed auto

lemma heartbeat_run_lost_stays:
  "hb_lost h \<Longrightarrow> hb_lost (fst (heartbeat_run rid worker secs bs h s))"
  by (induction rid worker secs bs h s rule: heartbeat_run.induct)
    (auto split: prod.splits sum.splits)

text \<open>
  A heartbeat that has beaten and is not lost owns the lease: after its last renewal the lease
  is the worker's own and expires one lease time after that renewal; and leaving the heartbeat
  with a lost lease turns a body that returned into \<open>LeaseLostError\<close>.
\<close>

theorem heartbeat_not_lost_owns_lease:
  "(heartbeat_run rid worker secs bs h s = (h', t) \<and> \<not> hb_lost h' \<and> bs \<noteq> [] \<longrightarrow>
     (\<exists>l. find_lease t rid = Some l \<and> ls_worker l = worker \<and>
        ls_expires_at l = db_now t + seconds secs)) \<and>
   (hb_lost h' \<longrightarrow> heartbeat_exit rid h' (Inr x) = Inl (lease_lost rid))"
  using heartbeat_run_kept [of rid worker secs bs h s h' t]
  by (auto simp: heartbeat_exit_def)

text \<open>
  A worker that has lost its lease to another cannot get it back by renewing or release it:
  once a run has been claimed by one worker, heartbeat and release of the run by any other worker
  return false and change nothing.
\<close>

theorem claimed_run_shuts_out_other_workers:
  assumes "history_ok s" and "leases_ok s"
    and "claim_next_run lr ll worker secs s = (Inr (Some rid), t)" and "other \<noteq> worker"
  shows "heartbeat_lease rid other secs' t = (Inr False, t) \<and>
    release_lease rid other t = (Inr False, t)"
  using claim_gives_lease [OF assms(1-3)] assms(4)
  by (auto simp: heartbeat_lease_def release_lease_def)

section \<open>A run that is superseded while its worker is gone\<close>

definition first_claimed :: db where
  "first_claimed = snd (claim_next_run [] [] ''worker:a'' 60
     (update_run 0 (\<lambda>r. r\<lparr>run_pull_number := Some 7\<rparr>) one_queued))"

definition second_claimed :: db where
  "second_claimed = snd (claim_next_run [] [] ''worker:b'' 60
     (snd (create_queued_run example_request MANUAL ''manual'' (first_claimed\<lparr>db_now := 6\<rparr>))))"

definition stale_scenario :: db where
  "stale_scenario = (snd (supersede_active_runs 11 7 (replicate 40 (CHR ''b'')) ''webhook''
     second_claimed))\<lparr>db_now := seconds 100\<rparr>"

lemma stale_scenario_facts:
  "map (\<lambda>l. (ls_run l, ls_worker l, ls_expires_at l)) (db_leases stale_scenario) =
     [(0, ''worker:a'', 60000005), (4, ''worker:b'', 60000006)]"
  "map (\<lambda>r. (run_id r, run_status r)) (db_runs stale_scenario) = [(0, SUPERSEDED), (4, LEASED)]"
  "db_now stale_scenario = 100000000"
  by code_simp+

section \<open>A database session west of UTC\<close>

text \<open>
  With the time zone of the session an hour west of UTC, a second worker claims a run whose lease
  lives for nearly another minute, and the heartbeat of the worker that holds it then loses it.
\<close>

definition west_of_utc :: db where
  "west_of_utc = first_claimed\<lparr>db_zone := - seconds 3600, db_now := seconds 1\<rparr>"

theorem live_lease_is_claimed_west_of_utc:
  "map (\<lambda>l. (ls_run l, ls_worker l, ls_expires_at l)) (db_leases west_of_utc) =
     [(0, ''worker:a'', 60000005)] \<and> db_now west_of_utc = 1000000 \<and>
   fst (claim_next_run [] [] ''worker:b'' 60 west_of_utc) = Inr (Some 0) \<and>
   fst (heartbeat_lease 0 ''worker:a'' 60 west_of_utc) = Inr True \<and>
   fst (heartbeat_lease 0 ''worker:a'' 60 (snd (claim_next_run [] [] ''worker:b'' 60 west_of_utc))) =
     Inr False"
  by code_simp

theorem claim_takes_oldest_queued_run_witness:
  "\<exists>r t. claim_next_run [] [] ''worker:a'' 60 one_queued = (Inr (Some (run_id r)), t) \<and>
     find_run t (run_id r) = Some (r\<lparr>run_status := LEASED\<rparr>)"
proof (rule claim_takes_oldest_queued_run [of one_queued "[]" "[]" "''worker:a''" 60])
  show "history_ok one_queued" by (rule one_queued_facts)
  show "leases_ok one_queued" by code_simp
  show "\<exists>r \<in> set (db_runs one_queued). run_status r = QUEUED \<and> run_id r \<notin> set []" by code_simp
next
  fix r t
  assume claim: "claim_next_run [] [] ''worker:a'' 60 one_queued = (Inr (Some (run_id r)), t)"
    and found: "\<And>i. find_run t i =
      (if i = run_id r then Some (r\<lparr>run_status := LEASED\<rparr>) else find_run one_queued i)"
  from found [of "run_id r"] have "find_run t (run_id r) = Some (r\<lparr>run_status := LEASED\<rparr>)" by simp
  with claim show ?thesis by (intro exI conjI)
qed

lemma one_queued_claimable:
  "history_ok one_queued" "leases_ok one_queued"
  "claim_next_run [] [] ''worker:a'' 60 one_queued =
     (Inr (Some 0), snd (claim_next_run [] [] ''worker:a'' 60 one_queued))"
proof -
  show "history_ok one_queued" by (rule one_queued_facts)
  show "leases_ok one_queued" by code_simp
  have "fst (claim_next_run [] [] ''worker:a'' 60 one_queued) = Inr (Some 0)" by code_simp
  then show "claim_next_run [] [] ''worker:a'' 60 one_queued =
      (Inr (Some 0), snd (claim_next_run [] [] ''worker:a'' 60 one_queued))"
    by (metis prod.collapse)
qed

lemma one_queued_zone: "db_zone one_queued = 0"
  by code_simp

theorem claim_excludes_live_leases_witness:
  "\<exists>l. find_lease (snd (claim_next_run [] [] ''worker:a'' 60 one_queued)) 0 = Some l \<and>
     ls_worker l = ''worker:a''"
  using claim_excludes_live_leases [OF one_queued_claimable(1,2) _ one_queued_claimable(3)]
    one_queued_zone by auto

theorem claimed_run_shuts_out_other_workers_witness:
  "release_lease 0 ''worker:b'' (snd (claim_next_run [] [] ''worker:a'' 60 one_queued)) =
     (Inr False, snd (claim_next_run [] [] ''worker:a'' 60 one_queued))"
  using claimed_run_shuts_out_other_workers [OF one_queued_claimable, of "''worker:b''"] by simp

theorem stale_lease_blocks_recovery_witness:
  "claim_next_run [] [] ''worker:c'' 60 stale_scenario = (Inr None, stale_scenario) \<and>
   (\<exists>l \<in> set (db_leases stale_scenario). ls_run l = 4 \<and> ls_expires_at l < db_now stale_scenario) \<and>
   map_option run_status (find_run stale_scenario 4) = Some LEASED"
proof (intro conjI)
  let ?l = "hd (db_leases stale_scenario)"
  have "db_leases stale_scenario \<noteq> []" using stale_scenario_facts(1) by auto
  then have mem: "?l \<in> set (db_leases stale_scenario)" by simp
  have all: "\<forall>l \<in> set (db_leases stale_scenario). l \<noteq> ?l \<longrightarrow> ls_expires_at ?l < ls_expires_at l"
    by code_simp
  show "claim_next_run [] [] ''worker:c'' 60 stale_scenario = (Inr None, stale_scenario)"
  proof (rule stale_lease_blocks_recovery [OF _ mem _ _ all])
    show "find_run stale_scenario (ls_run ?l) = Some (the (find_run stale_scenario (ls_run ?l)))"
      by code_simp
  qed code_simp+
qed code_simp+

theorem heartbeat_not_lost_owns_lease_witness:
  "\<exists>l. find_lease (snd (heartbeat_run 0 ''worker:a'' 60 [Beat (\<lambda>s. s) 20, Beat (\<lambda>s. s) 40]
       \<lparr>hb_renewed = False, hb_lost = False\<rparr> first_claimed)) 0 = Some l \<and>
     ls_worker l = ''worker:a'' \<and> ls_expires_at l = 60000040" (is "\<exists>l. find_lease (snd ?run) 0 = _ \<and> _")
proof -
  have "\<not> hb_lost (fst ?run)" and "db_now (snd ?run) = 40" by code_simp+
  with heartbeat_not_lost_owns_lease [of 0 "''worker:a''" 60
      "[Beat (\<lambda>s. s) 20, Beat (\<lambda>s. s) 40]" "\<lparr>hb_renewed = False, hb_lost = False\<rparr>" first_claimed
      "fst ?run" "snd ?run"]
  show ?thesis by (auto simp: seconds_def)
qed

end
