(* ===== verification/Transactions.thy ===== *)
theory Transactions
  imports RunService
begin

text \<open>
  Overlapping transactions. Every session of the source works at the default isolation of
  PostgreSQL (read committed) without locks or version columns on its rows, the claim of a run
  apart. What a transaction that read the state \<open>a\<close> and left the state \<open>b\<close> writes when it commits on
  a database that other transactions have brought to \<open>c\<close> meanwhile is \<open>merge a b c\<close>: an \<open>UPDATE\<close>
  sets the columns that the transaction changed and no others, the rows it inserted are added, and
  a row that breaks a unique constraint rolls it back (\<open>conflict_free\<close>). The leases are not merged:
  the sessions that write them are modelled one by one where they commit.
\<close>

section \<open>Committing on what others have committed\<close>

definition pick :: "'a \<Rightarrow> 'a \<Rightarrow> 'a \<Rightarrow> 'a" where
  "pick a b c = (if b = a then c else b)"

definition merge_run :: "run \<Rightarrow> run \<Rightarrow> run \<Rightarrow> run" where
  "merge_run a b c =
    \<lparr>run_id = run_id c,
     run_role = pick (run_role a) (run_role b) (run_role c),
     run_source = pick (run_source a) (run_source b) (run_source c),
     run_repository_id = pick (run_repository_id a) (run_repository_id b) (run_repository_id c),
     run_pull_number = pick (run_pull_number a) (run_pull_number b) (run_pull_number c),
     run_check_run_id = pick (run_check_run_id a) (run_check_run_id b) (run_check_run_id c),
     run_pinned_sha = pick (run_pinned_sha a) (run_pinned_sha b) (run_pinned_sha c),
     run_task_text = pick (run_task_text a) (run_task_text b) (run_task_text c),
     run_status = pick (run_status a) (run_status b) (run_status c),
     run_manifest_version = pick (run_manifest_version a) (run_manifest_version b) (run_manifest_version c),
     run_policy_version = pick (run_policy_version a) (run_policy_version b) (run_policy_version c),
     run_prompt_hash = pick (run_prompt_hash a) (run_prompt_hash b) (run_prompt_hash c),
     run_model_config = pick (run_model_config a) (run_model_config b) (run_model_config c),
     run_budget = pick (run_budget a) (run_budget b) (run_budget c),
     run_evaluation_case_id =
       pick (run_evaluation_case_id a) (run_evaluation_case_id b) (run_evaluation_case_id c),
     run_created_at = pick (run_created_at a) (run_created_at b) (run_created_at c),
     run_terminal_at = pick (run_terminal_at a) (run_terminal_at b) (run_terminal_at c)\<rparr>"

definition updated_rows :: "('a \<Rightarrow> 'k) \<Rightarrow> ('a \<Rightarrow> 'a \<Rightarrow> 'a \<Rightarrow> 'a) \<Rightarrow> 'a list \<Rightarrow> 'a list \<Rightarrow> 'a list \<Rightarrow> 'a list" where
  "updated_rows key combine old new cur =
    map (\<lambda>c. case (find (\<lambda>x. key x = key c) old, find (\<lambda>x. key x = key c) new) of
         (Some a, Some b) \<Rightarrow> combine a b c
       | _ \<Rightarrow> c) cur"

definition inserted_rows :: "('a \<Rightarrow> 'k) \<Rightarrow> 'a list \<Rightarrow> 'a list \<Rightarrow> 'a list" where
  "inserted_rows key old new = filter (\<lambda>x. key x \<notin> key ` set old) new"

text \<open>The tables whose rows are only ever inserted: what a transaction has added to them.\<close>

definition added :: "(db \<Rightarrow> 'a list) \<Rightarrow> db \<Rightarrow> db \<Rightarrow> 'a list" where
  "added table a b = drop (length (table a)) (table b)"

definition merge :: "db \<Rightarrow> db \<Rightarrow> db \<Rightarrow> db" where
  "merge a b c =
    \<lparr>db_now = db_now c, db_next = max (db_next b) (db_next c),
     db_webhook_events = updated_rows we_id pick (db_webhook_events a) (db_webhook_events b) (db_webhook_events c) @
       inserted_rows we_id (db_webhook_events a) (db_webhook_events b),
     db_runs = updated_rows run_id merge_run (db_runs a) (db_runs b) (db_runs c) @
       inserted_rows run_id (db_runs a) (db_runs b),
     db_transitions = db_transitions c @ added db_transitions a b,
     db_leases = db_leases c,
     db_artifacts = db_artifacts c @ added db_artifacts a b,
     db_citations = db_citations c @ added db_citations a b,
     db_decisions = db_decisions c @ added db_decisions a b,
     db_tool_calls = db_tool_calls c @ added db_tool_calls a b,
     db_model_calls = db_model_calls c @ added db_model_calls a b,
     db_redaction_events = db_redaction_events c @ added db_redaction_events a b,
     db_causal_links = db_causal_links c @ added db_causal_links a b,
     db_webhook_links = db_webhook_links c @ added db_webhook_links a b,
     db_opt_ins = db_opt_ins c @ added db_opt_ins a b,
     db_reviews = db_reviews c @ added db_reviews a b,
     db_evaluations = db_evaluations c @ added db_evaluations a b,
     db_manifests = updated_rows tm_id pick (db_manifests a) (db_manifests b) (db_manifests c) @
       inserted_rows tm_id (db_manifests a) (db_manifests b),
     db_zone = db_zone c\<rparr>"

text \<open>No row that the transaction inserts breaks a unique constraint on the committed rows.\<close>

definition disjoint_on :: "('a \<Rightarrow> 'k) \<Rightarrow> 'a list \<Rightarrow> 'a list \<Rightarrow> bool" where
  "disjoint_on key new cur \<longleftrightarrow> key ` set new \<inter> key ` set cur = {}"

definition conflict_free :: "db \<Rightarrow> db \<Rightarrow> db \<Rightarrow> bool" where
  "conflict_free a b c \<longleftrightarrow>
     disjoint_on run_id (inserted_rows run_id (db_runs a) (db_runs b)) (db_runs c) \<and>
     disjoint_on we_delivery_id (inserted_rows we_id (db_webhook_events a) (db_webhook_events b)) (db_webhook_events c) \<and>
     disjoint_on (\<lambda>x. (ar_run x, ar_kind x)) (added db_artifacts a b) (db_artifacts c) \<and>
     disjoint_on (\<lambda>x. (tc_run x, tc_sequence x)) (added db_tool_calls a b) (db_tool_calls c) \<and>
     disjoint_on (\<lambda>x. (mc_run x, mc_sequence x)) (added db_model_calls a b) (db_model_calls c) \<and>
     disjoint_on id (added db_causal_links a b) (db_causal_links c) \<and>
     disjoint_on id (added db_webhook_links a b) (db_webhook_links c) \<and>
     disjoint_on (\<lambda>x. (tm_repository_id x, tm_version x))
       (inserted_rows tm_id (db_manifests a) (db_manifests b)) (db_manifests c)"

definition commit_on :: "db \<Rightarrow> db \<Rightarrow> (db, unit) act" where
  "commit_on a b c = (if conflict_free a b c then (Inr (), merge a b c)
     else (Inl (IntegrityError ''commit''), c))"

text \<open>The runs a transaction moves have not been moved by another since it read them.\<close>

definition undisturbed :: "db \<Rightarrow> db \<Rightarrow> db \<Rightarrow> bool" where
  "undisturbed a b c \<longleftrightarrow> (\<forall>rid. history b rid \<noteq> history a rid \<longrightarrow> history c rid = history a rid)"

text \<open>What every operation of the program makes of a state, whether it returns or raises.\<close>

definition lawful :: "db \<Rightarrow> db \<Rightarrow> bool" where
  "lawful a b \<longleftrightarrow> history_ok a \<and> history_ok b \<and> history_extends (db_transitions a) b \<and>
     (\<forall>rid st tm. ended_as rid st tm a \<longrightarrow> ended_as rid st tm b)"

section \<open>Rows and histories after a commit\<close>

lemma find_updated:
  assumes "\<And>a b c. key (combine a b c) = key c"
  shows "find (\<lambda>x. key x = i) (updated_rows key combine old new cur) =
    map_option (\<lambda>c. case (find (\<lambda>x. key x = i) old, find (\<lambda>x. key x = i) new) of
         (Some a, Some b) \<Rightarrow> combine a b c
       | _ \<Rightarrow> c) (find (\<lambda>x. key x = i) cur)"
  unfolding updated_rows_def
  by (induction cur) (auto simp: assms split: option.splits)

lemma find_append: "find P (xs @ ys) = (case find P xs of Some x \<Rightarrow> Some x | None \<Rightarrow> find P ys)"
  by (induction xs) auto

lemma find_inserted:
  "find (\<lambda>x. key x = i) (inserted_rows key old new) =
    (if i \<in> key ` set old then None else find (\<lambda>x. key x = i) new)"
  unfolding inserted_rows_def by (induction new) auto

lemma find_run_merge:
  "find_run (merge a b c) i =
    (case find_run c i of
       Some r \<Rightarrow> Some (case (find_run a i, find_run b i) of (Some p, Some q) \<Rightarrow> merge_run p q r | _ \<Rightarrow> r)
     | None \<Rightarrow> if find_run a i = None then find_run b i else None)"
proof -
  have id: "run_id (merge_run p q r) = run_id r" for p q r by (simp add: merge_run_def)
  show ?thesis
    using find_run_None [of a i]
    unfolding find_run_def merge_def db.select_convs find_append find_updated [of run_id, OF id] find_inserted
    by (auto split: option.splits)
qed

lemma ids_merge:
  "map run_id (db_runs (merge a b c)) =
     map run_id (db_runs c) @ map run_id (inserted_rows run_id (db_runs a) (db_runs b))"
  by (auto simp: merge_def updated_rows_def merge_run_def split: option.splits)

lemma history_merge:
  assumes "history_extends (db_transitions a) b"
  shows "history (merge a b c) i = history c i @ drop (length (history a i)) (history b i)"
proof -
  from assms obtain ts where "db_transitions b = db_transitions a @ ts" by (auto simp: history_extends_def)
  then show ?thesis by (simp add: history_def merge_def added_def)
qed

lemma history_split:
  "history_extends (db_transitions a) b \<Longrightarrow>
     history b i = history a i @ drop (length (history a i)) (history b i)"
  by (auto simp: history_extends_def history_def)

lemma merge_extends: "history_extends old c \<Longrightarrow> history_extends old (merge a b c)"
  by (auto simp: history_extends_def merge_def)

lemma run_with_history:
  assumes "history_ok s" and "find_run s i = Some r"
  shows "chain_ok None (history s i) (Some (run_status r))" and "history s i \<noteq> []"
    and "run_terminal_at r \<noteq> None \<longleftrightarrow> run_status r \<in> terminal_statuses"
    and "run_id r = i" and "run_id r < db_next s"
proof -
  from find_run_Some [OF assms(2)] have r: "r \<in> set (db_runs s)" "run_id r = i" by auto
  with assms(1) show chain: "chain_ok None (history s i) (Some (run_status r))"
    and "run_terminal_at r \<noteq> None \<longleftrightarrow> run_status r \<in> terminal_statuses"
    and "run_id r = i" and "run_id r < db_next s"
    by (auto simp: history_ok_def run_ok_def)
  from chain show "history s i \<noteq> []" by auto
qed

lemma no_run_no_history: "history_ok s \<Longrightarrow> find_run s i = None \<Longrightarrow> history s i = []"
  by (fastforce simp: find_run_None history_ok_def history_def filter_empty_conv)

lemma same_history_same_status:
  assumes "history_ok s" "find_run s i = Some r" "history_ok t" "find_run t i = Some q"
    and "history s i = history t i"
  shows "run_status r = run_status q"
  using chain_ok_target [OF run_with_history(1,2) [OF assms(1,2)]]
    chain_ok_target [OF run_with_history(1,2) [OF assms(3,4)]] assms(5) by simp

lemma chain_ok_append_middle:
  "chain_ok p (xs @ y # ys) q \<Longrightarrow> chain_ok p xs r \<Longrightarrow> step_ok r (tr_to y)"
  by (induction xs arbitrary: p) auto

lemma moved_run_was_active:
  assumes "lawful a b" and "find_run a i = Some p" and "history b i \<noteq> history a i"
  shows "run_status p \<notin> terminal_statuses" and "run_terminal_at p = None"
proof -
  from assms(1) have ok: "history_ok a" "history_ok b" and ext: "history_extends (db_transitions a) b"
    by (simp_all add: lawful_def)
  note split = history_split [OF ext, of i]
  from split assms(3) obtain y ys where ys: "history b i = history a i @ y # ys"
    by (cases "drop (length (history a i)) (history b i)") auto
  then have "find_run b i \<noteq> None" using no_run_no_history [OF ok(2)] by fastforce
  then obtain q where q: "find_run b i = Some q" by blast
  from chain_ok_append_middle [OF run_with_history(1) [OF ok(2) q, unfolded ys]
      run_with_history(1) [OF ok(1) assms(2)]]
  have "tr_to y \<in> allowed_next (run_status p)" by (simp add: step_ok_def)
  then show active: "run_status p \<notin> terminal_statuses" by (auto simp: terminal_statuses_def)
  with run_with_history(3) [OF ok(1) assms(2)] show "run_terminal_at p = None" by simp
qed

lemma unmoved_run_keeps_columns:
  assumes "lawful a b" and "find_run a i = Some p" and "find_run b i = Some q"
    and "history b i = history a i"
  shows "run_status (merge_run p q r) = run_status r" and "run_terminal_at (merge_run p q r) = run_terminal_at r"
proof -
  from assms(1) have ok: "history_ok a" "history_ok b" by (simp_all add: lawful_def)
  have st: "run_status q = run_status p"
    using same_history_same_status [OF ok(2) assms(3) ok(1) assms(2,4)] .
  have "run_terminal_at q = run_terminal_at p"
  proof (cases "run_status p \<in> terminal_statuses")
    case True
    with assms(2) have "ended_as i (run_status p) (run_terminal_at p) a" by (simp add: ended_as_def)
    with assms(1) have "ended_as i (run_status p) (run_terminal_at p) b" by (simp add: lawful_def)
    with assms(3) show ?thesis by (simp add: ended_as_def)
  next
    case False
    then show ?thesis
      using run_with_history(3) [OF ok(1) assms(2)] run_with_history(3) [OF ok(2) assms(3)] st by simp
  qed
  with st show "run_status (merge_run p q r) = run_status r"
    and "run_terminal_at (merge_run p q r) = run_terminal_at r"
    by (simp_all add: merge_run_def pick_def)
qed

section \<open>Undisturbed commits\<close>

lemma merged_row_ok:
  assumes tx: "lawful a b" and c: "history_ok c" and free: "conflict_free a b c" and und: "undisturbed a b c"
    and r: "find_run c i = Some r"
  shows "run_ok (merge a b c)
     (case (find_run a i, find_run b i) of (Some p, Some q) \<Rightarrow> merge_run p q r | _ \<Rightarrow> r)"
proof -
  from tx have ok: "history_ok a" "history_ok b" and ext: "history_extends (db_transitions a) b"
    by (simp_all add: lawful_def)
  note hist = history_merge [OF ext, of c i] and old = run_with_history [OF c r]
  have keep: "run_ok (merge a b c) x" if "history b i = history a i" "run_id x = i"
    "run_status x = run_status r" "run_terminal_at x = run_terminal_at r" for x
    using hist old that by (simp add: run_ok_def)
  show ?thesis
  proof (cases "history b i = history a i")
    case True
    have "run_id (merge_run p q r) = i" for p q using old(4) by (simp add: merge_run_def)
    with True old(4) unmoved_run_keeps_columns [OF tx] show ?thesis
      by (auto intro!: keep split: option.split)
  next
    case False
    with und have same: "history c i = history a i" by (simp add: undisturbed_def)
    from False history_split [OF ext, of i] have "history b i \<noteq> []" by auto
    with no_run_no_history [OF ok(2)] obtain q where q: "find_run b i = Some q" by fastforce
    from same old(2) no_run_no_history [OF ok(1)] obtain p where p: "find_run a i = Some p" by fastforce
    note active = moved_run_was_active [OF tx p False]
    have st: "run_status r = run_status p" using same_history_same_status [OF c r ok(1) p same] .
    with active old(3) have "run_terminal_at r = None" by simp
    with active st have "run_status (merge_run p q r) = run_status q"
      "run_terminal_at (merge_run p q r) = run_terminal_at q" "run_id (merge_run p q r) = i"
      using old(4) by (simp_all add: merge_run_def pick_def)
    moreover have "history (merge a b c) i = history b i"
      using hist same history_split [OF ext, of i] by simp
    ultimately show ?thesis using p q run_with_history [OF ok(2) q] by (simp add: run_ok_def)
  qed
qed

lemma inserted_run_ok:
  assumes tx: "lawful a b" and c: "history_ok c"
    and r: "find_run c i = None" "find_run a i = None" "find_run b i = Some r"
  shows "run_ok (merge a b c) r"
proof -
  from tx have ok: "history_ok a" "history_ok b" and ext: "history_extends (db_transitions a) b"
    by (simp_all add: lawful_def)
  show ?thesis
    using history_merge [OF ext, of c i] no_run_no_history [OF c r(1)] no_run_no_history [OF ok(1) r(2)]
      run_with_history [OF ok(2) r(3)]
    by (simp add: run_ok_def)
qed

lemma merged_transitions_have_runs:
  assumes tx: "lawful a b" and c: "history_ok c" and und: "undisturbed a b c"
    and t: "t \<in> set (db_transitions (merge a b c))"
  shows "find_run (merge a b c) (tr_run t) \<noteq> None"
proof (cases "find_run c (tr_run t)")
  case None
  let ?i = "tr_run t"
  from tx have ok: "history_ok a" "history_ok b" and ext: "history_extends (db_transitions a) b"
    by (simp_all add: lawful_def)
  note empty = no_run_no_history [OF c None]
  from t have "t \<in> set (history (merge a b c) ?i)" by (simp add: history_def)
  with history_merge [OF ext, of c ?i] empty
  have moved: "drop (length (history a ?i)) (history b ?i) \<noteq> []" by auto
  then have "history b ?i \<noteq> history a ?i" by auto
  with und empty have "history a ?i = []" by (metis undisturbed_def)
  with run_with_history(2) [OF ok(1)] have a: "find_run a ?i = None" by (metis not_Some_eq)
  from moved have "history b ?i \<noteq> []" by auto
  with no_run_no_history [OF ok(2)] have "find_run b ?i \<noteq> None" by metis
  with a None show ?thesis by (simp add: find_run_merge)
qed (auto simp: find_run_merge)

theorem undisturbed_commit_keeps_history:
  assumes tx: "lawful a b" and c: "history_ok c" and free: "conflict_free a b c" and und: "undisturbed a b c"
  shows "history_ok (merge a b c)"
proof -
  from tx have b: "history_ok b" by (simp add: lawful_def)
  have "distinct (map run_id (inserted_rows run_id (db_runs a) (db_runs b)))"
    using b by (simp add: inserted_rows_def history_ok_def distinct_map_filter)
  with free c have dist: "distinct (map run_id (db_runs (merge a b c)))"
    unfolding ids_merge by (auto simp: conflict_free_def disjoint_on_def history_ok_def)
  moreover have "run_id r < db_next (merge a b c) \<and> run_ok (merge a b c) r"
    if "r \<in> set (db_runs (merge a b c))" for r
  proof -
    let ?i = "run_id r"
    from find_run_mem [OF dist that] have found: "find_run (merge a b c) ?i = Some r" .
    show ?thesis
    proof (cases "find_run c ?i")
      case None
      with found have ab: "find_run a ?i = None" "find_run b ?i = Some r"
        by (auto simp: find_run_merge split: if_splits)
      with inserted_run_ok [OF tx c None ab] run_with_history(5) [OF b ab(2)] show ?thesis
        by (simp add: merge_def)
    next
      case (Some q)
      with found have "r = (case (find_run a ?i, find_run b ?i) of (Some p, Some s) \<Rightarrow> merge_run p s q | _ \<Rightarrow> q)"
        by (simp add: find_run_merge)
      with merged_row_ok [OF tx c free und Some] run_with_history(4,5) [OF c Some] show ?thesis
        by (simp add: merge_def)
    qed
  qed
  moreover have "tr_run t \<in> run_id ` set (db_runs (merge a b c))"
    if "t \<in> set (db_transitions (merge a b c))" for t
    using merged_transitions_have_runs [OF tx c und that] by (simp add: find_run_None)
  ultimately show ?thesis unfolding history_ok_def by blast
qed

theorem undisturbed_commit_keeps_end:
  assumes tx: "lawful a b" and c: "history_ok c" and und: "undisturbed a b c" and ended: "ended_as i st tm c"
  shows "ended_as i st tm (merge a b c)"
proof -
  from tx have ok: "history_ok a" "history_ok b" by (simp_all add: lawful_def)
  from ended obtain r where r: "find_run c i = Some r" "run_status r = st" "run_terminal_at r = tm"
    "st \<in> terminal_statuses"
    by (auto simp: ended_as_def)
  have "history b i = history a i"
  proof (rule ccontr)
    assume moved: "history b i \<noteq> history a i"
    with und have same: "history c i = history a i" by (simp add: undisturbed_def)
    with run_with_history(2) [OF c r(1)] no_run_no_history [OF ok(1)] obtain p where p: "find_run a i = Some p"
      by fastforce
    from same_history_same_status [OF c r(1) ok(1) p same] moved_run_was_active(1) [OF tx p moved] r
    show False by simp
  qed
  with r unmoved_run_keeps_columns [OF tx] show ?thesis
    by (auto simp: ended_as_def find_run_merge split: option.split)
qed

text \<open>With nothing committed by others meanwhile, a commit is the state the transaction left.\<close>

lemma updated_rows_alone:
  assumes "distinct (map key old)" and "map key new = map key old @ added_keys"
    and "distinct (map key new)" and "\<And>a b. key b = key a \<Longrightarrow> combine a b a = b"
  shows "updated_rows key combine old new old @ inserted_rows key old new = new"
proof -
  from assms(2) obtain xs ys where new: "new = xs @ ys" "map key xs = map key old"
    by (metis append_eq_map_conv)
  have len: "length xs = length old" using new(2) by (metis length_map)
  have inserted: "inserted_rows key old new = ys"
  proof -
    have sets: "key ` set xs = key ` set old" using new(2) by (metis set_map)
    have "filter (\<lambda>x. key x \<notin> key ` set old) xs = []" using sets by (auto simp: filter_empty_conv)
    moreover have "filter (\<lambda>x. key x \<notin> key ` set old) ys = ys"
      using assms(3) sets new(1) by (auto simp: filter_id_conv)
    ultimately show ?thesis by (simp add: inserted_rows_def new(1))
  qed
  have first: "find (\<lambda>x. key x = key (zs ! i)) zs = Some (zs ! i)"
    if "distinct (map key zs)" "i < length zs" for i zs
    using that by (auto simp: find_Some_iff distinct_conv_nth)
  have "updated_rows key combine old new old = xs"
  proof (rule nth_equalityI)
    show "length (updated_rows key combine old new old) = length xs" by (simp add: updated_rows_def len)
    fix i assume "i < length (updated_rows key combine old new old)"
    then have i: "i < length old" by (simp add: updated_rows_def)
    have key: "key (old ! i) = key (new ! i)" using new i len by (metis nth_append nth_map)
    have "find (\<lambda>x. key x = key (old ! i)) new = Some (xs ! i)"
      using first [OF assms(3), of i] i len key new(1) by (simp add: nth_append)
    moreover have "combine (old ! i) (xs ! i) (old ! i) = xs ! i"
      using assms(4) key new(1) i len by (simp add: nth_append)
    ultimately show "updated_rows key combine old new old ! i = xs ! i"
      using first [OF assms(1) i] i by (simp add: updated_rows_def)
  qed
  with inserted show ?thesis by (simp add: new(1))
qed

definition grown :: "(db \<Rightarrow> 'a list) \<Rightarrow> db \<Rightarrow> db \<Rightarrow> bool" where
  "grown table a b \<longleftrightarrow> (\<exists>rows. table b = table a @ rows)"

text \<open>A transaction that only inserts, and updates rows where the merge looks for them.\<close>

definition grows :: "db \<Rightarrow> db \<Rightarrow> bool" where
  "grows a b \<longleftrightarrow> db_next a \<le> db_next b \<and> db_zone b = db_zone a \<and>
     distinct (map run_id (db_runs b)) \<and> grown (map run_id \<circ> db_runs) a b \<and>
     distinct (map we_id (db_webhook_events b)) \<and> grown (map we_id \<circ> db_webhook_events) a b \<and>
     distinct (map tm_id (db_manifests b)) \<and> grown (map tm_id \<circ> db_manifests) a b \<and>
     grown db_transitions a b \<and> grown db_artifacts a b \<and> grown db_citations a b \<and>
     grown db_decisions a b \<and> grown db_tool_calls a b \<and> grown db_model_calls a b \<and>
     grown db_redaction_events a b \<and> grown db_causal_links a b \<and> grown db_webhook_links a b \<and>
     grown db_opt_ins a b \<and> grown db_reviews a b \<and> grown db_evaluations a b"

lemma grown_added: "grown table a b \<Longrightarrow> table a @ added table a b = table b"
  by (auto simp: grown_def added_def)

lemma merge_run_alone: "run_id b = run_id a \<Longrightarrow> merge_run a b a = b"
  by (simp add: merge_run_def pick_def)

lemma grown_keys:
  assumes "grown (map key \<circ> table) a b" and "distinct (map key (table b))"
    and "\<And>x y. key y = key x \<Longrightarrow> combine x y x = y"
  shows "updated_rows key combine (table a) (table b) (table a) @ inserted_rows key (table a) (table b) = table b"
proof -
  from assms(1) obtain ks where "map key (table b) = map key (table a) @ ks" by (auto simp: grown_def)
  with assms(2,3) show ?thesis by (intro updated_rows_alone) auto
qed

theorem commit_alone:
  assumes "grows a b"
  shows "merge a b (a\<lparr>db_leases := ls, db_now := now\<rparr>) = b\<lparr>db_leases := ls, db_now := now\<rparr>"
proof -
  note grown = assms [unfolded grows_def]
  have runs: "updated_rows run_id merge_run (db_runs a) (db_runs b) (db_runs a) @
      inserted_rows run_id (db_runs a) (db_runs b) = db_runs b"
    using grown by (intro grown_keys) (auto simp: merge_run_alone)
  have events: "updated_rows we_id pick (db_webhook_events a) (db_webhook_events b) (db_webhook_events a) @
      inserted_rows we_id (db_webhook_events a) (db_webhook_events b) = db_webhook_events b"
    using grown by (intro grown_keys) (auto simp: pick_def)
  have manifests: "updated_rows tm_id pick (db_manifests a) (db_manifests b) (db_manifests a) @
      inserted_rows tm_id (db_manifests a) (db_manifests b) = db_manifests b"
    using grown by (intro grown_keys) (auto simp: pick_def)
  from grown show ?thesis
    by (intro db.equality) (simp_all add: merge_def runs events manifests grown_added)
qed

end
