(* ===== verification/Worker.thy ===== *)
theory Worker
  imports Orchestrator Leases Settings Transactions
begin

text \<open>
  \<open>runs/worker.py\<close>: what the settings give a worker, the dispatch of a run on its role, and the
  processing of one claimed run, in one transaction whose lease another session renews meanwhile.
  The clients that talk to GitHub and to the model provider are arguments, as functions of the
  settings they are made from. An attempt reads the state at its start; what the other sessions
  commit while it lasts, to whatever table, are arbitrary functions, and its own writes are merged
  with it at the end (see \<open>Transactions\<close>).
\<close>

section \<open>Dependencies\<close>

record 'w worker_dependencies =
  wd_model_gateway :: "'w provider option"
  wd_model_id :: "string option"
  wd_capability_gateway :: "'w capability_gateway option"
  wd_branch_writer :: "'w branch_writer option"

type_synonym 'w trace_emit = "string \<Rightarrow> string \<Rightarrow> trace_payload \<Rightarrow> ('w, unit) act"

record 'w clients =
  cl_reader :: "int \<Rightarrow> string \<Rightarrow> string \<Rightarrow> 'w read_port"
  cl_writer :: "int \<Rightarrow> string \<Rightarrow> int list \<Rightarrow> string \<Rightarrow> 'w branch_writer"
  cl_models :: "string \<Rightarrow> string list \<Rightarrow> string list \<Rightarrow> 'w trace_emit option \<Rightarrow> 'w provider"
  cl_langfuse :: "string \<Rightarrow> string \<Rightarrow> string option \<Rightarrow> string \<Rightarrow> 'w trace_emit"

definition build_dependencies :: "'w clients \<Rightarrow> settings \<Rightarrow> 'w worker_dependencies" where
  "build_dependencies c st =
    (let (reader, writer) =
       (case (st_github_app_id st, st_github_private_key st) of
          (Some app_id, Some private_key) \<Rightarrow>
            (Some \<lparr>cg_port = cl_reader c app_id private_key (st_github_api_url st),
               cg_allowed = st_allowed_repository_ids st, cg_audited = False\<rparr>,
             Some (cl_writer c app_id private_key (st_allowed_repository_ids st) (st_github_api_url st)))
        | _ \<Rightarrow> (None, None))
     in case st_openrouter_api_key st of
          None \<Rightarrow> \<lparr>wd_model_gateway = None, wd_model_id = None, wd_capability_gateway = reader,
            wd_branch_writer = writer\<rparr>
        | Some api_key \<Rightarrow>
            if st_allowed_model_ids st = []
            then \<lparr>wd_model_gateway = None, wd_model_id = None, wd_capability_gateway = reader,
              wd_branch_writer = writer\<rparr>
            else (let model_id = hd (sort (st_allowed_model_ids st)) in
              if st_allowed_provider_ids st = []
              then \<lparr>wd_model_gateway = None, wd_model_id = Some model_id,
                wd_capability_gateway = reader, wd_branch_writer = writer\<rparr>
              else (let trace_exporter =
                  (case (st_langfuse_public_key st, st_langfuse_secret_key st) of
                     (Some public_key, Some secret_key) \<Rightarrow>
                       Some (cl_langfuse c public_key secret_key (st_langfuse_host st) (st_environment st))
                   | _ \<Rightarrow> None)
                in \<lparr>wd_model_gateway = Some (cl_models c api_key (st_allowed_model_ids st)
                       (st_allowed_provider_ids st) trace_exporter),
                     wd_model_id = Some model_id, wd_capability_gateway = reader,
                     wd_branch_writer = writer\<rparr>)))"

section \<open>Dispatch\<close>

text \<open>What the orchestration needs besides the gateway and the model: the tools' environment, the
  dump of an artifact and the duration of the model call.\<close>

record attempt_env =
  ae_env :: tool_env
  ae_dump :: "any_artifact \<Rightarrow> string"
  ae_elapsed_ms :: int

definition orchestration_of :: "attempt_env \<Rightarrow> 'w provider \<Rightarrow> string \<Rightarrow> 'w orchestration" where
  "orchestration_of ae gateway model_id = \<lparr>or_env = ae_env ae, or_dump = ae_dump ae,
     or_gateway = gateway, or_model_id = model_id, or_elapsed_ms = ae_elapsed_ms ae\<rparr>"

definition dispatch_run ::
    "attempt_env \<Rightarrow> 'w worker_dependencies \<Rightarrow> uuid \<Rightarrow> string \<Rightarrow> ('w world, unit) act" where
  "dispatch_run ae deps rid worker = bind_act (loaded rid) (\<lambda>r.
    let unconfigured = on_db (transition_run rid FAILED ''worker_role_not_configured'' worker []) in
    case (wd_model_gateway deps, wd_model_id deps) of
      (Some gateway, Some model_id) \<Rightarrow>
        (let oc = orchestration_of ae gateway model_id in
         if model_id = [] then unconfigured
         else (case run_role r of
             SCOUT \<Rightarrow> (case wd_capability_gateway deps of
                 Some g \<Rightarrow> orchestrate_scout oc (Some g) rid
               | None \<Rightarrow> unconfigured)
           | ASSESSOR \<Rightarrow> orchestrate_assessor oc (wd_capability_gateway deps) rid
           | CI \<Rightarrow> orchestrate_ci oc (wd_capability_gateway deps) rid))
    | _ \<Rightarrow> unconfigured)"

section \<open>One claimed run\<close>

fun is_integrity_error :: "exn \<Rightarrow> bool" where
  "is_integrity_error (IntegrityError _) = True"
| "is_integrity_error _ = False"

text \<open>
  The \<open>except Exception\<close> clause. After a failed flush the session refuses every further statement,
  so that even reading the run's status raises.
\<close>

definition worker_error :: "uuid \<Rightarrow> string \<Rightarrow> exn \<Rightarrow> ('w world, unit) act" where
  "worker_error rid worker e =
    (if is_integrity_error e
     then throw (OtherError ''PendingRollbackError'' (exn_message e))
     else bind_act (loaded rid) (\<lambda>r.
       if run_status r \<notin> {SUCCEEDED, REFUSED, REJECTED, BUDGET_EXHAUSTED, SUPERSEDED, CANCELLED, FAILED}
       then on_db (transition_run rid FAILED ''unexpected_worker_error'' worker
              [(''error_type'', exn_type_name e)])
       else ret ()))"

definition attempt_run ::
    "attempt_env \<Rightarrow> 'w worker_dependencies \<Rightarrow> uuid \<Rightarrow> string \<Rightarrow> ('w world, unit) act" where
  "attempt_run ae deps rid worker = catch (dispatch_run ae deps rid worker) (worker_error rid worker)"

text \<open>
  The attempt runs in a transaction from the state \<open>(d, w)\<close>. While it lasts the heartbeat's
  transactions commit, and before each of them whatever other sessions have (the functions of the
  beats); \<open>others\<close> is what they commit after the last beat. Then the lease is read and deleted as it
  is by now, and the attempt commits; or nothing of it does, but what was sent to the outside is not
  undone.
\<close>

fun is_lease_lost :: "exn \<Rightarrow> bool" where
  "is_lease_lost (LeaseLostError _) = True"
| "is_lease_lost _ = False"

definition process_claimed_run ::
    "attempt_env \<Rightarrow> 'w worker_dependencies \<Rightarrow> uuid \<Rightarrow> string \<Rightarrow> int \<Rightarrow> beat list \<Rightarrow> (db \<Rightarrow> db) \<Rightarrow>
     ('w world, bool) act" where
  "process_claimed_run ae deps rid worker lease_seconds beats others = (\<lambda>(d, w).
    case find_run d rid of
      None \<Rightarrow> (Inr False, (d, w))
    | Some r \<Rightarrow>
        (case attempt_run ae deps rid worker (d, w) of (result, (d1, w1)) \<Rightarrow>
         case heartbeat_run rid worker lease_seconds beats
           \<lparr>hb_renewed = False, hb_lost = False\<rparr> d of (h, beaten) \<Rightarrow>
         case bind_act (of_res (heartbeat_exit rid h result))
             (\<lambda>_. bind_act (release_lease rid worker)
               (\<lambda>released. if released then commit_on d d1 else throw (lease_lost rid)))
             (others beaten) of
           (Inr _, d2) \<Rightarrow> (Inr True, (d2, w1))
         | (Inl e, _) \<Rightarrow>
             ((if is_lease_lost e then Inr False else Inl e), (others beaten, w1))))"

text \<open>One round of the loop: claim in a transaction of its own, then process what was claimed.\<close>

definition worker_round ::
    "attempt_env \<Rightarrow> 'w worker_dependencies \<Rightarrow> uuid list \<Rightarrow> uuid list \<Rightarrow> string \<Rightarrow> int \<Rightarrow> beat list \<Rightarrow>
     (db \<Rightarrow> db) \<Rightarrow> ('w world, unit) act" where
  "worker_round ae deps locked_runs locked_leases worker lease_seconds beats others =
    bind_act (on_db (in_transaction (claim_next_run locked_runs locked_leases worker lease_seconds)))
      (\<lambda>claimed. case claimed of None \<Rightarrow> ret ()
        | Some rid \<Rightarrow> then_act (process_claimed_run ae deps rid worker lease_seconds beats others) (ret ()))"

section \<open>Invariants\<close>

text \<open>The statuses a claimed run can have during its attempt.\<close>

definition in_attempt :: "uuid \<Rightarrow> db \<Rightarrow> bool" where
  "in_attempt rid s \<longleftrightarrow> (\<exists>r. find_run s rid = Some r \<and> run_status r \<in> insert LEASED attempt_targets)"

lemma in_attempt_step:
  assumes "target \<in> attempt_targets"
  shows "keeps (in_attempt rid) (transition_run i target reason actor md)"
proof
  fix s assume I: "in_attempt rid s"
  obtain res t where eq: "transition_run i target reason actor md s = (res, t)" by fastforce
  then have "in_attempt rid t"
  proof (cases rule: transition_run_cases)
    case (moved r)
    then have "find_run t rid = find_run (update_run i (set_status (db_now s) target) s) rid"
      by (simp add: record_transition_def find_run_def)
    moreover have "run_status (set_status now target q) = target" for now q by (simp add: set_status_def)
    ultimately show ?thesis using I assms by (cases "rid = i") (auto simp: in_attempt_def find_run_update)
  qed (use I in simp_all)
  with eq show "in_attempt rid (snd (transition_run i target reason actor md s))" by simp
qed

interpretation attempting: attempt_invariant "in_attempt rid" for rid
proof
  show "same_runs s t \<Longrightarrow> in_attempt rid s \<Longrightarrow> in_attempt rid t" for s t
    by (simp add: same_runs_def in_attempt_def find_run_def)
  show "attributes_only f \<Longrightarrow> in_attempt rid s \<Longrightarrow> in_attempt rid (update_run i f s)" for f s i
    by (auto simp: in_attempt_def attributes_only_def columns_only_def find_run_update)
qed (rule in_attempt_step)

context attempt_invariant
begin

lemma keeps_dispatch: "keeps (\<lambda>s. I (fst s)) (dispatch_run ae deps rid worker)"
  unfolding dispatch_run_def Let_def
  by (auto intro!: keeps_intros keeps_step keeps_orchestrations split: option.splits agent_role.splits)

lemma keeps_worker_error: "keeps (\<lambda>s. I (fst s)) (worker_error rid worker e)"
  unfolding worker_error_def by (intro keeps_intros keeps_step attempt_targets_mem)

lemma keeps_attempt_run: "keeps (\<lambda>s. I (fst s)) (attempt_run ae deps rid worker)"
  unfolding attempt_run_def by (intro keeps_intros keeps_dispatch keeps_worker_error)

end

section \<open>How an attempt ends\<close>

definition has_ended :: "uuid \<Rightarrow> db \<Rightarrow> bool" where
  "has_ended rid d \<longleftrightarrow> (\<exists>r. find_run d rid = Some r \<and> run_status r \<in> terminal_statuses)"

lemma finished_has_ended: "finished rid kind Q d \<Longrightarrow> has_ended rid d"
  by (auto simp: finished_def has_ended_def)

lemma wlp_transition_ended:
  assumes "target \<in> terminal_statuses"
  shows "wlp (on_db (transition_run rid target reason actor md)) (\<lambda>_ t. has_ended rid (fst t)) s"
proof (rule wlp_on_db, rule wlpI)
  fix u t assume "transition_run rid target reason actor md (fst s) = (Inr u, t)"
  then show "has_ended rid (fst (t, snd s))"
  proof (cases rule: transition_run_cases)
    case (moved r)
    then have "find_run t rid = find_run (update_run rid (set_status (db_now (fst s)) target) (fst s)) rid"
      by (simp add: record_transition_def find_run_def)
    with moved have "find_run t rid = Some (set_status (db_now (fst s)) target r)"
      by (simp add: find_run_update)
    with assms show ?thesis by (simp add: has_ended_def set_status_def)
  qed simp_all
qed

lemma wlp_dispatch_ended: "wlp (dispatch_run ae deps rid worker) (\<lambda>_ t. has_ended rid (fst t)) s"
proof (cases "find_run (fst s) rid")
  case None
  then show ?thesis
    by (auto simp: wlp_def dispatch_run_def loaded_def on_db_def with_run_def bind_act_def)
next
  case (Some r)
  have unconfigured: "wlp (on_db (transition_run rid FAILED reason worker [])) (\<lambda>_ t. has_ended rid (fst t)) s" for reason
    by (rule wlp_transition_ended) (simp add: terminal_statuses_def)
  have "wlp (dispatch_run ae deps rid worker) (\<lambda>_ t. has_ended rid (fst t)) s =
      wlp (let unconfigured = on_db (transition_run rid FAILED ''worker_role_not_configured'' worker []) in
        case (wd_model_gateway deps, wd_model_id deps) of
          (Some gateway, Some model_id) \<Rightarrow>
            (let oc = orchestration_of ae gateway model_id in
             if model_id = [] then unconfigured
             else (case run_role r of
                 SCOUT \<Rightarrow> (case wd_capability_gateway deps of
                     Some g \<Rightarrow> orchestrate_scout oc (Some g) rid
                   | None \<Rightarrow> unconfigured)
               | ASSESSOR \<Rightarrow> orchestrate_assessor oc (wd_capability_gateway deps) rid
               | CI \<Rightarrow> orchestrate_ci oc (wd_capability_gateway deps) rid))
        | _ \<Rightarrow> unconfigured) (\<lambda>_ t. has_ended rid (fst t)) s"
    using Some by (simp add: wlp_def dispatch_run_def loaded_def on_db_def with_run_def bind_act_def)
  moreover have "wlp (orchestrate_scout oc (Some g) rid) (\<lambda>_ t. has_ended rid (fst t)) s"
    "wlp (orchestrate_assessor oc capability rid) (\<lambda>_ t. has_ended rid (fst t)) s"
    "wlp (orchestrate_ci oc capability rid) (\<lambda>_ t. has_ended rid (fst t)) s" for oc capability and g
    using wlp_orchestrate_scout [OF Some] wlp_orchestrate_assessor [OF Some] wlp_orchestrate_ci [OF Some]
    by (blast intro: wlp_mono finished_has_ended)+
  ultimately show ?thesis
    using unconfigured by (simp add: Let_def split: option.split agent_role.split)
qed

lemma wlp_catch:
  "(\<And>e t. m s = (Inl e, t) \<Longrightarrow> wlp (h e) Q t) \<Longrightarrow> wlp m Q s \<Longrightarrow> wlp (catch m h) Q s"
  unfolding wlp_def catch_def by (auto split: prod.splits sum.splits)

lemma wlp_worker_error: "wlp (worker_error rid worker e) (\<lambda>_ t. has_ended rid (fst t)) s"
proof (cases "find_run (fst s) rid")
  case None
  then show ?thesis
    by (auto simp: wlp_def worker_error_def loaded_def on_db_def with_run_def bind_act_def)
next
  case (Some r)
  have "wlp (on_db (transition_run rid FAILED reason worker md)) (\<lambda>_ t. has_ended rid (fst t)) s" for reason md
    by (rule wlp_transition_ended) (simp add: terminal_statuses_def)
  with Some show ?thesis
    by (auto simp: wlp_def worker_error_def loaded_def on_db_def with_run_def bind_act_def has_ended_def
        terminal_statuses_def split: if_splits)
qed

lemma wlp_attempt_ended: "wlp (attempt_run ae deps rid worker) (\<lambda>_ t. has_ended rid (fst t)) s"
  unfolding attempt_run_def by (intro wlp_catch wlp_worker_error wlp_dispatch_ended)

text \<open>
  What a database shows of an attempt that has read \<open>d\<close>, has left \<open>d1\<close> and was committed on \<open>c\<close>:
  every table has the rows the attempt added behind the rows of \<open>c\<close>, every run has the columns the
  attempt changed, the lease of the run is gone, and nothing else differs from \<open>c\<close>.
\<close>

definition committed_whole :: "uuid \<Rightarrow> db \<Rightarrow> db \<Rightarrow> db \<Rightarrow> db \<Rightarrow> bool" where
  "committed_whole rid d d1 c d' \<longleftrightarrow>
     db_transitions d' = db_transitions c @ added db_transitions d d1 \<and>
     db_artifacts d' = db_artifacts c @ added db_artifacts d d1 \<and>
     db_citations d' = db_citations c @ added db_citations d d1 \<and>
     db_decisions d' = db_decisions c @ added db_decisions d d1 \<and>
     db_tool_calls d' = db_tool_calls c @ added db_tool_calls d d1 \<and>
     db_model_calls d' = db_model_calls c @ added db_model_calls d d1 \<and>
     db_redaction_events d' = db_redaction_events c @ added db_redaction_events d d1 \<and>
     db_causal_links d' = db_causal_links c @ added db_causal_links d d1 \<and>
     db_webhook_links d' = db_webhook_links c @ added db_webhook_links d d1 \<and>
     db_opt_ins d' = db_opt_ins c @ added db_opt_ins d d1 \<and>
     db_reviews d' = db_reviews c @ added db_reviews d d1 \<and>
     db_evaluations d' = db_evaluations c @ added db_evaluations d d1 \<and>
     (\<forall>i. find_run d' i = (case find_run c i of
        Some r \<Rightarrow> Some (case (find_run d i, find_run d1 i) of (Some p, Some q) \<Rightarrow> merge_run p q r | _ \<Rightarrow> r)
      | None \<Rightarrow> if find_run d i = None then find_run d1 i else None)) \<and>
     (\<forall>i. find_lease d' i = (if i = rid then None else find_lease c i)) \<and>
     db_now d' = db_now c \<and> db_zone d' = db_zone c"

lemma find_filtered: "find P (filter Q xs) = find (\<lambda>x. P x \<and> Q x) xs"
  by (induction xs) auto

lemma committed_whole_merge:
  "committed_whole rid d d1 c (merge d d1 (c\<lparr>db_leases := filter (\<lambda>l. ls_run l \<noteq> rid) (db_leases c)\<rparr>))"
proof -
  let ?c = "c\<lparr>db_leases := filter (\<lambda>l. ls_run l \<noteq> rid) (db_leases c)\<rparr>"
  have "find_run ?c i = find_run c i" for i by (simp add: find_run_def)
  moreover have "find_lease (merge d d1 ?c) i = (if i = rid then None else find_lease c i)" for i
    by (auto simp: find_lease_def merge_def find_filtered find_None_iff intro!: arg_cong2 [where f = find])
  ultimately show ?thesis
    unfolding committed_whole_def find_run_merge by (simp add: merge_def)
qed

lemma conflict_free_leases [simp]: "conflict_free a b (c\<lparr>db_leases := ls\<rparr>) = conflict_free a b c"
  by (simp add: conflict_free_def)

text \<open>A commit keeps the terminal status that the transaction has reached.\<close>

lemma committed_end:
  assumes "committed_whole rid d d1 c d'" and "find_run d rid = Some r"
    and "run_status r \<notin> terminal_statuses" and "has_ended rid d1" and "find_run c rid \<noteq> None"
  shows "has_ended rid d'"
proof -
  from assms(4) obtain q where q: "find_run d1 rid = Some q" "run_status q \<in> terminal_statuses"
    by (auto simp: has_ended_def)
  from assms(5) obtain s where s: "find_run c rid = Some s" by blast
  have "find_run d' rid = Some (merge_run r q s)"
    using assms(1,2) q(1) s by (simp add: committed_whole_def)
  moreover have "run_status (merge_run r q s) = run_status q"
    using q(2) assms(3) by (auto simp: merge_run_def pick_def)
  ultimately show ?thesis using q(2) by (simp add: has_ended_def)
qed

lemma process_outcome:
  assumes "find_run d rid = Some r"
    and "attempt_run ae deps rid worker (d, w) = (res, (d1, w1))"
    and "heartbeat_run rid worker secs beats \<lparr>hb_renewed = False, hb_lost = False\<rparr> d = (h, beaten)"
    and "process_claimed_run ae deps rid worker secs beats others (d, w) = (result, (d', w'))"
  shows "w' = w1 \<and>
     (if res = Inr () \<and> \<not> hb_lost h \<and>
         (\<exists>l. find_lease (others beaten) rid = Some l \<and> ls_worker l = worker) \<and>
         conflict_free d d1 (others beaten)
      then result = Inr True \<and> committed_whole rid d d1 (others beaten) d' \<and>
        (run_status r \<notin> terminal_statuses \<and> find_run (others beaten) rid \<noteq> None \<longrightarrow> has_ended rid d')
      else result \<noteq> Inr True \<and> d' = others beaten)"
proof -
  let ?c = "others beaten"
  let ?commits = "res = Inr () \<and> \<not> hb_lost h \<and> (\<exists>l. find_lease ?c rid = Some l \<and> ls_worker l = worker) \<and>
    conflict_free d d1 ?c"
  show ?thesis
  proof (cases ?commits)
    case True
    then have "has_ended rid d1"
      using wlpD [OF wlp_attempt_ended [of ae deps rid worker "(d, w)"]] assms(2) by auto
    moreover from True assms have "result = Inr True \<and> w' = w1 \<and>
        d' = merge d d1 (?c\<lparr>db_leases := filter (\<lambda>l. ls_run l \<noteq> rid) (db_leases ?c)\<rparr>)"
      by (auto simp: process_claimed_run_def heartbeat_exit_def release_lease_def commit_on_def)
    ultimately show ?thesis
      using True committed_whole_merge [of rid d d1 ?c] committed_end [OF _ assms(1)] by auto
  next
    case False
    have "result \<noteq> Inr True \<and> d' = ?c \<and> w' = w1"
    proof (cases "res = Inr () \<and> \<not> hb_lost h")
      case True
      with False assms show ?thesis
        by (auto simp: process_claimed_run_def heartbeat_exit_def release_lease_def commit_on_def
            bind_act_def lease_lost_def split: option.splits if_splits)
    next
      case False
      with assms show ?thesis
        by (cases res) (auto simp: process_claimed_run_def heartbeat_exit_def split: if_splits)
    qed
    with False show ?thesis by simp
  qed
qed

text \<open>
  C6: An attempt is committed whole or not at all, whatever other sessions commit while it lasts. It
  is committed exactly when it has returned, no renewal has failed, the lease is the worker's own at
  the end and no row it adds breaks a unique constraint; then every table shows all that the attempt
  has written and nothing else changes but its lease, which is gone; and a run that was not
  terminal when the attempt began has the attempt's terminal status. Otherwise (the lease was lost, or
  the session or the handler of errors raised) the database is exactly what the other sessions
  have committed.
\<close>

theorem attempt_commits_whole_or_nothing:
  assumes "find_run d rid = Some r"
    and "attempt_run ae deps rid worker (d, w) = (res, (d1, w1))"
    and "heartbeat_run rid worker secs beats \<lparr>hb_renewed = False, hb_lost = False\<rparr> d = (h, beaten)"
    and "process_claimed_run ae deps rid worker secs beats others (d, w) = (result, (d', w'))"
  shows "w' = w1 \<and>
     (if res = Inr () \<and> \<not> hb_lost h \<and>
         (\<exists>l. find_lease (others beaten) rid = Some l \<and> ls_worker l = worker) \<and>
         conflict_free d d1 (others beaten)
      then result = Inr True \<and> committed_whole rid d d1 (others beaten) d' \<and>
        (run_status r \<notin> terminal_statuses \<and> find_run (others beaten) rid \<noteq> None \<longrightarrow> has_ended rid d')
      else result \<noteq> Inr True \<and> d' = others beaten)"
  using assms by (rule process_outcome)

lemma attempt_returns:
  assumes "find_run d rid = Some r" and "run_status r = LEASED"
    and "\<not> (\<exists>m s. dispatch_run ae deps rid worker (d, w) = (Inl (IntegrityError m), s))"
  shows "\<exists>s. attempt_run ae deps rid worker (d, w) = (Inr (), s)"
proof -
  obtain e d0 w0 where dispatch: "dispatch_run ae deps rid worker (d, w) = (e, (d0, w0))"
    by (metis prod.exhaust)
  have "in_attempt rid d" using assms(1,2) by (simp add: in_attempt_def)
  then have "in_attempt rid d0"
    using keepsD [OF attempting.keeps_dispatch _ dispatch] by simp
  then obtain q where q: "find_run d0 rid = Some q"
    "run_status q \<in> {LEASED, SNAPSHOTTING, RUNNING, EVALUATING} \<union> terminal_statuses"
    by (auto simp: in_attempt_def attempt_targets_def)
  then have "run_status q \<in> terminal_statuses \<or> FAILED \<in> allowed_next (run_status q)" by auto
  then have "\<exists>s. worker_error rid worker x (d0, w0) = (Inr (), s)" if "\<not> is_integrity_error x" for x
    using q(1) that
    by (auto simp: worker_error_def loaded_def on_db_def with_run_def bind_act_def terminal_statuses_def
        transition_run_moved)
  moreover have "\<not> is_integrity_error x" if "e = Inl x" for x
    using assms(3) dispatch that by (cases x) auto
  ultimately show ?thesis
    using dispatch by (cases e) (fastforce simp: attempt_run_def catch_def)+
qed

text \<open>
  C13: No run is left hanging: for every behaviour of the model, the tools and the outside in which
  the database accepts the rows of the attempt (the dispatch does not end in an \<open>IntegrityError\<close>, and
  none of its rows conflicts with what others have committed by the end), a worker that holds its
  lease to the end commits a terminal status for the leased run it has claimed and releases it. An
  \<open>IntegrityError\<close> leaves the run leased instead: the handler of errors then raises itself.
\<close>

theorem attempt_that_keeps_its_lease_ends_the_run:
  assumes "find_run d rid = Some r" and "run_status r = LEASED"
    and "heartbeat_run rid worker secs beats \<lparr>hb_renewed = False, hb_lost = False\<rparr> d = (h, beaten)"
    and "\<not> hb_lost h" and "find_lease (others beaten) rid = Some l" and "ls_worker l = worker"
    and "find_run (others beaten) rid \<noteq> None"
    and "\<not> (\<exists>m s. dispatch_run ae deps rid worker (d, w) = (Inl (IntegrityError m), s))"
    and "conflict_free d (fst (snd (attempt_run ae deps rid worker (d, w)))) (others beaten)"
  shows "\<exists>d' w'. process_claimed_run ae deps rid worker secs beats others (d, w) = (Inr True, (d', w')) \<and>
     has_ended rid d' \<and> find_lease d' rid = None"
proof -
  obtain d1 w1 where run: "attempt_run ae deps rid worker (d, w) = (Inr (), (d1, w1))"
    using attempt_returns [OF assms(1,2,8)] by (metis prod.exhaust)
  obtain result d' w' where process:
    "process_claimed_run ae deps rid worker secs beats others (d, w) = (result, (d', w'))"
    by (metis prod.exhaust)
  from process_outcome [OF assms(1) run assms(3) process] assms(2,4-7,9) run
  have "result = Inr True \<and> committed_whole rid d d1 (others beaten) d' \<and> has_ended rid d'"
    by (simp add: terminal_statuses_def)
  with process show ?thesis by (auto simp: committed_whole_def)
qed

section \<open>Examples\<close>

definition example_attempt_env :: attempt_env where
  "example_attempt_env = \<lparr>ae_env = example_env, ae_dump = (\<lambda>_. ''[]''), ae_elapsed_ms = 5\<rparr>"

definition example_dependencies :: "unit worker_dependencies" where
  "example_dependencies = \<lparr>wd_model_gateway = Some example_provider, wd_model_id = Some ''m'',
     wd_capability_gateway = None, wd_branch_writer = None\<rparr>"

text \<open>Another session has committed the claim before the first renewal.\<close>

definition example_beats :: "beat list" where
  "example_beats = [Beat (\<lambda>s. s\<lparr>db_leases := [new_lease 7 ''worker:a'' 0 60 1]\<rparr>) 20]"

lemma example_beat:
  "heartbeat_run 7 ''worker:a'' 60 example_beats \<lparr>hb_renewed = False, hb_lost = False\<rparr> (leased_db role) =
     (\<lparr>hb_renewed = True, hb_lost = False\<rparr>, (leased_db role)\<lparr>db_now := 20, db_leases :=
        [(new_lease 7 ''worker:a'' 0 60 1)\<lparr>ls_heartbeat_at := 20, ls_expires_at := 20 + seconds 60\<rparr>]\<rparr>)"
  by (simp add: example_beats_def heartbeat_lease_def pass_time_def find_lease_def update_lease_def
      new_lease_def leased_db_def seconds_def)

lemma example_no_conflict:
  "conflict_free (leased_db role) b ((leased_db role)\<lparr>db_now := now, db_leases := ls\<rparr>)"
  by (auto simp: conflict_free_def disjoint_on_def leased_db_def empty_db_def inserted_rows_def)

theorem attempt_that_keeps_its_lease_ends_the_run_witness:
  "\<exists>d' w'. process_claimed_run example_attempt_env example_dependencies 7 ''worker:a'' 60 example_beats id
     (leased_db ASSESSOR, ()) = (Inr True, (d', w')) \<and> has_ended 7 d' \<and> find_lease d' 7 = None"
proof (rule attempt_that_keeps_its_lease_ends_the_run [OF _ _ example_beat])
  show run: "find_run (leased_db ASSESSOR) 7 = Some (leased_run ASSESSOR)"
    by (simp add: find_run_def leased_db_def leased_run_def)
  have "orchestration_of example_attempt_env example_provider ''m'' = example_orchestration"
    by (simp add: orchestration_of_def example_attempt_env_def example_orchestration_def)
  with run show "\<not> (\<exists>m s. dispatch_run example_attempt_env example_dependencies 7 ''worker:a''
      (leased_db ASSESSOR, ()) = (Inl (IntegrityError m), s))"
    using example_assessment
    by (auto simp: dispatch_run_def example_dependencies_def loaded_def on_db_def with_run_def
        bind_act_def Let_def leased_run_def)
next
  show "conflict_free (leased_db ASSESSOR) b (id ((leased_db ASSESSOR)\<lparr>db_now := 20, db_leases := ls\<rparr>))" for b ls
    unfolding id_apply by (rule example_no_conflict)
qed (simp add: leased_run_def find_lease_def new_lease_def find_run_def leased_db_def; simp)+

text \<open>
  The session of the renewal raises; another worker has taken the run over meanwhile. The attempt
  leaves no trace on the database.
\<close>

definition taken_over :: "db \<Rightarrow> db" where
  "taken_over s = s\<lparr>db_leases := [new_lease 7 ''worker:b'' 90 60 2]\<rparr>"

theorem attempt_commits_whole_or_nothing_witness:
  "\<exists>result w'. process_claimed_run example_attempt_env example_dependencies 7 ''worker:a'' 60 [Beat_Raises]
     taken_over (leased_db ASSESSOR, ()) = (result, (taken_over (leased_db ASSESSOR), w')) \<and> result \<noteq> Inr True"
proof -
  obtain res d1 w1 where run: "attempt_run example_attempt_env example_dependencies 7 ''worker:a''
      (leased_db ASSESSOR, ()) = (res, (d1, w1))" by (metis prod.exhaust)
  obtain result d' w' where process: "process_claimed_run example_attempt_env example_dependencies 7
      ''worker:a'' 60 [Beat_Raises] taken_over (leased_db ASSESSOR, ()) = (result, (d', w'))"
    by (metis prod.exhaust)
  have found: "find_run (leased_db ASSESSOR) 7 = Some (leased_run ASSESSOR)"
    by (simp add: find_run_def leased_db_def leased_run_def)
  have beats: "heartbeat_run 7 ''worker:a'' 60 [Beat_Raises] \<lparr>hb_renewed = False, hb_lost = False\<rparr>
      (leased_db ASSESSOR) = (\<lparr>hb_renewed = False, hb_lost = True\<rparr>, leased_db ASSESSOR)"
    by simp
  from attempt_commits_whole_or_nothing [OF found run beats process] process show ?thesis by simp
qed

text \<open>
  C38: What a ready configuration configures: when the readiness check finds nothing and the service
  requires target manifests, a worker gets the model gateway, a pinned model that is one of the
  allowed ones, the GitHub reader bound to the allowlist, and the branch writer.
\<close>

theorem ready_settings_configure_every_role:
  assumes "readiness_errors st = []" and "st_require_target_manifest st"
  shows "\<exists>gateway model_id reader writer.
     build_dependencies c st = \<lparr>wd_model_gateway = Some gateway, wd_model_id = Some model_id,
       wd_capability_gateway = Some reader, wd_branch_writer = Some writer\<rparr> \<and>
     model_id \<in> set (st_allowed_model_ids st) \<and> cg_allowed reader = st_allowed_repository_ids st"
proof -
  from assms obtain key app private_key where st: "st_openrouter_api_key st = Some key"
    "st_allowed_model_ids st \<noteq> []" "st_allowed_provider_ids st \<noteq> []"
    "st_github_app_id st = Some app" "st_github_private_key st = Some private_key"
    unfolding readiness_errors_Nil by auto
  have "hd (sort (st_allowed_model_ids st)) \<in> set (st_allowed_model_ids st)"
    using st(2) by (metis hd_in_set length_0_conv length_sort set_sort)
  with st show ?thesis by (simp add: build_dependencies_def Let_def)
qed

definition example_clients :: "unit clients" where
  "example_clients = \<lparr>cl_reader = (\<lambda>_ _ _. cg_port example_capability),
     cl_writer = (\<lambda>_ _ _ _. \<lparr>head_sha = (\<lambda>_ _ w. (Inr example_sha, w)),
        apply_unified_diff = (\<lambda>_ _ _ _ _ w. (Inl (FileNotFoundError ''diff''), w))\<rparr>),
     cl_models = (\<lambda>_ _ _ _. example_provider), cl_langfuse = (\<lambda>_ _ _ _ _ _ _ w. (Inr (), w))\<rparr>"

theorem ready_settings_configure_every_role_witness:
  "\<exists>gateway reader writer. build_dependencies example_clients (ready_settings (Some [])) =
     \<lparr>wd_model_gateway = Some gateway, wd_model_id = Some ''m'',
      wd_capability_gateway = Some reader, wd_branch_writer = Some writer\<rparr>"
proof -
  have "st_allowed_model_ids (ready_settings (Some [])) = [''m'']" by (simp add: ready_settings_def)
  with ready_settings_configure_every_role [OF ready_settings_ready, of example_clients]
  show ?thesis by (auto simp: ready_settings_def)
qed

end
