(* ===== verification/ManifestRegistry.thy ===== *)
theory ManifestRegistry
  imports RunService
begin

text \<open>
  \<open>policy/manifest_registry.py\<close>: approving a manifest retires the ones that were active for its
  repository, and the active manifest of a repository is read back through its validators. The
  JSON text of a manifest, of which the hash is stored, is a parameter.
\<close>

section \<open>Operations\<close>

definition active_for :: "int \<Rightarrow> target_manifest \<Rightarrow> bool" where
  "active_for repository_id t \<longleftrightarrow> tm_repository_id t = repository_id \<and> tm_retired_at t = None"

definition active_records :: "db \<Rightarrow> int \<Rightarrow> target_manifest list" where
  "active_records s repository_id = filter (active_for repository_id) (db_manifests s)"

definition retire :: "string \<Rightarrow> target_manifest \<Rightarrow> (db, unit) act" where
  "retire version active =
    (if tm_version active = version
     then throw (ValueError ''manifest version is already approved'')
     else modify (\<lambda>s. s\<lparr>db_manifests :=
       map (\<lambda>t. if tm_id t = tm_id active then t\<lparr>tm_retired_at := Some (db_now s)\<rparr> else t)
         (db_manifests s)\<rparr>))"

definition add_manifest :: "target_manifest \<Rightarrow> (db, target_manifest) act" where
  "add_manifest t s =
    (if list_ex (\<lambda>x. tm_repository_id x = tm_repository_id t \<and> tm_version x = tm_version t) (db_manifests s)
     then (Inl (IntegrityError ''uq_manifest_repository_version''), s)
     else (Inr t, s\<lparr>db_next := Suc (db_next s), db_manifests := db_manifests s @ [t]\<rparr>))"

definition approve_manifest ::
    "(execution_manifest \<Rightarrow> string) \<Rightarrow> execution_manifest \<Rightarrow> (db, target_manifest) act" where
  "approve_manifest dump m = with_state (\<lambda>s.
    then_act (for_each (retire (em_manifest_version m)) (active_records s (em_repository_id m)))
      (with_state (\<lambda>s. add_manifest
        \<lparr>tm_id = db_next s, tm_repository_id = em_repository_id m, tm_version = em_manifest_version m,
         tm_content = m, tm_content_hash = sha256_hex (utf8 (dump m)), tm_approved_at = db_now s,
         tm_retired_at = None\<rparr>)))"

text \<open>The newest of the active records, by the time of approval.\<close>

definition newest :: "target_manifest list \<Rightarrow> target_manifest option" where
  "newest ts = (case sort_key (\<lambda>t. - tm_approved_at t) ts of [] \<Rightarrow> None | t # _ \<Rightarrow> Some t)"

definition active_manifest :: "db \<Rightarrow> int \<Rightarrow> execution_manifest option res" where
  "active_manifest s repository_id = (case newest (active_records s repository_id) of
     None \<Rightarrow> Inr None
   | Some t \<Rightarrow> bind_res (validate_manifest (tm_content t)) (\<lambda>m. Inr (Some m)))"

section \<open>The registry's invariant\<close>

text \<open>Row ids are fresh and at most one manifest of a repository is active.\<close>

definition manifests_ok :: "db \<Rightarrow> bool" where
  "manifests_ok s \<longleftrightarrow> distinct (map tm_id (db_manifests s)) \<and>
     (\<forall>t \<in> set (db_manifests s). tm_id t < db_next s) \<and>
     (\<forall>repo. length (active_records s repo) \<le> 1)"

definition retired :: "time \<Rightarrow> target_manifest \<Rightarrow> target_manifest" where
  "retired now t = t\<lparr>tm_retired_at := Some now\<rparr>"

text \<open>What approving does to the table: the active ones of the repository retire, one row is added.\<close>

definition approved :: "(execution_manifest \<Rightarrow> string) \<Rightarrow> execution_manifest \<Rightarrow> db \<Rightarrow> target_manifest list" where
  "approved dump m s =
    map (\<lambda>t. if active_for (em_repository_id m) t then retired (db_now s) t else t) (db_manifests s) @
    [\<lparr>tm_id = db_next s, tm_repository_id = em_repository_id m, tm_version = em_manifest_version m,
      tm_content = m, tm_content_hash = sha256_hex (utf8 (dump m)), tm_approved_at = db_now s,
      tm_retired_at = None\<rparr>]"

lemma filter_singleton:
  assumes "filter P ts = [a]"
  shows "a \<in> set ts" "P a" "\<And>t. t \<in> set ts \<Longrightarrow> P t \<Longrightarrow> t = a"
proof -
  have "{t \<in> set ts. P t} = {a}" using assms by (metis list.simps(15) list.set(1) set_filter)
  then show "a \<in> set ts" "P a" "\<And>t. t \<in> set ts \<Longrightarrow> P t \<Longrightarrow> t = a" by auto
qed

lemma map_retire_one:
  assumes "distinct (map tm_id ts)" and "filter P ts = [a]"
  shows "map (\<lambda>t. if tm_id t = tm_id a then f t else t) ts = map (\<lambda>t. if P t then f t else t) ts"
proof -
  have "tm_id t = tm_id a \<longleftrightarrow> P t" if "t \<in> set ts" for t
    using that filter_singleton [OF assms(2)] assms(1) by (metis distinct_map inj_on_def)
  then show ?thesis by simp
qed

lemma approve_manifest_approved:
  assumes "manifests_ok s" and "approve_manifest dump m s = (Inr t, s')"
  shows "s' = s\<lparr>db_next := Suc (db_next s), db_manifests := approved dump m s\<rparr> \<and> t = last (approved dump m s)"
proof -
  consider "active_records s (em_repository_id m) = []"
    | a where "active_records s (em_repository_id m) = [a]"
    using assms(1) by (metis le_Suc_eq le_zero_eq length_0_conv length_Suc_conv manifests_ok_def One_nat_def)
  then show ?thesis
  proof cases
    case 1
    then have "map (\<lambda>t. if active_for (em_repository_id m) t then retired (db_now s) t else t) (db_manifests s) =
        db_manifests s"
      by (intro map_idI) (auto simp: active_records_def filter_empty_conv)
    with 1 assms(2) show ?thesis
      by (auto simp: approve_manifest_def add_manifest_def approved_def split: if_splits)
  next
    case 2
    have "distinct (map tm_id (db_manifests s))" using assms(1) by (simp add: manifests_ok_def)
    from map_retire_one [OF this 2 [unfolded active_records_def], of "retired (db_now s)"]
    have "map (\<lambda>t. if tm_id t = tm_id a then t\<lparr>tm_retired_at := Some (db_now s)\<rparr> else t) (db_manifests s) =
        map (\<lambda>t. if active_for (em_repository_id m) t then retired (db_now s) t else t) (db_manifests s)"
      by (simp only: retired_def)
    with 2 assms(2) show ?thesis
      by (auto simp: approve_manifest_def retire_def add_manifest_def approved_def simp del: map_eq_conv
          split: if_splits)
  qed
qed

lemma active_for_retired [simp]:
  "active_for repo (retired now t) = False" "active_for repo t \<Longrightarrow> active_for repo' t \<longleftrightarrow> repo' = repo"
  by (auto simp: active_for_def retired_def)

lemma active_records_approved:
  "filter (active_for repo) (approved dump m s) =
     (if repo = em_repository_id m then [last (approved dump m s)] else active_records s repo)"
proof -
  have "filter (active_for repo) (map (\<lambda>t. if active_for (em_repository_id m) t then retired (db_now s) t else t) ts) =
      (if repo = em_repository_id m then [] else filter (active_for repo) ts)" for ts
    by (induction ts) auto
  then show ?thesis by (auto simp: approved_def active_records_def) (auto simp: active_for_def)
qed

lemma newest_single [simp]: "newest [] = None" "newest [t] = Some t"
  by (simp_all add: newest_def)

lemma manifests_ok_empty: "manifests_ok (empty_db t)"
  by (simp add: manifests_ok_def active_records_def empty_db_def)

text \<open>
  Approving a manifest keeps at most one manifest of every repository active. It is what
  \<open>active_manifest\<close> gives for its repository from then on, read back through its validators;
  the manifest it replaces is kept and retired, and no other repository's manifest changes.
\<close>

theorem approved_manifest_is_the_active_one:
  assumes "manifests_ok s" and "approve_manifest dump m s = (Inr t, s')"
  shows "manifests_ok s' \<and> same_runs s s' \<and>
     active_manifest s' repo = (if repo = em_repository_id m
       then bind_res (validate_manifest m) (\<lambda>m. Inr (Some m)) else active_manifest s repo) \<and>
     map tm_content (db_manifests s') = map tm_content (db_manifests s) @ [m]"
proof -
  have s': "s' = s\<lparr>db_next := Suc (db_next s), db_manifests := approved dump m s\<rparr>"
    using approve_manifest_approved [OF assms] by blast
  have records: "active_records s' repo = (if repo = em_repository_id m
      then [last (approved dump m s)] else active_records s repo)" for repo
    using active_records_approved by (simp add: s' active_records_def)
  have "distinct (map tm_id (db_manifests s'))" "\<forall>t \<in> set (db_manifests s'). tm_id t < db_next s'"
    using assms(1) by (auto simp: s' approved_def manifests_ok_def retired_def o_def if_distrib
        cong: if_cong)
  moreover have "length (active_records s' repo) \<le> 1" for repo
    using assms(1) by (simp add: records manifests_ok_def)
  ultimately have "manifests_ok s'" by (simp add: manifests_ok_def)
  moreover have "tm_content (last (approved dump m s)) = m" by (simp add: approved_def)
  moreover have "map tm_content (db_manifests s') = map tm_content (db_manifests s) @ [m]"
    by (auto simp: s' approved_def retired_def)
  ultimately show ?thesis
    by (simp add: active_manifest_def records) (simp add: same_runs_def s')
qed

definition example_manifest :: "string \<Rightarrow> execution_manifest" where
  "example_manifest version = \<lparr>em_manifest_version = version, em_repository_id = 11,
     em_repository = ''o/r'', em_allowed_source_paths = [''src/*''], em_protected_paths = [],
     em_recipes = [], em_redaction_patterns = [], em_budgets = default_manifest_budgets\<rparr>"

theorem approved_manifest_is_the_active_one_witness:
  "\<exists>t s t' s'. approve_manifest em_repository (example_manifest ''1'') (empty_db 0) = (Inr t, s) \<and>
     approve_manifest em_repository (example_manifest ''2'') s = (Inr t', s') \<and>
     map tm_content (db_manifests s') = [example_manifest ''1'', example_manifest ''2''] \<and>
     active_manifest s' 11 = Inr (Some (example_manifest ''2''))"
proof -
  obtain t s where s: "approve_manifest em_repository (example_manifest ''1'') (empty_db 0) = (Inr t, s)"
    by (simp add: approve_manifest_def add_manifest_def active_records_def empty_db_def example_manifest_def)
  note first = approved_manifest_is_the_active_one [OF manifests_ok_empty s]
  then have "map tm_version (db_manifests s) = [''1'']"
    using approve_manifest_approved [OF manifests_ok_empty s]
    by (simp add: approved_def empty_db_def example_manifest_def)
  then obtain t' s' where s': "approve_manifest em_repository (example_manifest ''2'') s = (Inr t', s')"
    using approve_manifest_approved [OF manifests_ok_empty s]
    by (auto simp: approve_manifest_def add_manifest_def active_records_def approved_def empty_db_def
        example_manifest_def active_for_def retire_def)
  have "validate_manifest (example_manifest ''2'') = Inr (example_manifest ''2'')"
    by code_simp
  with first approved_manifest_is_the_active_one [OF conjunct1 [OF first] s', of 11] s s'
  show ?thesis by (auto simp: example_manifest_def empty_db_def)
qed

end
