(* ===== verification/Webhook.thy ===== *)
theory Webhook
  imports ManifestRegistry
begin

text \<open>
  The intake of webhooks: \<open>api/security.py\<close> and the part of \<open>api/app.py\<close> that turns a GitHub
  delivery into at most one queued run. The reader of JSON bodies is a parameter; an HTTP error is
  an exception that carries its status code, and the random request ids of responses are left out.
\<close>

section \<open>Signatures\<close>

definition payload_hash :: "bytes \<Rightarrow> string" where
  "payload_hash payload = sha256_hex payload"

text \<open>\<open>compare_digest\<close> of two texts refuses characters outside ASCII.\<close>

definition compare_digest :: "string \<Rightarrow> string \<Rightarrow> bool res" where
  "compare_digest a b =
    (if list_all (\<lambda>c. of_char c < (128 :: nat)) (a @ b) then Inr (a = b)
     else Inl (OtherError ''TypeError'' ''comparing strings with non-ASCII characters is not supported''))"

definition verify_github_signature :: "bytes \<Rightarrow> string option \<Rightarrow> string \<Rightarrow> bool res" where
  "verify_github_signature payload signature secret = (case signature of
     None \<Rightarrow> Inr False
   | Some s \<Rightarrow>
       if s = [] \<or> \<not> starts_with ''sha256='' s then Inr False
       else compare_digest (''sha256='' @ hmac_sha256_hex (utf8 secret) payload) s)"

section \<open>Responses\<close>

definition http_error :: "int \<Rightarrow> string \<Rightarrow> exn" where
  "http_error code detail = OtherError ''HTTPException'' (show_int code @ '' '' @ detail)"

record webhook_response =
  wr_accepted :: bool
  wr_duplicate :: bool
  wr_run_id :: "uuid option"

definition duplicate_delivery :: webhook_response where
  "duplicate_delivery = \<lparr>wr_accepted = True, wr_duplicate = True, wr_run_id = None\<rparr>"

fun is_integrity :: "exn \<Rightarrow> bool" where
  "is_integrity (IntegrityError _) = True"
| "is_integrity _ = False"

section \<open>Events\<close>

definition add_event :: "webhook_event \<Rightarrow> (db, unit) act" where
  "add_event e s =
    (if list_ex (\<lambda>x. we_delivery_id x = we_delivery_id e) (db_webhook_events s)
     then (Inl (IntegrityError ''uq_webhook_events_delivery_id''), s)
     else (Inr (), s\<lparr>db_webhook_events := db_webhook_events s @ [e]\<rparr>))"

definition record_event ::
    "string \<Rightarrow> string option \<Rightarrow> int option \<Rightarrow> bytes \<Rightarrow> bool \<Rightarrow> string option \<Rightarrow> (db, uuid) act" where
  "record_event delivery_id event_name repository_id body valid reason =
    bind_act fresh_id (\<lambda>i. then_act
      (add_event \<lparr>we_id = i, we_delivery_id = delivery_id, we_event_name = event_name,
         we_repository_id = repository_id, we_payload_hash = payload_hash body,
         we_signature_valid = valid, we_rejection_reason = reason\<rparr>)
      (ret i))"

text \<open>Both record an event in a transaction of its own and pass over a delivery id in use.\<close>

definition record_rejection ::
    "string \<Rightarrow> string option \<Rightarrow> bytes \<Rightarrow> bool \<Rightarrow> string \<Rightarrow> (db, unit) act" where
  "record_rejection delivery_id event_name body valid reason =
    catch (in_transaction (bind_act (record_event delivery_id event_name None body valid (Some reason))
             (\<lambda>_. ret ())))
      (\<lambda>e. if is_integrity e then ret () else throw e)"

definition record_invalid_delivery :: "string \<Rightarrow> string option \<Rightarrow> bytes \<Rightarrow> (db, unit) act" where
  "record_invalid_delivery delivery_id event_name body =
    record_rejection delivery_id event_name body False ''invalid_signature''"

definition record_safe_rejection :: "string \<Rightarrow> string option \<Rightarrow> bytes \<Rightarrow> string \<Rightarrow> (db, unit) act" where
  "record_safe_rejection delivery_id event_name body reason =
    record_rejection delivery_id event_name body True reason"

section \<open>Budgets\<close>

definition effective_budget :: "settings \<Rightarrow> execution_manifest option \<Rightarrow> budget \<Rightarrow> budget" where
  "effective_budget st manifest requested =
    (let limit = (\<lambda>g m. num_min g (case manifest of None \<Rightarrow> g | Some em \<Rightarrow> m (em_budgets em)));
         ceilings =
           [(''model_turns'', limit (PyInt (st_max_model_turns st)) (\<lambda>b. PyInt (mf_max_model_turns b))),
            (''tool_calls'', limit (PyInt (st_max_tool_calls st)) (\<lambda>b. PyInt (mf_max_tool_calls b))),
            (''wall_seconds'', limit (PyInt (st_max_wall_seconds st)) (\<lambda>b. PyInt (mf_max_wall_seconds b))),
            (''usd'', limit (st_max_usd st) mf_max_usd)]
     in map (\<lambda>(name, ceiling). (name, case map_of requested name of None \<Rightarrow> ceiling | Some v \<Rightarrow> v)) ceilings)"

definition manifest_version_of :: "execution_manifest option \<Rightarrow> string" where
  "manifest_version_of manifest = (case manifest of None \<Rightarrow> ''read-only-v1'' | Some m \<Rightarrow> em_manifest_version m)"

section \<open>Reading the payload\<close>

definition repository_id_of :: "json \<Rightarrow> int option" where
  "repository_id_of payload = (case as_obj payload of
     None \<Rightarrow> None
   | Some p \<Rightarrow> (case as_obj (jget p ''repository'') of
       None \<Rightarrow> None
     | Some repository \<Rightarrow> as_int (jget repository ''id'')))"

definition jget_default :: "(string \<times> json) list \<Rightarrow> string \<Rightarrow> json \<Rightarrow> json" where
  "jget_default d k dflt = (case map_of d k of None \<Rightarrow> dflt | Some v \<Rightarrow> v)"

text \<open>\<open>value in {...}\<close> hashes the value, which a list and a dictionary refuse.\<close>

definition in_names :: "json \<Rightarrow> json list \<Rightarrow> bool res" where
  "in_names v names =
    (if as_list v \<noteq> None \<or> as_obj v \<noteq> None then Inl (OtherError ''TypeError'' ''unhashable type'')
     else Inr (v \<in> set names))"

definition positive_int :: "json \<Rightarrow> int option" where
  "positive_int v = (case as_int v of None \<Rightarrow> None | Some i \<Rightarrow> if i < 1 then None else Some i)"

text \<open>\<open>value == n\<close> for a JSON value.\<close>

definition equals_int :: "json \<Rightarrow> int \<Rightarrow> bool" where
  "equals_int v n = (case v of
     JFloat q \<Rightarrow> (case q of PyInt i \<Rightarrow> i = n | PyFloat x \<Rightarrow> x = of_int n | _ \<Rightarrow> False)
   | _ \<Rightarrow> as_int v = Some n)"

section \<open>Queueing a run\<close>

type_synonym queued = "uuid option \<times> string option"

definition not_queued :: "string \<Rightarrow> (db, queued) act" where
  "not_queued reason = ret (None, Some reason)"

definition set_run :: "uuid \<Rightarrow> (run \<Rightarrow> run) \<Rightarrow> (db, unit) act" where
  "set_run rid f = modify (update_run rid f)"

definition newest_assessor :: "db \<Rightarrow> int \<Rightarrow> int \<Rightarrow> string \<Rightarrow> run option" where
  "newest_assessor s repository_id pull_number sha =
    (case sort_key (\<lambda>r. - run_created_at r) (filter (\<lambda>r. run_role r = ASSESSOR \<and>
        run_repository_id r = repository_id \<and> run_pull_number r = Some pull_number \<and>
        run_pinned_sha r = sha) (db_runs s)) of
       [] \<Rightarrow> None | r # _ \<Rightarrow> Some r)"

definition active_ci_run :: "db \<Rightarrow> int \<Rightarrow> int \<Rightarrow> string \<Rightarrow> bool" where
  "active_ci_run s repository_id pull_number sha = list_ex (\<lambda>r. run_role r = CI \<and>
     run_repository_id r = repository_id \<and> run_pull_number r = Some pull_number \<and>
     run_pinned_sha r = sha \<and> run_status r \<notin> {SUPERSEDED, CANCELLED}) (db_runs s)"

definition ci_request_data :: "int \<Rightarrow> string \<Rightarrow> run_create" where
  "ci_request_data repository_id sha = \<lparr>rc_role = CI, rc_repository_id = repository_id,
     rc_pinned_sha = sha, rc_task_text = ''Diagnose a verified failed check run.'',
     rc_evaluation_case_id = None, rc_budget = []\<rparr>"

definition create_check_run ::
    "run_create \<Rightarrow> run_source \<Rightarrow> int \<Rightarrow> int \<Rightarrow> int \<Rightarrow> string \<Rightarrow> (db, queued) act" where
  "create_check_run data source repository_id pull_number check_run_id sha =
    bind_act (create_queued_run data source ''github_webhook'') (\<lambda>rid.
    then_act (set_run rid (\<lambda>r. r\<lparr>run_pull_number := Some pull_number, run_check_run_id := Some check_run_id\<rparr>))
   (with_state (\<lambda>s. then_act
      (case newest_assessor s repository_id pull_number sha of
         None \<Rightarrow> ret ()
       | Some assessor \<Rightarrow> link_runs (run_id assessor) rid ''failed_check_after_assessment'')
      (ret (Some rid, None)))))"

text \<open>\<open>pull_request.get("head", {}).get("repo")\<close> of a dictionary: a fork has another repository.\<close>

definition from_fork :: "(string \<times> json) list \<Rightarrow> int \<Rightarrow> bool" where
  "from_fork pull_request repository_id = (case as_obj (jget pull_request ''head'') of
     None \<Rightarrow> False
   | Some head \<Rightarrow> (case as_obj (jget head ''repo'') of
       None \<Rightarrow> False
     | Some repo \<Rightarrow> \<not> equals_int (jget repo ''id'') repository_id))"

definition queue_check_run ::
    "(string \<times> json) list \<Rightarrow> int \<Rightarrow> run_source \<Rightarrow> (db, queued) act" where
  "queue_check_run payload repository_id source = (case as_obj (jget payload ''check_run'') of
     None \<Rightarrow> not_queued ''check_not_failed''
   | Some check_run \<Rightarrow>
       if jget check_run ''conclusion'' \<noteq> JStr ''failure'' then not_queued ''check_not_failed''
       else (case positive_int (jget check_run ''id'') of
         None \<Rightarrow> not_queued ''missing_check_run_id''
       | Some check_run_id \<Rightarrow> (case as_list (jget check_run ''pull_requests'') of
           Some [pr] \<Rightarrow> (case as_obj pr of
               None \<Rightarrow> not_queued ''check_run_without_single_pr''
             | Some pull_request \<Rightarrow> (case as_str (jget check_run ''head_sha'') of
                 None \<Rightarrow> not_queued ''missing_head_sha''
               | Some head_sha \<Rightarrow> (case positive_int (jget pull_request ''number'') of
                   None \<Rightarrow> not_queued ''missing_pull_number''
                 | Some pull_number \<Rightarrow>
                     if from_fork pull_request repository_id then not_queued ''fork_branch_refused''
                     else with_state (\<lambda>s.
                       if active_ci_run s repository_id pull_number head_sha
                       then not_queued ''duplicate_ci_head_sha''
                       else (case validate_run_create (ci_request_data repository_id head_sha) of
                           Inl e \<Rightarrow> not_queued ''invalid_head_sha''
                         | Inr data \<Rightarrow>
                             create_check_run data source repository_id pull_number check_run_id head_sha)))))
         | _ \<Rightarrow> not_queued ''check_run_without_single_pr'')))"

definition sent_by_bot :: "(string \<times> json) list \<Rightarrow> bool" where
  "sent_by_bot payload = (case as_obj (jget payload ''sender'') of
     None \<Rightarrow> False | Some sender \<Rightarrow> jget sender ''type'' = JStr ''Bot'')"

definition assessor_request_data :: "int \<Rightarrow> string \<Rightarrow> run_create" where
  "assessor_request_data repository_id sha = \<lparr>rc_role = ASSESSOR, rc_repository_id = repository_id,
     rc_pinned_sha = sha, rc_task_text = ''Assess pull-request risk from verified webhook intake.'',
     rc_evaluation_case_id = None, rc_budget = []\<rparr>"

definition create_assessment ::
    "run_create \<Rightarrow> run_source \<Rightarrow> int \<Rightarrow> int option \<Rightarrow> string \<Rightarrow> bool \<Rightarrow> (db, queued) act" where
  "create_assessment data source repository_id pull_number sha by_bot =
    bind_act (case pull_number of
        Some pull \<Rightarrow> if by_bot then ret []
          else supersede_active_runs repository_id pull sha ''github_webhook''
      | None \<Rightarrow> ret []) (\<lambda>superseded.
    bind_act (create_queued_run data source ''github_webhook'') (\<lambda>rid.
    then_act (set_run rid (\<lambda>r. r\<lparr>run_pull_number := pull_number\<rparr>))
   (then_act (for_each (\<lambda>previous. link_runs previous rid ''superseded_by'') superseded)
    (ret (Some rid, None)))))"

definition queue_pull_request ::
    "(string \<times> json) list \<Rightarrow> (string \<times> json) list \<Rightarrow> int \<Rightarrow> run_source \<Rightarrow> (db, queued) act" where
  "queue_pull_request payload pull_request repository_id source =
    (case as_obj (jget pull_request ''head'') of
       None \<Rightarrow> not_queued ''missing_head_sha''
     | Some head \<Rightarrow> (case as_str (jget head ''sha'') of
         None \<Rightarrow> not_queued ''missing_head_sha''
       | Some sha \<Rightarrow>
           (let pull_number = positive_int (jget_default pull_request ''number'' (jget payload ''number''))
            in case validate_run_create (assessor_request_data repository_id sha) of
                 Inl e \<Rightarrow> not_queued ''invalid_head_sha''
               | Inr data \<Rightarrow> create_assessment data source repository_id pull_number sha (sent_by_bot payload))))"

definition queue_webhook_run ::
    "string option \<Rightarrow> json \<Rightarrow> int option \<Rightarrow> settings \<Rightarrow> run_source \<Rightarrow> (db, queued) act" where
  "queue_webhook_run event_name payload repository_id st source = (case repository_id of
     None \<Rightarrow> not_queued ''missing_repository_id''
   | Some repo \<Rightarrow>
       if repo \<notin> set (st_allowed_repository_ids st) then not_queued ''repository_not_allowlisted''
       else (case as_obj payload of
         None \<Rightarrow> not_queued ''unsupported_event''
       | Some p \<Rightarrow>
           if event_name = Some ''check_run''
           then bind_act (of_res (in_names (jget p ''action'') [JNull, JStr ''completed''])) (\<lambda>completed.
                if completed then queue_check_run p repo source else not_queued ''check_run_not_completed'')
           else if event_name \<noteq> Some ''pull_request'' then not_queued ''unsupported_event''
           else bind_act (of_res (in_names (jget p ''action'')
                [JStr ''opened'', JStr ''synchronize'', JStr ''reopened''])) (\<lambda>supported.
                if \<not> supported then not_queued ''unsupported_event_action''
                else (case as_obj (jget p ''pull_request'') of
                    None \<Rightarrow> not_queued ''unsupported_event_action''
                  | Some pull_request \<Rightarrow> queue_pull_request p pull_request repo source))))"

section \<open>A delivery\<close>

definition link_event :: "uuid \<Rightarrow> uuid \<Rightarrow> (db, unit) act" where
  "link_event event_id rid s =
    (let link = \<lparr>wl_event = event_id, wl_run = rid\<rparr> in
     if link \<in> set (db_webhook_links s) then (Inl (IntegrityError ''webhook_run_links''), s)
     else (Inr (), s\<lparr>db_webhook_links := db_webhook_links s @ [link]\<rparr>))"

definition finish_event :: "uuid \<Rightarrow> string option \<Rightarrow> (db, unit) act" where
  "finish_event event_id reason = modify (\<lambda>s. s\<lparr>db_webhook_events :=
     map (\<lambda>e. if we_id e = event_id then e\<lparr>we_rejection_reason := reason\<rparr> else e) (db_webhook_events s)\<rparr>)"

definition intake ::
    "settings \<Rightarrow> string \<Rightarrow> string option \<Rightarrow> bytes \<Rightarrow> json \<Rightarrow> run_source \<Rightarrow> (db, webhook_response) act" where
  "intake st delivery_id event_name raw_body payload source =
    (let repository_id = repository_id_of payload in with_state (\<lambda>s.
     if list_ex (\<lambda>e. we_delivery_id e = delivery_id) (db_webhook_events s) then ret duplicate_delivery
     else
       bind_act (record_event delivery_id event_name repository_id raw_body True None) (\<lambda>event_id.
       bind_act (case repository_id of None \<Rightarrow> ret None
           | Some repo \<Rightarrow> with_state (\<lambda>s. of_res (active_manifest s repo))) (\<lambda>manifest.
       bind_act
        (if manifest = None \<and> st_require_target_manifest st then not_queued ''missing_target_manifest''
         else bind_act (queue_webhook_run event_name payload repository_id st source)
           (\<lambda>(run, reason). case run of
              None \<Rightarrow> ret (run, reason)
            | Some rid \<Rightarrow> then_act (set_run rid (\<lambda>r. r\<lparr>run_manifest_version := manifest_version_of manifest,
                  run_budget := effective_budget st manifest (run_budget r)\<rparr>))
                (then_act (link_event event_id rid) (ret (run, reason)))))
        (\<lambda>(run, reason). then_act (finish_event event_id reason)
          (ret \<lparr>wr_accepted = True, wr_duplicate = False, wr_run_id = run\<rparr>))))))"

fun is_json_decode_error :: "exn \<Rightarrow> bool" where
  "is_json_decode_error (OtherError t _) = (t = ''JSONDecodeError'')"
| "is_json_decode_error _ = False"

definition process_github_delivery ::
    "(bytes \<Rightarrow> json res) \<Rightarrow> settings \<Rightarrow> string \<Rightarrow> string option \<Rightarrow> bytes \<Rightarrow> string option \<Rightarrow> run_source \<Rightarrow>
     (db, webhook_response) act" where
  "process_github_delivery loads st delivery_id event_name raw_body signature source =
    bind_act (of_res (verify_github_signature raw_body signature (st_github_webhook_secret st))) (\<lambda>valid.
    if \<not> valid
    then then_act (record_invalid_delivery delivery_id event_name raw_body)
           (ret \<lparr>wr_accepted = False, wr_duplicate = False, wr_run_id = None\<rparr>)
    else (case loads raw_body of
        Inl e \<Rightarrow>
          if is_json_decode_error e
          then then_act (record_safe_rejection delivery_id event_name raw_body ''invalid_json'')
                 (throw (http_error 400 ''invalid JSON payload''))
          else throw e
      | Inr payload \<Rightarrow>
          catch (in_transaction (intake st delivery_id event_name raw_body payload source))
            (\<lambda>e. if is_integrity e then ret duplicate_delivery else throw e)))"

text \<open>The routes: the header's delivery id, or one made of the body's hash; 401 when not accepted.\<close>

definition accepted_or_401 :: "webhook_response \<Rightarrow> (db, webhook_response) act" where
  "accepted_or_401 r = (if wr_accepted r then ret r else throw (http_error 401 ''invalid webhook signature''))"

definition github_webhook ::
    "(bytes \<Rightarrow> json res) \<Rightarrow> settings \<Rightarrow> string option \<Rightarrow> string option \<Rightarrow> string option \<Rightarrow> bytes \<Rightarrow>
     (db, webhook_response) act" where
  "github_webhook loads st x_github_delivery x_github_event x_hub_signature_256 raw_body =
    (let delivery_id = (case x_github_delivery of
           Some d \<Rightarrow> if d = [] then ''missing:'' @ payload_hash raw_body else d
         | None \<Rightarrow> ''missing:'' @ payload_hash raw_body)
     in bind_act (process_github_delivery loads st delivery_id x_github_event raw_body
          x_hub_signature_256 WEBHOOK) accepted_or_401)"

section \<open>Invariants\<close>

context intake_invariant
begin

lemma keeps_set_run: "columns_only f \<Longrightarrow> keeps I (set_run rid f)"
  unfolding set_run_def by (auto simp: keeps_def intro: keeps_columns)

lemma keeps_record_event: "keeps I (record_event delivery_id event_name repo body valid reason)"
proof
  fix s assume "I s"
  moreover have "same_runs s (snd (record_event delivery_id event_name repo body valid reason s))"
    by (simp add: record_event_def fresh_id_def add_event_def act_defs same_runs_def)
  ultimately show "I (snd (record_event delivery_id event_name repo body valid reason s))"
    by (rule keeps_same_runs [rotated])
qed

lemma keeps_rejection: "keeps I (record_rejection delivery_id event_name body valid reason)"
  unfolding record_rejection_def by (intro keeps_intros keeps_record_event)

lemma keeps_finish_event: "keeps I (finish_event event_id reason)"
  unfolding finish_event_def by (rule keeps_modify_frame) (simp add: same_runs_def)

lemma keeps_link_event: "keeps I (link_event event_id rid)"
proof
  fix s assume "I s"
  then show "I (snd (link_event event_id rid s))"
    by (auto simp: link_event_def Let_def intro!: keeps_same_runs [of s] simp: same_runs_def)
qed

lemma keeps_create_check_run: "keeps I (create_check_run data source repo pull check_id sha)"
  unfolding create_check_run_def
  by (auto intro!: keeps_intros keeps_create keeps_set_run keeps_link simp: columns_only_def split: option.splits)

lemma keeps_create_assessment: "keeps I (create_assessment data source repo pull sha by_bot)"
  unfolding create_assessment_def
  by (auto intro!: keeps_intros keeps_create keeps_set_run keeps_link keeps_supersede
      simp: columns_only_def split: option.splits)

lemma keeps_queue_check_run: "keeps I (queue_check_run payload repo source)"
  unfolding queue_check_run_def not_queued_def
  by (auto intro!: keeps_intros keeps_create_check_run split: option.splits list.splits sum.splits)

lemma keeps_queue_pull_request: "keeps I (queue_pull_request payload pull_request repo source)"
  unfolding queue_pull_request_def not_queued_def Let_def
  by (auto intro!: keeps_intros keeps_create_assessment split: option.splits sum.splits)

lemma keeps_queue_webhook_run: "keeps I (queue_webhook_run event_name payload repo st source)"
  unfolding queue_webhook_run_def not_queued_def
  by (auto intro!: keeps_intros keeps_queue_check_run keeps_queue_pull_request split: option.splits prod.splits)

lemma keeps_intake: "keeps I (intake st delivery_id event_name raw_body payload source)"
  unfolding intake_def not_queued_def Let_def
  by (auto intro!: keeps_intros keeps_record_event keeps_queue_webhook_run keeps_set_run keeps_link_event
      keeps_finish_event simp: columns_only_def split: option.splits prod.splits)

lemma keeps_delivery:
  "keeps I (process_github_delivery loads st delivery_id event_name raw_body signature source)"
  unfolding process_github_delivery_def record_invalid_delivery_def record_safe_rejection_def
  by (auto intro!: keeps_intros keeps_rejection keeps_intake split: sum.splits)

lemma keeps_github_webhook: "keeps I (github_webhook loads st delivery event_name signature raw_body)"
  unfolding github_webhook_def accepted_or_401_def Let_def by (intro keeps_intros keeps_delivery)

end

section \<open>What a delivery does\<close>

definition signed :: "settings \<Rightarrow> bytes \<Rightarrow> string option \<Rightarrow> bool" where
  "signed st raw_body signature \<longleftrightarrow>
     signature = Some (''sha256='' @ hmac_sha256_hex (utf8 (st_github_webhook_secret st)) raw_body)"

lemma hmac_ascii: "c \<in> set (hmac_sha256_hex key m) \<Longrightarrow> of_char c < (128 :: nat)"
proof -
  assume "c \<in> set (hmac_sha256_hex key m)"
  then have "is_lower_hex c"
    using sha256_hex_hex by (auto simp: hmac_sha256_hex_def Let_def list_all_iff)
  then show ?thesis by (auto simp: is_lower_hex_def)
qed

lemma verify_signed:
  "verify_github_signature raw_body signature (st_github_webhook_secret st) = Inr True \<longleftrightarrow>
     signed st raw_body signature"
  using hmac_ascii
  by (auto simp: verify_github_signature_def compare_digest_def signed_def list_all_iff starts_with_def
      split: option.splits)

lemma verify_unsigned:
  "\<not> signed st raw_body signature \<Longrightarrow>
     verify_github_signature raw_body signature (st_github_webhook_secret st) = Inr False \<or>
     (\<exists>m. verify_github_signature raw_body signature (st_github_webhook_secret st) = Inl (OtherError ''TypeError'' m))"
  using verify_signed [of raw_body signature st]
  by (auto simp: verify_github_signature_def compare_digest_def split: option.splits if_splits)

text \<open>The runs of a database, by id: neither transitions nor attributes add or remove one.\<close>

lemma transition_run_ids:
  "keeps (\<lambda>s :: db. map run_id (db_runs s) = ids) (transition_run rid target reason actor md)"
proof
  fix s :: db assume I: "map run_id (db_runs s) = ids"
  obtain res t where eq: "transition_run rid target reason actor md s = (res, t)" by fastforce
  then have "map run_id (db_runs t) = ids"
    by (cases rule: transition_run_cases) (use I in \<open>auto simp: record_transition_def update_run_ids\<close>)
  with eq show "map run_id (db_runs (snd (transition_run rid target reason actor md s))) = ids" by simp
qed

interpretation same_ids: run_invariant "\<lambda>s :: db. map run_id (db_runs s) = ids" for ids
proof
  show "map run_id (db_runs (update_run rid f s)) = ids"
    if "attributes_only f" "map run_id (db_runs s) = ids" for f rid and s :: db
    using that by (subst update_run_ids) (simp_all add: attributes_only_def columns_only_def)
qed (auto simp: same_runs_def transition_run_ids)

definition queued_run ::
    "run_source \<Rightarrow> int \<Rightarrow> agent_role \<Rightarrow> uuid \<Rightarrow> db \<Rightarrow> db \<Rightarrow> bool" where
  "queued_run source repo role rid s t \<longleftrightarrow> find_run s rid = None \<and> (\<exists>r. find_run t rid = Some r \<and>
     run_status r = QUEUED \<and> run_role r = role \<and> run_source r = source \<and>
     run_repository_id r = repo \<and> immutable_sha (run_pinned_sha r) \<and> run_budget r = [])"

lemma find_run_same_ids:
  "map run_id (db_runs s) = map run_id (db_runs t) \<Longrightarrow> find_run s i = None \<longleftrightarrow> find_run t i = None"
  unfolding find_run_None by (metis set_map)

lemma wlp_create_queued:
  assumes "history_ok s" and "validate_run_create data = Inr data"
    and "\<And>rid t. queued_run source (rc_repository_id data) (rc_role data) rid s t \<or> rc_budget data \<noteq> [] \<Longrightarrow>
      t = with_queued_run data source actor s \<Longrightarrow> rid = db_next s \<Longrightarrow> Q rid t"
  shows "wlp (create_queued_run data source actor) Q s"
proof (rule wlpI)
  fix rid t assume "create_queued_run data source actor s = (Inr rid, t)"
  then have t: "rid = db_next s" "t = with_queued_run data source actor s"
    using create_queued_run_eq(1) [OF assms(1)] by auto
  have "find_run s rid = None" using history_ok_fresh(1) [OF assms(1)] t(1) by simp
  moreover have "find_run t rid = Some ((new_run rid (db_now s) data source)\<lparr>run_status := QUEUED\<rparr>)"
    using create_queued_run_eq(2) [OF assms(1)] t by simp
  ultimately have "queued_run source (rc_repository_id data) (rc_role data) rid s t \<or> rc_budget data \<noteq> []"
    using assms(2) by (auto simp: queued_run_def new_run_def validate_run_create_Inr)
  with assms(3) t show "Q rid t" by blast
qed

lemma queued_run_completed:
  assumes "queued_run source repo role rid s t" and "same_runs (update_run rid f t) u"
    and "\<And>r. run_id (f r) = run_id r \<and> run_status (f r) = run_status r \<and> run_role (f r) = run_role r \<and>
      run_source (f r) = run_source r \<and> run_repository_id (f r) = run_repository_id r \<and>
      run_pinned_sha (f r) = run_pinned_sha r \<and> run_budget (f r) = run_budget r"
  shows "queued_run source repo role rid s u"
proof -
  have "find_run u i = find_run (update_run rid f t) i" for i
    using assms(2) by (simp add: same_runs_def find_run_def)
  with assms(1,3) show ?thesis by (auto simp: queued_run_def find_run_update)
qed

lemma link_runs_same_runs: "link_runs a b relation s = (res, t) \<Longrightarrow> same_runs s t"
  by (auto simp: link_runs_def Let_def same_runs_def split: if_splits)

lemma wlp_link_runs: "(\<And>t. same_runs s t \<Longrightarrow> Q () t) \<Longrightarrow> wlp (link_runs a b relation) Q s"
  by (rule wlpI) (auto dest: link_runs_same_runs)

lemma same_runs_refl: "same_runs s s" by (simp add: same_runs_def)

lemma same_runs_trans: "same_runs s t \<Longrightarrow> same_runs t u \<Longrightarrow> same_runs s u"
  by (auto simp: same_runs_def)

lemma wlp_link_all:
  "(\<And>t. same_runs s t \<Longrightarrow> Q () t) \<Longrightarrow> wlp (for_each (\<lambda>p. link_runs p rid relation) ps) Q s"
proof (induction ps arbitrary: s)
  case (Cons p ps)
  show ?case
    by (simp, rule wlp_then, rule wlp_link_runs, rule Cons.IH) (blast intro: Cons.prems same_runs_trans)
qed (simp add: wlp_ret same_runs_refl)

lemma wlp_create_check_run:
  assumes "history_ok s" and "validate_run_create (ci_request_data repo sha) = Inr data"
  shows "wlp (create_check_run data source repo pull check_id sha)
    (\<lambda>(run, reason) t. \<exists>rid. run = Some rid \<and> queued_run source repo CI rid s t) s"
proof -
  have data: "data = ci_request_data repo sha" "validate_run_create data = Inr data"
    using assms(2) by (simp_all add: validate_run_create_Inr)
  show ?thesis
    unfolding create_check_run_def set_run_def
    by (rule wlp_bind, rule wlp_create_queued [OF assms(1) data(2)], rule wlp_then, rule wlp_modify,
        rule wlp_with_state, rule wlp_then)
      (auto simp: data(1) ci_request_data_def intro!: wlp_ret wlp_link_runs same_runs_refl
        elim!: queued_run_completed split: option.split)
qed

lemma wlp_create_assessment:
  assumes "history_ok s" and "validate_run_create (assessor_request_data repo sha) = Inr data"
  shows "wlp (create_assessment data source repo pull sha by_bot)
    (\<lambda>(run, reason) t. \<exists>rid. run = Some rid \<and> queued_run source repo ASSESSOR rid s t) s"
proof -
  have data: "data = assessor_request_data repo sha" "validate_run_create data = Inr data"
    using assms(2) by (simp_all add: validate_run_create_Inr)
  let ?I = "\<lambda>t. history_ok t \<and> map run_id (db_runs t) = map run_id (db_runs s)"
  let ?supersede = "case pull of Some pull \<Rightarrow> if by_bot then ret []
     else supersede_active_runs repo pull sha ''github_webhook'' | None \<Rightarrow> ret []"
  have "keeps history_ok ?supersede" "keeps (\<lambda>t :: db. map run_id (db_runs t) = map run_id (db_runs s)) ?supersede"
    by (auto intro!: keeps_intros history.keeps_supersede same_ids.keeps_supersede split: option.split)
  then have "keeps ?I ?supersede" by (simp add: keeps_def)
  moreover have created: "wlp (bind_act (create_queued_run data source ''github_webhook'') (\<lambda>rid.
      then_act (set_run rid (\<lambda>r. r\<lparr>run_pull_number := pull\<rparr>))
     (then_act (for_each (\<lambda>previous. link_runs previous rid ''superseded_by'') superseded)
      (ret (Some rid, None :: string option)))))
    (\<lambda>(run, reason) u. \<exists>rid. run = Some rid \<and> queued_run source repo ASSESSOR rid s u) t"
    if t: "?I t" for t superseded
    unfolding set_run_def
  proof (rule wlp_bind, rule wlp_create_queued [OF conjunct1 [OF t] data(2)], rule wlp_then,
      rule wlp_modify, rule wlp_then, rule wlp_link_all, rule wlp_ret)
    fix rid t1 u
    let ?f = "\<lambda>r. r\<lparr>run_pull_number := pull\<rparr>"
    assume "queued_run source (rc_repository_id data) (rc_role data) rid t t1 \<or> rc_budget data \<noteq> []"
      and "same_runs (update_run rid ?f t1) u"
    then have "queued_run source repo ASSESSOR rid t u"
      by (auto simp: data(1) assessor_request_data_def elim!: queued_run_completed)
    with t show "(case (Some rid, None :: string option) of
        (run, reason) \<Rightarrow> \<lambda>u. \<exists>rid. run = Some rid \<and> queued_run source repo ASSESSOR rid s u) u"
      by (auto simp: queued_run_def find_run_same_ids [of t s])
  qed
  ultimately show ?thesis
    unfolding create_assessment_def
    by - (rule wlp_bind, erule wlp_keeps [where I = ?I], simp add: assms(1), blast)
qed

definition outcome_ok :: "settings \<Rightarrow> run_source \<Rightarrow> json \<Rightarrow> db \<Rightarrow> queued \<Rightarrow> db \<Rightarrow> bool" where
  "outcome_ok st source payload s q t \<longleftrightarrow>
     (case fst q of None \<Rightarrow> t = s | Some rid \<Rightarrow> \<exists>repo role. repository_id_of payload = Some repo \<and>
        repo \<in> set (st_allowed_repository_ids st) \<and> role \<in> {ASSESSOR, CI} \<and>
        queued_run source repo role rid s t)"

lemma wlp_not_queued: "wlp (not_queued reason) (outcome_ok st source payload s) s"
  by (simp add: not_queued_def wlp_def outcome_ok_def)

lemma wlp_queue_webhook_run:
  assumes ok: "history_ok s"
  shows "wlp (queue_webhook_run event_name payload (repository_id_of payload) st source)
    (outcome_ok st source payload s) s"
proof (cases "repository_id_of payload")
  case None
  then show ?thesis by (simp add: queue_webhook_run_def wlp_not_queued)
next
  case (Some repo)
  show ?thesis
  proof (cases "repo \<in> set (st_allowed_repository_ids st)")
    case False
    with Some show ?thesis by (simp add: queue_webhook_run_def wlp_not_queued)
  next
    case allowed: True
    have ci: "wlp (create_check_run data source repo pull check_id sha) (outcome_ok st source payload s) s"
      if "validate_run_create (ci_request_data repo sha) = Inr data" for data pull check_id sha
      by (rule wlp_mono [OF wlp_create_check_run [OF ok that]]) (use Some allowed in \<open>auto simp: outcome_ok_def\<close>)
    have assessment: "wlp (create_assessment data source repo pull sha by_bot) (outcome_ok st source payload s) s"
      if "validate_run_create (assessor_request_data repo sha) = Inr data" for data pull sha by_bot
      by (rule wlp_mono [OF wlp_create_assessment [OF ok that]]) (use Some allowed in \<open>auto simp: outcome_ok_def\<close>)
    have check: "wlp (queue_check_run p repo source) (outcome_ok st source payload s) s" for p
      unfolding queue_check_run_def
      by (auto intro!: wlp_with_state wlp_not_queued ci split: option.split list.split sum.split)
    have pull: "wlp (queue_pull_request p q repo source) (outcome_ok st source payload s) s" for p q
      unfolding queue_pull_request_def Let_def
      by (auto intro!: wlp_not_queued assessment split: option.split sum.split)
    from Some allowed show ?thesis
      unfolding queue_webhook_run_def
      by (auto intro!: wlp_bind wlp_of_res wlp_if wlp_not_queued check pull split: option.split)
  qed
qed

lemma record_event_new:
  assumes "record_event delivery_id event_name repo body valid reason s = (Inr i, t)"
  shows "i = db_next s \<and> \<not> list_ex (\<lambda>x. we_delivery_id x = delivery_id) (db_webhook_events s) \<and>
     t = s\<lparr>db_next := Suc (db_next s), db_webhook_events := db_webhook_events s @
       [\<lparr>we_id = i, we_delivery_id = delivery_id, we_event_name = event_name, we_repository_id = repo,
         we_payload_hash = payload_hash body, we_signature_valid = valid, we_rejection_reason = reason\<rparr>]\<rparr>"
  using assms by (auto simp: record_event_def fresh_id_def add_event_def act_defs split: if_splits)

definition knows_delivery :: "string \<Rightarrow> db \<Rightarrow> bool" where
  "knows_delivery delivery_id s \<longleftrightarrow> list_ex (\<lambda>e. we_delivery_id e = delivery_id) (db_webhook_events s)"

lemma keeps_events:
  fixes E :: "webhook_event list"
  defines "I \<equiv> \<lambda>s :: db. db_webhook_events s = E"
  shows keeps_events_transition: "keeps I (transition_run rid target reason actor md)"
    and keeps_events_create: "keeps I (create_queued_run data source actor)"
    and keeps_events_supersede: "keeps I (supersede_active_runs repo pull sha actor)"
    and keeps_events_link: "keeps I (link_runs a b relation)"
    and keeps_events_set: "keeps I (set_run rid f)"
proof -
  have recorded: "keeps I (record_transition rid p t reason actor md)" for rid p t reason actor md
    by (simp add: I_def keeps_def record_transition_def)
  have add: "keeps I (add_run data source)" by (simp add: I_def keeps_def add_run_def)
  show step: "keeps I (transition_run rid target reason actor md)" for rid target reason actor md
    unfolding transition_run_def by (intro keeps_intros recorded) (simp add: I_def)
  show "keeps I (create_queued_run data source actor)"
    unfolding create_queued_run_def by (intro keeps_intros recorded add step)
  have loop: "keeps I (supersede_loop sha actor cs)" for cs
    by (induction cs) (auto intro!: keeps_intros step)
  show "keeps I (supersede_active_runs repo pull sha actor)"
    using loop by (simp add: keeps_def supersede_active_runs_def)
  show "keeps I (link_runs a b relation)"
    by (auto simp: I_def keeps_def link_runs_def Let_def)
  show "keeps I (set_run rid f)" unfolding set_run_def by (intro keeps_intros) (simp add: I_def)
qed

lemma keeps_events_queue:
  "keeps (\<lambda>s :: db. db_webhook_events s = E) (queue_webhook_run event_name payload repo st source)"
proof -
  note ops = keeps_events_create keeps_events_supersede keeps_events_link keeps_events_set
  have check: "keeps (\<lambda>s :: db. db_webhook_events s = E) (create_check_run data source r p c sha)" for data r p c sha
    unfolding create_check_run_def by (auto intro!: keeps_intros ops split: option.split)
  have assess: "keeps (\<lambda>s :: db. db_webhook_events s = E) (create_assessment data source r p sha b)" for data r p sha b
    unfolding create_assessment_def by (auto intro!: keeps_intros ops split: option.split)
  have "keeps (\<lambda>s :: db. db_webhook_events s = E) (queue_check_run p r source)" for p r
    unfolding queue_check_run_def not_queued_def
    by (auto intro!: keeps_intros check split: option.split list.split sum.split)
  moreover have "keeps (\<lambda>s :: db. db_webhook_events s = E) (queue_pull_request p q r source)" for p q r
    unfolding queue_pull_request_def not_queued_def Let_def
    by (auto intro!: keeps_intros assess split: option.split sum.split)
  ultimately show ?thesis
    unfolding queue_webhook_run_def not_queued_def by (auto intro!: keeps_intros split: option.split)
qed

text \<open>The steps of an intake that returns, when the delivery is new.\<close>

lemma intake_steps:
  assumes "intake st delivery_id event_name raw_body payload source s = (Inr r, t)"
    and "\<not> wr_duplicate r"
  obtains i s1 manifest run reason s2 s3 where
    "record_event delivery_id event_name (repository_id_of payload) raw_body True None s = (Inr i, s1)"
    "case repository_id_of payload of None \<Rightarrow> manifest = None | Some repo \<Rightarrow> active_manifest s1 repo = Inr manifest"
    "run = None \<and> s3 = s2 \<and> (s2 = s1 \<or>
        queue_webhook_run event_name payload (repository_id_of payload) st source s1 = (Inr (None, reason), s2)) \<or>
     (\<exists>rid. run = Some rid \<and> \<not> (manifest = None \<and> st_require_target_manifest st) \<and>
        queue_webhook_run event_name payload (repository_id_of payload) st source s1 = (Inr (Some rid, reason), s2) \<and>
        link_event i rid (update_run rid (\<lambda>r. r\<lparr>run_manifest_version := manifest_version_of manifest,
           run_budget := effective_budget st manifest (run_budget r)\<rparr>) s2) = (Inr (), s3))"
    "finish_event i reason s3 = (Inr (), t)" "r = \<lparr>wr_accepted = True, wr_duplicate = False, wr_run_id = run\<rparr>"
proof -
  let ?repo = "repository_id_of payload"
  let ?read = "case ?repo of None \<Rightarrow> ret None | Some repo \<Rightarrow> with_state (\<lambda>s. of_res (active_manifest s repo))"
  let ?queue = "\<lambda>i manifest. if manifest = None \<and> st_require_target_manifest st then not_queued ''missing_target_manifest''
         else bind_act (queue_webhook_run event_name payload ?repo st source)
           (\<lambda>(run, reason). case run of
              None \<Rightarrow> ret (run, reason)
            | Some rid \<Rightarrow> then_act (set_run rid (\<lambda>r. r\<lparr>run_manifest_version := manifest_version_of manifest,
                  run_budget := effective_budget st manifest (run_budget r)\<rparr>))
                (then_act (link_event i rid) (ret (run, reason))))"
  let ?finish = "\<lambda>i (run, reason). then_act (finish_event i reason)
          (ret \<lparr>wr_accepted = True, wr_duplicate = False, wr_run_id = run\<rparr>)"
  have "\<not> list_ex (\<lambda>e. we_delivery_id e = delivery_id) (db_webhook_events s)"
    using assms by (auto simp: intake_def Let_def duplicate_delivery_def)
  with assms(1) have "bind_act (record_event delivery_id event_name ?repo raw_body True None)
      (\<lambda>i. bind_act ?read (\<lambda>manifest. bind_act (?queue i manifest) (?finish i))) s = (Inr r, t)"
    by (simp add: intake_def Let_def)
  then obtain i s1 where event: "record_event delivery_id event_name ?repo raw_body True None s = (Inr i, s1)"
    and "bind_act ?read (\<lambda>manifest. bind_act (?queue i manifest) (?finish i)) s1 = (Inr r, t)"
    by (erule_tac bind_act_cases) auto
  then obtain manifest s1' where read: "?read s1 = (Inr manifest, s1')"
    and "bind_act (?queue i manifest) (?finish i) s1' = (Inr r, t)"
    by (erule_tac bind_act_cases) auto
  moreover from read have "s1' = s1" "case ?repo of None \<Rightarrow> manifest = None | Some repo \<Rightarrow> active_manifest s1 repo = Inr manifest"
    by (auto split: option.splits)
  ultimately obtain run reason s3 where queue: "?queue i manifest s1 = (Inr (run, reason), s3)"
    and finish: "?finish i (run, reason) s3 = (Inr r, t)"
    by (fastforce elim: bind_act_cases)
  from finish have "finish_event i reason s3 = (Inr (), t)"
    "r = \<lparr>wr_accepted = True, wr_duplicate = False, wr_run_id = run\<rparr>"
    by (auto simp: finish_event_def act_defs)
  moreover have "\<exists>s2. run = None \<and> s3 = s2 \<and> (s2 = s1 \<or>
        queue_webhook_run event_name payload ?repo st source s1 = (Inr (None, reason), s2)) \<or>
     (\<exists>rid. run = Some rid \<and> \<not> (manifest = None \<and> st_require_target_manifest st) \<and>
        queue_webhook_run event_name payload ?repo st source s1 = (Inr (Some rid, reason), s2) \<and>
        link_event i rid (update_run rid (\<lambda>r. r\<lparr>run_manifest_version := manifest_version_of manifest,
           run_budget := effective_budget st manifest (run_budget r)\<rparr>) s2) = (Inr (), s3))"
    using queue
    by (auto simp: not_queued_def set_run_def then_act_def split: if_splits option.splits elim!: bind_act_cases)
  ultimately show thesis using that event \<open>case ?repo of None \<Rightarrow> _ | Some repo \<Rightarrow> _ repo\<close> by blast
qed

lemma known_delivery_is_duplicate:
  "knows_delivery delivery_id s \<Longrightarrow> intake st delivery_id event_name raw_body payload source s = (Inr duplicate_delivery, s)"
  by (simp add: intake_def Let_def knows_delivery_def)

lemma signed_delivery:
  "signed st raw_body signature \<Longrightarrow> loads raw_body = Inr payload \<Longrightarrow>
     process_github_delivery loads st delivery_id event_name raw_body signature source s =
     catch (in_transaction (intake st delivery_id event_name raw_body payload source))
       (\<lambda>e. if is_integrity e then ret duplicate_delivery else throw e) s"
  by (simp add: process_github_delivery_def verify_signed [THEN iffD2] bind_act_def)

lemma signed_known_delivery:
  assumes "signed st raw_body signature" and "loads raw_body = Inr payload" and "knows_delivery delivery_id s"
  shows "process_github_delivery loads st delivery_id event_name raw_body signature source s =
    (Inr duplicate_delivery, s)"
  using assms
  by (simp add: signed_delivery catch_def in_transaction_def known_delivery_is_duplicate)

lemma record_invalid_delivery_eq:
  "record_invalid_delivery delivery_id event_name body s = (Inr (),
     if knows_delivery delivery_id s then s
     else s\<lparr>db_next := Suc (db_next s), db_webhook_events := db_webhook_events s @
       [\<lparr>we_id = db_next s, we_delivery_id = delivery_id, we_event_name = event_name,
         we_repository_id = None, we_payload_hash = payload_hash body, we_signature_valid = False,
         we_rejection_reason = Some ''invalid_signature''\<rparr>]\<rparr>)"
  by (simp add: record_invalid_delivery_def record_rejection_def record_event_def fresh_id_def
      add_event_def act_defs in_transaction_def knows_delivery_def)

lemma wlp_bind_any: "(\<And>x t. wlp (f x) Q t) \<Longrightarrow> wlp (bind_act m f) Q s"
  by (rule wlp_bind) (simp add: wlp_def)

lemma wlp_then_any: "(\<And>t. wlp k Q t) \<Longrightarrow> wlp (then_act m k) Q s"
  by (rule wlp_then) (simp add: wlp_def)

lemma intake_response:
  "wlp (intake st delivery_id event_name raw_body payload source)
     (\<lambda>r t. r = duplicate_delivery \<or> wr_accepted r \<and> \<not> wr_duplicate r) s"
  unfolding intake_def Let_def
  by (auto intro!: wlp_with_state wlp_if wlp_bind_any wlp_then_any wlp_ret split: prod.split)

lemma delivery_response:
  assumes "process_github_delivery loads st delivery_id event_name raw_body signature source s = (Inr r, t)"
    and "wr_run_id r \<noteq> None"
  shows "wr_accepted r \<and> \<not> wr_duplicate r"
proof -
  let ?Q = "\<lambda>r (t :: db). wr_run_id r = None \<or> wr_accepted r \<and> \<not> wr_duplicate r"
  have "wlp (catch (in_transaction (intake st delivery_id event_name raw_body payload source))
       (\<lambda>e. if is_integrity e then ret duplicate_delivery else throw e)) ?Q u" for payload u
    using intake_response [of st delivery_id event_name raw_body payload source u]
    by (auto simp: wlp_def catch_def in_transaction_def duplicate_delivery_def
        split: prod.splits sum.splits if_splits)
  moreover have "wlp (throw e) ?Q u" for e u by (rule wlp_throw)
  ultimately have "wlp (process_github_delivery loads st delivery_id event_name raw_body signature source) ?Q s"
    unfolding process_github_delivery_def
    by (intro wlp_bind_any wlp_if wlp_then_any wlp_ret) (auto split: sum.split intro!: wlp_then_any wlp_if)
  from wlpD [OF this assms(1)] assms(2) show ?thesis by simp
qed

lemma accepted_delivery:
  assumes "process_github_delivery loads st delivery_id event_name raw_body signature source s = (Inr r, t)"
    and "wr_accepted r" and "\<not> wr_duplicate r"
  obtains payload where "signed st raw_body signature" "loads raw_body = Inr payload"
    "intake st delivery_id event_name raw_body payload source s = (Inr r, t)"
proof (cases "signed st raw_body signature")
  case False
  with assms verify_unsigned [OF False] show thesis
    by (auto simp: process_github_delivery_def bind_act_def then_act_def record_invalid_delivery_eq)
next
  case True
  then show thesis
  proof (cases "loads raw_body")
    case (Inl e)
    with assms True show thesis
      by (auto simp: process_github_delivery_def verify_signed [THEN iffD2] bind_act_def then_act_def
          split: if_splits prod.splits sum.splits)
  next
    case (Inr payload)
    with assms True that [OF True Inr] show thesis
      by (auto simp: signed_delivery catch_def in_transaction_def duplicate_delivery_def
          split: prod.splits sum.splits if_splits)
  qed
qed

lemma finish_event_simp: "finish_event i reason s = (Inr (), s\<lparr>db_webhook_events :=
    map (\<lambda>e. if we_id e = i then e\<lparr>we_rejection_reason := reason\<rparr> else e) (db_webhook_events s)\<rparr>)"
  by (simp add: finish_event_def)


text \<open>
  A delivery whose signature is not the HMAC of the body under the configured secret creates no
  run and moves none: nothing but the table of received events can change, and the response is
  not an accepting one.
\<close>

theorem unsigned_delivery_touches_no_run:
  assumes "\<not> signed st raw_body signature"
    and "process_github_delivery loads st delivery_id event_name raw_body signature source s = (res, t)"
  shows "t = s\<lparr>db_next := db_next t, db_webhook_events := db_webhook_events t\<rparr> \<and>
     (\<forall>r. res = Inr r \<longrightarrow> \<not> wr_accepted r)"
proof -
  from verify_unsigned [OF assms(1)] show ?thesis
    using assms(2)
    by (auto simp: process_github_delivery_def bind_act_def then_act_def record_invalid_delivery_eq)
qed

text \<open>
  An unsigned request blocks a genuine one: sent with the delivery id of a webhook that has not
  arrived yet, it is refused but its event is stored, and the genuine, signed delivery that follows
  is answered as a duplicate and queues no run, whatever its body.
\<close>

theorem unsigned_delivery_blocks_the_genuine_one:
  assumes "verify_github_signature forged signature (st_github_webhook_secret st) = Inr False"
    and "process_github_delivery loads st delivery_id event_name forged signature WEBHOOK s = (res, t)"
    and "signed st raw_body genuine" and "loads raw_body = Inr payload"
  shows "process_github_delivery loads st delivery_id event_name' raw_body genuine WEBHOOK t =
     (Inr duplicate_delivery, t) \<and> db_runs t = db_runs s"
proof -
  have "t = snd (record_invalid_delivery delivery_id event_name forged s)"
    using assms(1,2)
    by (auto simp: process_github_delivery_def bind_act_def then_act_def record_invalid_delivery_eq)
  then have "knows_delivery delivery_id t" "db_runs t = db_runs s"
    by (auto simp: record_invalid_delivery_eq) (simp add: knows_delivery_def)
  with signed_known_delivery [where loads = loads, OF assms(3,4)] show ?thesis by blast
qed




text \<open>What storing the event, and linking and finishing it, do to runs and events.\<close>

lemma record_event_frame:
  assumes "record_event delivery_id event_name repo body valid reason s = (Inr i, s1)"
  shows "same_runs s s1" and "active_manifest s1 = active_manifest s" and "history_ok s \<Longrightarrow> history_ok s1"
proof -
  note new = record_event_new [OF assms]
  show "same_runs s s1" using new by (simp add: same_runs_def)
  then show "history_ok s \<Longrightarrow> history_ok s1" by (rule history_same_runs)
  show "active_manifest s1 = active_manifest s"
    using new by (intro ext) (simp add: active_manifest_def active_records_def)
qed

lemma linked_and_finished:
  assumes "link_event i rid (update_run rid f s2) = (Inr (), s3)" and "finish_event i reason s3 = (Inr (), t)"
    and "find_run s2 rid = Some q" and "\<And>r. run_id (f r) = run_id r"
  shows "find_run t rid = Some (f q)" and "\<lparr>wl_event = i, wl_run = rid\<rparr> \<in> set (db_webhook_links t)"
    and "\<exists>e \<in> set (db_webhook_events s2). we_id e = i \<and> we_delivery_id e = d \<and> we_signature_valid e \<Longrightarrow>
      \<exists>e \<in> set (db_webhook_events t). we_id e = i \<and> we_delivery_id e = d \<and> we_signature_valid e"
proof -
  from assms(1) have s3: "s3 = (update_run rid f s2)\<lparr>db_webhook_links :=
      db_webhook_links s2 @ [\<lparr>wl_event = i, wl_run = rid\<rparr>]\<rparr>"
    by (auto simp: link_event_def Let_def update_run_def split: if_splits)
  have "find_run t rid = find_run (update_run rid f s2) rid"
    using assms(2) s3 by (auto simp: finish_event_simp find_run_def)
  then show "find_run t rid = Some (f q)" using assms(3,4) by (simp add: find_run_update)
  show "\<lparr>wl_event = i, wl_run = rid\<rparr> \<in> set (db_webhook_links t)"
    using assms(2) s3 by (auto simp: finish_event_simp)
  show "\<exists>e \<in> set (db_webhook_events s2). we_id e = i \<and> we_delivery_id e = d \<and> we_signature_valid e \<Longrightarrow>
      \<exists>e \<in> set (db_webhook_events t). we_id e = i \<and> we_delivery_id e = d \<and> we_signature_valid e"
  proof -
    assume "\<exists>e \<in> set (db_webhook_events s2). we_id e = i \<and> we_delivery_id e = d \<and> we_signature_valid e"
    then obtain e where e: "e \<in> set (db_webhook_events s2)" "we_id e = i" "we_delivery_id e = d" "we_signature_valid e"
      by blast
    have "e\<lparr>we_rejection_reason := reason\<rparr> \<in> set (db_webhook_events t)"
      using assms(2) s3 e(1,2) by (auto simp: finish_event_simp image_iff)
    with e(2-4) show ?thesis by (intro bexI) simp_all
  qed
qed

text \<open>
  C7: The run a delivery queues: the body was signed and names an allowlisted repository; the run is
  new, queued for that repository at an immutable SHA as an assessment or a CI diagnosis, carries
  the version of the repository's active manifest and the budget that manifest and the settings
  allow, and is linked to the stored event of the delivery; the histories stay consistent.
\<close>

theorem accepted_delivery_queues_a_pinned_run:
  assumes "history_ok s"
    and "process_github_delivery loads st delivery_id event_name raw_body signature source s = (Inr r, t)"
    and "wr_run_id r = Some rid"
  shows "signed st raw_body signature \<and> history_ok t \<and> find_run s rid = None \<and>
     (\<exists>payload repo manifest q e. loads raw_body = Inr payload \<and> repository_id_of payload = Some repo \<and>
        repo \<in> set (st_allowed_repository_ids st) \<and> active_manifest s repo = Inr manifest \<and>
        (manifest = None \<longrightarrow> \<not> st_require_target_manifest st) \<and>
        find_run t rid = Some q \<and> run_status q = QUEUED \<and> run_source q = source \<and>
        run_role q \<in> {ASSESSOR, CI} \<and> run_repository_id q = repo \<and> immutable_sha (run_pinned_sha q) \<and>
        run_manifest_version q = manifest_version_of manifest \<and>
        run_budget q = effective_budget st manifest [] \<and>
        e \<in> set (db_webhook_events t) \<and> we_delivery_id e = delivery_id \<and> we_signature_valid e \<and>
        \<lparr>wl_event = we_id e, wl_run = rid\<rparr> \<in> set (db_webhook_links t))"
proof -
  have accepted: "wr_accepted r" "\<not> wr_duplicate r"
    using delivery_response [OF assms(2)] assms(3) by auto
  obtain payload where signed: "signed st raw_body signature" and loads: "loads raw_body = Inr payload"
    and intake: "intake st delivery_id event_name raw_body payload source s = (Inr r, t)"
    using accepted_delivery [OF assms(2) accepted] by blast
  have "history_ok t"
    using keepsD [OF history_intake.keeps_delivery assms(1,2)] .
  from intake accepted(2) show ?thesis
  proof (rule intake_steps)
    fix i s1 manifest run reason s2 s3
    assume event: "record_event delivery_id event_name (repository_id_of payload) raw_body True None s = (Inr i, s1)"
      and manifest: "case repository_id_of payload of None \<Rightarrow> manifest = None
        | Some repo \<Rightarrow> active_manifest s1 repo = Inr manifest"
      and queue: "run = None \<and> s3 = s2 \<and> (s2 = s1 \<or>
        queue_webhook_run event_name payload (repository_id_of payload) st source s1 = (Inr (None, reason), s2)) \<or>
       (\<exists>rid. run = Some rid \<and> \<not> (manifest = None \<and> st_require_target_manifest st) \<and>
        queue_webhook_run event_name payload (repository_id_of payload) st source s1 = (Inr (Some rid, reason), s2) \<and>
        link_event i rid (update_run rid (\<lambda>r. r\<lparr>run_manifest_version := manifest_version_of manifest,
           run_budget := effective_budget st manifest (run_budget r)\<rparr>) s2) = (Inr (), s3))"
      and finish: "finish_event i reason s3 = (Inr (), t)"
      and r: "r = \<lparr>wr_accepted = True, wr_duplicate = False, wr_run_id = run\<rparr>"
    let ?set = "\<lambda>r. r\<lparr>run_manifest_version := manifest_version_of manifest,
       run_budget := effective_budget st manifest (run_budget r)\<rparr>"
    from queue r assms(3) have required: "\<not> (manifest = None \<and> st_require_target_manifest st)"
      and run: "queue_webhook_run event_name payload (repository_id_of payload) st source s1 = (Inr (Some rid, reason), s2)"
      and linked: "link_event i rid (update_run rid ?set s2) = (Inr (), s3)" by auto
    note s1 = record_event_frame [OF event]
    from wlpD [OF wlp_queue_webhook_run [OF s1(3) [OF assms(1)]] run]
    obtain repo role where repo: "repository_id_of payload = Some repo"
      "repo \<in> set (st_allowed_repository_ids st)" "role \<in> {ASSESSOR, CI}"
      and queued: "queued_run source repo role rid s1 s2" by (auto simp: outcome_ok_def)
    from queued obtain q where q: "find_run s1 rid = None" "find_run s2 rid = Some q"
      "run_status q = QUEUED" "run_role q = role" "run_source q = source" "run_repository_id q = repo"
      "immutable_sha (run_pinned_sha q)" "run_budget q = []" by (auto simp: queued_run_def)
    note final = linked_and_finished [OF linked finish q(2)]
    have "\<exists>e \<in> set (db_webhook_events s2). we_id e = i \<and> we_delivery_id e = delivery_id \<and> we_signature_valid e"
      using keepsD [OF keeps_events_queue refl run] record_event_new [OF event] by auto
    from final(3) [OF _ this] have event_t:
      "\<exists>e \<in> set (db_webhook_events t). we_id e = i \<and> we_delivery_id e = delivery_id \<and> we_signature_valid e" by simp
    have manifest_s: "active_manifest s repo = Inr manifest" using manifest repo(1) s1(2) by simp
    have "find_run s rid = None" using q(1) s1(1) by (simp add: same_runs_def find_run_def)
    with signed \<open>history_ok t\<close> loads repo manifest_s required final(1,2) event_t q show ?thesis by auto
  qed
qed

section \<open>Examples\<close>

definition example_settings :: settings where
  "example_settings = (default_settings ''o'' ''w'')\<lparr>st_allowed_repository_ids := [11]\<rparr>"

definition example_payload :: json where
  "example_payload = JObj [(''action'', JStr ''opened''), (''repository'', JObj [(''id'', JInt 11)]),
     (''pull_request'', JObj [(''number'', JInt 7), (''head'', JObj [(''sha'', JStr example_sha)])])]"

definition example_loads :: "bytes \<Rightarrow> json res" where
  "example_loads body = (if body = ''body'' then Inr example_payload
     else Inl (OtherError ''JSONDecodeError'' ''Expecting value''))"

definition genuine_signature :: "string option" where
  "genuine_signature = Some (''sha256='' @ hmac_sha256_hex (utf8 ''w'') ''body'')"

lemma example_signed: "signed example_settings ''body'' genuine_signature"
  by (simp add: signed_def example_settings_def default_settings_def genuine_signature_def)

lemma example_delivery:
  "\<exists>t. process_github_delivery example_loads example_settings ''d-1'' (Some ''pull_request'') ''body''
     genuine_signature WEBHOOK (empty_db 0) =
     (Inr \<lparr>wr_accepted = True, wr_duplicate = False, wr_run_id = Some 1\<rparr>, t) \<and> length (db_runs t) = 1"
proof -
  have loads: "example_loads ''body'' = Inr example_payload" by (simp add: example_loads_def)
  have "validate_run_create (assessor_request_data 11 example_sha) = Inr (assessor_request_data 11 example_sha)"
    using immutable_example_sha
    by (simp add: validate_run_create_Inr assessor_request_data_def len_between_def)
  then show ?thesis
    unfolding signed_delivery [where loads = example_loads, OF example_signed loads]
    by (simp add: catch_def in_transaction_def intake_def record_event_def fresh_id_def add_event_def bind_act_def
        then_act_def Let_def repository_id_of_def example_payload_def jget_def empty_db_def
        active_manifest_def active_records_def queue_webhook_run_def example_settings_def
        default_settings_def in_names_def queue_pull_request_def jget_default_def positive_int_def
        create_assessment_def supersede_active_runs_def supersede_candidates_def sent_by_bot_def
        create_queued_run_def add_run_def record_transition_def transition_run_def with_run_def
        find_run_def new_run_def update_run_def set_status_def set_run_def link_event_def
        finish_event_def)
qed

theorem accepted_delivery_queues_a_pinned_run_witness:
  "\<exists>t q. process_github_delivery example_loads example_settings ''d-1'' (Some ''pull_request'') ''body''
     genuine_signature WEBHOOK (empty_db 0) =
     (Inr \<lparr>wr_accepted = True, wr_duplicate = False, wr_run_id = Some 1\<rparr>, t) \<and>
     find_run t 1 = Some q \<and> run_status q = QUEUED \<and> run_repository_id q = 11"
proof -
  obtain t where t: "process_github_delivery example_loads example_settings ''d-1'' (Some ''pull_request'')
     ''body'' genuine_signature WEBHOOK (empty_db 0) =
     (Inr \<lparr>wr_accepted = True, wr_duplicate = False, wr_run_id = Some 1\<rparr>, t)"
    using example_delivery by blast
  from accepted_delivery_queues_a_pinned_run [OF history_ok_empty t, of 1] t show ?thesis
    by (auto simp: example_settings_def)
qed


theorem unsigned_delivery_touches_no_run_witness:
  "\<exists>res t. process_github_delivery example_loads example_settings ''d-1'' None ''forged'' None WEBHOOK
     (empty_db 0) = (res, t) \<and> db_runs t = []"
proof -
  obtain res t where t: "process_github_delivery example_loads example_settings ''d-1'' None ''forged'' None
      WEBHOOK (empty_db 0) = (res, t)" by fastforce
  have "\<not> signed example_settings ''forged'' None" by (simp add: signed_def)
  from unsigned_delivery_touches_no_run [OF this t]
  have "db_runs t = db_runs (empty_db 0)" by (metis db.select_convs(4) db.surjective db.update_convs(2,3))
  with t show ?thesis by (simp add: empty_db_def)
qed

theorem unsigned_delivery_blocks_the_genuine_one_witness:
  "\<exists>res t. process_github_delivery example_loads example_settings ''d-1'' None ''forged'' None WEBHOOK
       (empty_db 0) = (res, t) \<and>
     process_github_delivery example_loads example_settings ''d-1'' (Some ''pull_request'') ''body''
       genuine_signature WEBHOOK t = (Inr duplicate_delivery, t)"
proof -
  obtain res t where t: "process_github_delivery example_loads example_settings ''d-1'' None ''forged'' None
      WEBHOOK (empty_db 0) = (res, t)" by fastforce
  have "verify_github_signature ''forged'' None (st_github_webhook_secret example_settings) = Inr False"
    by (simp add: verify_github_signature_def)
  from unsigned_delivery_blocks_the_genuine_one [OF this t example_signed, of example_payload] t
  show ?thesis by (auto simp: example_loads_def)
qed

end
