(* ===== verification/Api.thy ===== *)
theory Api
  imports Webhook Worker
begin

text \<open>
  The operator's side of \<open>api/app.py\<close>: manual runs with their budgets, cancelling, reviews, replays,
  readiness, the details of a run and the two HTML pages. The JSON text of an artifact's content on
  a page is a parameter.
\<close>

section \<open>Operators\<close>

definition operator_auth :: "settings \<Rightarrow> string option \<Rightarrow> unit res" where
  "operator_auth st token = (case token of
     None \<Rightarrow> Inl (http_error 401 ''operator authentication required'')
   | Some t \<Rightarrow> bind_res (compare_digest t (st_operator_token st)) (\<lambda>same.
       if same then Inr () else Inl (http_error 401 ''operator authentication required'')))"

definition readyz :: "settings \<Rightarrow> bool \<Rightarrow> unit res" where
  "readyz st database_answers =
    (if readiness_errors st \<noteq> [] then Inl (http_error 503 (join '', '' (readiness_errors st)))
     else if \<not> database_answers then Inl (http_error 503 ''database unavailable'')
     else Inr ())"

section \<open>Manual runs\<close>

definition settings_limits :: "settings \<Rightarrow> budget" where
  "settings_limits st =
    [(''model_turns'', PyInt (st_max_model_turns st)), (''tool_calls'', PyInt (st_max_tool_calls st)),
     (''wall_seconds'', PyInt (st_max_wall_seconds st)), (''usd'', st_max_usd st)]"

fun check_budget :: "budget \<Rightarrow> budget \<Rightarrow> unit res" where
  "check_budget limits [] = Inr ()"
| "check_budget limits ((name, value) # items) =
     (if num_lt value (PyInt 0) then Inl (http_error 422 ''budget must not be negative'')
      else if num_gt value (the (map_of limits name))
      then Inl (http_error 422 ''budget exceeds configured maximum'')
      else check_budget limits items)"

definition validate_manual_request :: "run_create \<Rightarrow> settings \<Rightarrow> unit res" where
  "validate_manual_request payload st =
    (if rc_repository_id payload \<notin> set (st_allowed_repository_ids st)
     then Inl (http_error 403 ''repository is not allowlisted'')
     else if \<not> fst ` set (rc_budget payload) \<subseteq> fst ` set (settings_limits st)
     then Inl (http_error 422 ''budget contains an unknown limit'')
     else check_budget (settings_limits st) (rc_budget payload))"

fun check_ceilings :: "budget \<Rightarrow> budget \<Rightarrow> unit res" where
  "check_ceilings ceilings [] = Inr ()"
| "check_ceilings ceilings ((name, requested) # items) =
     (if num_gt requested (the (map_of ceilings name))
      then Inl (http_error 422 ''budget exceeds target manifest maximum'')
      else check_ceilings ceilings items)"

definition with_effective_budget :: "run_create \<Rightarrow> settings \<Rightarrow> execution_manifest option \<Rightarrow> run_create res" where
  "with_effective_budget payload st manifest =
    (let budget = effective_budget st manifest (rc_budget payload) in
     bind_res (check_ceilings budget (rc_budget payload)) (\<lambda>_. Inr (payload\<lparr>rc_budget := budget\<rparr>)))"

definition manual_transaction :: "settings \<Rightarrow> run_create \<Rightarrow> (db, uuid) act" where
  "manual_transaction st payload =
    bind_act (with_state (\<lambda>s. of_res (active_manifest s (rc_repository_id payload)))) (\<lambda>manifest.
      if manifest = None \<and> st_require_target_manifest st
      then throw (http_error 409 ''no approved target manifest'')
      else bind_act (of_res (with_effective_budget payload st manifest)) (\<lambda>effective.
        bind_act (create_queued_run effective MANUAL ''operator'') (\<lambda>rid.
        then_act (set_run rid (\<lambda>r. r\<lparr>run_manifest_version := manifest_version_of manifest\<rparr>))
        (ret rid))))"

definition create_run :: "settings \<Rightarrow> string option \<Rightarrow> run_create \<Rightarrow> (db, uuid) act" where
  "create_run st token payload =
    then_act (of_res (operator_auth st token))
   (bind_act (of_res (validate_run_create payload)) (\<lambda>payload.
    then_act (of_res (validate_manual_request payload st))
   (in_transaction (manual_transaction st payload))))"

definition cancel_run :: "settings \<Rightarrow> string option \<Rightarrow> uuid \<Rightarrow> (db, unit) act" where
  "cancel_run st token rid =
    then_act (of_res (operator_auth st token))
   (in_transaction
     (try_else (get_run rid) (\<lambda>_. throw (http_error 404 ''run not found''))
       (\<lambda>r. catch (transition_run rid CANCELLED ''operator_cancelled'' ''operator'' [])
          (\<lambda>e. if is_value_error e then throw (http_error 409 (exn_message e)) else throw e))))"

definition create_review :: "settings \<Rightarrow> string option \<Rightarrow> uuid \<Rightarrow> human_review_create \<Rightarrow> (db, unit) act" where
  "create_review st token rid payload =
    then_act (of_res (operator_auth st token))
   (bind_act (of_res (validate_human_review payload)) (\<lambda>payload.
    in_transaction
     (try_else (get_run rid) (\<lambda>_. throw (http_error 404 ''run not found''))
       (\<lambda>_. modify (\<lambda>s. s\<lparr>db_reviews := db_reviews s @ [\<lparr>hv_run = rid, hv_review = payload\<rparr>]\<rparr>)))))"

section \<open>Replays\<close>

record github_replay =
  gp_delivery_id :: string
  gp_event_name :: string
  gp_body :: string
  gp_signature :: string

definition validate_replay :: "github_replay \<Rightarrow> unit res" where
  "validate_replay p = checks
    [(len_between 1 255 (gp_delivery_id p), ''field''), (len_between 1 100 (gp_event_name p), ''field''),
     (gp_body p \<noteq> [], ''field''), (len_between 8 255 (gp_signature p), ''field'')]"

definition replay_github_fixture ::
    "(bytes \<Rightarrow> json res) \<Rightarrow> settings \<Rightarrow> string option \<Rightarrow> github_replay \<Rightarrow> (db, webhook_response) act" where
  "replay_github_fixture loads st token p =
    then_act (of_res (operator_auth st token))
   (then_act (of_res (validate_replay p))
   (bind_act (process_github_delivery loads st (gp_delivery_id p) (Some (gp_event_name p))
      (utf8 (gp_body p)) (Some (gp_signature p)) REPLAY) accepted_or_401))"

section \<open>Details\<close>

record run_summary =
  sm_id :: uuid
  sm_role :: agent_role
  sm_source :: run_source
  sm_repository_id :: int
  sm_pinned_sha :: string
  sm_status :: run_status
  sm_created_at :: time
  sm_terminal_at :: "time option"
  sm_manifest_version :: string
  sm_policy_version :: string

record transition_summary =
  ts_from_status :: "run_status option"
  ts_to_status :: run_status
  ts_reason_code :: string
  ts_actor :: string
  ts_occurred_at :: time

record run_detail = run_summary +
  rd_transitions :: "transition_summary list"
  rd_artifacts :: "string list"
  rd_langfuse_trace_id :: "string option"
  rd_event_delivery_id :: "string option"

definition summary :: "run \<Rightarrow> run_summary" where
  "summary r = \<lparr>sm_id = run_id r, sm_role = run_role r, sm_source = run_source r,
     sm_repository_id = run_repository_id r, sm_pinned_sha = run_pinned_sha r, sm_status = run_status r,
     sm_created_at = run_created_at r, sm_terminal_at = run_terminal_at r,
     sm_manifest_version = run_manifest_version r, sm_policy_version = run_policy_version r\<rparr>"

definition last_trace_id :: "db \<Rightarrow> uuid \<Rightarrow> string option" where
  "last_trace_id s rid =
    (case sort_key (\<lambda>c. - mc_sequence c) (filter (\<lambda>c. mc_run c = rid) (db_model_calls s)) of
       [] \<Rightarrow> None | c # _ \<Rightarrow> mc_trace_id c)"

definition delivery_of :: "db \<Rightarrow> uuid \<Rightarrow> string option" where
  "delivery_of s rid =
    (case [e. e \<leftarrow> db_webhook_events s, l \<leftarrow> db_webhook_links s, wl_event l = we_id e \<and> wl_run l = rid] of
       [] \<Rightarrow> None | e # _ \<Rightarrow> Some (we_delivery_id e))"

definition detail :: "(uuid \<Rightarrow> nat) \<Rightarrow> db \<Rightarrow> run \<Rightarrow> run_detail" where
  "detail rank s r = run_summary.extend (summary r)
     (run_detail.fields
       (map (\<lambda>t. \<lparr>ts_from_status = tr_from t, ts_to_status = tr_to t, ts_reason_code = tr_reason t,
           ts_actor = tr_actor t, ts_occurred_at = tr_at t\<rparr>) (list_transitions rank s (run_id r)))
       (map ar_kind (filter (\<lambda>a. ar_run a = run_id r) (db_artifacts s)))
       (last_trace_id s (run_id r)) (delivery_of s (run_id r)))"

definition run_detail_view :: "(uuid \<Rightarrow> nat) \<Rightarrow> uuid \<Rightarrow> (db, run_detail) act" where
  "run_detail_view rank rid =
    try_else (get_run rid) (\<lambda>_. throw (http_error 404 ''run not found''))
      (\<lambda>r. with_state (\<lambda>s. ret (detail rank s r)))"

definition artifact_detail :: "uuid \<Rightarrow> string \<Rightarrow> (db, string \<times> string \<times> artifact_content) act" where
  "artifact_detail rid kind = with_state (\<lambda>s. case get_artifact s rid kind of
     None \<Rightarrow> throw (http_error 404 ''artifact not found'')
   | Some a \<Rightarrow> ret (ar_kind a, ar_schema_version a, ar_content a))"

section \<open>Pages\<close>

text \<open>\<open>html.escape\<close> with its default \<open>quote=True\<close>.\<close>

definition escape_html_char :: "char \<Rightarrow> string" where
  "escape_html_char c =
    (if c = CHR ''&'' then ''&amp;'' else if c = CHR ''<'' then ''&lt;''
     else if c = CHR ''>'' then ''&gt;'' else if c = CHR 0x22 then ''&quot;''
     else if c = CHR 0x27 then ''&#x27;'' else [c])"

definition escape :: "string \<Rightarrow> string" where
  "escape s = concat (map escape_html_char s)"

definition quoted :: "string \<Rightarrow> string" where
  "quoted s = [CHR 0x27] @ s @ [CHR 0x27]"

definition run_row :: "run \<Rightarrow> string" where
  "run_row r = ''<tr><td><a href='' @ quoted (''/runs/'' @ uuid_str (run_id r)) @ ''>'' @
     uuid_str (run_id r) @ ''</a></td><td>'' @ escape (role_value (run_role r)) @ ''</td><td>'' @
     escape (status_value (run_status r)) @ ''</td><td>'' @ escape (run_pinned_sha r) @ ''</td></tr>''"

definition recent_runs :: "db \<Rightarrow> run list" where
  "recent_runs s = take 100 (sort_key (\<lambda>r. - run_created_at r) (db_runs s))"

definition run_list :: "db \<Rightarrow> string" where
  "run_list s = ''<html><body><h1>Agentic Engineering Lab runs</h1><table><thead><tr><th>Run</th>'' @
     ''<th>Role</th><th>Status</th><th>Pinned SHA</th></tr></thead><tbody>'' @
     concat (map run_row (recent_runs s)) @ ''</tbody></table></body></html>''"

text \<open>\<open>str\<close> of a UTC time.\<close>

definition str_datetime :: "time \<Rightarrow> string" where
  "str_datetime t = map (\<lambda>c. if c = CHR ''T'' then CHR '' '' else c) (isoformat_utc t)"

definition transition_item :: "run_transition \<Rightarrow> string" where
  "transition_item t = ''<li>'' @ escape (str_datetime (tr_at t)) @ '': '' @
     escape (case tr_from t of None \<Rightarrow> ''none'' | Some st \<Rightarrow> status_value st) @ '' to '' @
     escape (status_value (tr_to t)) @ '' ('' @ escape (tr_reason t) @ '')</li>''"

definition artifact_section :: "(artifact_content \<Rightarrow> string) \<Rightarrow> artifact_row \<Rightarrow> string" where
  "artifact_section dump a = ''<h3>'' @ escape (ar_kind a) @ ''</h3><pre>'' @
     escape (dump (ar_content a)) @ ''</pre>''"

definition rstrip_slash :: "string \<Rightarrow> string" where
  "rstrip_slash s = rev (dropWhile (\<lambda>c. c = CHR ''/'') (rev s))"

definition trace_link :: "string option \<Rightarrow> string option \<Rightarrow> string" where
  "trace_link host trace_id = (case (host, trace_id) of
     (Some h, Some t) \<Rightarrow>
       if h = [] \<or> t = [] then ''none''
       else ''<a href='' @ quoted (escape (rstrip_slash h @ ''/trace/'' @ t)) @ ''>'' @ escape t @ ''</a>''
   | _ \<Rightarrow> ''none'')"

definition run_page_html :: "(artifact_content \<Rightarrow> string) \<Rightarrow> settings \<Rightarrow> (uuid \<Rightarrow> nat) \<Rightarrow> db \<Rightarrow> run \<Rightarrow> string" where
  "run_page_html dump st rank s r =
    (let artifacts = concat (map (artifact_section dump) (filter (\<lambda>a. ar_run a = run_id r) (db_artifacts s)));
         delivery = (case delivery_of s (run_id r) of None \<Rightarrow> ''manual'' | Some d \<Rightarrow> if d = [] then ''manual'' else d)
     in ''<html><body><h1>Run '' @ uuid_str (run_id r) @ ''</h1><p>Status: '' @
        escape (status_value (run_status r)) @ ''</p><p>Pinned SHA: '' @ escape (run_pinned_sha r) @
        ''</p><p>Event: '' @ escape delivery @ ''</p><p>Trace: '' @
        trace_link (st_langfuse_host st) (last_trace_id s (run_id r)) @ ''</p><h2>Transitions</h2><ul>'' @
        concat (map transition_item (list_transitions rank s (run_id r))) @ ''</ul><h2>Artifacts</h2>'' @
        (if artifacts = [] then ''<p>none</p>'' else artifacts) @ ''<h2>Reviews</h2><p>'' @
        show_nat (length (filter (\<lambda>v. hv_run v = run_id r) (db_reviews s))) @ ''</p></body></html>'')"

definition run_page :: "(artifact_content \<Rightarrow> string) \<Rightarrow> settings \<Rightarrow> (uuid \<Rightarrow> nat) \<Rightarrow> uuid \<Rightarrow> (db, string) act" where
  "run_page dump st rank rid =
    try_else (get_run rid) (\<lambda>_. throw (http_error 404 ''run not found''))
      (\<lambda>r. with_state (\<lambda>s. ret (run_page_html dump st rank s r)))"

section \<open>Invariants\<close>

context intake_invariant
begin

lemma keeps_create_run: "keeps I (create_run st token payload)"
  unfolding create_run_def manual_transaction_def
  by (intro keeps_intros keeps_create keeps_set_run) (simp add: columns_only_def)

lemma keeps_cancel_run: "keeps I (cancel_run st token rid)"
  unfolding cancel_run_def by (intro keeps_intros keeps_transition keeps_get_run)

lemma keeps_create_review: "keeps I (create_review st token rid payload)"
  unfolding create_review_def
  by (intro keeps_intros keeps_get_run keeps_modify_frame) (simp add: same_runs_def)

lemma keeps_replay: "keeps I (replay_github_fixture loads st token p)"
  unfolding replay_github_fixture_def accepted_or_401_def by (intro keeps_intros keeps_delivery)

lemmas keeps_routes = keeps_github_webhook keeps_create_run keeps_cancel_run keeps_create_review keeps_replay

end

text \<open>When an action returns, read off its construction.\<close>

lemma act_Inr_iffs:
  "then_act (of_res r) k s = (Inr x, t) \<longleftrightarrow> (\<exists>u. r = Inr u) \<and> k s = (Inr x, t)"
  "bind_act (of_res r) f s = (Inr x, t) \<longleftrightarrow> (\<exists>y. r = Inr y \<and> f y s = (Inr x, t))"
  by (cases r; simp add: act_defs)+

lemma in_transaction_Inr_iff: "in_transaction m s = (Inr x, t) \<longleftrightarrow> m s = (Inr x, t)"
  by (auto simp: in_transaction_def split: prod.splits sum.splits)

lemma bind_with_state: "bind_act (with_state k) f s = bind_act (k s) f s"
  by (simp add: act_defs)

section \<open>Manual runs\<close>

lemma num_lt_irrefl [simp]: "\<not> num_lt v v"
  by (cases v) auto

lemma num_lt_asym: "num_lt a b \<Longrightarrow> \<not> num_lt b a"
  by (cases a; cases b) (auto simp: num_val_def)

lemma num_min_le: "\<not> num_gt (num_min g m) g"
  by (auto simp: num_gt_def num_min_def dest: num_lt_asym)

lemma operator_auth_Inr: "operator_auth st token = Inr u \<Longrightarrow> token = Some (st_operator_token st)"
  by (auto simp: operator_auth_def compare_digest_def bind_res_Inr_iff split: option.splits if_splits)

lemma check_budget_Inr:
  "check_budget limits b = Inr u \<Longrightarrow> (name, v) \<in> set b \<Longrightarrow>
     \<not> num_lt v (PyInt 0) \<and> \<not> num_gt v (the (map_of limits name))"
  by (induction limits b rule: check_budget.induct) (auto split: if_splits)

lemma effective_budget_bounded:
  assumes "\<And>v. map_of requested name = Some v \<Longrightarrow> \<not> num_gt v (the (map_of (settings_limits st) name))"
    and "(name, v) \<in> set (effective_budget st manifest requested)"
  shows "\<not> num_gt v (the (map_of (settings_limits st) name))"
proof -
  have "map_of requested name = Some v \<or> (\<exists>m. v = num_min (the (map_of (settings_limits st) name)) m)"
    using assms(2) unfolding effective_budget_def settings_limits_def Let_def
    by (simp; elim disjE conjE; simp split: option.splits; metis)
  with assms(1) num_min_le show ?thesis by blast
qed

lemma create_run_Inr:
  assumes "create_run st token payload s = (Inr rid, t)"
  shows "operator_auth st token = Inr ()" "validate_run_create payload = Inr payload"
    "validate_manual_request payload st = Inr ()" "manual_transaction st payload s = (Inr rid, t)"
  using assms by (auto simp: create_run_def act_Inr_iffs in_transaction_Inr_iff validate_run_create_Inr)

lemma manual_transaction_Inr:
  assumes "manual_transaction st payload s = (Inr rid, t)"
  obtains manifest effective where "with_effective_budget payload st manifest = Inr effective"
    "bind_act (create_queued_run effective MANUAL ''operator'') (\<lambda>rid.
        then_act (set_run rid (\<lambda>r. r\<lparr>run_manifest_version := manifest_version_of manifest\<rparr>)) (ret rid)) s = (Inr rid, t)"
  using assms unfolding manual_transaction_def bind_with_state act_Inr_iffs
  by (auto simp: act_Inr_iffs split: if_splits)

text \<open>
  C19: A manual run is created only for the holder of the operator token, for an allowlisted
  repository at an immutable SHA. The run is queued with a budget for every limit, and no value of
  it exceeds the maximum of the settings.
\<close>

theorem manual_run_is_authorised_and_bounded:
  assumes "history_ok s" and "create_run st token payload s = (Inr rid, t)"
  shows "token = Some (st_operator_token st) \<and> rc_repository_id payload \<in> set (st_allowed_repository_ids st) \<and>
     immutable_sha (rc_pinned_sha payload) \<and> find_run s rid = None \<and>
     (\<exists>r. find_run t rid = Some r \<and> run_status r = QUEUED \<and> run_source r = MANUAL \<and>
        run_repository_id r = rc_repository_id payload \<and> run_pinned_sha r = rc_pinned_sha payload \<and>
        map fst (run_budget r) = map fst (settings_limits st) \<and>
        (\<forall>name v. (name, v) \<in> set (run_budget r) \<longrightarrow> \<not> num_gt v (the (map_of (settings_limits st) name))))"
proof -
  note returned = create_run_Inr [OF assms(2)]
  note auth = operator_auth_Inr [OF returned(1)] and valid = returned(2,3)
  from returned(4) obtain manifest effective where eff: "with_effective_budget payload st manifest = Inr effective"
    and "bind_act (create_queued_run effective MANUAL ''operator'') (\<lambda>rid.
        then_act (set_run rid (\<lambda>r. r\<lparr>run_manifest_version := manifest_version_of manifest\<rparr>)) (ret rid)) s = (Inr rid, t)"
    by (rule manual_transaction_Inr)
  then have rid: "rid = db_next s" and t: "t = update_run rid (\<lambda>r. r\<lparr>run_manifest_version :=
      manifest_version_of manifest\<rparr>) (with_queued_run effective MANUAL ''operator'' s)"
    by (auto simp: create_queued_run_eq(1) [OF assms(1)] bind_act_def set_run_def)
  have fresh: "find_run s rid = None" using history_ok_fresh(1) [OF assms(1)] rid by simp
  have effective: "effective = payload\<lparr>rc_budget := effective_budget st manifest (rc_budget payload)\<rparr>"
    using eff by (auto simp: with_effective_budget_def Let_def bind_res_Inr_iff)
  have bounded: "\<not> num_gt v (the (map_of (settings_limits st) name))"
    if "(name, v) \<in> set (rc_budget effective)" for name v
  proof (rule effective_budget_bounded)
    show "(name, v) \<in> set (effective_budget st manifest (rc_budget payload))" using that effective by simp
    fix u assume "map_of (rc_budget payload) name = Some u"
    from map_of_SomeD [OF this] valid(2) show "\<not> num_gt u (the (map_of (settings_limits st) name))"
      by (auto simp: validate_manual_request_def dest: check_budget_Inr split: if_splits)
  qed
  have "find_run t rid = Some (((new_run rid (db_now s) effective MANUAL)\<lparr>run_status := QUEUED\<rparr>)
      \<lparr>run_manifest_version := manifest_version_of manifest\<rparr>)"
    by (simp add: t find_run_update create_queued_run_eq(2) [OF assms(1)] rid)
  moreover have "map fst (rc_budget effective) = map fst (settings_limits st)"
    by (simp add: effective effective_budget_def settings_limits_def Let_def)
  ultimately show ?thesis
    using auth valid fresh bounded
    by (auto simp: new_run_def effective validate_run_create_Inr validate_manual_request_def split: if_splits)
qed

lemma requested_budget_passes:
  assumes "validate_manual_request payload st = Inr ()" and "distinct (map fst (rc_budget payload))"
  shows "with_effective_budget payload st manifest =
      Inr (payload\<lparr>rc_budget := effective_budget st manifest (rc_budget payload)\<rparr>)"
    and "\<forall>(name, v) \<in> set (rc_budget payload).
      map_of (effective_budget st manifest (rc_budget payload)) name = Some v"
proof -
  let ?b = "effective_budget st manifest (rc_budget payload)"
  have requested: "map_of ?b name = Some v" if "(name, v) \<in> set (rc_budget payload)" for name v
  proof -
    have "name \<in> fst ` set (settings_limits st)"
      using that assms(1) by (force simp: validate_manual_request_def split: if_splits)
    then have "name \<in> {''model_turns'', ''tool_calls'', ''wall_seconds'', ''usd''}"
      by (simp add: settings_limits_def)
    moreover have "map_of (rc_budget payload) name = Some v" by (rule map_of_is_SomeI [OF assms(2) that])
    ultimately show ?thesis by (elim insertE) (simp_all add: effective_budget_def Let_def)
  qed
  have "check_ceilings ?b items = Inr ()" if "set items \<subseteq> set (rc_budget payload)" for items
    using that requested
  proof (induction items)
    case (Cons i items)
    then show ?case by (cases i) (fastforce simp: num_gt_def)
  qed simp
  then have "with_effective_budget payload st manifest = Inr (payload\<lparr>rc_budget := ?b\<rparr>)"
    by (simp add: with_effective_budget_def Let_def)
  with requested show "with_effective_budget payload st manifest = Inr (payload\<lparr>rc_budget := ?b\<rparr>)"
    "\<forall>(name, v) \<in> set (rc_budget payload). map_of ?b name = Some v" by auto
qed

text \<open>
  C40: The maximum of a target manifest is never enforced on a manual request: the comparison takes
  each requested value for its own ceiling, so every request that the settings allow passes, and
  the run gets the requested values however small the manifest's maxima are.
\<close>

theorem manifest_ceiling_is_never_enforced:
  assumes "validate_manual_request payload st = Inr ()" and "distinct (map fst (rc_budget payload))"
  shows "\<exists>d. with_effective_budget payload st manifest = Inr d \<and>
     (\<forall>(name, v) \<in> set (rc_budget payload). map_of (rc_budget d) name = Some v)"
  using requested_budget_passes [OF assms, of manifest] by auto

text \<open>A budget of NaN dollars passes the checks, too: it is neither negative nor above the maximum.\<close>

lemma nan_budget_passes:
  "validate_manual_request (example_request\<lparr>rc_repository_id := 11, rc_budget := [(''usd'', PyNaN)]\<rparr>)
     example_settings = Inr ()"
  by (simp add: validate_manual_request_def example_settings_def default_settings_def settings_limits_def num_gt_def)

theorem manual_run_is_authorised_and_bounded_witness:
  "\<exists>rid t r. create_run example_settings (Some ''o'') (example_request\<lparr>rc_repository_id := 11, rc_budget := [(''tool_calls'', PyInt 2)]\<rparr>) (empty_db 0) =
     (Inr rid, t) \<and> find_run t rid = Some r \<and> run_status r = QUEUED \<and> length (run_budget r) = 4"
proof -
  let ?payload = "example_request\<lparr>rc_repository_id := 11, rc_budget := [(''tool_calls'', PyInt 2)]\<rparr>"
  have "validate_run_create ?payload = Inr ?payload" using immutable_example_sha
    by (simp add: validate_run_create_Inr example_request_def len_between_def)
  moreover have "validate_manual_request ?payload example_settings = Inr ()"
    by (simp add: validate_manual_request_def example_settings_def default_settings_def settings_limits_def
        num_gt_def num_val_def)
  moreover have "operator_auth example_settings (Some ''o'') = Inr ()"
    by (simp add: operator_auth_def compare_digest_def example_settings_def default_settings_def)
  moreover have "\<exists>rid t. manual_transaction example_settings ?payload (empty_db 0) = (Inr rid, t)"
  proof -
    have "active_manifest (empty_db 0) 11 = Inr None" "\<not> st_require_target_manifest example_settings"
      by (simp_all add: active_manifest_def active_records_def empty_db_def example_settings_def default_settings_def)
    with requested_budget_passes(1) [OF calculation(2), of None] show ?thesis
      by (simp add: manual_transaction_def bind_with_state act_Inr_iffs)
        (simp add: bind_act_def set_run_def create_queued_run_eq(1) [OF history_ok_empty])
  qed
  ultimately obtain rid t where t: "create_run example_settings (Some ''o'') ?payload (empty_db 0) = (Inr rid, t)"
    by (auto simp: create_run_def act_Inr_iffs in_transaction_Inr_iff)
  from manual_run_is_authorised_and_bounded [OF history_ok_empty t] obtain r where
    "find_run t rid = Some r" "run_status r = QUEUED" "map fst (run_budget r) = map fst (settings_limits example_settings)"
    by blast
  moreover from this(3) have "length (run_budget r) = 4"
    by (drule_tac arg_cong [where f = length]) (simp add: settings_limits_def)
  ultimately show ?thesis using t by blast
qed

theorem manifest_ceiling_is_never_enforced_witness:
  "\<exists>d. with_effective_budget (example_request\<lparr>rc_repository_id := 11, rc_budget := [(''tool_calls'', PyInt 40)]\<rparr>)
       example_settings (Some ((example_manifest ''1'')
         \<lparr>em_budgets := default_manifest_budgets\<lparr>mf_max_tool_calls := 1\<rparr>\<rparr>)) = Inr d \<and>
     map_of (rc_budget d) ''tool_calls'' = Some (PyInt 40)"
proof -
  let ?payload = "example_request\<lparr>rc_repository_id := 11, rc_budget := [(''tool_calls'', PyInt 40)]\<rparr>"
  have "validate_manual_request ?payload example_settings = Inr ()"
    by (simp add: validate_manual_request_def example_settings_def default_settings_def settings_limits_def
        num_gt_def num_val_def)
  from manifest_ceiling_is_never_enforced [OF this] show ?thesis by fastforce
qed

section \<open>Pages\<close>

text \<open>The characters with which text could become markup.\<close>

definition markup :: "string \<Rightarrow> string" where
  "markup s = filter (\<lambda>c. c \<in> {CHR ''<'', CHR ''>'', CHR 0x22, CHR 0x27}) s"

lemma markup_simps [simp]:
  "markup [] = []"
  "markup (c # s) = (if c \<in> {CHR ''<'', CHR ''>'', CHR 0x22, CHR 0x27} then c # markup s else markup s)"
  "markup (a @ b) = markup a @ markup b"
  by (simp_all add: markup_def)

lemma markup_concat: "(\<And>x. x \<in> set xs \<Longrightarrow> markup (f x) = m) \<Longrightarrow>
    markup (concat (map f xs)) = concat (replicate (length xs) m)"
  by (induction xs) auto

lemma markup_plain: "(\<And>c. c \<in> set s \<Longrightarrow> c \<notin> {CHR ''<'', CHR ''>'', CHR 0x22, CHR 0x27}) \<Longrightarrow> markup s = []"
  by (auto simp: markup_def filter_empty_conv)

lemma markup_escape [simp]: "markup (escape s) = []"
  by (rule markup_plain) (auto simp: escape_def escape_html_char_def split: if_splits)

lemma set_hex_digits: "c \<in> set (hex_digits k n) \<Longrightarrow> is_lower_hex c"
  by (induction k arbitrary: n) (auto simp: hex_digit_hex)

lemma markup_uuid [simp]: "markup (uuid_str n) = []"
proof (rule markup_plain)
  fix c assume "c \<in> set (uuid_str n)"
  then have "c = CHR ''-'' \<or> c \<in> set (hex_digits 32 n)"
    by (auto simp: uuid_str_def Let_def dest: in_set_takeD in_set_dropD)
  then show "c \<notin> {CHR ''<'', CHR ''>'', CHR 0x22, CHR 0x27}"
    by (auto dest!: set_hex_digits simp: is_lower_hex_def)
qed

lemma markup_show_nat [simp]: "markup (show_nat n) = []"
  using show_nat_digits [of n] by (intro markup_plain) (auto simp: list_all_iff is_digit_def)

text \<open>What is left of the pages without their data.\<close>

definition row_markup :: string where
  "row_markup = markup (''<tr><td><a href='' @ quoted [] @ ''></a></td><td></td><td></td><td></td></tr>'')"

definition list_markup :: "nat \<Rightarrow> string" where
  "list_markup rows = markup (''<html><body><h1></h1><table><thead><tr><th></th><th></th><th></th>'' @
     ''<th></th></tr></thead><tbody>'') @ concat (replicate rows row_markup) @
     markup ''</tbody></table></body></html>''"

definition page_markup :: "nat \<Rightarrow> nat \<Rightarrow> bool \<Rightarrow> string" where
  "page_markup transitions artifacts linked =
     markup ''<html><body><h1></h1><p></p><p></p><p></p><p>'' @
     (if linked then markup (''<a href='' @ quoted [] @ ''></a>'') else []) @
     markup ''</p><h2></h2><ul>'' @ concat (replicate transitions (markup ''<li></li>'')) @
     markup ''</ul><h2></h2>'' @
     (if artifacts = 0 then markup ''<p></p>'' else concat (replicate artifacts (markup ''<h3></h3><pre></pre>''))) @
     markup ''<h2></h2><p></p></body></html>''"

lemma markup_row: "markup (run_row r) = row_markup"
  by (simp add: run_row_def quoted_def row_markup_def)

lemma markup_item: "markup (transition_item t) = markup ''<li></li>''"
  by (simp add: transition_item_def)

lemma markup_section: "markup (artifact_section dump a) = markup ''<h3></h3><pre></pre>''"
  by (simp add: artifact_section_def)

lemma markup_trace_link:
  "markup (trace_link h t) = (if trace_link h t = ''none'' then [] else markup (''<a href='' @ quoted [] @ ''></a>''))"
  by (auto simp: trace_link_def quoted_def split: option.splits)

text \<open>
  C39: The pages carry no markup of their data: the angle brackets and quotes of the list of runs
  depend on the number of rows alone, and those of a run's page on the numbers of transitions and
  artifacts and on whether there is a trace link, whatever the texts of the runs, the webhooks, the
  artifacts and the reviews are.
\<close>

theorem pages_carry_no_foreign_markup:
  "markup (run_list s) = list_markup (length (recent_runs s)) \<and>
   markup (run_page_html dump st rank s r) =
     page_markup (length (list_transitions rank s (run_id r)))
       (length (filter (\<lambda>a. ar_run a = run_id r) (db_artifacts s)))
       (trace_link (st_langfuse_host st) (last_trace_id s (run_id r)) \<noteq> ''none'')"
proof
  show "markup (run_list s) = list_markup (length (recent_runs s))"
    using markup_concat [of "recent_runs s" run_row row_markup, OF markup_row]
    by (simp add: run_list_def list_markup_def)
  let ?arts = "filter (\<lambda>a. ar_run a = run_id r) (db_artifacts s)"
  have "(concat (map (artifact_section dump) ?arts) = []) = (?arts = [])"
    by (auto simp: artifact_section_def filter_empty_conv)
  moreover note markup_concat [of ?arts "artifact_section dump", OF markup_section]
    markup_concat [of "list_transitions rank s (run_id r)" transition_item, OF markup_item]
  ultimately show "markup (run_page_html dump st rank s r) =
     page_markup (length (list_transitions rank s (run_id r))) (length ?arts)
       (trace_link (st_langfuse_host st) (last_trace_id s (run_id r)) \<noteq> ''none'')"
    by (simp only: run_page_html_def page_markup_def Let_def markup_simps(3) markup_trace_link length_0_conv)
      (simp split: option.split)
qed

end
