(* ===== verification/Files.thy ===== *)
theory Files
  imports Snapshot
begin

text \<open>
  The part of \<open>pathlib\<close> and of the operating system that the executor uses: a file system as a list
  of entries under absolute paths, with symbolic links, which an executed recipe may have created.
  Paths are lists of components. Permission bits are kept, and the write bit of the owner is
  enforced; the process owns every file and is not the superuser. Folders and files get the
  bits that a umask of 022 leaves. A chain of more than forty links cannot be followed, as in the
  Linux kernel.
\<close>

type_synonym path = "string list"

datatype node =
    Regular bytes nat
  | Folder nat
  | Link bool path \<comment> \<open>whether the target is absolute, and its components\<close>

type_synonym files = "(path \<times> node) list"

definition node_at :: "files \<Rightarrow> path \<Rightarrow> node option" where
  "node_at fs p = (if p = [] then Some (Folder 493) else map_of fs p)"

definition put_node :: "path \<Rightarrow> node \<Rightarrow> files \<Rightarrow> files" where
  "put_node p n fs = (p, n) # filter (\<lambda>(q, _). q \<noteq> p) fs"

definition drop_node :: "path \<Rightarrow> files \<Rightarrow> files" where
  "drop_node p fs = filter (\<lambda>(q, _). q \<noteq> p) fs"

lemma node_at_put [simp]: "p \<noteq> [] \<Longrightarrow> node_at (put_node p n fs) q = (if q = p then Some n else node_at fs q)"
  by (induction fs) (auto simp: node_at_def put_node_def map_of_eq_None_iff split: if_splits)

lemma node_at_drop [simp]: "p \<noteq> [] \<Longrightarrow> node_at (drop_node p fs) q = (if q = p then None else node_at fs q)"
  by (induction fs) (auto simp: node_at_def drop_node_def split: if_splits)

section \<open>Following links\<close>

text \<open>
  The place a path leads to. The system demands a folder before each further component; what
  \<open>Path.resolve()\<close> does not demand.
\<close>

fun is_folder_node :: "node option \<Rightarrow> bool" where
  "is_folder_node (Some (Folder _)) = True"
| "is_folder_node _ = False"

fun is_link_node :: "node option \<Rightarrow> bool" where
  "is_link_node (Some (Link _ _)) = True"
| "is_link_node _ = False"

function follow :: "bool \<Rightarrow> files \<Rightarrow> nat \<Rightarrow> path \<Rightarrow> path \<Rightarrow> path option" where
  "follow strict fs n d [] = Some d"
| "follow strict fs n d (x # r) =
     (if strict \<and> \<not> is_folder_node (node_at fs d) then None
      else if x = ''..'' then follow strict fs n (butlast d) r
      else case node_at fs (d @ [x]) of
          Some (Link absolute target) \<Rightarrow>
            if n = 0 then None
            else follow strict fs (n - 1) (if absolute then [] else d) (target @ r)
        | _ \<Rightarrow> follow strict fs n (d @ [x]) r)"
  by pat_completeness auto
termination by (relation "measures [\<lambda>(s, fs, n, d, r). n, \<lambda>(s, fs, n, d, r). length r]") auto

definition MAX_LINKS :: nat where "MAX_LINKS = 40"

definition resolve :: "files \<Rightarrow> path \<Rightarrow> path res" where
  "resolve fs p = (case follow False fs MAX_LINKS [] p of
     None \<Rightarrow> Inl (RuntimeError ''Symlink loop'') | Some q \<Rightarrow> Inr q)"

definition reach :: "files \<Rightarrow> path \<Rightarrow> path option" where
  "reach fs p = follow True fs MAX_LINKS [] p"

definition stat_node :: "files \<Rightarrow> path \<Rightarrow> node option" where
  "stat_node fs p = Option.bind (reach fs p) (node_at fs)"

text \<open>The entry a path names itself: its folder followed, its last component not.\<close>

definition entry :: "files \<Rightarrow> path \<Rightarrow> path option" where
  "entry fs p = (if p = [] then Some [] else
     case reach fs (butlast p) of
       None \<Rightarrow> None
     | Some d \<Rightarrow> if is_folder_node (node_at fs d) then Some (d @ [last p]) else None)"

definition is_file :: "files \<Rightarrow> path \<Rightarrow> bool" where
  "is_file fs p = (case stat_node fs p of Some (Regular _ _) \<Rightarrow> True | _ \<Rightarrow> False)"

definition is_dir :: "files \<Rightarrow> path \<Rightarrow> bool" where
  "is_dir fs p = is_folder_node (stat_node fs p)"

definition is_symlink :: "files \<Rightarrow> path \<Rightarrow> bool" where
  "is_symlink fs p = is_link_node (Option.bind (entry fs p) (node_at fs))"

definition path_exists :: "files \<Rightarrow> path \<Rightarrow> bool" where
  "path_exists fs p = (stat_node fs p \<noteq> None)"

definition beneath :: "path \<Rightarrow> path \<Rightarrow> bool" where
  "beneath d p = (\<exists>r. r \<noteq> [] \<and> p = d @ r)"

lemma beneath_code [code]: "beneath d p = (take (length d) p = d \<and> length d < length p)"
  by (metis append_eq_conv_conj append_take_drop_id beneath_def drop_eq_Nil2 linorder_not_le length_append
      length_greater_0_conv less_add_same_cancel1)

section \<open>Operations\<close>

definition writable :: "nat \<Rightarrow> bool" where
  "writable mode = (mode div 128 mod 2 = 1)"

definition folder_writable :: "files \<Rightarrow> path \<Rightarrow> bool" where
  "folder_writable fs d = (case node_at fs d of Some (Folder mode) \<Rightarrow> writable mode | _ \<Rightarrow> False)"

definition not_found :: exn where "not_found = FileNotFoundError ''No such file or directory''"
definition denied :: exn where "denied = PermissionError ''Permission denied''"
definition file_exists :: exn where "file_exists = OtherError ''FileExistsError'' ''File exists''"
definition is_a_directory :: exn where "is_a_directory = OtherError ''IsADirectoryError'' ''Is a directory''"

definition read_bytes :: "path \<Rightarrow> (files, bytes) act" where
  "read_bytes p = with_state (\<lambda>fs. case stat_node fs p of
     Some (Regular content _) \<Rightarrow> ret content
   | Some _ \<Rightarrow> throw is_a_directory
   | None \<Rightarrow> throw not_found)"

definition mkdir :: "path \<Rightarrow> nat \<Rightarrow> (files, unit) act" where
  "mkdir p mode = with_state (\<lambda>fs. case entry fs p of
     None \<Rightarrow> throw not_found
   | Some q \<Rightarrow>
       if node_at fs q \<noteq> None then throw file_exists
       else if \<not> folder_writable fs (butlast q) then throw denied
       else modify (put_node q (Folder mode)))"

fun mkdir_parents :: "path \<Rightarrow> path \<Rightarrow> (files, unit) act" where
  "mkdir_parents d [] = ret ()"
| "mkdir_parents d (x # r) = then_act
     (with_state (\<lambda>fs. if is_dir fs (d @ [x]) then ret () else mkdir (d @ [x]) 493))
     (mkdir_parents (d @ [x]) r)"

text \<open>\<open>path.mkdir(parents=True, exist_ok=True, mode=mode)\<close>: the parents get the usual bits.\<close>

definition make_dirs :: "path \<Rightarrow> nat \<Rightarrow> (files, unit) act" where
  "make_dirs p mode = then_act (mkdir_parents [] (butlast p))
     (with_state (\<lambda>fs. if is_dir fs p then ret () else mkdir p mode))"

definition write_bytes :: "path \<Rightarrow> bytes \<Rightarrow> (files, unit) act" where
  "write_bytes p content = with_state (\<lambda>fs. case reach fs p of
     None \<Rightarrow> throw not_found
   | Some q \<Rightarrow> (case node_at fs q of
         Some (Regular _ mode) \<Rightarrow> if writable mode then modify (put_node q (Regular content mode)) else throw denied
       | Some _ \<Rightarrow> throw is_a_directory
       | None \<Rightarrow>
           if folder_writable fs (butlast q) then modify (put_node q (Regular content 420)) else throw denied))"

definition with_mode :: "nat \<Rightarrow> node \<Rightarrow> node" where
  "with_mode mode n = (case n of
     Regular content _ \<Rightarrow> Regular content mode | Folder _ \<Rightarrow> Folder mode | Link a t \<Rightarrow> Link a t)"

definition chmod :: "path \<Rightarrow> nat \<Rightarrow> (files, unit) act" where
  "chmod p mode = with_state (\<lambda>fs. case reach fs p of
     None \<Rightarrow> throw not_found
   | Some q \<Rightarrow> (case node_at fs q of
         None \<Rightarrow> throw not_found
       | Some n \<Rightarrow> if q = [] then ret () else modify (put_node q (with_mode mode n))))"

definition unlink :: "path \<Rightarrow> bool \<Rightarrow> (files, unit) act" where
  "unlink p missing_ok = with_state (\<lambda>fs. case entry fs p of
     None \<Rightarrow> if missing_ok then ret () else throw not_found
   | Some q \<Rightarrow> (case node_at fs q of
         None \<Rightarrow> if missing_ok then ret () else throw not_found
       | Some (Folder _) \<Rightarrow> throw is_a_directory
       | Some _ \<Rightarrow> if folder_writable fs (butlast q) then modify (drop_node q) else throw denied))"

text \<open>A change of the bits of every entry beneath a folder; links stay as they are.\<close>

definition chmod_beneath :: "path \<Rightarrow> (node \<Rightarrow> node) \<Rightarrow> files \<Rightarrow> files" where
  "chmod_beneath d f fs = map (\<lambda>(p, n). (p, if beneath d p then f n else n)) fs"

section \<open>Where a path leads\<close>

lemma follow_strict: "follow True fs n d r = Some q \<Longrightarrow> follow False fs n d r = Some q"
  by (induction True fs n d r rule: follow.induct) (auto split: if_splits option.splits node.splits)

lemma follow_append:
  assumes "follow strict fs n d (r @ r') = Some q"
  shows "\<exists>e m. m \<le> n \<and> follow strict fs n d r = Some e \<and> follow strict fs m e r' = Some q"
  using assms
proof (induction strict fs n d r rule: follow.induct)
  case (2 strict fs n d x r)
  show ?case
  proof (cases "x = ''..'' \<or> (\<forall>a t. node_at fs (d @ [x]) \<noteq> Some (Link a t))")
    case True
    then show ?thesis using 2 by (auto split: if_splits option.splits node.splits)
  next
    case False
    then obtain a t where "x \<noteq> ''..''" "node_at fs (d @ [x]) = Some (Link a t)" by blast
    then show ?thesis using 2 by (auto split: if_splits) (meson diff_le_self le_trans)+
  qed
qed auto

text \<open>A file that is no link lies in the folder its path leads to.\<close>

lemma reach_last:
  assumes "reach fs (r @ [x]) = Some q" and "x \<noteq> ''..''" and "\<not> is_symlink fs (r @ [x])"
  shows "\<exists>e. resolve fs r = Inr e \<and> q = e @ [x]"
proof -
  from follow_append [OF assms(1) [unfolded reach_def]] obtain e m
    where e: "follow True fs MAX_LINKS [] r = Some e" and q: "follow True fs m e [x] = Some q" by blast
  have "\<not> (\<exists>a t. node_at fs (e @ [x]) = Some (Link a t))" if "is_folder_node (node_at fs e)"
    using assms(3) e that by (auto simp: is_symlink_def entry_def reach_def)
  then have "q = e @ [x]"
    using q assms(2) by (auto split: if_splits option.splits node.splits)
  then show ?thesis using follow_strict [OF e] by (simp add: resolve_def)
qed

lemma is_file_reach: "is_file fs p \<Longrightarrow> \<exists>q content mode. reach fs p = Some q \<and> node_at fs q = Some (Regular content mode)"
  by (auto simp: is_file_def stat_node_def split: option.splits node.splits Option.bind_splits)

lemma read_bytes_Inr: "read_bytes p fs = (Inr content, t) \<longleftrightarrow>
   t = fs \<and> (\<exists>q mode. reach fs p = Some q \<and> node_at fs q = Some (Regular content mode))"
  by (auto simp: read_bytes_def stat_node_def act_defs split: option.splits node.splits Option.bind_splits)

section \<open>Folders without links\<close>

text \<open>
  A folder whose path holds no link and no \<open>..\<close>, a folder with no link beneath it, and a tree in
  which every entry lies in a folder.
\<close>

definition real_folder :: "files \<Rightarrow> path \<Rightarrow> bool" where
  "real_folder fs d \<longleftrightarrow> ''..'' \<notin> set d \<and> (\<forall>i \<le> length d. is_folder_node (node_at fs (take i d)))"

definition linkless :: "files \<Rightarrow> path \<Rightarrow> bool" where
  "linkless fs d \<longleftrightarrow> (\<forall>p. beneath d p \<longrightarrow> \<not> is_link_node (node_at fs p))"

definition tree_ok :: "files \<Rightarrow> bool" where
  "tree_ok fs \<longleftrightarrow> (\<forall>p. p \<noteq> [] \<longrightarrow> node_at fs p \<noteq> None \<longrightarrow> is_folder_node (node_at fs (butlast p)))"

lemma beneath_trans: "beneath d p \<Longrightarrow> beneath p q \<Longrightarrow> beneath d q"
  unfolding beneath_def by (metis append_assoc append_is_Nil_conv)

lemma beneath_append [simp]: "beneath d (d @ r) \<longleftrightarrow> r \<noteq> []"
  by (auto simp: beneath_def)

lemma not_beneath_self [simp]: "\<not> beneath d d"
  by (auto simp: beneath_def)

lemma beneath_append2 [simp]: "beneath (d @ r) (d @ r') \<longleftrightarrow> beneath r r'"
  by (auto simp: beneath_def)

lemma follow_plain:
  assumes "''..'' \<noteq> x" and "\<not> is_link_node (node_at fs (d @ [x]))"
  shows "follow strict fs n d (x # r) =
     (if strict \<and> \<not> is_folder_node (node_at fs d) then None else follow strict fs n (d @ [x]) r)"
proof (cases "node_at fs (d @ [x])")
  case (Some k)
  then show ?thesis using assms by (cases k) (auto simp: follow.simps(2))
qed (use assms(1) in \<open>auto simp: follow.simps(2)\<close>)

lemma folder_no_link: "is_folder_node n \<Longrightarrow> \<not> is_link_node n"
  by (cases n rule: is_folder_node.cases) auto

declare follow.simps(2) [simp del]

lemma follow_real_from:
  assumes "real_folder fs d" and "i \<le> length d"
  shows "follow strict fs n (take i d) (drop i d @ r) = follow strict fs n d r"
  using assms(2)
proof (induction "length d - i" arbitrary: i)
  case (Suc k)
  then have i: "i < length d" by simp
  then have next_part: "drop i d = d ! i # drop (Suc i) d" "take (Suc i) d = take i d @ [d ! i]"
    by (simp_all add: Cons_nth_drop_Suc take_Suc_conv_app_nth)
  have "is_folder_node (node_at fs (take i d))" "is_folder_node (node_at fs (take i d @ [d ! i]))"
    using assms(1) i unfolding real_folder_def next_part(2) [symmetric] by auto
  moreover have "''..'' \<noteq> d ! i"
    using assms(1) i by (metis nth_mem real_folder_def)
  ultimately have "follow strict fs n (take i d) (drop i d @ r) = follow strict fs n (take (Suc i) d) (drop (Suc i) d @ r)"
    by (simp add: next_part follow_plain folder_no_link)
  then show ?case using Suc.hyps(1) [of "Suc i"] Suc.hyps(2) i by simp
qed simp

lemma follow_real: "real_folder fs d \<Longrightarrow> follow strict fs n [] (d @ r) = follow strict fs n d r"
  using follow_real_from [of fs d 0 strict n r] by simp

lemma follow_linkless:
  assumes "''..'' \<notin> set r" and "linkless fs d"
  shows "follow False fs n (d @ c) r = Some (d @ c @ r)"
    and "follow True fs n (d @ c) r = Some q \<Longrightarrow> q = d @ c @ r"
  using assms(1)
proof (induction r arbitrary: c)
  case (Cons x r)
  have plain: "\<not> is_link_node (node_at fs (d @ c @ [x]))" for c
    using assms(2) by (simp add: linkless_def)
  { case 1 then show ?case
      using Cons.IH(1) [of "c @ [x]"] by (simp add: follow_plain plain) }
  { case 2 then show ?case
      using Cons.IH(2) [of "c @ [x]"] by (simp add: follow_plain plain split: if_splits) }
qed auto

lemma resolve_linkless:
  "real_folder fs d \<Longrightarrow> linkless fs d \<Longrightarrow> ''..'' \<notin> set r \<Longrightarrow> resolve fs (d @ r) = Inr (d @ r)"
  using follow_linkless(1) [of r fs d MAX_LINKS "[]"] by (simp add: resolve_def follow_real)

lemma reach_linkless:
  "real_folder fs d \<Longrightarrow> linkless fs d \<Longrightarrow> ''..'' \<notin> set r \<Longrightarrow> reach fs (d @ r) = Some q \<Longrightarrow> q = d @ r"
  using follow_linkless(2) [of r fs d MAX_LINKS "[]" q] by (simp add: reach_def follow_real)

lemma entry_linkless:
  assumes "real_folder fs d" and "linkless fs d" and "''..'' \<notin> set r" and "r \<noteq> []" and "entry fs (d @ r) = Some q"
  shows "q = d @ r \<and> is_folder_node (node_at fs (butlast q))"
proof -
  have "''..'' \<notin> set (butlast r)" using assms(3) by (meson in_set_butlastD)
  moreover from assms(4,5) obtain e where "reach fs (d @ butlast r) = Some e" "is_folder_node (node_at fs e)" "q = e @ [last r]"
    by (auto simp: entry_def butlast_append split: option.splits if_splits)
  ultimately show ?thesis
    using reach_linkless [OF assms(1,2)] assms(4) by fastforce
qed

section \<open>The operations in a folder without links\<close>

definition calm :: "files \<Rightarrow> path \<Rightarrow> bool" where
  "calm fs d \<longleftrightarrow> real_folder fs d \<and> linkless fs d"

definition dotless :: "path \<Rightarrow> bool" where
  "dotless r \<longleftrightarrow> r \<noteq> [] \<and> ''..'' \<notin> set r"

lemma real_folder_take: "real_folder fs d \<Longrightarrow> real_folder fs (take i d)"
  by (auto simp: real_folder_def min_def dest: in_set_takeD)

lemma reach_real: "real_folder fs d \<Longrightarrow> reach fs d = Some d"
  using follow_real [of fs d True MAX_LINKS "[]"] by (simp add: reach_def)

lemma resolve_real: "real_folder fs d \<Longrightarrow> resolve fs d = Inr d"
  using follow_real [of fs d False MAX_LINKS "[]"] by (simp add: resolve_def)

lemma real_is_dir: "real_folder fs d \<Longrightarrow> is_dir fs d"
  by (force simp: is_dir_def stat_node_def reach_real real_folder_def)

lemma calm_reach: "calm fs d \<Longrightarrow> ''..'' \<notin> set r \<Longrightarrow> reach fs (d @ r) = Some q \<Longrightarrow> q = d @ r"
  using reach_linkless calm_def by blast

lemma take_neq_append [simp]: "r \<noteq> [] \<Longrightarrow> take i d \<noteq> d @ r"
  by (metis append_take_drop_id append_self_conv append.assoc append_is_Nil_conv)

lemma calm_put: "calm fs d \<Longrightarrow> r \<noteq> [] \<Longrightarrow> \<not> is_link_node (Some n) \<Longrightarrow> calm (put_node (d @ r) n fs) d"
  by (auto simp: calm_def real_folder_def linkless_def)

lemma calm_drop: "calm fs d \<Longrightarrow> r \<noteq> [] \<Longrightarrow> calm (drop_node (d @ r) fs) d"
  by (auto simp: calm_def real_folder_def linkless_def)

lemma mkdir_Inr:
  assumes "calm fs d" and "dotless r" and "mkdir (d @ r) mode fs = (Inr u, t)"
  shows "node_at fs (d @ r) = None" and "t = put_node (d @ r) (Folder mode) fs"
  using assms entry_linkless [of fs d r]
  by (auto simp: mkdir_def calm_def dotless_def act_returns split: option.splits if_splits)

lemma write_bytes_Inr:
  assumes "calm fs d" and "dotless r" and "write_bytes (d @ r) content fs = (Inr u, t)"
  obtains mode where "t = put_node (d @ r) (Regular content mode) fs"
    and "node_at fs (d @ r) = None \<and> mode = 420 \<or>
         (\<exists>old. node_at fs (d @ r) = Some (Regular old mode) \<and> writable mode)"
  using assms calm_reach [of fs d r]
  by (auto simp: write_bytes_def dotless_def act_returns split: option.splits node.splits if_splits)

lemma chmod_Inr:
  assumes "calm fs d" and "dotless r" and "chmod (d @ r) mode fs = (Inr u, t)"
  obtains n where "node_at fs (d @ r) = Some n" and "t = put_node (d @ r) (with_mode mode n) fs"
  using assms calm_reach [of fs d r]
  by (auto simp: chmod_def dotless_def act_returns split: option.splits if_splits)

lemma with_mode_link: "is_link_node (Some (with_mode mode n)) = is_link_node (Some n)"
  by (simp add: with_mode_def split: node.splits)

text \<open>Nothing but new folders.\<close>

definition adds_folders :: "path \<Rightarrow> files \<Rightarrow> files \<Rightarrow> bool" where
  "adds_folders d fs t \<longleftrightarrow> (\<forall>p. node_at t p = node_at fs p \<or>
     (beneath d p \<and> node_at fs p = None \<and> is_folder_node (node_at t p)))"

lemma adds_folders_refl [simp]: "adds_folders d fs fs"
  by (simp add: adds_folders_def)

lemma adds_folders_trans: "adds_folders d fs s \<Longrightarrow> adds_folders d s t \<Longrightarrow> adds_folders d fs t"
  unfolding adds_folders_def by (metis is_folder_node.simps(2))

lemma adds_folders_put:
  "node_at fs (d @ r) = None \<Longrightarrow> r \<noteq> [] \<Longrightarrow> adds_folders d fs (put_node (d @ r) (Folder mode) fs)"
  by (auto simp: adds_folders_def)

lemma mkdir_step:
  assumes "calm fs d" and "dotless r" and "mkdir (d @ r) mode fs = (Inr u, t)"
  shows "calm t d \<and> adds_folders d fs t"
  using mkdir_Inr [OF assms] assms(1,2) by (auto simp: calm_put adds_folders_put dotless_def)

lemma mkdir_parents_real:
  assumes "real_folder fs d" and "i \<le> length d"
  shows "mkdir_parents (take i d) (drop i d @ r) fs = mkdir_parents d r fs"
  using assms(2)
proof (induction "length d - i" arbitrary: i)
  case (Suc k)
  then have i: "i < length d" by simp
  then have next_part: "drop i d = d ! i # drop (Suc i) d" "take (Suc i) d = take i d @ [d ! i]"
    by (simp_all add: Cons_nth_drop_Suc take_Suc_conv_app_nth)
  have "is_dir fs (take i d @ [d ! i])"
    using real_is_dir [OF real_folder_take [OF assms(1), of "Suc i"]] next_part(2) by simp
  then have "mkdir_parents (take i d) (drop i d @ r) fs = mkdir_parents (take (Suc i) d) (drop (Suc i) d @ r) fs"
    by (simp add: next_part then_act_def)
  then show ?case using Suc.hyps(1) [of "Suc i"] Suc.hyps(2) i by simp
qed simp

lemma mkdir_parents_Inr:
  assumes "calm fs d" and "''..'' \<notin> set (c @ r)" and "mkdir_parents (d @ c) r fs = (Inr u, t)"
  shows "calm t d \<and> adds_folders d fs t"
  using assms
proof (induction r arbitrary: c fs)
  case (Cons x r)
  let ?p = "d @ c @ [x]"
  from Cons.prems(3) obtain v s where
    first: "(if is_dir fs ?p then ret () else mkdir ?p 493) fs = (Inr v, s)"
    and others: "mkdir_parents (d @ c @ [x]) r s = (Inr u, t)"
    by (simp only: mkdir_parents.simps then_act_Inr_iff with_state_app append_assoc) blast
  have "calm s d \<and> adds_folders d fs s"
    using first Cons.prems(1,2) mkdir_step [of fs d "c @ [x]" 493 v s]
    by (auto simp: dotless_def act_returns split: if_splits)
  with Cons.IH [of s "c @ [x]"] others Cons.prems(2) show ?case
    by (auto intro: adds_folders_trans)
qed (simp add: act_returns)

lemma make_dirs_Inr:
  assumes "calm fs d" and "''..'' \<notin> set r" and "make_dirs (d @ r) mode fs = (Inr u, t)"
  shows "calm t d \<and> adds_folders d fs t"
proof -
  from assms(3) obtain v s where s: "mkdir_parents [] (butlast (d @ r)) fs = (Inr v, s)"
    and t: "(if is_dir s (d @ r) then ret () else mkdir (d @ r) mode) s = (Inr u, t)"
    by (auto simp: make_dirs_def act_returns)
  have real: "real_folder fs d" using assms(1) calm_def by blast
  have 1: "calm s d \<and> adds_folders d fs s"
  proof (cases "r = []")
    case True
    have "mkdir_parents [] (butlast d) fs = mkdir_parents (butlast d) [] fs"
      using mkdir_parents_real [OF real_folder_take [OF real, of "length d - 1"], of 0 "[]"]
      by (simp add: butlast_conv_take)
    with s True assms(1) show ?thesis by (simp add: act_returns)
  next
    case False
    then have "mkdir_parents d (butlast r) fs = (Inr v, s)"
      using s mkdir_parents_real [OF real, of 0 "butlast r"] by (simp add: butlast_append)
    then show ?thesis
      using mkdir_parents_Inr [of fs d "[]" "butlast r" v s] assms(1,2) by (auto dest: in_set_butlastD)
  qed
  have "calm t d \<and> adds_folders d s t"
  proof (cases "r = []")
    case True
    then show ?thesis using t 1 real_is_dir [of s d] by (auto simp: calm_def act_returns)
  next
    case False
    then show ?thesis
      using t 1 assms(2) mkdir_step [of s d r mode u t] by (auto simp: dotless_def act_returns split: if_splits)
  qed
  with 1 show ?thesis using adds_folders_trans by blast
qed

lemma node_at_chmod_beneath:
  "p \<noteq> [] \<Longrightarrow> node_at (chmod_beneath d f fs) p = map_option (\<lambda>n. if beneath d p then f n else n) (node_at fs p)"
  by (induction fs) (auto simp: node_at_def chmod_beneath_def)

lemma node_at_chmod_outside: "\<not> beneath d p \<Longrightarrow> node_at (chmod_beneath d f fs) p = node_at fs p"
  by (cases "p = []") (simp_all add: node_at_chmod_beneath option.map_ident, simp add: node_at_def)

lemma beneath_extend: "beneath (d @ r) p \<Longrightarrow> beneath d p"
  by (auto simp: beneath_def)

end
