(* ===== verification/Transport.thy ===== *)
theory Transport
  imports Files Manifest PatchApply Store
begin

text \<open>
  \<open>executor/transport.py\<close>: the typed request and result of a recipe, the directories through which
  they reach the disposable container and return, and the verification of what comes back. The
  JSON text of a request and the reader of a result's JSON text (both Pydantic's) are parameters.
\<close>

section \<open>Requests and results\<close>

record recipe_execution_request =
  xr_run_id :: string
  xr_source_sha :: string
  xr_manifest_version :: string
  xr_recipe_name :: string
  xr_adapter :: recipe_adapter
  xr_arguments :: "(string \<times> json) list"
  xr_image_digest :: string
  xr_timeout_seconds :: int
  xr_expected_output_artifacts :: "string list"

definition validate_execution_request :: "recipe_execution_request \<Rightarrow> recipe_execution_request res" where
  "validate_execution_request q = bind_res
    (checks
      [(len_between 1 255 (xr_run_id q), ''field''),
       (len_between 40 64 (xr_source_sha q), ''field''),
       (immutable_sha (xr_source_sha q), ''recipe request requires an immutable lowercase SHA''),
       (len_between 1 100 (xr_manifest_version q), ''field''),
       (len_between 1 100 (xr_recipe_name q), ''field''),
       (len_between 72 500 (xr_image_digest q), ''field''),
       (0 < xr_timeout_seconds q \<and> xr_timeout_seconds q \<le> 3600, ''field''),
       (list_all (\<lambda>item. item \<noteq> [] \<and> safe_path item) (xr_expected_output_artifacts q),
        ''recipe artifacts must be relative output paths'')])
    (\<lambda>_. Inr q)"

record recipe_output_artifact =
  oa_path :: string
  oa_size_bytes :: int
  oa_content_hash :: string

record recipe_execution_result =
  xs_run_id :: string
  xs_source_sha :: string
  xs_manifest_version :: string
  xs_recipe_name :: string
  xs_adapter :: string
  xs_image_digest :: string
  xs_started_at :: time
  xs_finished_at :: time
  xs_exit_code :: int
  xs_stdout_hash :: string
  xs_stderr_hash :: string
  xs_stdout_excerpt :: string
  xs_stderr_excerpt :: string
  xs_redacted :: bool
  xs_artifacts :: "recipe_output_artifact list"

definition validate_execution_result :: "recipe_execution_result \<Rightarrow> recipe_execution_result res" where
  "validate_execution_result r = bind_res
    (checks
      [(length (xs_stdout_hash r) = 64, ''field''),
       (length (xs_stderr_hash r) = 64, ''field''),
       (length (xs_stdout_excerpt r) \<le> 8000, ''field''),
       (length (xs_stderr_excerpt r) \<le> 8000, ''field''),
       (list_all (\<lambda>a. 0 \<le> oa_size_bytes a \<and> length (oa_content_hash a) = 64) (xs_artifacts r), ''field'')])
    (\<lambda>_. Inr r)"

definition same_identity :: "recipe_execution_result \<Rightarrow> recipe_execution_request \<Rightarrow> bool" where
  "same_identity r q \<longleftrightarrow>
     (xs_run_id r, xs_source_sha r, xs_manifest_version r, xs_recipe_name r, xs_adapter r, xs_image_digest r) =
     (xr_run_id q, xr_source_sha q, xr_manifest_version q, xr_recipe_name q,
      adapter_value (xr_adapter q), xr_image_digest q)"

definition verify_identity :: "recipe_execution_result \<Rightarrow> recipe_execution_request \<Rightarrow> unit res" where
  "verify_identity r q =
    (if \<not> same_identity r q
     then Inl (ValueError ''executor result identity does not match its request'')
     else require (xs_started_at r \<le> xs_finished_at r) (ValueError ''executor result timestamps are invalid''))"

section \<open>The transport directories\<close>

record prepared_transport =
  pt_run_root :: path
  pt_host_run_root :: path
  pt_source_directory :: path
  pt_input_directory :: path
  pt_workspace_directory :: path
  pt_output_directory :: path
  pt_request_path :: path
  pt_result_path :: path

definition host_path :: "prepared_transport \<Rightarrow> path \<Rightarrow> path res" where
  "host_path p d =
    (if take (length (pt_run_root p)) d = pt_run_root p
     then Inr (pt_host_run_root p @ drop (length (pt_run_root p)) d)
     else Inl (ValueError ''is not in the subpath''))"

record executor_transport =
  tp_root :: path
  tp_host_root :: path

definition executor_transport :: "files \<Rightarrow> path \<Rightarrow> path option \<Rightarrow> executor_transport res" where
  "executor_transport fs base host_root =
    bind_res (resolve fs base) (\<lambda>r.
    bind_res (resolve fs (case host_root of None \<Rightarrow> base | Some h \<Rightarrow> h)) (\<lambda>h.
      Inr \<lparr>tp_root = r, tp_host_root = h\<rparr>))"

text \<open>
  A relative path below a directory, which no link on the way may leave; the adapter has the same
  function with messages of its own.
\<close>

definition safe_below :: "string \<Rightarrow> string \<Rightarrow> files \<Rightarrow> path \<Rightarrow> string \<Rightarrow> path res" where
  "safe_below unsafe escaped fs base relative =
    (if \<not> safe_path relative then Inl (ValueError unsafe)
     else let destination = base @ path_parts relative in
       bind_res (resolve fs (butlast destination)) (\<lambda>resolved_parent.
       bind_res (resolve fs base) (\<lambda>real_root.
         if real_root = resolved_parent \<or> beneath real_root resolved_parent
         then Inr destination else Inl (ValueError escaped))))"

definition safe_destination :: "files \<Rightarrow> path \<Rightarrow> string \<Rightarrow> path res" where
  "safe_destination =
     safe_below ''executor transport path must be relative'' ''executor transport path escaped its root''"

definition run_key :: "recipe_execution_request \<Rightarrow> string" where
  "run_key q = take 24 (sha256_hex (utf8 (xr_run_id q @ '':'' @ xr_recipe_name q)))"

definition write_source_file :: "path \<Rightarrow> string \<times> string \<Rightarrow> (files, unit) act" where
  "write_source_file source item = (case item of (relative, content) \<Rightarrow>
     with_state (\<lambda>fs. bind_act (of_res (safe_destination fs source relative)) (\<lambda>destination.
       then_act (make_dirs (butlast destination) 448)
      (then_act (write_bytes destination (utf8 content))
      (chmod destination 256)))))"

definition lock_folder :: "node \<Rightarrow> node" where
  "lock_folder n = (case n of Folder _ \<Rightarrow> Folder 320 | _ \<Rightarrow> n)"

definition prepared :: "executor_transport \<Rightarrow> recipe_execution_request \<Rightarrow> prepared_transport" where
  "prepared t q = (let run_root = tp_root t @ [run_key q] in
     \<lparr>pt_run_root = run_root, pt_host_run_root = tp_host_root t @ [run_key q],
      pt_source_directory = run_root @ [''source''], pt_input_directory = run_root @ [''input''],
      pt_workspace_directory = run_root @ [''workspace''], pt_output_directory = run_root @ [''output''],
      pt_request_path = run_root @ [''input'', ''request.json''],
      pt_result_path = run_root @ [''output'', ''result.json'']\<rparr>)"

definition make_run_root :: "path \<Rightarrow> (files, unit) act" where
  "make_run_root run_root = then_act (mkdir_parents [] (butlast run_root)) (mkdir run_root 448)"

definition prepare ::
  "(recipe_execution_request \<Rightarrow> string) \<Rightarrow> executor_transport \<Rightarrow> snapshot \<Rightarrow> recipe_execution_request \<Rightarrow>
   (files, prepared_transport) act" where
  "prepare dump t snap q =
    (if sn_pinned_sha snap \<noteq> xr_source_sha q
     then throw (ValueError ''executor snapshot does not match the recipe request SHA'')
     else let p = prepared t q in
       then_act (make_run_root (pt_run_root p))
      (then_act (for_each (\<lambda>d. mkdir d 448)
         [pt_source_directory p, pt_input_directory p, pt_workspace_directory p, pt_output_directory p])
      (then_act (for_each (write_source_file (pt_source_directory p)) (sn_files snap))
      (then_act (modify (chmod_beneath (pt_source_directory p) lock_folder))
      (then_act (chmod (pt_source_directory p) 320)
      (then_act (write_bytes (pt_request_path p) (utf8 (dump q @ [LF])))
      (then_act (chmod (pt_request_path p) 256)
      (then_act (chmod (pt_input_directory p) 320)
      (ret p)))))))))"

section \<open>Verifying what comes back\<close>

definition check_artifact :: "path \<Rightarrow> recipe_output_artifact \<Rightarrow> (files, unit) act" where
  "check_artifact output a = with_state (\<lambda>fs.
     bind_act (of_res (safe_destination fs output (oa_path a))) (\<lambda>p.
       if \<not> is_file fs p \<or> is_symlink fs p
       then throw (ValueError ''executor artifact path is invalid'')
       else bind_act (read_bytes p) (\<lambda>content.
         if int (length content) \<noteq> oa_size_bytes a
         then throw (ValueError ''executor artifact size does not match its result'')
         else if sha256_hex content \<noteq> oa_content_hash a
         then throw (ValueError ''executor artifact hash does not match its result'')
         else ret ())))"

definition decode_text :: "bytes \<Rightarrow> string res" where
  "decode_text b = (case utf8_decode b of
     Decoded s \<Rightarrow> Inr s
   | Not_Utf8 \<Rightarrow> Inl (ValueError ''invalid utf-8'')
   | Beyond_Alphabet \<Rightarrow> Inl (OtherError ''Unmodelled'' ''code point above 255''))"

definition load_result ::
  "(string \<Rightarrow> recipe_execution_result res) \<Rightarrow> prepared_transport \<Rightarrow> recipe_execution_request \<Rightarrow>
   (files, recipe_execution_result) act" where
  "load_result parse p q = with_state (\<lambda>fs.
     if \<not> is_file fs (pt_result_path p) \<or> is_symlink fs (pt_result_path p)
     then throw (ValueError ''executor did not produce its typed result'')
     else bind_act (read_bytes (pt_result_path p)) (\<lambda>content.
       if 1000000 < length content
       then throw (ValueError ''executor result exceeds the size limit'')
       else bind_act (of_res (bind_res (decode_text content) (\<lambda>t. bind_res (parse t) validate_execution_result)))
        (\<lambda>r. then_act (of_res (verify_identity r q))
          (if \<not> set (xr_expected_output_artifacts q) \<subseteq> set (map oa_path (xs_artifacts r))
           then throw (ValueError ''executor result is missing an expected artifact'')
           else then_act (for_each (check_artifact (pt_output_directory p)) (xs_artifacts r)) (ret r)))))"

text \<open>The JSON text that is hashed, with sorted keys and compact separators, is a parameter.\<close>

definition stable_result_hash :: "(recipe_execution_result \<Rightarrow> string) \<Rightarrow> recipe_execution_result \<Rightarrow> string" where
  "stable_result_hash canonical r = sha256_hex (utf8 (canonical r))"

definition restricted_executor_environment :: "string option \<Rightarrow> path option \<Rightarrow> (string \<times> string) list" where
  "restricted_executor_environment path_variable workspace =
     [(''HOME'', ''/tmp''),
      (''PATH'', case path_variable of None \<Rightarrow> ''/usr/local/bin:/usr/bin:/bin'' | Some p \<Rightarrow> p),
      (''PYTHONNOUSERSITE'', ''1'')] @
     (case workspace of None \<Rightarrow> []
      | Some w \<Rightarrow> [(''PYTHONPATH'', concat (map (\<lambda>c. CHR ''/'' # c) (w @ [''src''])))])"

section \<open>What an accepted result has been checked for\<close>

lemma safe_below_Inr:
  assumes "safe_below unsafe escaped fs base relative = Inr p"
  shows "p = base @ path_parts relative \<and> safe_path relative \<and>
     (\<exists>e real. resolve fs (butlast p) = Inr e \<and> resolve fs base = Inr real \<and> (e = real \<or> beneath real e))"
  using assms unfolding safe_below_def Let_def
  by (simp only: bind_res_Inr_iff split: if_splits) blast+

lemma for_each_checks:
  assumes "for_each f xs fs = (Inr u, t)" and "\<And>x v t'. f x fs = (Inr v, t') \<Longrightarrow> t' = fs \<and> P x"
  shows "t = fs \<and> (\<forall>x \<in> set xs. P x)"
  using assms by (induction xs) (auto simp: act_returns)

text \<open>
  The path of an artifact, below the output directory, leads to a regular file, itself no link, inside the
  real output directory, and that file has the size and the hash of the artifact.
\<close>

definition verified_artifact :: "files \<Rightarrow> path \<Rightarrow> recipe_output_artifact \<Rightarrow> bool" where
  "verified_artifact fs output a \<longleftrightarrow> (\<exists>real q content mode. resolve fs output = Inr real \<and>
     safe_path (oa_path a) \<and> \<not> is_symlink fs (output @ path_parts (oa_path a)) \<and>
     reach fs (output @ path_parts (oa_path a)) = Some q \<and> beneath real q \<and> node_at fs q = Some (Regular content mode) \<and> int (length content) = oa_size_bytes a \<and>
     sha256_hex content = oa_content_hash a)"

lemma beneath_snoc: "e = d \<or> beneath d e \<Longrightarrow> beneath d (e @ [x])"
  unfolding beneath_def by (metis append_assoc snoc_eq_iff_butlast)

lemma last_path_parts: "safe_path r \<Longrightarrow> path_parts r \<noteq> [] \<Longrightarrow> last (path_parts r) \<noteq> ''..''"
  using last_in_set [of "path_parts r"] by (metis safe_path_def)

lemma check_artifact_Inr:
  assumes "check_artifact (d @ [''output'']) a fs = (Inr u, t)"
  shows "t = fs \<and> verified_artifact fs (d @ [''output'']) a"
proof -
  let ?out = "d @ [''output'']"
  from assms obtain p q content mode where p: "safe_destination fs ?out (oa_path a) = Inr p"
    and plain: "\<not> is_symlink fs p" and q: "reach fs p = Some q" "node_at fs q = Some (Regular content mode)"
    and sums: "int (length content) = oa_size_bytes a" "sha256_hex content = oa_content_hash a" and t: "t = fs"
    unfolding check_artifact_def with_state_app act_returns
    by (simp only: act_returns read_bytes_Inr split: if_splits) blast
  from safe_below_Inr [OF p [unfolded safe_destination_def]]
  obtain e real where parts: "p = ?out @ path_parts (oa_path a)" "safe_path (oa_path a)"
    and e: "resolve fs (butlast p) = Inr e" "resolve fs ?out = Inr real" "e = real \<or> beneath real e" by blast
  have "last p \<noteq> ''..''" and "p \<noteq> []"
    using parts last_path_parts by (auto simp: last_append)
  then have "q = e @ [last p]"
    using reach_last [of fs "butlast p" "last p" q] q(1) plain e(1) by simp
  with beneath_snoc [OF e(3)] have "beneath real q" by simp
  with e(2) q sums t plain parts show ?thesis by (auto simp: verified_artifact_def)
qed

lemma load_result_Inr:
  assumes "load_result parse (prepared tr q) q fs = (Inr r, t)"
  shows "t = fs \<and> validate_execution_result r = Inr r \<and> verify_identity r q = Inr () \<and>
     set (xr_expected_output_artifacts q) \<subseteq> set (map oa_path (xs_artifacts r)) \<and>
     (\<forall>a \<in> set (xs_artifacts r). verified_artifact fs (pt_output_directory (prepared tr q)) a)"
proof -
  let ?p = "prepared tr q"
  have out: "pt_output_directory ?p = (tp_root tr @ [run_key q]) @ [''output'']"
    by (simp add: prepared_def Let_def)
  from assms obtain c r0 u where r: "validate_execution_result r0 = Inr r" "verify_identity r q = Inr ()"
      "set (xr_expected_output_artifacts q) \<subseteq> set (map oa_path (xs_artifacts r))"
    and each: "for_each (check_artifact (pt_output_directory ?p)) (xs_artifacts r) fs = (Inr u, t)"
    by (auto simp: load_result_def act_returns read_bytes_Inr bind_res_Inr_iff split: if_splits)
  from for_each_checks [OF each, of "verified_artifact fs (pt_output_directory ?p)"]
  have "t = fs \<and> (\<forall>a \<in> set (xs_artifacts r). verified_artifact fs (pt_output_directory ?p) a)"
    unfolding out using check_artifact_Inr by blast
  with r show ?thesis by (auto simp: validate_execution_result_def bind_res_Inr_iff)
qed

section \<open>What the transport writes\<close>

text \<open>The regular files of a folder, as a relation of paths, contents and bits.\<close>

definition holds_exactly :: "files \<Rightarrow> path \<Rightarrow> (string \<times> string) list \<Rightarrow> bool" where
  "holds_exactly fs source items \<longleftrightarrow> (\<forall>p c m. beneath source p \<longrightarrow>
     (node_at fs p = Some (Regular c m) \<longleftrightarrow>
      m = 256 \<and> (\<exists>(relative, content) \<in> set items. p = source @ path_parts relative \<and> c = utf8 content)))"

definition same_outside :: "path \<Rightarrow> files \<Rightarrow> files \<Rightarrow> bool" where
  "same_outside d fs t \<longleftrightarrow> (\<forall>p. p \<noteq> d \<longrightarrow> \<not> beneath d p \<longrightarrow> node_at t p = node_at fs p)"

lemma for_each_done:
  assumes "for_each f xs s = (Inr u, t)" and "I [] s"
    and "\<And>d x s v t. I d s \<Longrightarrow> x \<in> set xs \<Longrightarrow> f x s = (Inr v, t) \<Longrightarrow> I (d @ [x]) t"
  shows "I xs t"
proof -
  have "for_each f ys s = (Inr u, t) \<Longrightarrow> I d s \<Longrightarrow> set ys \<subseteq> set xs \<Longrightarrow> I (d @ ys) t" for ys d s
  proof (induction ys arbitrary: d s)
    case (Cons y ys)
    then obtain v s' where "f y s = (Inr v, s')" "for_each f ys s' = (Inr u, t)"
      by (auto simp: act_returns)
    with Cons assms(3) [of d s y v s'] show ?case
      using Cons.IH [of s' "d @ [y]"] by simp
  qed (simp add: act_returns)
  from this [of xs s "[]"] assms(1,2) show ?thesis by simp
qed

lemma same_outside_folders: "adds_folders d fs t \<Longrightarrow> same_outside d fs t"
  by (auto simp: adds_folders_def same_outside_def)

lemma same_outside_put: "r \<noteq> [] \<Longrightarrow> same_outside d fs (put_node (d @ r) n fs)"
  by (auto simp: same_outside_def)

lemma same_outside_trans: "same_outside d fs s \<Longrightarrow> same_outside d s t \<Longrightarrow> same_outside d fs t"
  by (simp add: same_outside_def)

lemma holds_exactly_cong:
  assumes "\<And>p c m. beneath source p \<Longrightarrow> node_at t p = Some (Regular c m) \<longleftrightarrow> node_at fs p = Some (Regular c m)"
  shows "holds_exactly t source items = holds_exactly fs source items"
  unfolding holds_exactly_def by (intro iff_allI imp_cong refl) (simp only: assms)

lemma holds_exactly_folders:
  assumes "adds_folders d fs t" and "holds_exactly fs source items"
  shows "holds_exactly t source items"
proof -
  have "node_at t p = Some (Regular c m) \<longleftrightarrow> node_at fs p = Some (Regular c m)" for p c m
    using assms(1) [unfolded adds_folders_def, rule_format, of p] by auto
  with assms(2) holds_exactly_cong [of source t fs] show ?thesis by blast
qed

lemma not_writable: "\<not> writable 256"
  by (simp add: writable_def)

lemma holds_exactly_put:
  assumes old: "holds_exactly fs source items" and "path_parts name \<noteq> []"
    and fresh: "\<forall>c. node_at fs (source @ path_parts name) \<noteq> Some (Regular c 256)"
  shows "holds_exactly (put_node (source @ path_parts name) (Regular (utf8 content) 256) fs) source
     (items @ [(name, content)])"
  unfolding holds_exactly_def
proof (intro allI impI)
  fix p c m
  let ?p = "source @ path_parts name"
  assume p: "beneath source p"
  with old have was: "node_at fs p = Some (Regular c m) \<longleftrightarrow>
      m = 256 \<and> (\<exists>(n, k) \<in> set items. p = source @ path_parts n \<and> c = utf8 k)"
    by (simp add: holds_exactly_def)
  have "?p \<noteq> []" using assms(2) by simp
  moreover have "\<not> (\<exists>(n, k) \<in> set items. ?p = source @ path_parts n \<and> c = utf8 k)" if "m = 256" "p = ?p"
    using was that fresh by simp
  ultimately show "node_at (put_node ?p (Regular (utf8 content) 256) fs) p = Some (Regular c m) \<longleftrightarrow>
      m = 256 \<and> (\<exists>(n, k) \<in> set (items @ [(name, content)]). p = source @ path_parts n \<and> c = utf8 k)"
    using was by (cases "p = ?p") auto
qed

lemma write_source_file_Inr:
  assumes "calm fs d" and "holds_exactly fs (d @ [''source'']) items"
    and "write_source_file (d @ [''source'']) (name, content) fs = (Inr u, t)"
  shows "calm t d \<and> same_outside d fs t \<and> holds_exactly t (d @ [''source'']) (items @ [(name, content)])"
proof -
  let ?src = "d @ [''source'']" and ?rel = "path_parts name"
  from assms(3) obtain p v s w s' where p: "safe_destination fs ?src name = Inr p"
    and s: "make_dirs (butlast p) 448 fs = (Inr v, s)"
    and w: "write_bytes p (utf8 content) s = (Inr w, s')" and ch: "chmod p 256 s' = (Inr u, t)"
    by (simp only: write_source_file_def prod.case with_state_app act_returns) blast
  from safe_below_Inr [OF p [unfolded safe_destination_def]]
  have parts: "p = ?src @ ?rel" "safe_path name"
    and inside: "resolve fs (butlast p) = Inr ?src \<or> (\<exists>e. resolve fs (butlast p) = Inr e \<and> beneath ?src e)"
    using resolve_linkless [of fs d "[''source'']"] assms(1) by (auto simp: calm_def)
  have rel: "?rel \<noteq> []"
    using inside resolve_linkless [of fs d "[]"] assms(1) by (auto simp: parts calm_def beneath_def)
  have dots: "''..'' \<notin> set (''source'' # ?rel)" "''..'' \<notin> set (''source'' # butlast ?rel)"
    using parts(2) by (auto simp: safe_path_def dest: in_set_butlastD)
  have 1: "calm s d" "adds_folders d fs s"
    using make_dirs_Inr [of fs d "''source'' # butlast ?rel" 448 v s] s assms(1) rel dots
    by (simp_all add: parts(1) butlast_append)
  have dotless: "dotless (''source'' # ?rel)" using dots by (simp add: dotless_def)
  have held: "holds_exactly s ?src items"
    using holds_exactly_folders [OF 1(2) assms(2)] .
  from w have "write_bytes (d @ ''source'' # ?rel) (utf8 content) s = (Inr w, s')" by (simp add: parts(1))
  from write_bytes_Inr [OF 1(1) dotless this] obtain mode
    where s': "s' = put_node (?src @ ?rel) (Regular (utf8 content) mode) s"
      and fresh: "node_at s (?src @ ?rel) = None \<and> mode = 420 \<or>
         (\<exists>old. node_at s (?src @ ?rel) = Some (Regular old mode) \<and> writable mode)"
    by (metis append.assoc append_Cons append_Nil)
  have "calm s' d" using calm_put [OF 1(1), of "''source'' # ?rel"] by (simp add: s')
  from chmod_Inr [OF this dotless] ch
  have t: "t = put_node (?src @ ?rel) (Regular (utf8 content) 256) s'"
    by (force simp: parts(1) s' with_mode_def)
  have "put_node (?src @ ?rel) (Regular (utf8 content) 256) s' = put_node (?src @ ?rel) (Regular (utf8 content) 256) s"
    by (simp add: s' put_node_def)
  moreover have "\<forall>c. node_at s (?src @ ?rel) \<noteq> Some (Regular c 256)"
    using fresh not_writable by auto
  ultimately have "holds_exactly t ?src (items @ [(name, content)])"
    using holds_exactly_put [OF held rel] by (simp add: t)
  moreover have "calm t d" "same_outside d s' t" "same_outside d s s'"
    using calm_put [OF \<open>calm s' d\<close>, of "''source'' # ?rel"] same_outside_put [of "''source'' # ?rel" d]
    by (simp_all add: t s')
  ultimately show ?thesis
    using same_outside_folders [OF 1(2)] same_outside_trans by blast
qed

lemma tree_ok_absent:
  assumes "tree_ok fs" and "node_at fs d = None"
  shows "node_at fs (d @ r) = None"
proof (induction r rule: rev_induct)
  case (snoc x r)
  then have "\<not> is_folder_node (node_at fs (butlast (d @ r @ [x])))" by (simp add: butlast_append)
  then show ?case
    using assms(1) unfolding tree_ok_def by (metis append_is_Nil_conv not_Cons_self2)
qed (simp add: assms(2))

lemma run_key_dotless: "run_key q \<noteq> ''..''"
proof -
  have "length (run_key q) = 24" by (simp add: run_key_def)
  then show ?thesis by auto
qed

lemma make_run_root_Inr:
  assumes "tree_ok fs" and "real_folder fs d" and "x \<noteq> ''..''" and "make_run_root (d @ [x]) fs = (Inr u, t)"
  shows "node_at fs (d @ [x]) = None" and "t = put_node (d @ [x]) (Folder 448) fs" and "calm t (d @ [x])"
    and "\<forall>p. beneath (d @ [x]) p \<longrightarrow> node_at t p = None"
proof -
  let ?p = "d @ [x]"
  have folder: "is_folder_node (node_at fs d)" using assms(2) by (force simp: real_folder_def)
  from assms(4) have "mkdir ?p 448 fs = (Inr u, t)"
    using mkdir_parents_real [OF assms(2), of 0 "[]"] by (auto simp: make_run_root_def act_returns)
  moreover have "entry fs ?p = Some ?p"
    using folder reach_real [OF assms(2)] by (simp add: entry_def)
  ultimately show new: "node_at fs ?p = None" and t: "t = put_node ?p (Folder 448) fs"
    by (auto simp: mkdir_def act_returns split: if_splits)
  from tree_ok_absent [OF assms(1) new] show none: "\<forall>p. beneath ?p p \<longrightarrow> node_at t p = None"
    by (auto simp: t beneath_def)
  have "is_folder_node (node_at t (take i ?p))" if "i \<le> length ?p" for i
    using assms(2) that by (cases "i = length ?p") (auto simp: t real_folder_def)
  then have "real_folder t ?p" using assms(2,3) by (auto simp: real_folder_def)
  with none show "calm t ?p" by (auto simp: calm_def linkless_def)
qed

lemma calm_chmod_beneath:
  assumes "calm fs d" and "r \<noteq> []" and "\<And>n. is_link_node (Some (f n)) = is_link_node (Some n)"
  shows "calm (chmod_beneath (d @ r) f fs) d"
proof -
  have below: "\<not> beneath (d @ r) (take i d)" for i
    using assms(2) by (auto simp: beneath_def)
  have "node_at (chmod_beneath (d @ r) f fs) (take i d) = node_at fs (take i d)" for i
    by (rule node_at_chmod_outside [OF below])
  moreover have "is_link_node (node_at (chmod_beneath (d @ r) f fs) p) = is_link_node (node_at fs p)" if "p \<noteq> []" for p
    using assms(3) that by (cases "node_at fs p") (auto simp: node_at_chmod_beneath)
  ultimately show ?thesis
    using assms(1) by (auto simp: calm_def real_folder_def linkless_def beneath_def)
qed

lemma same_outside_chmod_beneath: "same_outside d fs (chmod_beneath (d @ r) f fs)"
  using node_at_chmod_outside beneath_extend by (metis same_outside_def)

lemma holds_exactly_chmod_beneath:
  "holds_exactly (chmod_beneath d lock_folder fs) source items = holds_exactly fs source items"
proof (rule holds_exactly_cong)
  fix p c m assume "beneath source p"
  then have "p \<noteq> []" by (auto simp: beneath_def)
  then show "node_at (chmod_beneath d lock_folder fs) p = Some (Regular c m) \<longleftrightarrow> node_at fs p = Some (Regular c m)"
    by (cases "node_at fs p") (auto simp: node_at_chmod_beneath lock_folder_def split: node.splits)
qed

lemma holds_exactly_put_other:
  "p \<noteq> [] \<Longrightarrow> \<not> beneath source p \<Longrightarrow> holds_exactly (put_node p n fs) source items = holds_exactly fs source items"
  by (rule holds_exactly_cong) auto

lemma mkdirs_Inr:
  assumes "calm fs d" and "for_each (\<lambda>p. mkdir p 448) (map (\<lambda>n. d @ [n]) names) fs = (Inr u, t)" and "''..'' \<notin> set names"
  shows "calm t d \<and> adds_folders d fs t"
proof -
  have "(\<lambda>_ s. calm s d \<and> adds_folders d fs s) (map (\<lambda>n. d @ [n]) names) t"
  proof (rule for_each_done [OF assms(2)])
    fix ds p s v s'
    assume I: "calm s d \<and> adds_folders d fs s" and "p \<in> set (map (\<lambda>n. d @ [n]) names)"
      and m: "mkdir p 448 s = (Inr v, s')"
    then obtain n where n: "p = d @ [n]" "n \<in> set names" by auto
    with assms(3) have "dotless [n]" by (auto simp: dotless_def)
    with mkdir_step [of s d "[n]"] I m n(1) adds_folders_trans show "calm s' d \<and> adds_folders d fs s'" by blast
  qed (simp add: assms(1))
  then show ?thesis by simp
qed

lemma write_source_files_Inr:
  assumes "calm fs d" and "holds_exactly fs (d @ [''source'']) []"
    and "for_each (write_source_file (d @ [''source''])) items fs = (Inr u, t)"
  shows "calm t d \<and> same_outside d fs t \<and> holds_exactly t (d @ [''source'']) items"
proof (rule for_each_done [OF assms(3), where I = "\<lambda>ds s. calm s d \<and> same_outside d fs s \<and>
    holds_exactly s (d @ [''source'']) ds"])
  show "calm fs d \<and> same_outside d fs fs \<and> holds_exactly fs (d @ [''source'']) []"
    using assms(1,2) by (simp add: same_outside_def)
next
  fix ds item s v s'
  assume I: "calm s d \<and> same_outside d fs s \<and> holds_exactly s (d @ [''source'']) ds"
    and "write_source_file (d @ [''source'']) item s = (Inr v, s')"
  then show "calm s' d \<and> same_outside d fs s' \<and> holds_exactly s' (d @ [''source'']) (ds @ [item])"
    using write_source_file_Inr [of s d ds "fst item" "snd item" v s'] same_outside_trans by auto
qed

lemma lock_folder_link: "is_link_node (Some (lock_folder n)) = is_link_node (Some n)"
  by (simp add: lock_folder_def split: node.splits)

lemma chmod_node:
  assumes "calm fs d" and "dotless r" and "chmod (d @ r) mode fs = (Inr u, t)"
  shows "node_at t p = (if p = d @ r then map_option (with_mode mode) (node_at fs p) else node_at fs p)"
  using chmod_Inr [OF assms] assms(2) by (force simp: dotless_def)

text \<open>A change of the bits or the content of one entry that is not a source file.\<close>

lemma touched:
  assumes "calm fs d" and "dotless r" and "\<not> beneath (d @ [''source'']) (d @ r)" and "\<not> is_link_node (Some n)"
  shows "calm (put_node (d @ r) n fs) d" and "same_outside d fs (put_node (d @ r) n fs)"
    and "holds_exactly (put_node (d @ r) n fs) (d @ [''source'']) items = holds_exactly fs (d @ [''source'']) items"
  using assms by (auto simp: calm_put dotless_def same_outside_put holds_exactly_put_other)

lemma touched_chmod:
  assumes "calm fs d" and "dotless r" and "\<not> beneath (d @ [''source'']) (d @ r)"
    and "chmod (d @ r) mode fs = (Inr u, t)"
  shows "calm t d \<and> same_outside d fs t \<and>
     holds_exactly t (d @ [''source'']) items = holds_exactly fs (d @ [''source'']) items"
proof -
  from chmod_Inr [OF assms(1,2,4)] obtain n where n: "node_at fs (d @ r) = Some n"
    and t: "t = put_node (d @ r) (with_mode mode n) fs" .
  then have "\<not> is_link_node (Some (with_mode mode n))"
    using assms(1,2) unfolding with_mode_link by (metis beneath_append calm_def dotless_def linkless_def)
  from touched [OF assms(1-3) this] t show ?thesis by simp
qed

lemma touched_write:
  assumes "calm fs d" and "dotless r" and "\<not> beneath (d @ [''source'']) (d @ r)"
    and "write_bytes (d @ r) content fs = (Inr u, t)"
  shows "calm t d \<and> same_outside d fs t \<and> (\<exists>mode. node_at t (d @ r) = Some (Regular content mode)) \<and>
     holds_exactly t (d @ [''source'']) items = holds_exactly fs (d @ [''source'']) items"
proof -
  from write_bytes_Inr [OF assms(1,2,4)] obtain mode where t: "t = put_node (d @ r) (Regular content mode) fs" .
  with touched [OF assms(1-3), of "Regular content mode"] assms(2) show ?thesis by (auto simp: dotless_def)
qed

lemma prepare_Inr:
  assumes "tree_ok fs" and "real_folder fs (tp_root tr)" and "prepare dump tr snap q fs = (Inr p, t)"
  shows "p = prepared tr q \<and> sn_pinned_sha snap = xr_source_sha q \<and>
     node_at fs (pt_run_root p) = None \<and> calm t (pt_run_root p) \<and> same_outside (pt_run_root p) fs t \<and>
     holds_exactly t (pt_source_directory p) (sn_files snap) \<and>
     (\<exists>mode. node_at t (pt_request_path p) = Some (Regular (utf8 (dump q @ [LF])) mode))"
proof -
  let ?d = "tp_root tr @ [run_key q]"
  let ?src = "?d @ [''source'']"
  have dirs: "[?src, ?d @ [''input''], ?d @ [''workspace''], ?d @ [''output'']] =
      map (\<lambda>n. ?d @ [n]) [''source'', ''input'', ''workspace'', ''output'']" by simp
  from assms(3) obtain u1 s1 u2 s2 u3 s3 u5 s5 u6 s6 u7 s7 u8 where sha: "sn_pinned_sha snap = xr_source_sha q"
    and 1: "make_run_root ?d fs = (Inr u1, s1)"
    and 2: "for_each (\<lambda>p. mkdir p 448) [?src, ?d @ [''input''], ?d @ [''workspace''], ?d @ [''output'']] s1 = (Inr u2, s2)"
    and 3: "for_each (write_source_file ?src) (sn_files snap) s2 = (Inr u3, s3)"
    and 5: "chmod ?src 320 (chmod_beneath ?src lock_folder s3) = (Inr u5, s5)"
    and 6: "write_bytes (?d @ [''input'', ''request.json'']) (utf8 (dump q @ [LF])) s5 = (Inr u6, s6)"
    and 7: "chmod (?d @ [''input'', ''request.json'']) 256 s6 = (Inr u7, s7)"
    and 8: "chmod (?d @ [''input'']) 320 s7 = (Inr u8, t)" and p: "p = prepared tr q"
    by (auto simp: prepare_def prepared_def Let_def act_returns simp del: for_each.simps split: if_splits)
  note new = make_run_root_Inr [OF assms(1,2) run_key_dotless 1]
  have dirs_made: "calm s2 ?d" "adds_folders ?d s1 s2"
    using mkdirs_Inr [OF new(3) 2 [unfolded dirs]] by simp_all
  have "holds_exactly s1 ?src []"
    using new(4) beneath_extend [of ?d "[''source'']"] unfolding holds_exactly_def by fastforce
  from holds_exactly_folders [OF dirs_made(2) this] write_source_files_Inr [OF dirs_made(1) _ 3]
  have files: "calm s3 ?d" "same_outside ?d s2 s3" "holds_exactly s3 ?src (sn_files snap)" by simp_all
  let ?s4 = "chmod_beneath ?src lock_folder s3"
  have locked: "calm ?s4 ?d" "same_outside ?d s3 ?s4" "holds_exactly ?s4 ?src (sn_files snap)"
    using calm_chmod_beneath [OF files(1), of "[''source'']" lock_folder] files(3)
      same_outside_chmod_beneath [of ?d s3 "[''source'']"]
    by (simp_all add: holds_exactly_chmod_beneath lock_folder_link)
  have names: "dotless [''source'']" "dotless [''input'']" "dotless [''input'', ''request.json'']"
    by (simp_all add: dotless_def)
  note apart = beneath_append2 [of ?d]
  have other: "\<not> beneath [''source''] [''source'']" "\<not> beneath [''source''] [''input'']"
      "\<not> beneath [''source''] [''input'', ''request.json'']" by (simp_all add: beneath_def)
  note c5 = touched_chmod [OF locked(1) names(1) _ 5, unfolded apart, OF other(1)]
  note c6 = touched_write [OF conjunct1 [OF c5] names(3) _ 6, unfolded apart, OF other(3)]
  note c7 = touched_chmod [OF conjunct1 [OF c6] names(3) _ 7, unfolded apart, OF other(3)]
  note c8 = touched_chmod [OF conjunct1 [OF c7] names(2) _ 8, unfolded apart, OF other(2)]
  from c6 obtain mode where "node_at s6 (?d @ [''input'', ''request.json'']) = Some (Regular (utf8 (dump q @ [LF])) mode)"
    by blast
  then have request: "node_at t (?d @ [''input'', ''request.json'']) = Some (Regular (utf8 (dump q @ [LF])) 256)"
    using chmod_node [OF conjunct1 [OF c6] names(3) 7] chmod_node [OF conjunct1 [OF c7] names(2) 8]
    by (simp add: with_mode_def)
  have "same_outside ?d fs s1" using new(2) by (simp add: same_outside_def)
  moreover have "same_outside ?d ?s4 s5" "same_outside ?d s5 s6" "same_outside ?d s6 s7" "same_outside ?d s7 t"
    using c5 c6 c7 c8 by blast+
  ultimately have "same_outside ?d fs t"
    using same_outside_folders [OF dirs_made(2)] files(2) locked(2) by (simp add: same_outside_def)
  moreover have "holds_exactly t ?src (sn_files snap)" using c5 c6 c7 c8 locked(3) by blast
  ultimately show ?thesis
    using p sha new(1) c8 request by (simp add: prepared_def Let_def)
qed

text \<open>
  C23: Preparing a request touches nothing outside a new directory of its own, and the source directory
  then holds exactly the files of the snapshot, read-only, at their paths: no path of a snapshot
  leaves the directory, and no two of them share a file. The request lies beside it.
\<close>

theorem prepared_source_is_the_snapshot:
  assumes "tree_ok fs" and "real_folder fs (tp_root tr)" and "prepare dump tr snap q fs = (Inr p, t)"
  shows "sn_pinned_sha snap = xr_source_sha q \<and> node_at fs (pt_run_root p) = None \<and>
     (\<forall>x. x \<noteq> pt_run_root p \<longrightarrow> \<not> beneath (pt_run_root p) x \<longrightarrow> node_at t x = node_at fs x) \<and>
     (\<forall>x c m. beneath (pt_source_directory p) x \<longrightarrow>
        (node_at t x = Some (Regular c m) \<longleftrightarrow> m = 256 \<and>
         (\<exists>(relative, content) \<in> set (sn_files snap).
            x = pt_source_directory p @ path_parts relative \<and> c = utf8 content))) \<and>
     (\<exists>mode. node_at t (pt_request_path p) = Some (Regular (utf8 (dump q @ [LF])) mode))"
  using prepare_Inr [OF assms] unfolding same_outside_def holds_exactly_def by blast

definition example_execution_request :: recipe_execution_request where
  "example_execution_request = \<lparr>xr_run_id = ''7'', xr_source_sha = example_sha, xr_manifest_version = ''v1'',
     xr_recipe_name = ''unit'', xr_adapter = Pytest_V1, xr_arguments = [(''selector'', JStr ''tests'')],
     xr_image_digest = ''img'', xr_timeout_seconds = 60, xr_expected_output_artifacts = []\<rparr>"

definition example_source :: snapshot where
  "example_source = \<lparr>sn_pinned_sha = example_sha, sn_files = [(''src/a.py'', ''x = 1''), (''b.py'', ''y'')],
     sn_history = []\<rparr>"

lemmas file_system_defs = make_run_root_def mkdir_def entry_def reach_def follow.simps MAX_LINKS_def node_at_def
  put_node_def folder_writable_def writable_def write_source_file_def safe_destination_def safe_below_def
  resolve_def make_dirs_def is_dir_def stat_node_def write_bytes_def chmod_def with_mode_def
  chmod_beneath_def beneath_code safe_path_def path_parts_def lock_folder_def

lemma example_prepare:
  assumes "xr_source_sha q = example_sha"
  shows "\<exists>t. prepare (\<lambda>_. ''{}'') \<lparr>tp_root = [], tp_host_root = []\<rparr> example_source q [] =
     (Inr (prepared \<lparr>tp_root = [], tp_host_root = []\<rparr> q), t) \<and> node_at t [run_key q, ''output''] = Some (Folder 448)"
proof -
  obtain k where k: "run_key q = k" "k \<noteq> ''..''" "''..'' \<noteq> k"
    using run_key_dotless by metis
  show ?thesis
    by (simp add: prepare_def prepared_def k Let_def example_source_def assms act_defs file_system_defs)
qed

theorem prepared_source_is_the_snapshot_witness:
  "\<exists>t. node_at t [run_key example_execution_request, ''source'', ''src'', ''a.py''] = Some (Regular ''x = 1'' 256) \<and>
     node_at t [run_key example_execution_request, ''source'', ''c.py''] \<noteq> Some (Regular [] 256) \<and>
     node_at t [''etc'', ''passwd''] = None"
proof -
  let ?tr = "\<lparr>tp_root = [], tp_host_root = []\<rparr>"
  let ?k = "run_key example_execution_request"
  from example_prepare [of example_execution_request] obtain t where t: "prepare (\<lambda>_. ''{}'') ?tr example_source example_execution_request [] =
      (Inr (prepared ?tr example_execution_request), t)" by (auto simp: example_execution_request_def)
  have "tree_ok []" "real_folder [] (tp_root ?tr)"
    by (simp_all add: tree_ok_def real_folder_def node_at_def)
  from prepared_source_is_the_snapshot [OF this t]
  have outside: "\<And>x. x \<noteq> [?k] \<Longrightarrow> \<not> beneath [?k] x \<Longrightarrow> node_at t x = node_at [] x"
    and inside: "\<And>x c m. beneath [?k, ''source''] x \<Longrightarrow> node_at t x = Some (Regular c m) \<longleftrightarrow> m = 256 \<and>
         (\<exists>(relative, content) \<in> set (sn_files example_source).
            x = [?k, ''source''] @ path_parts relative \<and> c = utf8 content)"
    by (auto simp: prepared_def Let_def)
  have "length ?k = 24" by (simp add: run_key_def)
  then have "''etc'' \<noteq> ?k" by (auto dest: arg_cong [of _ _ length])
  then have "node_at t [''etc'', ''passwd''] = None"
    by (subst outside) (auto simp: beneath_code node_at_def)
  moreover have "node_at t [?k, ''source'', ''src'', ''a.py''] = Some (Regular ''x = 1'' 256)"
    by (subst inside) (simp_all add: beneath_code example_source_def path_parts_def, simp add: utf8_def utf8_char_def)
  moreover have "node_at t [?k, ''source'', ''c.py''] \<noteq> Some (Regular [] 256)"
    by (subst inside) (simp_all add: beneath_code example_source_def path_parts_def)
  ultimately show ?thesis by blast
qed

end
