(* ===== verification/Adapter.thy ===== *)
theory Adapter
  imports Transport Redaction
begin

text \<open>
  \<open>executor/adapters.py\<close> and \<open>executor/adapter.py\<close>: what runs inside the disposable container. The
  arguments of the recipe's command, the copy of the source into the workspace, the patch, the run
  of the command, and the typed result with the artifacts that may leave. The process the command
  starts is a parameter, which may change the files; so is \<open>decode(errors="replace")\<close>, whose
  replacement characters lie beyond the alphabet of the model's strings.
\<close>

section \<open>Commands\<close>

definition adapter_argv :: "string \<Rightarrow> recipe_execution_request \<Rightarrow> string list res" where
  "adapter_argv executable q = (case xr_adapter q of
     Noop_V1 \<Rightarrow>
       if xr_arguments q \<noteq> [] then Inl (ValueError ''noop_v1 does not accept arguments'')
       else Inr [executable, ''-m'', ''agentic_lab.executor.noop'']
   | Ruff_Check_V1 \<Rightarrow>
       if xr_arguments q \<noteq> [] then Inl (ValueError ''ruff_check_v1 does not accept arguments'')
       else Inr [executable, ''-m'', ''ruff'', ''check'', ''--no-cache'', ''.'']
   | a \<Rightarrow>
       let expected = (if a = Pytest_After_Patch_V1 then {''selector'', ''unified_diff''} else {''selector''}) in
       if set (map fst (xr_arguments q)) \<noteq> expected
       then Inl (ValueError (adapter_value a @ '' received invalid arguments''))
       else (case as_str (jget (xr_arguments q) ''selector'') of
           None \<Rightarrow> Inl (ValueError ''pytest_v1 selector is invalid'')
         | Some selector \<Rightarrow>
             if selector = [] \<or> 500 < length selector
             then Inl (ValueError ''pytest_v1 selector is invalid'')
             else if list_ex (\<lambda>c. c \<in> set '';|&`$'' \<or> c = LF) selector
             then Inl (ValueError ''pytest_v1 selector contains unsafe characters'')
             else Inr [executable, ''-m'', ''pytest'', ''-q'', ''-p'', ''no:cacheprovider'', selector]))"

section \<open>The workspace\<close>

definition safe_artifact_path :: "files \<Rightarrow> path \<Rightarrow> string \<Rightarrow> path res" where
  "safe_artifact_path =
     safe_below ''executor artifact path is unsafe'' ''executor artifact path escaped its root''"

definition children :: "files \<Rightarrow> path \<Rightarrow> path list" where
  "children fs d = filter (\<lambda>p. p \<noteq> [] \<and> butlast p = d) (map fst fs)"

text \<open>
  \<open>shutil.copytree\<close> with \<open>symlinks=False\<close> and \<open>dirs_exist_ok=True\<close> of a source that holds no links
  (the transport writes none and mounts it read-only): entries keep their bits. The bits are then
  set to those of the workspace.
\<close>

definition workspace_mode :: "node \<Rightarrow> node" where
  "workspace_mode n = (case n of Folder _ \<Rightarrow> Folder 448 | _ \<Rightarrow> with_mode 384 n)"

definition copy_tree :: "path \<Rightarrow> path \<Rightarrow> files \<Rightarrow> files" where
  "copy_tree source workspace fs =
     fold (\<lambda>(p, n) fs'. if beneath source p then put_node (workspace @ drop (length source) p) n fs' else fs')
       fs fs"

definition fill_workspace :: "path \<Rightarrow> path \<Rightarrow> path \<Rightarrow> (files, unit) act" where
  "fill_workspace source workspace output = with_state (\<lambda>fs.
     if path_exists fs workspace \<and> children fs workspace \<noteq> []
     then throw (ValueError ''executor workspace must start empty'')
     else then_act (make_dirs workspace 511)
         (then_act (chmod workspace 448)
         (then_act (make_dirs output 511)
         (then_act (modify (copy_tree source workspace))
         (then_act (chmod workspace 448)
         (modify (chmod_beneath workspace workspace_mode)))))))"

section \<open>The patch\<close>

fun read_originals :: "path \<Rightarrow> text_file_patch list \<Rightarrow> (string \<Rightarrow> bytes option) \<Rightarrow>
    (files, string \<Rightarrow> bytes option) act" where
  "read_originals workspace [] originals = ret originals"
| "read_originals workspace (p # ps) originals = (case fp_old_path p of
     None \<Rightarrow> read_originals workspace ps originals
   | Some old \<Rightarrow> with_state (\<lambda>fs.
       bind_act (of_res (safe_artifact_path fs workspace old)) (\<lambda>source.
         if \<not> is_file fs source \<or> is_symlink fs source
         then throw (ValueError ''patch base file is unavailable in the workspace'')
         else bind_act (read_bytes source) (\<lambda>content.
           read_originals workspace ps (originals(old \<mapsto> content))))))"

definition at_artifact :: "path \<Rightarrow> string \<Rightarrow> (path \<Rightarrow> (files, 'a) act) \<Rightarrow> (files, 'a) act" where
  "at_artifact base relative k =
     with_state (\<lambda>fs. bind_act (of_res (safe_artifact_path fs base relative)) k)"

definition apply_item :: "path \<Rightarrow> applied_file \<Rightarrow> (files, unit) act" where
  "apply_item workspace item = then_act
     (case af_old_path item of
        Some old \<Rightarrow>
          if af_old_path item \<noteq> af_new_path item
          then at_artifact workspace old (\<lambda>p. unlink p False) else ret ()
      | None \<Rightarrow> ret ())
     (case af_new_path item of
        None \<Rightarrow> (case af_old_path item of
            Some old \<Rightarrow> at_artifact workspace old (\<lambda>p. unlink p True)
          | None \<Rightarrow> ret ())
      | Some new \<Rightarrow> at_artifact workspace new (\<lambda>p.
          then_act (make_dirs (butlast p) 511)
            (write_bytes p (case af_content item of None \<Rightarrow> [] | Some c \<Rightarrow> c))))"

definition apply_workspace_diff :: "path \<Rightarrow> json \<Rightarrow> (files, unit) act" where
  "apply_workspace_diff workspace diff = (case as_str diff of
     None \<Rightarrow> throw (ValueError ''patch adapter requires a unified diff'')
   | Some d \<Rightarrow>
       bind_act (of_res (parse_text_diff d)) (\<lambda>patches.
       bind_act (read_originals workspace patches Map.empty) (\<lambda>originals.
       bind_act (of_res (apply_text_diff d originals)) (\<lambda>items.
         for_each (apply_item workspace) items))))"

section \<open>Running a request\<close>

datatype completed =
    Completed int bytes bytes
  | Timed_Out "bytes option"

text \<open>The process: its arguments, its folder, its environment and its time limit.\<close>

type_synonym process = "string list \<Rightarrow> path \<Rightarrow> (string \<times> string) list \<Rightarrow> int \<Rightarrow> (files, completed) act"

definition exit_of :: "completed \<Rightarrow> int \<times> bytes \<times> bytes" where
  "exit_of c = (case c of
     Completed code out err \<Rightarrow> (code, out, err)
   | Timed_Out out \<Rightarrow> (124, case out of None \<Rightarrow> [] | Some b \<Rightarrow> b, ''recipe timed out''))"

text \<open>One artifact: copied to the output, unless it is missing, too large or holds a secret.\<close>

datatype collected = Skipped bool | Collected recipe_output_artifact

definition release_artifact ::
  "(bytes \<Rightarrow> string) \<Rightarrow> path \<Rightarrow> string \<Rightarrow> bytes \<Rightarrow> (files, collected) act" where
  "release_artifact decode output relative content =
    (if 10000000 < length content then ret (Skipped False)
     else if NUL \<notin> set content \<and> red_detected (redact (decode content) []) then ret (Skipped True)
     else at_artifact output relative (\<lambda>destination.
       then_act (make_dirs (butlast destination) 511)
      (then_act (write_bytes destination content)
      (ret (Collected \<lparr>oa_path = relative, oa_size_bytes = int (length content),
               oa_content_hash = sha256_hex content\<rparr>)))))"

definition collect_artifact ::
  "(bytes \<Rightarrow> string) \<Rightarrow> path \<Rightarrow> path \<Rightarrow> string \<Rightarrow> (files, collected) act" where
  "collect_artifact decode workspace output relative =
    at_artifact workspace relative (\<lambda>source. with_state (\<lambda>fs.
      if \<not> is_file fs source \<or> is_symlink fs source then ret (Skipped False)
      else bind_act (read_bytes source) (release_artifact decode output relative)))"

fun collect_artifacts ::
  "(bytes \<Rightarrow> string) \<Rightarrow> path \<Rightarrow> path \<Rightarrow> string list \<Rightarrow> (files, bool \<times> recipe_output_artifact list) act" where
  "collect_artifacts decode workspace output [] = ret (False, [])"
| "collect_artifacts decode workspace output (relative # others) =
     bind_act (collect_artifact decode workspace output relative) (\<lambda>c.
     bind_act (collect_artifacts decode workspace output others) (\<lambda>(detected, artifacts).
       ret (case c of
          Skipped d \<Rightarrow> (d \<or> detected, artifacts)
        | Collected a \<Rightarrow> (detected, a # artifacts))))"

definition excerpt_of :: "redaction_result \<Rightarrow> string" where
  "excerpt_of r = (if red_detected r then ''output blocked by redaction policy'' else red_text r)"

definition execution_result ::
  "(bytes \<Rightarrow> string) \<Rightarrow> recipe_execution_request \<Rightarrow> time \<Rightarrow> time \<Rightarrow> completed \<Rightarrow> bool \<Rightarrow>
   recipe_output_artifact list \<Rightarrow> recipe_execution_result" where
  "execution_result decode q started finished c detected artifacts =
    (let (code, out, err) = exit_of c;
         out_red = redact (decode (take 8000 out)) [];
         err_red = redact (decode (take 8000 err)) []
     in \<lparr>xs_run_id = xr_run_id q, xs_source_sha = xr_source_sha q,
         xs_manifest_version = xr_manifest_version q, xs_recipe_name = xr_recipe_name q,
         xs_adapter = adapter_value (xr_adapter q), xs_image_digest = xr_image_digest q,
         xs_started_at = started, xs_finished_at = finished, xs_exit_code = code,
         xs_stdout_hash = sha256_hex out, xs_stderr_hash = sha256_hex err,
         xs_stdout_excerpt = excerpt_of out_red, xs_stderr_excerpt = excerpt_of err_red,
         xs_redacted = (red_detected out_red \<or> red_detected err_red \<or> detected),
         xs_artifacts = artifacts\<rparr>)"

definition execute_request ::
  "(bytes \<Rightarrow> string) \<Rightarrow> process \<Rightarrow> string \<Rightarrow> string option \<Rightarrow> time \<times> time \<Rightarrow> recipe_execution_request \<Rightarrow>
   path \<Rightarrow> path \<Rightarrow> path \<Rightarrow> (files, recipe_execution_result) act" where
  "execute_request decode process executable path_variable clock q source workspace output =
    then_act (fill_workspace source workspace output)
   (then_act (if xr_adapter q = Pytest_After_Patch_V1
        then (case map_of (xr_arguments q) ''unified_diff'' of
            None \<Rightarrow> throw (OtherError ''KeyError'' ''unified_diff'')
          | Some diff \<Rightarrow> apply_workspace_diff workspace diff)
        else ret ())
   (bind_act (of_res (adapter_argv executable q)) (\<lambda>argv.
    bind_act (process argv workspace (restricted_executor_environment path_variable (Some workspace))
       (xr_timeout_seconds q)) (\<lambda>c.
    bind_act (collect_artifacts decode workspace output (xr_expected_output_artifacts q)) (\<lambda>(detected, artifacts).
      bind_act (of_res (validate_execution_result
         (execution_result decode q (fst clock) (snd clock) c detected artifacts))) ret)))))"

text \<open>
  \<open>main\<close>: the request is read from its file, and the result written to its own; the readers and
  the writer of the JSON texts are parameters.
\<close>

definition adapter_main ::
  "(string \<Rightarrow> recipe_execution_request res) \<Rightarrow> (recipe_execution_result \<Rightarrow> string) \<Rightarrow> (bytes \<Rightarrow> string) \<Rightarrow>
   process \<Rightarrow> string \<Rightarrow> string option \<Rightarrow> time \<times> time \<Rightarrow> path \<Rightarrow> path \<Rightarrow> path \<Rightarrow> path \<Rightarrow> path \<Rightarrow>
   (files, unit) act" where
  "adapter_main parse dump decode process executable path_variable clock request source workspace output result =
    bind_act (read_bytes request) (\<lambda>content.
      if 1000000 < length content then throw (ValueError ''executor request exceeds the size limit'')
      else bind_act (of_res (bind_res (decode_text content) (\<lambda>t. bind_res (parse t) validate_execution_request)))
        (\<lambda>q. bind_act (execute_request decode process executable path_variable clock q source workspace output)
          (\<lambda>r. write_bytes result (utf8 (dump r @ [LF])))))"

section \<open>The launcher's check of the arguments\<close>

lemma only_key: "x \<in> A \<Longrightarrow> A = {x} \<longleftrightarrow> (\<forall>y \<in> A. y = x)"
  by blast

lemma only_selector:
  assumes "as_str (jget args ''selector'') = Some s"
  shows "fst ` set args = {''selector''} \<longleftrightarrow> \<not> list_ex (\<lambda>(k, _). k \<noteq> ''selector'') args"
proof -
  from assms obtain v where "map_of args ''selector'' = Some v"
    by (cases "map_of args ''selector''") (simp_all add: jget_def)
  then have "''selector'' \<in> fst ` set args" by (metis map_of_SomeD fst_conv image_eqI)
  then show ?thesis by (simp only: only_key list_ex_iff split_def ball_simps bex_simps not_not simp_thms)
qed

lemma safe_selector_iff:
  "safe_selector s \<longleftrightarrow> s \<noteq> [] \<and> \<not> 500 < length s \<and> \<not> list_ex (\<lambda>c. c \<in> set '';|&`$'' \<or> c = LF) s"
  unfolding safe_selector_def list_ex_iff list_all_iff linorder_not_less by blast

text \<open>
  C25: The launcher and the adapter check the arguments of a recipe separately. The launcher accepts
  exactly the arguments the adapter makes a command of, except that of the patch adapter it also asks
  that the diff is a text of at least one and at most 100,000 bytes, which the adapter's command does
  not depend on: so the adapter never refuses the arguments of a request the launcher let through.
\<close>

theorem launcher_accepts_the_adapters_commands:
  "validate_arguments (ADAPTER_ARGUMENT_SCHEMAS (xr_adapter q)) (xr_arguments q) = Inr () \<longleftrightarrow>
     (\<exists>argv. adapter_argv executable q = Inr argv) \<and>
     (if xr_adapter q = Pytest_After_Patch_V1
      then \<exists>diff. as_str (jget (xr_arguments q) ''unified_diff'') = Some diff \<and> diff \<noteq> [] \<and> length (utf8 diff) \<le> 100000
      else True)"
proof (cases "xr_adapter q")
  case Pytest_V1
  show ?thesis
  proof (cases "as_str (jget (xr_arguments q) ''selector'')")
    case (Some selector)
    show ?thesis
      by (cases "fst ` set (xr_arguments q) = {''selector''}")
        (simp_all add: Pytest_V1 Some only_selector [OF Some, symmetric] adapter_argv_def validate_arguments_def
          safe_selector_iff)
  qed (simp add: Pytest_V1 adapter_argv_def validate_arguments_def)
next
  case Pytest_After_Patch_V1
  show ?thesis
    by (cases "as_str (jget (xr_arguments q) ''selector'')"; cases "as_str (jget (xr_arguments q) ''unified_diff'')";
        cases "fst ` set (xr_arguments q) = {''selector'', ''unified_diff''}")
      (simp_all add: Pytest_After_Patch_V1 adapter_argv_def validate_arguments_def safe_selector_iff)
qed (simp_all add: adapter_argv_def validate_arguments_def)

text \<open>A command the launcher would not have let through.\<close>

lemma adapter_commands_without_a_diff:
  assumes "xr_adapter q = Pytest_After_Patch_V1"
    and "xr_arguments q = [(''selector'', JStr ''tests''), (''unified_diff'', JStr [])]"
  shows "\<exists>argv. adapter_argv executable q = Inr argv"
    and "validate_arguments (ADAPTER_ARGUMENT_SCHEMAS (xr_adapter q)) (xr_arguments q) \<noteq> Inr ()"
proof -
  show "\<exists>argv. adapter_argv executable q = Inr argv"
    using assms by (simp add: adapter_argv_def jget_def insert_commute)
  show "validate_arguments (ADAPTER_ARGUMENT_SCHEMAS (xr_adapter q)) (xr_arguments q) \<noteq> Inr ()"
    using assms by (simp add: validate_arguments_def jget_def)
qed

text \<open>A selector may be an option of the command: the check looks for shell characters only.\<close>

lemma selector_may_be_an_option:
  assumes "xr_adapter q = Pytest_V1" and "xr_arguments q = [(''selector'', JStr ''--version'')]"
  shows "validate_arguments (ADAPTER_ARGUMENT_SCHEMAS (xr_adapter q)) (xr_arguments q) = Inr ()"
    and "adapter_argv executable q =
      Inr [executable, ''-m'', ''pytest'', ''-q'', ''-p'', ''no:cacheprovider'', ''--version'']"
  using assms by (simp_all add: validate_arguments_def adapter_argv_def jget_def safe_selector_def)

section \<open>The artifacts that leave\<close>

definition keeps_folders :: "files \<Rightarrow> files \<Rightarrow> bool" where
  "keeps_folders fs t \<longleftrightarrow> (\<forall>p. is_folder_node (node_at fs p) \<longrightarrow> is_folder_node (node_at t p))"



















definition example_output :: files where
  "example_output = [([''w''], Folder 448), ([''o''], Folder 448), ([''w'', ''r.txt''], Regular ''ok'' 420)]"






text \<open>A recipe may plant a link in its output: the adapter writes through it, and the transport refuses the artifact.\<close>

definition linked_output :: files where
  "linked_output = ([''o'', ''r.txt''], Link False [''x'']) # ([''o'', ''x''], Regular [] 420) # example_output"

lemma planted_link_is_refused:
  "\<exists>a t. collect_artifacts (\<lambda>b. b) [''w''] [''o''] [''r.txt''] linked_output = (Inr (False, [a]), t) \<and>
     oa_path a = ''r.txt'' \<and> check_artifact [''o''] a t = (Inl (ValueError ''executor artifact path is invalid''), t)"
proof -
  let ?t = "put_node [''o'', ''x''] (Regular ''ok'' 420) linked_output"
  have "\<not> list_ex (\<lambda>r. re_search r ''ok'') (map snd redaction_patterns)" by code_simp
  then have clean: "\<not> red_detected (redact ''ok'' [])" by (simp add: redact_detected_iff list_ex_iff)
  have paths: "safe_path ''r.txt''" "path_parts ''r.txt'' = [''r.txt'']" by code_simp+
  have nodes: "node_at linked_output [''w'', ''r.txt''] = Some (Regular ''ok'' 420)" "node_at linked_output [''o'', ''x''] = Some (Regular [] 420)"
    "node_at linked_output [''o'', ''r.txt''] = Some (Link False [''x''])" "node_at linked_output [''w''] = Some (Folder 448)"
    "node_at linked_output [''o''] = Some (Folder 448)" "node_at linked_output [] = Some (Folder 493)"
    by (simp_all add: node_at_def linked_output_def example_output_def)
  have reached: "reach linked_output [''w'', ''r.txt''] = Some [''w'', ''r.txt'']" "reach linked_output [''o'', ''r.txt''] = Some [''o'', ''x'']"
    "reach linked_output [''w''] = Some [''w'']" "reach linked_output [''o''] = Some [''o'']"
    "resolve linked_output [''w''] = Inr [''w'']" "resolve linked_output [''o''] = Inr [''o'']"
    by (simp_all add: reach_def resolve_def follow.simps MAX_LINKS_def nodes)
  have later: "reach ?t [''o''] = Some [''o'']" "reach ?t [''o'', ''r.txt''] = Some [''o'', ''x'']" "resolve ?t [''o''] = Inr [''o'']"
    by (simp_all add: reach_def resolve_def follow.simps MAX_LINKS_def nodes)
  have "make_dirs [''o''] 511 linked_output = (Inr (), linked_output)"
    by (simp add: make_dirs_def is_dir_def stat_node_def reached nodes act_defs)
  moreover have "write_bytes [''o'', ''r.txt''] ''ok'' linked_output = (Inr (), ?t)"
    by (simp add: write_bytes_def folder_writable_def writable_def reached nodes act_defs)
  ultimately have "collect_artifacts (\<lambda>b. b) [''w''] [''o''] [''r.txt''] linked_output =
      (Inr (False, [\<lparr>oa_path = ''r.txt'', oa_size_bytes = 2, oa_content_hash = sha256_hex ''ok''\<rparr>]), ?t)"
    by (simp add: collect_artifact_def release_artifact_def at_artifact_def safe_artifact_path_def safe_below_def paths
      is_file_def is_symlink_def entry_def stat_node_def read_bytes_def reached nodes clean act_defs)
  moreover have "check_artifact [''o''] \<lparr>oa_path = ''r.txt'', oa_size_bytes = 2, oa_content_hash = sha256_hex ''ok''\<rparr> ?t =
      (Inl (ValueError ''executor artifact path is invalid''), ?t)"
    by (simp add: check_artifact_def safe_destination_def safe_below_def paths later is_file_def is_symlink_def entry_def
        stat_node_def nodes act_defs)
  ultimately show ?thesis by (intro exI conjI) (assumption | simp)+
qed

end
