(* ===== verification/Calls.thy ===== *)
theory Calls
  imports Prelude
begin

text \<open>
  Actions that make calls on a client the sources only use: what they add to the calls recorded in
  the state, whatever their outcome. The record of the calls is a projection of the state.
\<close>

definition adds_calls :: "('s \<Rightarrow> 'c list) \<Rightarrow> ('s, 'a) act \<Rightarrow> 'c list set \<Rightarrow> bool" where
  "adds_calls calls m C \<longleftrightarrow> (\<forall>s. \<exists>cs \<in> C. calls (snd (m s)) = calls s @ cs)"

text \<open>The concatenations of a sequence of one set with a sequence of another.\<close>

definition followed_by :: "'c list set \<Rightarrow> 'c list set \<Rightarrow> 'c list set" where
  "followed_by C D = {c @ d | c d. c \<in> C \<and> d \<in> D}"

named_theorems calls_intros

lemma adds_callsD: "adds_calls calls m C \<Longrightarrow> m s = (r, t) \<Longrightarrow> \<exists>cs \<in> C. calls t = calls s @ cs"
  unfolding adds_calls_def by (metis snd_conv)

lemma adds_calls_silent: "(\<And>s. calls (snd (m s)) = calls s) \<Longrightarrow> adds_calls calls m {[]}"
  by (simp add: adds_calls_def)

lemma adds_calls_mono: "adds_calls calls m C \<Longrightarrow> C \<subseteq> D \<Longrightarrow> adds_calls calls m D"
  unfolding adds_calls_def by blast

lemma calls_of_res: "adds_calls calls (of_res r) {[]}"
  by (rule adds_calls_silent) (simp add: act_defs)

lemma calls_throw: "adds_calls calls (throw e) {[]}"
  by (rule adds_calls_silent) (simp add: act_defs)

lemma calls_ret: "adds_calls calls (ret x) {[]}"
  by (rule adds_calls_silent) (simp add: act_defs)

lemma calls_append:
  assumes "adds_calls calls m C" and "\<And>h x t. m h = (Inr x, t) \<Longrightarrow> adds_calls calls (f x) D"
  shows "adds_calls calls (bind_act m f) (C \<union> followed_by C D)"
  unfolding adds_calls_def
proof
  fix s
  obtain r t where m: "m s = (r, t)" by fastforce
  with adds_callsD [OF assms(1)] obtain c where c: "c \<in> C" "calls t = calls s @ c" by blast
  show "\<exists>cs \<in> C \<union> followed_by C D. calls (snd (bind_act m f s)) = calls s @ cs"
  proof (cases r)
    case (Inl e)
    with m c show ?thesis by (auto simp: act_defs)
  next
    case (Inr x)
    with assms(2) [of s x t] m have "adds_calls calls (f x) D" by simp
    then obtain d where "d \<in> D" "calls (snd (f x t)) = calls t @ d"
      by (auto simp: adds_calls_def)
    moreover from m Inr have "bind_act m f s = f x t" by (simp add: act_defs)
    ultimately show ?thesis using c by (fastforce simp: followed_by_def)
  qed
qed

lemma calls_bind:
  assumes "adds_calls calls m {[]}" and "\<And>h x t. m h = (Inr x, t) \<Longrightarrow> adds_calls calls (f x) C" and "[] \<in> C"
  shows "adds_calls calls (bind_act m f) C"
  by (rule adds_calls_mono [OF calls_append [OF assms(1,2)]]) (use assms(3) in \<open>auto simp: followed_by_def\<close>)

lemma calls_bind_res:
  assumes "\<And>x. r = Inr x \<Longrightarrow> adds_calls calls (f x) C" and "[] \<in> C"
  shows "adds_calls calls (bind_act (of_res r) f) C"
  by (rule calls_bind [OF calls_of_res _ assms(2)]) (auto simp: act_returns assms(1))

lemma calls_then_silent:
  "adds_calls calls m C \<Longrightarrow> (\<And>x. adds_calls calls (f x) {[]}) \<Longrightarrow> adds_calls calls (bind_act m f) C"
  by (rule adds_calls_mono [OF calls_append]) (auto simp: followed_by_def)

text \<open>\<open>finally\<close>: the action runs whatever happened, and its own exception takes over.\<close>

definition finally_do :: "('s, 'a) act \<Rightarrow> ('s, unit) act \<Rightarrow> ('s, 'a) act" where
  "finally_do m f s = (case m s of (r, t) \<Rightarrow> (case f t of (Inl e, u) \<Rightarrow> (Inl e, u) | (Inr _, u) \<Rightarrow> (r, u)))"

lemma calls_finally:
  assumes "adds_calls calls m C" and "adds_calls calls f D"
  shows "adds_calls calls (finally_do m f) (followed_by C D)"
  unfolding adds_calls_def
proof
  fix s
  obtain r t where m: "m s = (r, t)" by fastforce
  with adds_callsD [OF assms(1)] obtain c where c: "c \<in> C" "calls t = calls s @ c" by blast
  from assms(2) obtain d where "d \<in> D" "calls (snd (f t)) = calls t @ d"
    by (auto simp: adds_calls_def)
  moreover have "snd (finally_do m f s) = snd (f t)"
    by (simp add: finally_do_def m split: prod.splits sum.splits)
  ultimately show "\<exists>cs \<in> followed_by C D. calls (snd (finally_do m f s)) = calls s @ cs"
    using c by (fastforce simp: followed_by_def)
qed

lemma calls_try:
  assumes "adds_calls calls m C" and "\<And>e. adds_calls calls (h e) D" and "\<And>x. adds_calls calls (k x) E"
  shows "adds_calls calls (try_else m h k) (followed_by C (D \<union> E))"
  unfolding adds_calls_def
proof
  fix s
  obtain r t where m: "m s = (r, t)" by fastforce
  with adds_callsD [OF assms(1)] obtain c where c: "c \<in> C" "calls t = calls s @ c" by blast
  show "\<exists>cs \<in> followed_by C (D \<union> E). calls (snd (try_else m h k s)) = calls s @ cs"
  proof (cases r)
    case (Inl e)
    with m have "try_else m h k s = h e t" by simp
    moreover from assms(2) obtain cs where "cs \<in> D" "calls (snd (h e t)) = calls t @ cs"
      by (auto simp: adds_calls_def)
    ultimately show ?thesis using c by (fastforce simp: followed_by_def)
  next
    case (Inr x)
    with m have "try_else m h k s = k x t" by simp
    moreover from assms(3) obtain cs where "cs \<in> E" "calls (snd (k x t)) = calls t @ cs"
      by (auto simp: adds_calls_def)
    ultimately show ?thesis using c by (fastforce simp: followed_by_def)
  qed
qed

text \<open>Calls of one kind only, which actions keep adding.\<close>

definition only_calls :: "('c \<Rightarrow> bool) \<Rightarrow> 'c list set" where
  "only_calls P = {cs. \<forall>c \<in> set cs. P c}"

lemma only_calls_append: "followed_by (only_calls P) (only_calls P) = only_calls P"
  by (auto simp: followed_by_def only_calls_def) (metis append_Nil empty_iff list.set(1))

lemma only_bind [calls_intros]:
  assumes "adds_calls calls m (only_calls P)"
    and "\<And>h x t. m h = (Inr x, t) \<Longrightarrow> adds_calls calls (f x) (only_calls P)"
  shows "adds_calls calls (bind_act m f) (only_calls P)"
  by (rule adds_calls_mono [OF calls_append [OF assms]]) (simp_all add: only_calls_append)

lemma only_silent: "adds_calls calls m {[]} \<Longrightarrow> adds_calls calls m (only_calls P)"
  by (rule adds_calls_mono) (auto simp: only_calls_def)

lemma calls_with_state [calls_intros]: "(\<And>s. adds_calls calls (k s) C) \<Longrightarrow> adds_calls calls (with_state k) C"
  by (simp add: adds_calls_def)

lemmas only_effect_free [calls_intros] = calls_of_res [THEN only_silent] calls_throw [THEN only_silent]
  calls_ret [THEN only_silent]

lemma calls_if [calls_intros]:
  "adds_calls calls m C \<Longrightarrow> adds_calls calls k C \<Longrightarrow> adds_calls calls (if b then m else k) C"
  by simp

lemma calls_option [calls_intros]:
  "adds_calls calls m C \<Longrightarrow> (\<And>x. v = Some x \<Longrightarrow> adds_calls calls (f x) C) \<Longrightarrow>
   adds_calls calls (case v of None \<Rightarrow> m | Some x \<Rightarrow> f x) C"
  by (simp split: option.splits)

text \<open>Calls of one kind, and at most one other call, which is the last.\<close>

definition ending_in :: "('c \<Rightarrow> bool) \<Rightarrow> 'c set \<Rightarrow> 'c list set" where
  "ending_in P U = {ds @ us | ds us. ds \<in> only_calls P \<and> (us = [] \<or> (\<exists>u \<in> U. us = [u]))}"

lemma ending_inI: "ds \<in> only_calls P \<Longrightarrow> us = [] \<or> (\<exists>u \<in> U. us = [u]) \<Longrightarrow> ds @ us \<in> ending_in P U"
  unfolding ending_in_def by blast

lemma ending_inE:
  assumes "cs \<in> ending_in P U"
  obtains ds us where "cs = ds @ us" "ds \<in> only_calls P" "us = [] \<or> (\<exists>u \<in> U. us = [u])"
  using assms unfolding ending_in_def by blast

lemma only_in_ending: "cs \<in> only_calls P \<Longrightarrow> cs \<in> ending_in P U"
  using ending_inI [of cs P "[]" U] by simp

lemma only_ending: "adds_calls calls m (only_calls P) \<Longrightarrow> adds_calls calls m (ending_in P U)"
  by (rule adds_calls_mono) (auto intro: only_in_ending)

lemma only_then_ending:
  assumes "c \<in> only_calls P" and "d \<in> ending_in P U"
  shows "c @ d \<in> ending_in P U"
proof -
  from assms(2) obtain ds us where d: "d = ds @ us" "ds \<in> only_calls P" "us = [] \<or> (\<exists>u \<in> U. us = [u])"
    by (rule ending_inE)
  have "c @ ds \<in> only_calls P" using assms(1) d(2) by (auto simp: only_calls_def)
  from ending_inI [OF this d(3)] d(1) show ?thesis by simp
qed

lemma ending_bind:
  assumes "adds_calls calls m (only_calls P)" and "\<And>h x t. m h = (Inr x, t) \<Longrightarrow> adds_calls calls (f x) (ending_in P U)"
  shows "adds_calls calls (bind_act m f) (ending_in P U)"
proof (rule adds_calls_mono [OF calls_append [OF assms]])
  show "only_calls P \<union> followed_by (only_calls P) (ending_in P U) \<subseteq> ending_in P U"
    unfolding followed_by_def using only_then_ending only_in_ending by blast
qed

lemma no_calls: "[] \<in> only_calls P"
  by (simp add: only_calls_def)

lemma ending_last:
  assumes "u \<in> U" and "adds_calls calls m {[u]}"
  shows "adds_calls calls m (ending_in P U)"
proof (rule adds_calls_mono [OF assms(2)])
  have "[] @ [u] \<in> ending_in P U" by (rule ending_inI [OF no_calls]) (use assms(1) in blast)
  then show "{[u]} \<subseteq> ending_in P U" by simp
qed

end
