(* ===== verification/Launcher.thy ===== *)
theory Launcher
  imports Transport Webhook Calls
begin

text \<open>
  \<open>executor/launcher.py\<close> and \<open>executor/service.py\<close>: the specification of a disposable container, its
  start through the Docker client, and the HTTP service that launches recipes. The Docker client is
  a parameter, the calls made on it are recorded in their order.
\<close>

section \<open>Containers\<close>

record executor_spec =
  es_run_id :: string
  es_source_sha :: string
  es_image :: string
  es_network :: string
  es_environment :: "(string \<times> string) list"
  es_working_directory :: string
  es_timeout_seconds :: int
  es_container_user :: string
  es_read_only_snapshot :: bool
  es_writable_output_only :: bool
  es_read_only_root_filesystem :: bool
  es_no_new_privileges :: bool
  es_dropped_capabilities :: bool
  es_docker_socket :: bool
  es_host_home :: bool

record mount =
  mt_target :: string
  mt_source :: path
  mt_read_only :: bool

text \<open>The arguments of \<open>client.containers.run\<close>.\<close>

record container_config =
  cc_image :: string
  cc_command :: "string list"
  cc_entrypoint :: string
  cc_network_mode :: string
  cc_read_only :: bool
  cc_cap_drop :: "string list"
  cc_security_opt :: "string list"
  cc_pids_limit :: int
  cc_mem_limit :: string
  cc_nano_cpus :: int
  cc_user :: string
  cc_working_dir :: string
  cc_tmpfs :: "(string \<times> string) list"
  cc_mounts :: "mount list"
  cc_environment :: "(string \<times> string) list"

text \<open>The calls on the client; a start is recorded with the number of the container, if one was started.\<close>

datatype docker_call =
    Containers_Run container_config "nat option"
  | Wait nat int
  | Remove nat
  | Close

text \<open>
  The state of a launch: the files, the calls made on the client, and the world of the Docker
  daemon. The client answers a start with the number of the container, a wait with the exit status
  it reports, if any; starting a container may change the files.
\<close>

record 'w host =
  ho_files :: files
  ho_calls :: "docker_call list"
  ho_docker :: 'w

record 'w docker_client =
  dk_open :: "unit res"
  dk_run :: "container_config \<Rightarrow> files \<times> 'w \<Rightarrow> nat res \<times> (files \<times> 'w)"
  dk_wait :: "nat \<Rightarrow> int \<Rightarrow> files \<times> 'w \<Rightarrow> int option res \<times> (files \<times> 'w)"
  dk_remove :: "nat \<Rightarrow> files \<times> 'w \<Rightarrow> unit res \<times> (files \<times> 'w)"

definition docker_call ::
    "('a res \<Rightarrow> docker_call) \<Rightarrow> (files \<times> 'w \<Rightarrow> 'a res \<times> (files \<times> 'w)) \<Rightarrow> ('w host, 'a) act" where
  "docker_call c f h = (case f (ho_files h, ho_docker h) of (r, fs, w) \<Rightarrow>
     (r, h\<lparr>ho_files := fs, ho_docker := w, ho_calls := ho_calls h @ [c r]\<rparr>))"

definition started :: "container_config \<Rightarrow> nat res \<Rightarrow> docker_call" where
  "started config r = Containers_Run config (case r of Inl e \<Rightarrow> None | Inr c \<Rightarrow> Some c)"

definition on_files :: "(files, 'a) act \<Rightarrow> ('w host, 'a) act" where
  "on_files m h = (case m (ho_files h) of (r, fs) \<Rightarrow> (r, h\<lparr>ho_files := fs\<rparr>))"

definition adapter_arguments :: "string list" where
  "adapter_arguments =
    [''--request'', ''/work/input/request.json'', ''--source'', ''/work/source'',
     ''--workspace'', ''/work/workspace'', ''--output'', ''/work/output'',
     ''--result'', ''/work/output/result.json'']"

definition container_config_of :: "executor_spec \<Rightarrow> mount list \<Rightarrow> container_config" where
  "container_config_of spec mounts =
    \<lparr>cc_image = es_image spec, cc_command = adapter_arguments,
     cc_entrypoint = ''agentic-lab-recipe-adapter'', cc_network_mode = ''none'', cc_read_only = True,
     cc_cap_drop = [''ALL''], cc_security_opt = [''no-new-privileges:true''], cc_pids_limit = 256,
     cc_mem_limit = ''1g'', cc_nano_cpus = 1000000000, cc_user = es_container_user spec,
     cc_working_dir = ''/work/workspace'',
     cc_tmpfs = [(''/tmp'', ''rw,noexec,nosuid,nodev,size=64m'')], cc_mounts = mounts, cc_environment = []\<rparr>"

definition spec_boundary :: "executor_spec \<Rightarrow> unit res" where
  "spec_boundary spec =
    (if es_environment spec \<noteq> [] \<or> es_network spec \<noteq> ''none''
     then Inl (ValueError ''executor environment and network must remain empty'')
     else if \<not> (es_read_only_snapshot spec \<and> es_writable_output_only spec \<and>
        es_read_only_root_filesystem spec \<and> es_no_new_privileges spec \<and> es_dropped_capabilities spec) \<or>
        es_docker_socket spec \<or> es_host_home spec
     then Inl (ValueError ''executor security boundary is incomplete'')
     else Inr ())"

definition container_mounts :: "prepared_transport \<Rightarrow> mount list res" where
  "container_mounts p =
    bind_res (host_path p (pt_source_directory p)) (\<lambda>source.
    bind_res (host_path p (pt_input_directory p)) (\<lambda>input.
    bind_res (host_path p (pt_workspace_directory p)) (\<lambda>workspace.
    bind_res (host_path p (pt_output_directory p)) (\<lambda>output.
      Inr [\<lparr>mt_target = ''/work/source'', mt_source = source, mt_read_only = True\<rparr>,
           \<lparr>mt_target = ''/work/input'', mt_source = input, mt_read_only = True\<rparr>,
           \<lparr>mt_target = ''/work/workspace'', mt_source = workspace, mt_read_only = False\<rparr>,
           \<lparr>mt_target = ''/work/output'', mt_source = output, mt_read_only = False\<rparr>]))))"

definition wait_exit :: "int option \<Rightarrow> string" where
  "wait_exit code = (case code of None \<Rightarrow> ''None'' | Some c \<Rightarrow> show_int c)"

text \<open>
  The block that starts, awaits and removes the container; the client is closed after the removal,
  and not at all when the removal raises.
\<close>

definition close_client :: "('w host, unit) act" where
  "close_client = docker_call (\<lambda>_. Close) (\<lambda>w. (Inr (), w))"

definition await_container :: "'w docker_client \<Rightarrow> nat \<Rightarrow> int \<Rightarrow> ('w host, unit) act" where
  "await_container client container timeout =
    bind_act (docker_call (\<lambda>_. Wait container timeout) (dk_wait client container timeout)) (\<lambda>code.
      if code = Some 0 then ret ()
      else throw (RuntimeError (''disposable executor failed with status '' @ wait_exit code)))"

definition run_container :: "'w docker_client \<Rightarrow> executor_spec \<Rightarrow> container_config \<Rightarrow> ('w host, unit) act" where
  "run_container client spec config = then_act (of_res (dk_open client))
    (try_else (docker_call (started config) (dk_run client config))
      (\<lambda>e. finally_do (throw e) close_client)
      (\<lambda>container. finally_do
        (await_container client container (es_timeout_seconds spec + 30))
        (then_act (docker_call (\<lambda>_. Remove container) (dk_remove client container)) close_client)))"

text \<open>What a container run needs besides its arguments: the readers and writers of JSON.\<close>

record runner =
  rn_transport :: executor_transport
  rn_dump_request :: "recipe_execution_request \<Rightarrow> string"
  rn_parse_result :: "string \<Rightarrow> recipe_execution_result res"

definition docker_run ::
  "runner \<Rightarrow> 'w docker_client \<Rightarrow> executor_spec \<Rightarrow> recipe_execution_request \<Rightarrow> snapshot \<Rightarrow>
   ('w host, recipe_execution_result) act" where
  "docker_run rn client spec q snap =
    bind_act (of_res (spec_boundary spec)) (\<lambda>_.
    bind_act (on_files (prepare (rn_dump_request rn) (rn_transport rn) snap q)) (\<lambda>p.
    bind_act (of_res (container_mounts p)) (\<lambda>mounts.
    bind_act (run_container client spec (container_config_of spec mounts)) (\<lambda>_.
      on_files (load_result (rn_parse_result rn) p q)))))"

section \<open>Launching a recipe\<close>

definition executor_spec_of :: "string \<Rightarrow> recipe_request \<Rightarrow> recipe \<Rightarrow> executor_spec" where
  "executor_spec_of user request r =
    \<lparr>es_run_id = rq_run_id request, es_source_sha = rq_source_sha request, es_image = re_image r,
     es_network = re_network r, es_environment = [], es_working_directory = re_working_directory r,
     es_timeout_seconds = re_timeout_seconds r, es_container_user = user,
     es_read_only_snapshot = True, es_writable_output_only = True, es_read_only_root_filesystem = True,
     es_no_new_privileges = True, es_dropped_capabilities = True, es_docker_socket = False,
     es_host_home = False\<rparr>"

definition execution_request_of ::
  "execution_manifest \<Rightarrow> recipe_request \<Rightarrow> recipe \<Rightarrow> recipe_execution_request" where
  "execution_request_of m request r =
    \<lparr>xr_run_id = rq_run_id request, xr_source_sha = rq_source_sha request,
     xr_manifest_version = em_manifest_version m, xr_recipe_name = rq_recipe_name request,
     xr_adapter = re_adapter r, xr_arguments = rq_arguments request, xr_image_digest = re_image r,
     xr_timeout_seconds = re_timeout_seconds r,
     xr_expected_output_artifacts = re_expected_output_artifacts r\<rparr>"

text \<open>The payload of the answer is the result with the hash of its canonical JSON text.\<close>

definition launch_recipe ::
  "(recipe_execution_result \<Rightarrow> string) \<Rightarrow> string \<Rightarrow> runner \<Rightarrow> 'w docker_client \<Rightarrow> execution_manifest \<Rightarrow>
   recipe_request \<Rightarrow> snapshot \<Rightarrow> ('w host, recipe_execution_result \<times> string) act" where
  "launch_recipe canonical user rn client m request snap =
    bind_act (of_res (validate_recipe_request m request)) (\<lambda>r.
    bind_act (of_res (validate_execution_request (execution_request_of m request r))) (\<lambda>q.
    bind_act (docker_run rn client (executor_spec_of user request r) q snap) (\<lambda>result.
    bind_act (of_res (verify_identity result q)) (\<lambda>_.
      ret (result, stable_result_hash canonical result)))))"

section \<open>The service\<close>

record recipe_launch_payload =
  rl_manifest :: execution_manifest
  rl_run_id :: string
  rl_source_sha :: string
  rl_recipe_name :: string
  rl_arguments :: "(string \<times> json) list"
  rl_snapshot_files :: "(string \<times> string) list"

definition validate_launch_payload :: "recipe_launch_payload \<Rightarrow> recipe_launch_payload res" where
  "validate_launch_payload p =
    bind_res (validate_manifest (rl_manifest p)) (\<lambda>_. bind_res
     (checks
      [(len_between 1 255 (rl_run_id p), ''field''),
       (len_between 40 64 (rl_source_sha p), ''field''),
       (len_between 1 100 (rl_recipe_name p), ''field''),
       (length (rl_snapshot_files p) \<le> 20000, ''field''),
       (sum_list (map (\<lambda>(_, content). length (utf8 content)) (rl_snapshot_files p)) \<le> 100000000,
        ''executor snapshot exceeds the transport size limit'')])
     (\<lambda>_. Inr p))"

definition run_recipe ::
  "settings \<Rightarrow> (recipe_execution_result \<Rightarrow> string) \<Rightarrow> string \<Rightarrow> runner \<Rightarrow> 'w docker_client \<Rightarrow>
   string option \<Rightarrow> recipe_launch_payload \<Rightarrow> ('w host, recipe_execution_result \<times> string) act" where
  "run_recipe st canonical user rn client token payload =
    bind_act (of_res (validate_launch_payload payload)) (\<lambda>payload.
    bind_act (of_res (case token of
        None \<Rightarrow> Inr False | Some t \<Rightarrow> compare_digest t (st_operator_token st))) (\<lambda>authentic.
    let m = rl_manifest payload in
    if \<not> authentic then throw (http_error 401 ''operator authentication required'')
    else if em_repository_id m \<notin> set (st_allowed_repository_ids st)
    then throw (http_error 403 ''repository is not allowlisted'')
    else case map_of (em_recipes m) (rl_recipe_name payload) of
        None \<Rightarrow> throw (http_error 422 ''unknown manifest recipe'')
      | Some r \<Rightarrow>
          if st_executor_image_digest st \<noteq> Some (re_image r)
          then throw (http_error 422 ''recipe image is not the configured digest'')
          else bind_act (of_res (make_snapshot (rl_source_sha payload) (rl_snapshot_files payload) []))
            (launch_recipe canonical user rn client m
               \<lparr>rq_run_id = rl_run_id payload, rq_source_sha = rl_source_sha payload,
                rq_recipe_name = rl_recipe_name payload, rq_arguments = rl_arguments payload\<rparr>)))"

section \<open>The calls on the Docker client\<close>

text \<open>What an action of a launch adds to the calls on the client.\<close>

abbreviation calls_in :: "('w host, 'a) act \<Rightarrow> docker_call list set \<Rightarrow> bool" where
  "calls_in \<equiv> adds_calls ho_calls"

lemma calls_on_files: "calls_in (on_files m) {[]}"
  by (rule adds_calls_silent) (simp add: on_files_def split: prod.splits)

lemma calls_docker: "calls_in (docker_call (\<lambda>_. c) f) {[c]}"
  by (auto simp: adds_calls_def docker_call_def split: prod.splits)

text \<open>
  The calls of one container: a start that failed is followed by the closing of the client; one that
  gave a container by the wait for it and its removal, and the closing unless the removal raises.
\<close>

definition container_calls :: "container_config \<Rightarrow> int \<Rightarrow> docker_call list set" where
  "container_calls cfg n = {[], [Containers_Run cfg None, Close]} \<union>
     (\<Union>c. {[Containers_Run cfg (Some c), Wait c n, Remove c], [Containers_Run cfg (Some c), Wait c n, Remove c, Close]})"

lemma calls_await: "calls_in (await_container client c n) {[Wait c n]}"
  unfolding await_container_def by (rule calls_then_silent [OF calls_docker]) (simp add: calls_ret calls_throw)

lemma calls_started:
  fixes f :: "files \<times> 'w \<Rightarrow> nat res \<times> (files \<times> 'w)"
  assumes "\<And>e. calls_in (h e) D" and "\<And>c. calls_in (k c) (E c)"
  shows "calls_in (try_else (docker_call (started cfg) f) h k)
    ({Containers_Run cfg None # ds | ds. ds \<in> D} \<union> (\<Union>c. {Containers_Run cfg (Some c) # ds | ds. ds \<in> E c}))"
  unfolding adds_calls_def
proof
  fix s :: "'w host"
  obtain r fs w where f: "f (ho_files s, ho_docker s) = (r, fs, w)" by (metis prod_cases3)
  let ?s = "s\<lparr>ho_files := fs, ho_docker := w, ho_calls := ho_calls s @ [started cfg r]\<rparr>"
  have run: "docker_call (started cfg) f s = (r, ?s)" using f by (simp add: docker_call_def)
  show "\<exists>cs \<in> {Containers_Run cfg None # ds | ds. ds \<in> D} \<union> (\<Union>c. {Containers_Run cfg (Some c) # ds | ds. ds \<in> E c}).
      ho_calls (snd (try_else (docker_call (started cfg) f) h k s)) = ho_calls s @ cs"
  proof (cases r)
    case (Inl e)
    from assms(1) [of e] obtain ds where "ds \<in> D" "ho_calls (snd (h e ?s)) = ho_calls ?s @ ds"
      unfolding adds_calls_def by blast
    with run Inl show ?thesis by (auto simp: started_def)
  next
    case (Inr c)
    from assms(2) [of c] obtain ds where "ds \<in> E c" "ho_calls (snd (k c ?s)) = ho_calls ?s @ ds"
      unfolding adds_calls_def by blast
    with run Inr show ?thesis by (auto simp: started_def)
  qed
qed

lemma calls_run_container: "calls_in (run_container client spec cfg) (container_calls cfg (es_timeout_seconds spec + 30))"
proof -
  have close: "calls_in close_client {[Close]}" by (simp add: close_client_def calls_docker)
  let ?n = "es_timeout_seconds spec + 30"
  have "calls_in (then_act (docker_call (\<lambda>_. Remove c) f) close_client) {[Remove c], [Remove c, Close]}" for c f
    unfolding then_act_def by (rule adds_calls_mono [OF calls_append [OF calls_docker close]]) (auto simp: followed_by_def)
  then have awaited: "calls_in (finally_do (await_container client c ?n)
      (then_act (docker_call (\<lambda>_. Remove c) (dk_remove client c)) close_client))
      {[Wait c ?n, Remove c], [Wait c ?n, Remove c, Close]}" for c
    by (rule adds_calls_mono [OF calls_finally [OF calls_await]]) (auto simp: followed_by_def)
  have failed: "calls_in (finally_do (throw e) close_client) {[Close]}" for e
    by (rule adds_calls_mono [OF calls_finally [OF calls_throw close]]) (auto simp: followed_by_def)
  show ?thesis unfolding run_container_def then_act_def [of "of_res (dk_open client)"]
  proof (rule calls_bind [OF calls_of_res])
    show "calls_in (try_else (docker_call (started cfg) (dk_run client cfg))
        (\<lambda>e. finally_do (throw e) close_client)
        (\<lambda>c. finally_do (await_container client c ?n)
           (then_act (docker_call (\<lambda>_. Remove c) (dk_remove client c)) close_client))) (container_calls cfg ?n)"
      by (rule adds_calls_mono [OF calls_started [OF failed awaited]]) (auto simp: container_calls_def)
  qed (simp add: container_calls_def)
qed

text \<open>The mounts of a prepared transport: the source and the request can only be read.\<close>

definition transport_mounts :: "executor_transport \<Rightarrow> recipe_execution_request \<Rightarrow> mount list" where
  "transport_mounts tr q = (let d = tp_host_root tr @ [run_key q] in
     [\<lparr>mt_target = ''/work/source'', mt_source = d @ [''source''], mt_read_only = True\<rparr>,
      \<lparr>mt_target = ''/work/input'', mt_source = d @ [''input''], mt_read_only = True\<rparr>,
      \<lparr>mt_target = ''/work/workspace'', mt_source = d @ [''workspace''], mt_read_only = False\<rparr>,
      \<lparr>mt_target = ''/work/output'', mt_source = d @ [''output''], mt_read_only = False\<rparr>])"

lemma host_path_below: "host_path p (pt_run_root p @ r) = Inr (pt_host_run_root p @ r)"
  by (simp add: host_path_def)

lemma container_mounts_prepared: "container_mounts (prepared tr q) = Inr (transport_mounts tr q)"
  using host_path_below [of "prepared tr q"]
  by (simp add: container_mounts_def transport_mounts_def prepared_def Let_def)

lemma prepare_prepared: "prepare dump tr snap q fs = (Inr p, t) \<Longrightarrow> p = prepared tr q"
  by (auto simp: prepare_def Let_def act_returns simp del: for_each.simps split: if_splits)

lemma calls_docker_run:
  "calls_in (docker_run rn client spec q snap)
     (container_calls (container_config_of spec (transport_mounts (rn_transport rn) q)) (es_timeout_seconds spec + 30))" (is "calls_in _ ?C")
proof -
  have none: "[] \<in> ?C" by (simp add: container_calls_def)
  have "calls_in (bind_act (of_res (container_mounts p)) (\<lambda>mounts.
      bind_act (run_container client spec (container_config_of spec mounts)) (\<lambda>_.
        on_files (load_result (rn_parse_result rn) p q)))) ?C"
    if "p = prepared (rn_transport rn) q" for p
  proof (rule calls_bind [OF calls_of_res _ none])
    fix h :: "'a host" and mounts t
    assume "of_res (container_mounts p) h = (Inr mounts, t)"
    then have "mounts = transport_mounts (rn_transport rn) q"
      by (simp add: that container_mounts_prepared act_returns)
    then show "calls_in (bind_act (run_container client spec (container_config_of spec mounts))
        (\<lambda>_. on_files (load_result (rn_parse_result rn) p q))) ?C"
      by (auto intro: calls_then_silent [OF calls_run_container calls_on_files])
  qed
  note started = this
  show ?thesis unfolding docker_run_def
  proof (rule calls_bind [OF calls_of_res _ none], rule calls_bind [OF calls_on_files _ none])
    fix h :: "'a host" and p t
    assume "on_files (prepare (rn_dump_request rn) (rn_transport rn) snap q) h = (Inr p, t)"
    then have "p = prepared (rn_transport rn) q"
      by (auto simp: on_files_def dest: prepare_prepared split: prod.splits)
    then show "calls_in (bind_act (of_res (container_mounts p)) (\<lambda>mounts.
        bind_act (run_container client spec (container_config_of spec mounts)) (\<lambda>_.
          on_files (load_result (rn_parse_result rn) p q)))) ?C" by (rule started)
  qed
qed

text \<open>
  An isolated container: no network, no environment, a read-only root, no capabilities, and its mounts
  are four directories of one run below the root on the host, each at its own place; the source and
  the request can only be read.
\<close>

definition isolated :: "executor_transport \<Rightarrow> container_config \<Rightarrow> bool" where
  "isolated tr cfg \<longleftrightarrow> cc_network_mode cfg = ''none'' \<and> cc_environment cfg = [] \<and> cc_read_only cfg \<and>
     cc_cap_drop cfg = [''ALL''] \<and> cc_security_opt cfg = [''no-new-privileges:true''] \<and>
     cc_entrypoint cfg = ''agentic-lab-recipe-adapter'' \<and> cc_command cfg = adapter_arguments \<and>
     (\<exists>key. cc_mounts cfg =
        [\<lparr>mt_target = ''/work/source'', mt_source = tp_host_root tr @ [key, ''source''], mt_read_only = True\<rparr>,
         \<lparr>mt_target = ''/work/input'', mt_source = tp_host_root tr @ [key, ''input''], mt_read_only = True\<rparr>,
         \<lparr>mt_target = ''/work/workspace'', mt_source = tp_host_root tr @ [key, ''workspace''], mt_read_only = False\<rparr>,
         \<lparr>mt_target = ''/work/output'', mt_source = tp_host_root tr @ [key, ''output''], mt_read_only = False\<rparr>])"

lemma isolated_config: "isolated tr (container_config_of spec (transport_mounts tr q))"
  by (auto simp: isolated_def container_config_of_def transport_mounts_def Let_def)

definition isolated_calls :: "executor_transport \<Rightarrow> string \<Rightarrow> docker_call list set" where
  "isolated_calls tr digest =
     {cs. cs = [] \<or> (\<exists>cfg n. isolated tr cfg \<and> cc_image cfg = digest \<and> cs \<in> container_calls cfg n)}"

lemma calls_launch_recipe:
  assumes "map_of (em_recipes m) (rq_recipe_name request) = Some r"
  shows "calls_in (launch_recipe canonical user rn client m request snap)
     (isolated_calls (rn_transport rn) (re_image r))" (is "calls_in _ ?C")
proof -
  have none: "[] \<in> ?C" by (simp add: isolated_calls_def)
  have image: "cc_image (container_config_of (executor_spec_of user request r) ms) = re_image r" for ms
    by (simp add: container_config_of_def executor_spec_of_def)
  have run: "calls_in (docker_run rn client (executor_spec_of user request r) q snap) ?C" for q
    using isolated_config [of "rn_transport rn" "executor_spec_of user request r" q] image
    by (intro adds_calls_mono [OF calls_docker_run]) (auto simp: isolated_calls_def)
  have "calls_in (bind_act (docker_run rn client (executor_spec_of user request r) q snap) (\<lambda>result.
      bind_act (of_res (verify_identity result q)) (\<lambda>_. ret (result, stable_result_hash canonical result)))) ?C" for q
    by (intro calls_then_silent [OF run] calls_bind_res) (auto intro: calls_ret)
  moreover have "r' = r" if "validate_recipe_request m request = Inr r'" for r'
    using that assms by (auto simp: validate_recipe_request_def bind_res_Inr_iff split: if_splits)
  ultimately show ?thesis
    unfolding launch_recipe_def by (intro calls_bind_res) (auto simp: none)
qed

text \<open>
  C21: Whatever the client answers and however a request to the service ends, the calls on the Docker
  client are none, or one start of a container of the configured image, without network,
  capabilities or environment, over a read-only root, with the four directories of one run as its
  mounts, of which only that run's workspace and output can be written. When the start gave no
  container the client is closed; when it gave one, that container is awaited and its removal asked
  for, and then the client is closed unless the removal raised.
\<close>

theorem containers_are_isolated_and_removed:
  "\<exists>calls. ho_calls (snd (run_recipe st canonical user rn client token payload h)) = ho_calls h @ calls \<and>
     (calls = [] \<or> (\<exists>cfg. isolated (rn_transport rn) cfg \<and>
        st_executor_image_digest st = Some (cc_image cfg) \<and>
        (calls = [Containers_Run cfg None, Close] \<or>
         (\<exists>c n. calls = [Containers_Run cfg (Some c), Wait c n, Remove c] \<or>
            calls = [Containers_Run cfg (Some c), Wait c n, Remove c, Close]))))"
proof -
  let ?C = "{cs. cs = [] \<or> (\<exists>digest. st_executor_image_digest st = Some digest \<and>
      cs \<in> isolated_calls (rn_transport rn) digest)}"
  have none: "[] \<in> ?C" by simp
  have "calls_in (run_recipe st canonical user rn client token payload) ?C"
    unfolding run_recipe_def Let_def
    by (intro calls_bind_res none)
      (auto intro!: calls_bind_res adds_calls_mono [OF calls_throw] adds_calls_mono [OF calls_launch_recipe]
        simp: isolated_calls_def split: option.splits)
  then obtain cs where cs: "cs \<in> ?C"
    "ho_calls (snd (run_recipe st canonical user rn client token payload h)) = ho_calls h @ cs"
    by (auto simp: adds_calls_def)
  then show ?thesis by (auto simp: isolated_calls_def container_calls_def)
qed

section \<open>What a launch that returns has checked\<close>

lemma on_files_Inr: "on_files m h = (Inr x, h') \<longleftrightarrow> (\<exists>fs. m (ho_files h) = (Inr x, fs) \<and> h' = h\<lparr>ho_files := fs\<rparr>)"
  by (auto simp: on_files_def split: prod.splits)

lemma docker_run_Inr:
  assumes "docker_run rn client spec q snap h = (Inr r, h')"
  shows "verify_identity r q = Inr () \<and> validate_execution_result r = Inr r \<and>
     set (xr_expected_output_artifacts q) \<subseteq> set (map oa_path (xs_artifacts r)) \<and>
     (\<forall>a \<in> set (xs_artifacts r).
        verified_artifact (ho_files h') (tp_root (rn_transport rn) @ [run_key q, ''output'']) a)"
proof -
  from assms obtain p s t fs where "prepare (rn_dump_request rn) (rn_transport rn) snap q s = (Inr p, t)"
    and load: "load_result (rn_parse_result rn) p q fs = (Inr r, ho_files h')"
    by (auto simp: docker_run_def act_returns on_files_Inr)
  then have "p = prepared (rn_transport rn) q" using prepare_prepared by blast
  with load_result_Inr [of "rn_parse_result rn" "rn_transport rn" q fs r "ho_files h'"] load show ?thesis
    by (auto simp: prepared_def Let_def)
qed

lemma run_recipe_Inr:
  assumes "run_recipe st canonical user rn client token payload h = (Inr (r, digest), h')"
  obtains recipe snap where "token = Some (st_operator_token st)"
    and "validate_launch_payload payload = Inr payload"
    and "em_repository_id (rl_manifest payload) \<in> set (st_allowed_repository_ids st)"
    and "map_of (em_recipes (rl_manifest payload)) (rl_recipe_name payload) = Some recipe"
    and "st_executor_image_digest st = Some (re_image recipe)"
    and "launch_recipe canonical user rn client (rl_manifest payload)
       \<lparr>rq_run_id = rl_run_id payload, rq_source_sha = rl_source_sha payload,
        rq_recipe_name = rl_recipe_name payload, rq_arguments = rl_arguments payload\<rparr> snap h = (Inr (r, digest), h')"
proof -
  have "p = payload" if "validate_launch_payload payload = Inr p" for p
    using that by (auto simp: validate_launch_payload_def bind_res_Inr_iff)
  with assms that show ?thesis
    unfolding run_recipe_def Let_def act_returns
    by (auto simp: compare_digest_def act_returns split: option.splits if_splits)
qed

text \<open>
  C22: A launch returns a result only to the holder of the operator token, for a recipe of an
  allowlisted repository's manifest with the configured image. The result carries the identity of
  the request (run, SHA, version of the manifest, recipe, adapter and image), ends after it starts and
  names every expected artifact; the path of every artifact it names leads to a regular file, itself
  no link, inside the output directory, which has the size and the SHA-256 hash the result states;
  the answer's hash is that of the result.
\<close>

theorem launch_returns_only_verified_results:
  assumes "run_recipe st canonical user rn client token payload h = (Inr (r, digest), h')"
  shows "token = Some (st_operator_token st) \<and>
     em_repository_id (rl_manifest payload) \<in> set (st_allowed_repository_ids st) \<and>
     digest = stable_result_hash canonical r \<and> xs_started_at r \<le> xs_finished_at r \<and>
     (\<exists>recipe. map_of (em_recipes (rl_manifest payload)) (rl_recipe_name payload) = Some recipe \<and>
        st_executor_image_digest st = Some (re_image recipe) \<and> validate_recipe recipe = Inr recipe \<and>
        xs_run_id r = rl_run_id payload \<and> xs_source_sha r = rl_source_sha payload \<and>
        xs_manifest_version r = em_manifest_version (rl_manifest payload) \<and>
        xs_recipe_name r = rl_recipe_name payload \<and> xs_image_digest r = re_image recipe \<and>
        xs_adapter r = adapter_value (re_adapter recipe) \<and>
        set (re_expected_output_artifacts recipe) \<subseteq> set (map oa_path (xs_artifacts r)) \<and>
        (\<forall>a \<in> set (xs_artifacts r). verified_artifact (ho_files h') (tp_root (rn_transport rn) @
           [take 24 (sha256_hex (utf8 (rl_run_id payload @ '':'' @ rl_recipe_name payload))), ''output'']) a))"
proof -
  from assms obtain recipe snap where auth: "token = Some (st_operator_token st)"
    and valid: "validate_launch_payload payload = Inr payload"
    and allowed: "em_repository_id (rl_manifest payload) \<in> set (st_allowed_repository_ids st)"
    and recipe: "map_of (em_recipes (rl_manifest payload)) (rl_recipe_name payload) = Some recipe"
      "st_executor_image_digest st = Some (re_image recipe)"
    and launch: "launch_recipe canonical user rn client (rl_manifest payload)
       \<lparr>rq_run_id = rl_run_id payload, rq_source_sha = rl_source_sha payload,
        rq_recipe_name = rl_recipe_name payload, rq_arguments = rl_arguments payload\<rparr> snap h = (Inr (r, digest), h')"
    by (rule run_recipe_Inr)
  have "validate_manifest (rl_manifest payload) = Inr (rl_manifest payload)"
    using valid validate_manifest_Inr(1) by (force simp: validate_launch_payload_def bind_res_Inr_iff)
  then have checked: "validate_recipe recipe = Inr recipe"
    using validate_manifest_Inr(1) map_of_SomeD [OF recipe(1)] by fastforce
  let ?request = "\<lparr>rq_run_id = rl_run_id payload, rq_source_sha = rl_source_sha payload,
        rq_recipe_name = rl_recipe_name payload, rq_arguments = rl_arguments payload\<rparr>"
  from launch obtain recipe' q where r': "validate_recipe_request (rl_manifest payload) ?request = Inr recipe'"
    and q: "validate_execution_request (execution_request_of (rl_manifest payload) ?request recipe') = Inr q"
    and run: "docker_run rn client (executor_spec_of user ?request recipe') q snap h = (Inr r, h')"
    and digest: "digest = stable_result_hash canonical r"
    by (auto simp: launch_recipe_def act_returns)
  have "recipe' = recipe"
    using r' recipe(1) by (auto simp: validate_recipe_request_def bind_res_Inr_iff split: if_splits)
  with q have "q = execution_request_of (rl_manifest payload) ?request recipe"
    by (auto simp: validate_execution_request_def bind_res_Inr_iff)
  with docker_run_Inr [OF run] show ?thesis
    using auth allowed recipe checked digest
    by (auto simp: verify_identity_def same_identity_def execution_request_of_def run_key_def split: if_splits)
qed

text \<open>A launch that returns: a recipe of the example repository, and a client whose container writes a result.\<close>

definition example_recipe :: recipe where
  "example_recipe = \<lparr>re_kind = Validate_Recipe,
     re_image = ''ghcr.io/lab@sha256:'' @ replicate 64 (CHR ''a''), re_adapter = Noop_V1,
     re_working_directory = ''/work/workspace'', re_arguments_schema = ''none_v1'',
     re_timeout_seconds = 60, re_network = ''none'', re_required_local_services = [],
     re_expected_output_artifacts = []\<rparr>"

definition example_launch :: recipe_launch_payload where
  "example_launch = \<lparr>rl_manifest = (example_manifest ''1'')\<lparr>em_recipes := [(''unit'', example_recipe)]\<rparr>,
     rl_run_id = ''7'', rl_source_sha = example_sha, rl_recipe_name = ''unit'', rl_arguments = [],
     rl_snapshot_files = [(''src/a.py'', ''x = 1''), (''b.py'', ''y'')]\<rparr>"

definition example_client :: "unit docker_client" where
  "example_client = \<lparr>dk_open = Inr (),
     dk_run = (\<lambda>cfg (fs, w). (Inr 1,
        (put_node (mt_source (cc_mounts cfg ! 3) @ [''result.json'']) (Regular ''{}'' 420) fs, w))),
     dk_wait = (\<lambda>_ _ w. (Inr (Some 0), w)), dk_remove = (\<lambda>_ w. (Inr (), w))\<rparr>"

definition example_result :: recipe_execution_result where
  "example_result = \<lparr>xs_run_id = ''7'', xs_source_sha = example_sha, xs_manifest_version = ''1'',
     xs_recipe_name = ''unit'', xs_adapter = ''noop_v1'', xs_image_digest = re_image example_recipe,
     xs_started_at = 0, xs_finished_at = 1, xs_exit_code = 0, xs_stdout_hash = sha256_hex [],
     xs_stderr_hash = sha256_hex [], xs_stdout_excerpt = [], xs_stderr_excerpt = [], xs_redacted = False,
     xs_artifacts = []\<rparr>"

definition example_runner :: runner where
  "example_runner = \<lparr>rn_transport = \<lparr>tp_root = [], tp_host_root = []\<rparr>, rn_dump_request = (\<lambda>_. ''{}''),
     rn_parse_result = (\<lambda>_. Inr example_result)\<rparr>"

definition example_execution :: recipe_execution_request where
  "example_execution = \<lparr>xr_run_id = ''7'', xr_source_sha = example_sha, xr_manifest_version = ''1'',
     xr_recipe_name = ''unit'', xr_adapter = Noop_V1, xr_arguments = [], xr_image_digest = re_image example_recipe,
     xr_timeout_seconds = 60, xr_expected_output_artifacts = []\<rparr>"

lemma example_image: "immutable_image (re_image example_recipe)"
  by code_simp

lemma example_result_accepted:
  "validate_execution_result example_result = Inr example_result"
  "verify_identity example_result example_execution = Inr ()"
  "xr_expected_output_artifacts example_execution = []" "xs_artifacts example_result = []"
  "decode_text ''{}'' = Inr ''{}''"
proof -
  show "decode_text ''{}'' = Inr ''{}''" by code_simp
  show "validate_execution_result example_result = Inr example_result"
    unfolding validate_execution_result_def bind_res_Inr_iff checks_Inr by (simp add: example_result_def)
qed (simp_all add: verify_identity_def same_identity_def example_result_def example_execution_def)

lemma example_launch_valid: "validate_launch_payload example_launch = Inr example_launch"
proof -
  have "validate_manifest (example_manifest ''1'') = Inr (example_manifest ''1'')" by code_simp
  moreover have "validate_recipe example_recipe = Inr example_recipe"
    unfolding validate_recipe_Inr using example_image by (simp add: example_recipe_def)
  ultimately have "validate_manifest ((example_manifest ''1'')\<lparr>em_recipes := [(''unit'', example_recipe)]\<rparr>) =
      Inr ((example_manifest ''1'')\<lparr>em_recipes := [(''unit'', example_recipe)]\<rparr>)"
    by (simp add: validate_manifest_def bind_res_Inr_iff checks_Inr check_all_Inr example_manifest_def)
  then show ?thesis
    unfolding validate_launch_payload_def bind_res_Inr_iff checks_Inr
    by (simp add: example_launch_def len_between_def example_sha_def utf8_def utf8_char_def)
qed

lemma example_docker_run:
  "\<exists>h. docker_run example_runner example_client (executor_spec_of user req example_recipe) example_execution
     example_source \<lparr>ho_files = [], ho_calls = [], ho_docker = ()\<rparr> = (Inr example_result, h)"
proof -
  let ?k = "run_key example_execution"
  from example_prepare [of example_execution] obtain t
    where t: "prepare (\<lambda>_. ''{}'') \<lparr>tp_root = [], tp_host_root = []\<rparr> example_source example_execution [] =
        (Inr (prepared \<lparr>tp_root = [], tp_host_root = []\<rparr> example_execution), t)"
      and out: "node_at t [?k, ''output''] = Some (Folder 448)"
    by (auto simp: example_execution_def)
  let ?t = "put_node [?k, ''output'', ''result.json''] (Regular ''{}'' 420) t"
  have calm: "calm t [?k]"
    using prepare_Inr [OF _ _ t] by (simp add: prepared_def Let_def tree_ok_def real_folder_def node_at_def)
  have "is_folder_node (node_at t [?k])" "is_folder_node (node_at t [])"
    using calm by (auto simp: calm_def real_folder_def node_at_def dest: spec [of _ 1])
  then have reached: "reach ?t [?k, ''output'', ''result.json''] = Some [?k, ''output'', ''result.json'']"
    "entry ?t [?k, ''output'', ''result.json''] = Some [?k, ''output'', ''result.json'']"
    using run_key_dotless [of example_execution] out
    by (auto simp: reach_def entry_def follow_plain folder_no_link)
  have "stat_node ?t [?k, ''output'', ''result.json''] = Some (Regular ''{}'' 420)"
    by (simp add: stat_node_def reached)
  then have "load_result (\<lambda>_. Inr example_result) (prepared \<lparr>tp_root = [], tp_host_root = []\<rparr> example_execution)
      example_execution ?t = (Inr example_result, ?t)"
    using reached
    by (simp add: load_result_def prepared_def Let_def is_file_def is_symlink_def read_bytes_def act_defs
        example_result_accepted)
  then show ?thesis
    using t
    by (simp add: docker_run_def spec_boundary_def executor_spec_of_def example_recipe_def act_defs on_files_def
        example_runner_def container_mounts_prepared run_container_def example_client_def docker_call_def started_def
        try_else_def finally_do_def await_container_def close_client_def container_config_of_def
        transport_mounts_def Let_def)
qed

theorem launch_returns_only_verified_results_witness:
  "\<exists>digest h. run_recipe (example_settings\<lparr>st_executor_image_digest := Some (re_image example_recipe)\<rparr>)
     (\<lambda>_. ''{}'') ''1000:1000'' example_runner example_client (Some ''o'') example_launch
     \<lparr>ho_files = [], ho_calls = [], ho_docker = ()\<rparr> = (Inr (example_result, digest), h) \<and>
     digest = stable_result_hash (\<lambda>_. ''{}'') example_result \<and> xs_run_id example_result = rl_run_id example_launch"
proof -
  let ?st = "example_settings\<lparr>st_executor_image_digest := Some (re_image example_recipe)\<rparr>"
  let ?m = "rl_manifest example_launch"
  let ?req = "\<lparr>rq_run_id = ''7'', rq_source_sha = example_sha, rq_recipe_name = ''unit'', rq_arguments = []\<rparr>"
  let ?h = "\<lparr>ho_files = [], ho_calls = [], ho_docker = ()\<rparr>"
  have request: "validate_recipe_request ?m ?req = Inr example_recipe" by code_simp
  have execution: "validate_execution_request (execution_request_of ?m ?req example_recipe) = Inr example_execution"
    by code_simp
  have snap: "make_snapshot example_sha (rl_snapshot_files example_launch) [] = Inr example_source" by code_simp
  obtain h where run: "docker_run example_runner example_client (executor_spec_of ''1000:1000'' ?req example_recipe)
      example_execution example_source ?h = (Inr example_result, h)"
    using example_docker_run by blast
  have launch: "launch_recipe (\<lambda>_. ''{}'') ''1000:1000'' example_runner example_client ?m ?req example_source ?h =
      (Inr (example_result, sha256_hex (utf8 ''{}'')), h)"
    by (simp add: launch_recipe_def request execution run example_result_accepted stable_result_hash_def act_defs)
  then have returns: "run_recipe ?st (\<lambda>_. ''{}'') ''1000:1000'' example_runner example_client (Some ''o'') example_launch ?h =
      (Inr (example_result, sha256_hex (utf8 ''{}'')), h)"
    using snap
    by (simp add: run_recipe_def example_launch_valid act_defs compare_digest_def example_settings_def
        default_settings_def, simp add: example_launch_def example_manifest_def)
  from launch_returns_only_verified_results [OF returns] returns show ?thesis by blast
qed

end
