(* ===== verification/GithubApi.thy ===== *)
theory GithubApi
  imports Json Calls Snapshot
begin

text \<open>
  What the GitHub adapters share: the HTTP client and its answers, the reading of JSON payloads,
  \<open>gateway/github_app.py\<close> with the installation token, the canonical name of a repository, Base64
  and the quoting of URL paths. The client is a parameter over its own world, and the requests made
  are recorded in their order; the signed JSON Web Token of the app is a parameter, too.
\<close>

section \<open>Requests and answers\<close>

type_synonym http_headers = "(string \<times> string) list"

datatype http_request =
    Http_Get string http_headers "(string \<times> string) list"
  | Http_Stream string http_headers
  | Http_Post string http_headers json
  | Http_Patch string http_headers json

text \<open>The status, what \<open>json()\<close> gives, and the chunks of a streamed body.\<close>

record http_response =
  hr_status :: int
  hr_json :: "json res"
  hr_chunks :: "bytes list"

text \<open>The log has every request sent, in order, with what came of it.\<close>

record 'w hub =
  hub_log :: "(http_request \<times> http_response res) list"
  hub_world :: 'w

definition hub_calls :: "'w hub \<Rightarrow> http_request list" where
  "hub_calls h = map fst (hub_log h)"

type_synonym 'w http_client = "http_request \<Rightarrow> 'w \<Rightarrow> http_response res \<times> 'w"

definition send :: "'w http_client \<Rightarrow> http_request \<Rightarrow> ('w hub, http_response) act" where
  "send client request h = (case client request (hub_world h) of (r, w) \<Rightarrow>
     (r, h\<lparr>hub_log := hub_log h @ [(request, r)], hub_world := w\<rparr>))"

definition status_error :: exn where "status_error = OtherError ''HTTPStatusError'' ''unsuccessful status''"

definition successful :: "http_response \<Rightarrow> bool" where
  "successful r \<longleftrightarrow> 200 \<le> hr_status r \<and> hr_status r < 300"

definition raise_for_status :: "http_response \<Rightarrow> http_response res" where
  "raise_for_status r = (if successful r then Inr r else Inl status_error)"

definition send_json :: "'w http_client \<Rightarrow> http_request \<Rightarrow> ('w hub, json) act" where
  "send_json client request = bind_act (send client request) (\<lambda>r. of_res (bind_res (raise_for_status r) hr_json))"

text \<open>\<open>payload.get(key)\<close> and \<open>payload.get(key, default)\<close> of a value that may be no dictionary.\<close>

definition no_attribute :: exn where "no_attribute = OtherError ''AttributeError'' ''get''"

definition dict_get :: "json \<Rightarrow> string \<Rightarrow> json res" where
  "dict_get j key = (case as_obj j of None \<Rightarrow> Inl no_attribute | Some d \<Rightarrow> Inr (jget d key))"

definition dict_get_or :: "json \<Rightarrow> string \<Rightarrow> json \<Rightarrow> json res" where
  "dict_get_or j key dflt = (case as_obj j of
     None \<Rightarrow> Inl no_attribute
   | Some d \<Rightarrow> Inr (case map_of d key of None \<Rightarrow> dflt | Some v \<Rightarrow> v))"

text \<open>What a request was answered with: a response of success whose body is this JSON value.\<close>

definition answered :: "(http_request \<times> http_response res) list \<Rightarrow> http_request \<Rightarrow> json \<Rightarrow> bool" where
  "answered sent request j \<longleftrightarrow> (\<exists>r. (request, Inr r) \<in> set sent \<and> successful r \<and> hr_json r = Inr j)"

lemma answered_append [simp]: "answered (l @ k) r j \<longleftrightarrow> answered l r j \<or> answered k r j"
  by (auto simp: answered_def)

lemma raise_for_status_Inr: "raise_for_status r = Inr x \<longleftrightarrow> x = r \<and> successful r"
  by (auto simp: raise_for_status_def)

lemma send_log: "send client request h = (r, h') \<Longrightarrow> hub_log h' = hub_log h @ [(request, r)]"
  by (auto simp: send_def split: prod.splits)

text \<open>A request whose JSON answer is returned is one entry of the log.\<close>

lemma send_json_returned:
  assumes "send_json client request h = (Inr j, h')"
  shows "\<exists>entry. hub_log h' = hub_log h @ [entry] \<and> fst entry = request \<and> answered [entry] request j"
proof -
  from assms obtain r where "send client request h = (Inr r, h')" "successful r" "hr_json r = Inr j"
    by (auto simp: send_json_def act_returns bind_res_Inr_iff raise_for_status_Inr)
  then show ?thesis by (auto dest!: send_log simp: answered_def)
qed

text \<open>Whatever its outcome, it is one request.\<close>

lemma calls_send: "adds_calls hub_calls (send client request) {[request]}"
  by (simp add: adds_calls_def send_def hub_calls_def split: prod.splits)

lemma calls_send_json: "adds_calls hub_calls (send_json client request) {[request]}"
  unfolding send_json_def by (rule calls_then_silent [OF calls_send calls_of_res])

section \<open>The installation token\<close>

text \<open>The text of an integer value in a formatted string.\<close>

fun json_int_text :: "json \<Rightarrow> string" where
  "json_int_text (JBool b) = (if b then ''True'' else ''False'')"
| "json_int_text (JInt i) = show_int i"
| "json_int_text _ = []"

definition auth_headers :: "string \<Rightarrow> http_headers" where
  "auth_headers token = [(''Accept'', ''application/vnd.github+json''),
     (''Authorization'', ''Bearer '' @ token), (''X-GitHub-Api-Version'', ''2022-11-28'')]"

definition permissions_json :: "(string \<times> string) list \<Rightarrow> json" where
  "permissions_json ps = JObj (map (\<lambda>(k, v). (k, JStr v)) ps)"

definition installation_token ::
    "'w http_client \<Rightarrow> string \<Rightarrow> int \<Rightarrow> (string \<times> string) list \<Rightarrow> ('w hub, string) act" where
  "installation_token client app_jwt repository_id permissions =
    bind_act (send_json client (Http_Get
        (''/repositories/'' @ show_int repository_id @ ''/installation'') (auth_headers app_jwt) [])) (\<lambda>installation.
    bind_act (of_res (dict_get installation ''id'')) (\<lambda>installation_id.
      if as_int installation_id = None then throw (ValueError ''GitHub installation response is missing its ID'')
      else bind_act (send_json client (Http_Post
          (''/app/installations/'' @ json_int_text installation_id @ ''/access_tokens'') (auth_headers app_jwt)
          (JObj [(''repository_ids'', JArr [JInt repository_id]), (''permissions'', permissions_json permissions)])))
        (\<lambda>answer. bind_act (of_res (dict_get answer ''token'')) (\<lambda>token. case as_str token of
            None \<Rightarrow> throw (ValueError ''GitHub token response is invalid'')
          | Some t \<Rightarrow> if t = [] then throw (ValueError ''GitHub token response is invalid'') else ret t))))"

definition repository_name :: "'w http_client \<Rightarrow> int \<Rightarrow> string \<Rightarrow> ('w hub, string) act" where
  "repository_name client repository_id token =
    bind_act (send_json client (Http_Get (''/repositories/'' @ show_int repository_id) (auth_headers token) []))
      (\<lambda>payload. bind_act (of_res (dict_get payload ''full_name'')) (\<lambda>full_name. case as_str full_name of
          None \<Rightarrow> throw (ValueError ''GitHub repository response is missing its canonical name'')
        | Some n \<Rightarrow> if length (filter (\<lambda>c. c = CHR ''/'') n) \<noteq> 1
            then throw (ValueError ''GitHub repository response is missing its canonical name'') else ret n))"

section \<open>Quoting\<close>

definition unreserved :: "char \<Rightarrow> bool" where
  "unreserved c = (is_ascii_alnum c \<or> c \<in> set ''_.-~'')"

definition upper_hex :: "nat \<Rightarrow> char" where
  "upper_hex n = (if n mod 16 < 10 then char_of (48 + n mod 16) else char_of (55 + n mod 16))"

definition url_quote :: "string \<Rightarrow> string \<Rightarrow> string" where
  "url_quote safe s = concat (map (\<lambda>c.
     if unreserved c \<or> c \<in> set safe then [c]
     else concat (map (\<lambda>b. [CHR ''%'', upper_hex (of_char b div 16), upper_hex (of_char b)]) (utf8_char c))) s)"

section \<open>Base64\<close>

definition b64_char :: "nat \<Rightarrow> char" where
  "b64_char n = (if n < 26 then char_of (65 + n) else if n < 52 then char_of (71 + n)
     else if n < 62 then char_of (n - 4) else if n = 62 then CHR ''+'' else CHR ''/'')"

definition b64_value :: "char \<Rightarrow> nat option" where
  "b64_value c = (let n = (of_char c :: nat) in
     if 65 \<le> n \<and> n \<le> 90 then Some (n - 65) else if 97 \<le> n \<and> n \<le> 122 then Some (n - 71)
     else if 48 \<le> n \<and> n \<le> 57 then Some (n + 4) else if n = 43 then Some 62 else if n = 47 then Some 63
     else None)"

fun b64_encode :: "bytes \<Rightarrow> string" where
  "b64_encode [] = []"
| "b64_encode [a] = (let x = (of_char a :: nat) in [b64_char (x div 4), b64_char (x mod 4 * 16), CHR ''='', CHR ''=''])"
| "b64_encode [a, b] = (let x = (of_char a :: nat); y = of_char b in
     [b64_char (x div 4), b64_char (x mod 4 * 16 + y div 16), b64_char (y mod 16 * 4), CHR ''=''])"
| "b64_encode (a # b # c # r) = (let x = (of_char a :: nat); y = of_char b; z = of_char c in
     [b64_char (x div 4), b64_char (x mod 4 * 16 + y div 16), b64_char (y mod 16 * 4 + z div 64),
      b64_char (z mod 64)] @ b64_encode r)"

text \<open>
  \<open>b64decode(validate=True)\<close>: digits followed by pads only, and no pad first; a last group of two digits
  needs two pads, one of three digits one pad, and a single digit is refused. Pads after whole groups
  are ignored.
\<close>

fun b64_groups :: "nat list \<Rightarrow> nat \<Rightarrow> bytes option" where
  "b64_groups [] p = Some []"
| "b64_groups [a] p = None"
| "b64_groups [a, b] p = (if p = 2 then Some [char_of (a * 4 + b div 16)] else None)"
| "b64_groups [a, b, c] p = (if p = 1
     then Some [char_of (a * 4 + b div 16), char_of (b mod 16 * 16 + c div 4)] else None)"
| "b64_groups (a # b # c # d # r) p = map_option (\<lambda>t. [char_of (a * 4 + b div 16),
     char_of (b mod 16 * 16 + c div 4), char_of (c mod 4 * 64 + d)] @ t) (b64_groups r p)"

definition b64_decode :: "string \<Rightarrow> bytes option" where
  "b64_decode s = (let digits = takeWhile (\<lambda>c. c \<noteq> CHR ''='') s; pads = dropWhile (\<lambda>c. c \<noteq> CHR ''='') s in
     if starts_with ''='' s \<or> \<not> list_all (\<lambda>c. c = CHR ''='') pads \<or> \<not> list_all (\<lambda>c. b64_value c \<noteq> None) digits
     then None else b64_groups (map (\<lambda>c. the (b64_value c)) digits) (length pads))"

lemma b64_value_char: "n < 64 \<Longrightarrow> b64_value (b64_char n) = Some n"
  by (auto simp: b64_value_def b64_char_def Let_def)

lemma b64_char_no_pad: "n < 64 \<Longrightarrow> b64_char n \<noteq> CHR ''=''"
  using b64_value_char [of n] by (auto simp: b64_value_def)

lemma sextets:
  "(of_char a :: nat) div 4 < 64" "(of_char a :: nat) mod 4 * 16 + of_char b div 16 < 64"
  "(of_char a :: nat) mod 16 * 4 + of_char b div 64 < 64" "(of_char a :: nat) mod 4 * 16 < 64"
  "(of_char a :: nat) mod 16 * 4 < 64" "(of_char a :: nat) mod 64 < 64"
  using nat_of_char_less_256 [of a] nat_of_char_less_256 [of b] by linarith+

lemma octets:
  "(of_char a :: nat) div 16 div 16 = 0" "(of_char a :: nat) div 64 div 4 = 0"
  "(of_char a :: nat) div 16 mod 16 = of_char a div 16" "(of_char a :: nat) div 64 mod 4 = of_char a div 64"
  using nat_of_char_less_256 [of a] by (simp_all add: less_mult_imp_div_less)

text \<open>What is encoded is digits and pads from which the groups are read back.\<close>

definition b64_text :: "nat list \<Rightarrow> nat \<Rightarrow> string" where
  "b64_text ds p = map b64_char ds @ replicate p (CHR ''='')"

lemma b64_encode_groups:
  "\<exists>ds p. b64_encode b = b64_text ds p \<and> (\<forall>d \<in> set ds. d < 64) \<and> b64_groups ds p = Some b \<and> (ds = [] \<longrightarrow> p = 0)"
proof (induction b rule: b64_encode.induct)
  case 1
  show ?case by (intro exI [of _ "[]"] exI [of _ 0]) (simp add: b64_text_def)
next
  case (2 a)
  let ?x = "of_char a :: nat"
  show ?case
    by (intro exI [of _ "[?x div 4, ?x mod 4 * 16]"] exI [of _ 2])
      (auto simp: b64_text_def Let_def numeral_2_eq_2 sextets)
next
  case (3 a b)
  let ?x = "of_char a :: nat" and ?y = "of_char b :: nat"
  show ?case
    by (intro exI [of _ "[?x div 4, ?x mod 4 * 16 + ?y div 16, ?y mod 16 * 4]"] exI [of _ 1])
      (auto simp: b64_text_def Let_def sextets octets)
next
  case (4 a b c r)
  let ?x = "of_char a :: nat" and ?y = "of_char b :: nat" and ?z = "of_char c :: nat"
  from 4 obtain ds p where r: "b64_encode r = b64_text ds p" "\<forall>d \<in> set ds. d < 64" "b64_groups ds p = Some r"
    "ds = [] \<longrightarrow> p = 0" by blast
  let ?ds = "[?x div 4, ?x mod 4 * 16 + ?y div 16, ?y mod 16 * 4 + ?z div 64, ?z mod 64] @ ds"
  from r show ?case
    by (intro exI [of _ ?ds] exI [of _ p]) (auto simp: b64_text_def Let_def sextets octets)
qed

lemma b64_decode_text:
  assumes "\<forall>d \<in> set ds. d < 64" and "ds = [] \<longrightarrow> p = 0"
  shows "b64_decode (b64_text ds p) = b64_groups ds p"
proof -
  have digits: "takeWhile (\<lambda>c. c \<noteq> CHR ''='') (b64_text ds p) = map b64_char ds"
    "dropWhile (\<lambda>c. c \<noteq> CHR ''='') (b64_text ds p) = replicate p (CHR ''='')"
    using assms(1) by (induction ds) (simp_all add: b64_text_def b64_char_no_pad takeWhile_replicate dropWhile_replicate)
  have "\<not> starts_with ''='' (b64_text ds p)"
    using assms by (cases ds) (auto simp: b64_text_def starts_with_def dest: b64_char_no_pad)
  moreover have "map (\<lambda>c. the (b64_value c)) (map b64_char ds) = ds"
    using assms(1) by (simp add: map_idI b64_value_char)
  ultimately show ?thesis using assms(1)
    by (simp add: b64_decode_def digits Let_def list_all_iff b64_value_char del: map_map)
qed

text \<open>What the trusted process sends as Base64 is read back as it was.\<close>

lemma b64_round_trip: "b64_decode (b64_encode b) = Some b"
  using b64_encode_groups [of b] by (metis b64_decode_text)

end
