(* ===== verification/Writer.thy ===== *)
theory Writer
  imports GithubApi CiPush
begin

text \<open>
  The rest of \<open>gateway/github.py\<close>: \<open>GitHubAppBranchWriter\<close>, the writer behind the validated push. It
  reads the head of a branch, and applies a diff to the files at the base SHA: blobs, a tree over the
  base tree, a commit whose only parent is the base, and an update of the ref without force.
\<close>

section \<open>Authorisation and reads\<close>

record 'w app_client =
  ac_client :: "'w http_client"
  ac_jwt :: string
  ac_allowed :: "int list"

definition valid_branch :: "string \<Rightarrow> bool" where
  "valid_branch b \<longleftrightarrow> \<not> (b = [] \<or> 255 < length b \<or> starts_with ''/'' b \<or> starts_with ''.'' b \<or>
     ends_with ''/'' b \<or> ends_with ''.'' b \<or> ends_with ''.lock'' b \<or> contains ''..'' b \<or>
     list_ex (\<lambda>c. c \<in> set '' ~^:?*['' \<or> c = CHR 0x5C \<or> c = NUL) b)"

definition authorize :: "'w app_client \<Rightarrow> int \<Rightarrow> string \<Rightarrow> unit res" where
  "authorize ac repository_id branch =
    (if repository_id \<notin> set (ac_allowed ac) then Inl (PermissionError ''repository_not_allowlisted'')
     else require (valid_branch branch) (ValueError ''GitHub branch name is invalid''))"

definition ref_path :: "string \<Rightarrow> string \<Rightarrow> string" where
  "ref_path full_name branch = ''/repos/'' @ full_name @ ''/git/ref/heads/'' @ url_quote [] branch"

text \<open>\<open>response.json().get("object", {}).get("sha")\<close>\<close>

definition nested_sha :: "string \<Rightarrow> json \<Rightarrow> json res" where
  "nested_sha key payload = bind_res (dict_get_or payload key (JObj [])) (\<lambda>inner. dict_get inner ''sha'')"

definition app_head_sha :: "'w app_client \<Rightarrow> int \<Rightarrow> string \<Rightarrow> ('w hub, string) act" where
  "app_head_sha ac repository_id branch =
    bind_act (of_res (authorize ac repository_id branch)) (\<lambda>_.
    bind_act (installation_token (ac_client ac) (ac_jwt ac) repository_id
        [(''contents'', ''read''), (''metadata'', ''read'')]) (\<lambda>token.
    bind_act (repository_name (ac_client ac) repository_id token) (\<lambda>full_name.
    bind_act (send_json (ac_client ac) (Http_Get (ref_path full_name branch) (auth_headers token) [])) (\<lambda>payload.
    bind_act (of_res (nested_sha ''object'' payload)) (\<lambda>sha. case as_str sha of
        None \<Rightarrow> throw (ValueError ''GitHub branch response is missing its immutable SHA'')
      | Some s \<Rightarrow> if length s \<noteq> 40 then throw (ValueError ''GitHub branch response is missing its immutable SHA'')
          else ret s)))))"

definition decode_content :: "json \<Rightarrow> bytes res" where
  "decode_content payload =
    bind_res (dict_get payload ''type'') (\<lambda>kind. bind_res (dict_get payload ''encoding'') (\<lambda>encoding.
      if kind \<noteq> JStr ''file'' \<or> encoding \<noteq> JStr ''base64''
      then Inl (ValueError ''GitHub source path is not a regular file'')
      else bind_res (dict_get payload ''content'') (\<lambda>content. case as_str content of
          None \<Rightarrow> Inl (ValueError ''GitHub content response is missing file data'')
        | Some c \<Rightarrow> (case b64_decode (filter (\<lambda>x. \<not> is_space x) c) of
            None \<Rightarrow> Inl (ValueError ''GitHub content response is invalid base64'')
          | Some b \<Rightarrow> Inr b))))"

definition contents_request :: "string \<Rightarrow> string \<Rightarrow> string \<Rightarrow> http_headers \<Rightarrow> http_request" where
  "contents_request full_name path base_sha headers =
     Http_Get (''/repos/'' @ full_name @ ''/contents/'' @ url_quote ''/'' path) headers [(''ref'', base_sha)]"

definition file_content ::
    "'w http_client \<Rightarrow> string \<Rightarrow> string \<Rightarrow> string \<Rightarrow> http_headers \<Rightarrow> ('w hub, bytes) act" where
  "file_content client full_name path base_sha headers =
    bind_act (send_json client (contents_request full_name path base_sha headers)) (\<lambda>payload. of_res (decode_content payload))"

text \<open>The originals: each old path once, in the order of the patches.\<close>

fun fetch_originals ::
    "'w http_client \<Rightarrow> string \<Rightarrow> string \<Rightarrow> http_headers \<Rightarrow> text_file_patch list \<Rightarrow> (string \<Rightarrow> bytes option) \<Rightarrow>
     ('w hub, string \<Rightarrow> bytes option) act" where
  "fetch_originals client full_name base_sha headers [] originals = ret originals"
| "fetch_originals client full_name base_sha headers (p # ps) originals = (case fp_old_path p of
     Some old \<Rightarrow>
       if originals old = None
       then bind_act (file_content client full_name old base_sha headers) (\<lambda>content.
         fetch_originals client full_name base_sha headers ps (originals(old \<mapsto> content)))
       else fetch_originals client full_name base_sha headers ps originals
   | None \<Rightarrow> fetch_originals client full_name base_sha headers ps originals)"

section \<open>The tree of a patch\<close>

record tree_item =
  ti_path :: string
  ti_sha :: "string option"

definition tree_item_json :: "tree_item \<Rightarrow> json" where
  "tree_item_json i = JObj [(''path'', JStr (ti_path i)), (''mode'', JStr ''100644''), (''type'', JStr ''blob''),
     (''sha'', case ti_sha i of None \<Rightarrow> JNull | Some s \<Rightarrow> JStr s)]"

text \<open>The entries of a file but its blob: the old path of a move or a removal goes.\<close>

definition removals :: "applied_file \<Rightarrow> tree_item list \<Rightarrow> tree_item list" where
  "removals item entries =
    (let entries = entries @ (case af_old_path item of
           Some old \<Rightarrow> if af_old_path item \<noteq> af_new_path item then [\<lparr>ti_path = old, ti_sha = None\<rparr>] else []
         | None \<Rightarrow> [])
     in if af_new_path item = None
        then (case af_old_path item of
            Some old \<Rightarrow>
              if af_old_path item = af_new_path item \<or> \<not> list_ex (\<lambda>e. ti_path e = old) entries
              then entries @ [\<lparr>ti_path = old, ti_sha = None\<rparr>] else entries
          | None \<Rightarrow> entries)
        else entries)"

definition blob_request :: "string \<Rightarrow> http_headers \<Rightarrow> bytes \<Rightarrow> http_request" where
  "blob_request full_name headers content = Http_Post (''/repos/'' @ full_name @ ''/git/blobs'') headers
     (JObj [(''content'', JStr (b64_encode content)), (''encoding'', JStr ''base64'')])"

definition sha_field :: "string \<Rightarrow> json \<Rightarrow> string res" where
  "sha_field msg payload = bind_res (dict_get payload ''sha'') (\<lambda>sha. case as_str sha of
     None \<Rightarrow> Inl (ValueError msg) | Some s \<Rightarrow> Inr s)"

fun post_entries ::
    "'w http_client \<Rightarrow> string \<Rightarrow> http_headers \<Rightarrow> applied_file list \<Rightarrow> tree_item list \<Rightarrow> ('w hub, tree_item list) act" where
  "post_entries client full_name headers [] entries = ret entries"
| "post_entries client full_name headers (item # items) entries =
    (let entries = removals item entries in case af_new_path item of
       None \<Rightarrow> post_entries client full_name headers items entries
     | Some new \<Rightarrow>
         bind_act (send_json client (blob_request full_name headers
             (case af_content item of None \<Rightarrow> [] | Some c \<Rightarrow> c))) (\<lambda>payload.
         bind_act (of_res (sha_field ''GitHub blob response is missing its SHA'' payload)) (\<lambda>blob.
           post_entries client full_name headers items (entries @ [\<lparr>ti_path = new, ti_sha = Some blob\<rparr>]))))"

section \<open>The write\<close>

definition tree_request :: "string \<Rightarrow> http_headers \<Rightarrow> string \<Rightarrow> tree_item list \<Rightarrow> http_request" where
  "tree_request full_name headers base_tree entries = Http_Post (''/repos/'' @ full_name @ ''/git/trees'') headers
     (JObj [(''base_tree'', JStr base_tree), (''tree'', JArr (map tree_item_json entries))])"

definition commit_request :: "string \<Rightarrow> http_headers \<Rightarrow> string \<Rightarrow> string \<Rightarrow> string \<Rightarrow> http_request" where
  "commit_request full_name headers run_text tree_sha base_sha =
     Http_Post (''/repos/'' @ full_name @ ''/git/commits'') headers
     (JObj [(''message'', JStr (''Agentic Engineering Lab validated patch'' @ [LF, LF] @ ''Run-ID: '' @ run_text)),
       (''tree'', JStr tree_sha), (''parents'', JArr [JStr base_sha])])"

definition update_request :: "string \<Rightarrow> http_headers \<Rightarrow> string \<Rightarrow> string \<Rightarrow> http_request" where
  "update_request full_name headers branch commit_sha =
     Http_Patch (''/repos/'' @ full_name @ ''/git/refs/heads/'' @ url_quote [] branch) headers
     (JObj [(''sha'', JStr commit_sha), (''force'', JBool False)])"

definition commit_applied ::
    "'w http_client \<Rightarrow> string \<Rightarrow> http_headers \<Rightarrow> string \<Rightarrow> string \<Rightarrow> string \<Rightarrow> string \<Rightarrow> tree_item list \<Rightarrow>
     ('w hub, string) act" where
  "commit_applied client full_name headers branch base_sha run_text base_tree entries =
    bind_act (send_json client (tree_request full_name headers base_tree entries)) (\<lambda>tree.
    bind_act (of_res (sha_field ''GitHub tree response is missing its SHA'' tree)) (\<lambda>tree_sha.
    bind_act (send_json client (commit_request full_name headers run_text tree_sha base_sha)) (\<lambda>commit.
    bind_act (of_res (sha_field ''GitHub commit response is missing its SHA'' commit)) (\<lambda>commit_sha.
      if length commit_sha \<noteq> 40 then throw (ValueError ''GitHub commit response is missing its SHA'')
      else bind_act (send client (update_request full_name headers branch commit_sha)) (\<lambda>update.
        bind_act (of_res (raise_for_status update)) (\<lambda>_. ret commit_sha))))))"

definition base_commit_request :: "string \<Rightarrow> http_headers \<Rightarrow> string \<Rightarrow> http_request" where
  "base_commit_request full_name headers base_sha =
     Http_Get (''/repos/'' @ full_name @ ''/git/commits/'' @ base_sha) headers []"

definition write_patch ::
    "'w http_client \<Rightarrow> string \<Rightarrow> http_headers \<Rightarrow> string \<Rightarrow> string \<Rightarrow> string \<Rightarrow> string \<Rightarrow> ('w hub, string) act" where
  "write_patch client full_name headers branch base_sha diff run_text =
    bind_act (of_res (parse_text_diff diff)) (\<lambda>patches.
    bind_act (fetch_originals client full_name base_sha headers patches Map.empty) (\<lambda>originals.
    bind_act (of_res (apply_text_diff diff originals)) (\<lambda>applied.
    bind_act (send_json client (base_commit_request full_name headers base_sha))
     (\<lambda>payload. bind_act (of_res (nested_sha ''tree'' payload)) (\<lambda>tree. case as_str tree of
        None \<Rightarrow> throw (ValueError ''GitHub commit response is missing its tree SHA'')
      | Some base_tree \<Rightarrow>
          bind_act (post_entries client full_name headers applied []) (\<lambda>entries.
            commit_applied client full_name headers branch base_sha run_text base_tree entries))))))"

definition lower_hex_40 :: "string \<Rightarrow> bool" where
  "lower_hex_40 s \<longleftrightarrow> length s = 40 \<and> list_all is_lower_hex s"

definition app_apply_unified_diff ::
    "'w app_client \<Rightarrow> int \<Rightarrow> string \<Rightarrow> string \<Rightarrow> string \<Rightarrow> string \<Rightarrow> ('w hub, string) act" where
  "app_apply_unified_diff ac repository_id branch base_sha diff run_text =
    bind_act (of_res (authorize ac repository_id branch)) (\<lambda>_.
      if run_text = [] \<or> \<not> lower_hex_40 base_sha
      then throw (ValueError ''GitHub write requires run identity and an immutable base SHA'')
      else
        bind_act (installation_token (ac_client ac) (ac_jwt ac) repository_id
          [(''contents'', ''write''), (''metadata'', ''read'')]) (\<lambda>token.
        bind_act (repository_name (ac_client ac) repository_id token) (\<lambda>full_name.
        bind_act (send_json (ac_client ac) (Http_Get (ref_path full_name branch) (auth_headers token) [])) (\<lambda>payload.
        bind_act (of_res (nested_sha ''object'' payload)) (\<lambda>head.
          if head \<noteq> JStr base_sha then throw (PermissionError ''stale_head_sha'')
          else write_patch (ac_client ac) full_name (auth_headers token) branch base_sha diff run_text)))))"

text \<open>The writer of the protocol.\<close>

definition github_app_writer :: "'w app_client \<Rightarrow> 'w hub branch_writer" where
  "github_app_writer ac = \<lparr>head_sha = app_head_sha ac, apply_unified_diff = app_apply_unified_diff ac\<rparr>"

section \<open>What the writer may change\<close>

text \<open>A ref is moved by a request with the method PATCH only.\<close>

definition moves_ref :: "http_request \<Rightarrow> bool" where
  "moves_ref r = (case r of Http_Patch _ _ _ \<Rightarrow> True | _ \<Rightarrow> False)"

type_synonym exchange = "http_request \<times> http_response res"

abbreviation unmoving :: "exchange \<Rightarrow> bool" where
  "unmoving e \<equiv> \<not> moves_ref (fst e)"

abbreviation still :: "exchange list set" where
  "still \<equiv> only_calls unmoving"

abbreviation calls_within :: "('w hub, 'a) act \<Rightarrow> exchange list set \<Rightarrow> bool" where
  "calls_within \<equiv> adds_calls hub_log"

lemma log_send: "calls_within (send client request) {[(request, a)] | a. True}"
  by (auto simp: adds_calls_def send_def split: prod.splits)

lemma still_send_json [calls_intros]: "\<not> moves_ref request \<Longrightarrow> calls_within (send_json client request) still"
  unfolding send_json_def
  by (rule adds_calls_mono [OF calls_then_silent [OF log_send calls_of_res]]) (auto simp: only_calls_def)

lemma moves_ref_simps [simp]:
  "\<not> moves_ref (Http_Get u hs ps)" "\<not> moves_ref (Http_Post u hs j)" "\<not> moves_ref (Http_Stream u hs)"
  "moves_ref (Http_Patch u hs j)" "\<not> moves_ref (contents_request n p b hs)" "\<not> moves_ref (base_commit_request n hs b)" "\<not> moves_ref (blob_request n hs c)"
  "\<not> moves_ref (tree_request n hs t es)" "\<not> moves_ref (commit_request n hs i t b)"
  "moves_ref (update_request n hs br c)"
  by (simp_all add: moves_ref_def contents_request_def base_commit_request_def blob_request_def tree_request_def commit_request_def
      update_request_def)

lemma still_installation_token [calls_intros]: "calls_within (installation_token client jwt i perms) still"
  unfolding installation_token_def by (intro calls_intros) simp_all

lemma still_repository_name [calls_intros]: "calls_within (repository_name client i token) still"
  unfolding repository_name_def by (intro calls_intros) simp_all

lemma still_head_sha [calls_intros]: "calls_within (app_head_sha ac i branch) still"
  unfolding app_head_sha_def by (intro calls_intros) simp_all

lemma still_file_content [calls_intros]: "calls_within (file_content client n p b hs) still"
  unfolding file_content_def by (intro calls_intros) simp_all

lemma still_fetch_originals [calls_intros]: "calls_within (fetch_originals client n b hs ps m) still"
proof (induction ps arbitrary: m)
  case (Cons p ps)
  then show ?case by (auto intro!: calls_intros split: option.splits)
qed (auto intro: calls_intros)

lemma still_post_entries [calls_intros]: "calls_within (post_entries client n hs items es) still"
proof (induction items arbitrary: es)
  case (Cons p ps)
  then show ?case by (auto intro!: calls_intros simp: Let_def split: option.splits)
qed (auto intro: calls_intros)

text \<open>The log has an answer to the request from which this value was read.\<close>

definition told :: "exchange list \<Rightarrow> http_request \<Rightarrow> (json \<Rightarrow> 'a res) \<Rightarrow> 'a \<Rightarrow> bool" where
  "told sent request f x \<longleftrightarrow> (\<exists>j. answered sent request j \<and> f j = Inr x)"

lemma told_append [simp]: "told (l @ k) r f x \<longleftrightarrow> told l r f x \<or> told k r f x"
  by (auto simp: told_def)

text \<open>
  The token is one GitHub gave for this repository alone, to write its contents, and the name is
  the one GitHub gave, with this token, for the id of the repository.
\<close>

definition token_permissions :: "(string \<times> string) list" where
  "token_permissions = [(''contents'', ''write''), (''metadata'', ''read'')]"

definition named_by_id :: "'w app_client \<Rightarrow> int \<Rightarrow> exchange list \<Rightarrow> string \<Rightarrow> string \<Rightarrow> bool" where
  "named_by_id ac repository_id sent token full_name \<longleftrightarrow>
     (\<exists>installation. told sent (Http_Post (''/app/installations/'' @ installation @ ''/access_tokens'') (auth_headers (ac_jwt ac))
        (JObj [(''repository_ids'', JArr [JInt repository_id]), (''permissions'', permissions_json token_permissions)]))
        (\<lambda>j. dict_get j ''token'') (JStr token)) \<and>
     told sent (Http_Get (''/repositories/'' @ show_int repository_id) (auth_headers token) [])
        (\<lambda>j. dict_get j ''full_name'') (JStr full_name)"

text \<open>The one request that moves a ref, if the writer comes so far, after the repository was named.\<close>

definition ref_moves :: "'w app_client \<Rightarrow> int \<Rightarrow> string \<Rightarrow> exchange list set" where
  "ref_moves ac repository_id branch = {ds @ us | ds us. ds \<in> still \<and> (us = [] \<or>
     (\<exists>n token commit a. us = [(update_request n (auth_headers token) branch commit, a)] \<and>
        repository_id \<in> set (ac_allowed ac) \<and> valid_branch branch \<and> named_by_id ac repository_id ds token n))}"

lemma ref_movesI:
  assumes "ds \<in> still" and "us = [] \<or> (\<exists>n token commit a. us = [(update_request n (auth_headers token) branch commit, a)] \<and>
      i \<in> set (ac_allowed ac) \<and> valid_branch branch \<and> named_by_id ac i ds token n)"
  shows "ds @ us \<in> ref_moves ac i branch"
  using assms unfolding ref_moves_def by blast

lemma ref_movesE:
  assumes "k \<in> ref_moves ac i branch"
  obtains ds us where "k = ds @ us" "ds \<in> still" "us = [] \<or> (\<exists>n token commit a.
      us = [(update_request n (auth_headers token) branch commit, a)] \<and>
      i \<in> set (ac_allowed ac) \<and> valid_branch branch \<and> named_by_id ac i ds token n)"
  using assms unfolding ref_moves_def by blast

lemma still_in_moves: "ds \<in> still \<Longrightarrow> ds \<in> ref_moves ac i branch"
  unfolding ref_moves_def by force

lemma still_append: "c \<in> still \<Longrightarrow> k \<in> still \<Longrightarrow> c @ k \<in> still"
  by (auto simp: only_calls_def)

lemma still_then_moves:
  assumes "c \<in> still" and "k \<in> ref_moves ac i branch"
  shows "c @ k \<in> ref_moves ac i branch"
proof -
  from assms(2) obtain ds us where k: "k = ds @ us" "ds \<in> still" "us = [] \<or> (\<exists>n token commit a.
      us = [(update_request n (auth_headers token) branch commit, a)] \<and>
      i \<in> set (ac_allowed ac) \<and> valid_branch branch \<and> named_by_id ac i ds token n)" by (rule ref_movesE)
  have "named_by_id ac i ds token n \<Longrightarrow> named_by_id ac i (c @ ds) token n" for token n
    by (auto simp: named_by_id_def)
  with k(3) have "(c @ ds) @ us \<in> ref_moves ac i branch"
    by (intro ref_movesI still_append assms(1) k(2)) blast
  with k(1) show ?thesis by simp
qed

text \<open>What an action may add after calls that were made before it.\<close>

lemma calls_seq:
  assumes "adds_calls calls m C" and "\<And>c. c \<in> C \<Longrightarrow> before @ c \<in> D"
    and "\<And>h x t c. m h = (Inr x, t) \<Longrightarrow> c \<in> C \<Longrightarrow> calls t = calls h @ c \<Longrightarrow>
      adds_calls calls (f x) {k. (before @ c) @ k \<in> D}"
  shows "adds_calls calls (bind_act m f) {k. before @ k \<in> D}"
  unfolding adds_calls_def
proof
  fix s
  obtain r t where m: "m s = (r, t)" by fastforce
  with adds_callsD [OF assms(1)] obtain c where c: "c \<in> C" "calls t = calls s @ c" by blast
  show "\<exists>cs \<in> {k. before @ k \<in> D}. calls (snd (bind_act m f s)) = calls s @ cs"
  proof (cases r)
    case (Inl e)
    with m c assms(2) show ?thesis by (auto simp: act_defs)
  next
    case (Inr x)
    with assms(3) [of s x t c] m c have "adds_calls calls (f x) {k. (before @ c) @ k \<in> D}" by simp
    then obtain k where "(before @ c) @ k \<in> D" "calls (snd (f x t)) = calls t @ k"
      by (auto simp: adds_calls_def)
    moreover from m Inr have "bind_act m f s = f x t" by (simp add: act_defs)
    ultimately show ?thesis using c by auto
  qed
qed

lemma ending_commit_applied:
  assumes "\<And>c a. (update_request n hs branch c, a) \<in> U"
  shows "calls_within (commit_applied client n hs branch b i t es) (ending_in unmoving U)"
proof -
  have last: "calls_within (bind_act (send client (update_request n hs branch c))
      (\<lambda>update. bind_act (of_res (raise_for_status update)) (\<lambda>_. ret c))) (ending_in unmoving U)" for c
  proof (rule adds_calls_mono)
    show "calls_within (bind_act (send client (update_request n hs branch c))
      (\<lambda>update. bind_act (of_res (raise_for_status update)) (\<lambda>_. ret c))) {[(update_request n hs branch c, a)] | a. True}"
      by (intro calls_then_silent log_send calls_of_res calls_ret)
    show "{[(update_request n hs branch c, a)] | a. True} \<subseteq> ending_in unmoving U"
      using assms ending_inI [OF no_calls, where U = U] by fastforce
  qed
  show ?thesis unfolding commit_applied_def
    by (intro ending_bind calls_intros last only_ending) simp_all
qed

lemma ending_write_patch:
  assumes "\<And>c a. (update_request n hs branch c, a) \<in> U"
  shows "calls_within (write_patch client n hs branch b diff i) (ending_in unmoving U)"
  unfolding write_patch_def
  by (intro ending_bind calls_option ending_commit_applied [OF assms] only_ending [OF calls_throw [THEN only_silent]]
      calls_intros) simp_all

lemma authorize_Inr: "authorize ac i branch = Inr u \<longleftrightarrow> i \<in> set (ac_allowed ac) \<and> valid_branch branch"
  by (simp add: authorize_def)

text \<open>A value read from the answer to one request.\<close>

lemma send_json_told:
  assumes "send_json client request h = (Inr j, t)" and "f j = Inr x"
  shows "\<exists>entry. hub_log t = hub_log h @ [entry] \<and> told [entry] request f x"
  using send_json_returned [OF assms(1)] assms(2) unfolding told_def by blast

lemma as_str_Some: "as_str j = Some s \<longleftrightarrow> j = JStr s"
  by (cases j) auto

lemma repository_name_told:
  assumes "repository_name client i token h = (Inr n, t)" and "hub_log t = hub_log h @ c"
  shows "told c (Http_Get (''/repositories/'' @ show_int i) (auth_headers token) []) (\<lambda>j. dict_get j ''full_name'') (JStr n)"
proof -
  from assms(1) obtain j where "send_json client (Http_Get (''/repositories/'' @ show_int i) (auth_headers token) []) h = (Inr j, t)"
    "dict_get j ''full_name'' = Inr (JStr n)"
    by (auto simp: repository_name_def act_returns as_str_Some split: option.splits if_splits)
  from send_json_told [where f = "\<lambda>j. dict_get j ''full_name''", OF this] assms(2) show ?thesis by auto
qed

lemma installation_token_told:
  assumes "installation_token client jwt i perms h = (Inr token, t)" and "hub_log t = hub_log h @ c"
  shows "\<exists>installation. told c (Http_Post (''/app/installations/'' @ installation @ ''/access_tokens'') (auth_headers jwt)
    (JObj [(''repository_ids'', JArr [JInt i]), (''permissions'', permissions_json perms)])) (\<lambda>j. dict_get j ''token'') (JStr token)"
proof -
  let ?post = "\<lambda>installation. Http_Post (''/app/installations/'' @ installation @ ''/access_tokens'') (auth_headers jwt)
    (JObj [(''repository_ids'', JArr [JInt i]), (''permissions'', permissions_json perms)])"
  from assms(1) obtain p u d j where
    p: "send_json client (Http_Get (''/repositories/'' @ show_int i @ ''/installation'') (auth_headers jwt) []) h = (Inr p, u)"
    and j: "send_json client (?post (json_int_text d)) u = (Inr j, t)" "dict_get j ''token'' = Inr (JStr token)"
    by (auto simp: installation_token_def act_returns as_str_Some split: option.splits if_splits)
  from send_json_returned [OF p] obtain e where "hub_log u = hub_log h @ [e]" by blast
  moreover from send_json_told [where f = "\<lambda>j. dict_get j ''token''", OF j] obtain k where
    "hub_log t = hub_log u @ [k]" "told [k] (?post (json_int_text d)) (\<lambda>j. dict_get j ''token'') (JStr token)" by blast
  ultimately have "c = [e] @ [k]" using assms(2) by simp
  with \<open>told [k] _ _ _\<close> have "told c (?post (json_int_text d)) (\<lambda>j. dict_get j ''token'') (JStr token)"
    by (simp only: told_append simp_thms)
  then show ?thesis by blast
qed

text \<open>What is written after the repository was named, and what comes before.\<close>

abbreviation after_log :: "exchange list \<Rightarrow> 'w app_client \<Rightarrow> int \<Rightarrow> string \<Rightarrow> exchange list set" where
  "after_log before ac i branch \<equiv> {k. before @ k \<in> ref_moves ac i branch}"

lemma quiet_after_log: "before \<in> still \<Longrightarrow> calls_within m still \<Longrightarrow> calls_within m (after_log before ac i branch)"
  by (erule adds_calls_mono) (auto intro!: still_in_moves still_append)

lemma write_after_naming:
  assumes "authorize ac i branch = Inr u" and "before \<in> still" and "named_by_id ac i before token n"
  shows "calls_within (write_patch (ac_client ac) n (auth_headers token) branch b diff run_text) (after_log before ac i branch)"
proof (rule adds_calls_mono [OF ending_write_patch])
  let ?U = "{(update_request n (auth_headers token) branch c, a) | c a. True}"
  show "(update_request n (auth_headers token) branch c, a) \<in> ?U" for c a
    by blast
  show "ending_in unmoving ?U \<subseteq> after_log before ac i branch"
  proof
    fix k assume "k \<in> ending_in unmoving ?U"
    then obtain ds us where k: "k = ds @ us" "ds \<in> still"
      "us = [] \<or> (\<exists>c a. us = [(update_request n (auth_headers token) branch c, a)])"
      by (elim ending_inE) blast
    have "named_by_id ac i (before @ ds) token n" using assms(3) by (auto simp: named_by_id_def)
    with k(3) assms(1) have "(before @ ds) @ us \<in> ref_moves ac i branch"
      by (intro ref_movesI still_append assms(2) k(2)) (auto simp: authorize_Inr)
    with k(1) show "k \<in> after_log before ac i branch" by simp
  qed
qed

lemma move_after_naming:
  assumes "authorize ac i branch = Inr u" and "before \<in> still" and "named_by_id ac i before token n"
  shows "calls_within (bind_act (send_json (ac_client ac) (Http_Get (ref_path n branch) (auth_headers token) [])) (\<lambda>payload.
      bind_act (of_res (nested_sha ''object'' payload)) (\<lambda>head.
        if head \<noteq> JStr b then throw (PermissionError ''stale_head_sha'')
        else write_patch (ac_client ac) n (auth_headers token) branch b diff run_text))) (after_log before ac i branch)"
proof (rule calls_seq)
  show "calls_within (send_json (ac_client ac) (Http_Get (ref_path n branch) (auth_headers token) [])) still"
    by (intro calls_intros) simp
  fix c assume c: "c \<in> still"
  have pre: "before @ c \<in> still" by (rule still_append [OF assms(2) c])
  then show "before @ c \<in> ref_moves ac i branch" by (rule still_in_moves)
  have "named_by_id ac i (before @ c) token n" using assms(3) by (auto simp: named_by_id_def)
  note written = write_after_naming [OF assms(1) pre this]
  show "calls_within (bind_act (of_res (nested_sha ''object'' payload)) (\<lambda>head.
      if head \<noteq> JStr b then throw (PermissionError ''stale_head_sha'')
      else write_patch (ac_client ac) n (auth_headers token) branch b diff run_text)) (after_log (before @ c) ac i branch)" for payload
    by (intro calls_bind_res calls_if written quiet_after_log [OF pre] only_effect_free)
      (simp add: still_in_moves [OF pre])
qed

lemma apply_moves_one_ref: "calls_within (app_apply_unified_diff ac i branch b diff run_text) (ref_moves ac i branch)"
proof -
  let ?m = "ref_moves ac i branch"
  let ?move = "\<lambda>token n. bind_act (send_json (ac_client ac) (Http_Get (ref_path n branch) (auth_headers token) [])) (\<lambda>payload.
      bind_act (of_res (nested_sha ''object'' payload)) (\<lambda>head.
        if head \<noteq> JStr b then throw (PermissionError ''stale_head_sha'')
        else write_patch (ac_client ac) n (auth_headers token) branch b diff run_text))"
  have token: "calls_within (bind_act (installation_token (ac_client ac) (ac_jwt ac) i token_permissions) (\<lambda>token.
      bind_act (repository_name (ac_client ac) i token) (?move token))) (after_log [] ac i branch)"
    if auth: "authorize ac i branch = Inr u" for u
  proof (rule calls_seq [OF still_installation_token])
    fix h token t c assume t: "installation_token (ac_client ac) (ac_jwt ac) i token_permissions h = (Inr token, t)"
      "c \<in> still" "hub_log t = hub_log h @ c"
    have c: "[] @ c \<in> still" using t(2) by simp
    show "calls_within (bind_act (repository_name (ac_client ac) i token) (?move token)) (after_log ([] @ c) ac i branch)"
    proof (rule calls_seq [OF still_repository_name])
      fix h' n u c' assume n: "repository_name (ac_client ac) i token h' = (Inr n, u)" "c' \<in> still" "hub_log u = hub_log h' @ c'"
      have "named_by_id ac i (([] @ c) @ c') token n"
        using installation_token_told [OF t(1,3)] repository_name_told [OF n(1,3)] by (auto simp: named_by_id_def)
      then show "calls_within (?move token n) (after_log (([] @ c) @ c') ac i branch)"
        by (rule move_after_naming [OF auth still_append [OF c n(2)]])
    qed (use c in \<open>auto intro!: still_in_moves still_append\<close>)
  qed (auto intro: still_in_moves)
  have none: "[] \<in> ?m" by (rule still_in_moves [OF no_calls])
  show ?thesis
    unfolding app_apply_unified_diff_def
    by (intro calls_bind_res calls_if token [simplified token_permissions_def append_Nil Collect_mem_eq] none
        adds_calls_mono [OF calls_throw]) (simp_all add: none)
qed

section \<open>What a returned commit is\<close>

abbreviation logs :: "('w hub, 'a) act \<Rightarrow> bool" where
  "logs m \<equiv> adds_calls hub_log m (only_calls (\<lambda>_. True))"

lemma logsD: "logs m \<Longrightarrow> m h = (r, h') \<Longrightarrow> \<exists>sent. hub_log h' = hub_log h @ sent"
  by (drule adds_callsD) auto

lemma logs_send_json [calls_intros]: "logs (send_json client request)"
proof -
  have "logs (send client request)"
    by (simp add: adds_calls_def only_calls_def send_def split: prod.splits)
  then show ?thesis unfolding send_json_def by (intro calls_intros)
qed

lemma logs_identity: "logs (installation_token client jwt i perms)" "logs (repository_name client i token)"
  unfolding installation_token_def repository_name_def by (intro calls_intros)+

lemma file_content_told:
  "file_content client n path base hs h = (Inr c, t) \<Longrightarrow>
   \<exists>entry. hub_log t = hub_log h @ [entry] \<and> told [entry] (contents_request n path base hs) decode_content c"
  unfolding file_content_def by (auto simp: act_returns dest!: send_json_told)

definition read_at ::
    "exchange list \<Rightarrow> string \<Rightarrow> http_headers \<Rightarrow> string \<Rightarrow> (string \<Rightarrow> bytes option) \<Rightarrow> bool" where
  "read_at sent n hs base originals \<longleftrightarrow> (\<forall>path content. originals path = Some content \<longrightarrow>
     told sent (contents_request n path base hs) decode_content content)"

lemma read_at_empty [simp]: "read_at sent n hs base Map.empty"
  by (simp add: read_at_def)

lemma read_at_append: "read_at sent n hs base m \<Longrightarrow> read_at (sent @ k) n hs base m"
  by (simp add: read_at_def)

lemma read_at_update:
  "read_at sent n hs base m \<Longrightarrow> told k (contents_request n path base hs) decode_content c \<Longrightarrow>
   read_at (sent @ k) n hs base (m(path \<mapsto> c))"
  by (simp add: read_at_def)

lemma fetch_originals_told:
  assumes "fetch_originals client n base hs ps m h = (Inr originals, t)" and "read_at before n hs base m"
  shows "\<exists>sent. hub_log t = hub_log h @ sent \<and> read_at (before @ sent) n hs base originals"
  using assms
proof (induction ps arbitrary: m h before)
  case Nil
  then show ?case by (auto simp: act_returns)
next
  case (Cons p ps)
  show ?case
  proof (cases "\<exists>old. fp_old_path p = Some old \<and> m old = None")
    case False
    with Cons show ?thesis by (auto split: option.splits if_splits)
  next
    case True
    then obtain old where old: "fp_old_path p = Some old" "m old = None" by blast
    with Cons.prems(1) obtain c u where c: "file_content client n old base hs h = (Inr c, u)"
      and rest: "fetch_originals client n base hs ps (m(old \<mapsto> c)) u = (Inr originals, t)"
      by (auto simp: act_returns)
    from file_content_told [OF c] obtain entry where e: "hub_log u = hub_log h @ [entry]"
      "told [entry] (contents_request n old base hs) decode_content c" by blast
    from Cons.IH [OF rest read_at_update [OF Cons.prems(2) e(2)]] obtain sent where
      "hub_log t = hub_log u @ sent" "read_at ((before @ [entry]) @ sent) n hs base originals" by blast
    with e(1) show ?thesis by (intro exI [of _ "entry # sent"]) simp
  qed
qed

text \<open>The entries of one file: the old path goes unless it stays, the new one gets the blob of the content.\<close>

definition gone :: "applied_file \<Rightarrow> tree_item list" where
  "gone item = (case af_old_path item of
     Some old \<Rightarrow> if af_new_path item = Some old then [] else [\<lparr>ti_path = old, ti_sha = None\<rparr>] | None \<Rightarrow> [])"

lemma removals_gone: "removals item es = es @ gone item"
  by (auto simp: removals_def gone_def Let_def split: option.splits)

definition item_entries ::
    "exchange list \<Rightarrow> string \<Rightarrow> http_headers \<Rightarrow> applied_file \<Rightarrow> tree_item list \<Rightarrow> bool" where
  "item_entries sent n hs item es \<longleftrightarrow> (case af_new_path item of
     None \<Rightarrow> es = gone item
   | Some new \<Rightarrow> \<exists>blob. es = gone item @ [\<lparr>ti_path = new, ti_sha = Some blob\<rparr>] \<and>
       told sent (blob_request n hs (case af_content item of None \<Rightarrow> [] | Some c \<Rightarrow> c))
         (sha_field ''GitHub blob response is missing its SHA'') blob)"

lemma item_entries_append: "item_entries k n hs item es \<Longrightarrow> item_entries (l @ k) n hs item es"
  "item_entries l n hs item es \<Longrightarrow> item_entries (l @ k) n hs item es"
  by (auto simp: item_entries_def split: option.splits)

lemma post_entries_told:
  assumes "post_entries client n hs items es h = (Inr entries, t)"
  shows "\<exists>sent ess. hub_log t = hub_log h @ sent \<and> list_all2 (item_entries sent n hs) items ess \<and>
    entries = es @ concat ess"
  using assms
proof (induction items arbitrary: es h)
  case Nil
  then show ?case by (auto simp: act_returns)
next
  case (Cons item items)
  have joined: ?case if "hub_log u = hub_log h @ k" "item_entries k n hs item new"
    "post_entries client n hs items (es @ new) u = (Inr entries, t)" for u k new
  proof -
    from Cons.IH [OF that(3)] obtain sent ess where "hub_log t = hub_log u @ sent"
      "list_all2 (item_entries sent n hs) items ess" "entries = (es @ new) @ concat ess" by blast
    with that show ?thesis
      by (intro exI [of _ "k @ sent"] exI [of _ "new # ess"])
        (auto elim!: list_all2_mono intro: item_entries_append)
  qed
  show ?case
  proof (cases "af_new_path item")
    case None
    with Cons.prems show ?thesis
      by (intro joined [of h "[]" "gone item"]) (simp_all add: removals_gone item_entries_def)
  next
    case (Some new)
    let ?blob = "blob_request n hs (case af_content item of None \<Rightarrow> [] | Some c \<Rightarrow> c)"
    from Cons.prems Some obtain j blob u where j: "send_json client ?blob h = (Inr j, u)"
      and blob: "sha_field ''GitHub blob response is missing its SHA'' j = Inr blob"
      and rest: "post_entries client n hs items (es @ gone item @ [\<lparr>ti_path = new, ti_sha = Some blob\<rparr>]) u = (Inr entries, t)"
      by (auto simp: act_returns removals_gone)
    from send_json_told [where f = "sha_field ''GitHub blob response is missing its SHA''", OF j blob]
    obtain entry where "hub_log u = hub_log h @ [entry]"
      "told [entry] ?blob (sha_field ''GitHub blob response is missing its SHA'') blob" by blast
    with Some show ?thesis by (intro joined [OF _ _ rest]) (simp_all add: item_entries_def)
  qed
qed

text \<open>The tree over the base tree, the commit over the base, and at last the ref.\<close>

definition moved_at_last ::
    "exchange list \<Rightarrow> string \<Rightarrow> http_headers \<Rightarrow> string \<Rightarrow> string \<Rightarrow> string \<Rightarrow> string \<Rightarrow>
     tree_item list \<Rightarrow> string \<Rightarrow> bool" where
  "moved_at_last sent n hs branch base run_text base_tree entries commit \<longleftrightarrow> (\<exists>tree.
     told sent (tree_request n hs base_tree entries) (sha_field ''GitHub tree response is missing its SHA'') tree \<and>
     told sent (commit_request n hs run_text tree base) (sha_field ''GitHub commit response is missing its SHA'') commit \<and>
     (\<exists>r front. sent = front @ [(update_request n hs branch commit, Inr r)] \<and> successful r))"

lemma told_before: "told k r f x \<Longrightarrow> told (l @ k) r f x"
  by simp

lemma moved_at_last_append:
  assumes "moved_at_last k n hs branch b i bt es c"
  shows "moved_at_last (l @ k) n hs branch b i bt es c"
proof -
  from assms obtain tree r front where t: "k = front @ [(update_request n hs branch c, Inr r)]" "successful r"
    "told k (tree_request n hs bt es) (sha_field ''GitHub tree response is missing its SHA'') tree"
    "told k (commit_request n hs i tree b) (sha_field ''GitHub commit response is missing its SHA'') c"
    unfolding moved_at_last_def by blast
  then have "l @ k = (l @ front) @ [(update_request n hs branch c, Inr r)]" by simp
  with t(2) t(3,4) [THEN told_before] show ?thesis unfolding moved_at_last_def by blast
qed

lemma commit_applied_told:
  assumes "commit_applied client n hs branch base run_text base_tree entries h = (Inr commit, t)"
  shows "\<exists>sent. hub_log t = hub_log h @ sent \<and> moved_at_last sent n hs branch base run_text base_tree entries commit"
proof -
  let ?f = "sha_field ''GitHub tree response is missing its SHA''" and ?g = "sha_field ''GitHub commit response is missing its SHA''"
  from assms [unfolded commit_applied_def, simplified act_returns raise_for_status_Inr]
  obtain j tree u k v r where j: "send_json client (tree_request n hs base_tree entries) h = (Inr j, u)"
    and tree: "?f j = Inr tree" and k: "send_json client (commit_request n hs run_text tree base) u = (Inr k, v)"
    and commit: "?g k = Inr commit" and r: "send client (update_request n hs branch commit) v = (Inr r, t)"
    and ok: "successful r"
    by (clarsimp split: if_splits simp: act_returns raise_for_status_Inr)
  from send_json_told [where f = ?f, OF j tree] obtain a where
    a: "hub_log u = hub_log h @ [a]" "told [a] (tree_request n hs base_tree entries) ?f tree" by blast
  from send_json_told [where f = ?g, OF k commit] obtain b where
    b: "hub_log v = hub_log u @ [b]" "told [b] (commit_request n hs run_text tree base) ?g commit" by blast
  let ?last = "(update_request n hs branch commit, Inr r)"
  have "told ([a] @ [b] @ [?last]) (tree_request n hs base_tree entries) ?f tree"
    "told ([a] @ [b] @ [?last]) (commit_request n hs run_text tree base) ?g commit"
    using a(2) b(2) by (simp_all only: told_append simp_thms)
  then have "moved_at_last ([a] @ [b] @ [?last]) n hs branch base run_text base_tree entries commit"
    unfolding moved_at_last_def using ok by (intro exI [of _ tree] exI [of _ r] exI [of _ "[a] @ [b]"] conjI) simp_all
  then show ?thesis using send_log [OF r] a(1) b(1) by (intro exI [of _ "[a] @ [b] @ [?last]"]) simp
qed

text \<open>The base was the head of the branch; the patch was applied to the files as they are there.\<close>

definition patch_over_base ::
    "exchange list \<Rightarrow> string \<Rightarrow> http_headers \<Rightarrow> string \<Rightarrow> string \<Rightarrow> string \<Rightarrow>
     tree_item list \<Rightarrow> bool" where
  "patch_over_base sent n hs base diff base_tree entries \<longleftrightarrow> (\<exists>originals applied ess.
     read_at sent n hs base originals \<and> apply_text_diff diff originals = Inr applied \<and>
     told sent (base_commit_request n hs base) (nested_sha ''tree'') (JStr base_tree) \<and>
     list_all2 (item_entries sent n hs) applied ess \<and> entries = concat ess)"

lemma patch_over_base_append:
  assumes "patch_over_base k n hs base diff bt es"
  shows "patch_over_base (k @ l) n hs base diff bt es" "patch_over_base (l @ k) n hs base diff bt es"
proof -
  from assms obtain m ap ess where m: "apply_text_diff diff m = Inr ap" "es = concat ess" "read_at k n hs base m"
    "told k (base_commit_request n hs base) (nested_sha ''tree'') (JStr bt)"
    "list_all2 (item_entries k n hs) ap ess"
    unfolding patch_over_base_def by blast
  have "list_all2 (item_entries (k @ l) n hs) ap ess" "list_all2 (item_entries (l @ k) n hs) ap ess"
    using m(5) by (auto elim!: list_all2_mono intro: item_entries_append)
  then show "patch_over_base (k @ l) n hs base diff bt es" "patch_over_base (l @ k) n hs base diff bt es"
    unfolding patch_over_base_def using m by (auto simp: read_at_def intro!: exI [of _ m] exI [of _ ap] exI [of _ ess])
qed

lemma write_patch_told:
  assumes "write_patch client n hs branch base diff run_text h = (Inr commit, t)"
  shows "\<exists>sent base_tree entries. hub_log t = hub_log h @ sent \<and>
    patch_over_base sent n hs base diff base_tree entries \<and>
    moved_at_last sent n hs branch base run_text base_tree entries commit"
proof -
  let ?base = "base_commit_request n hs base"
  from assms obtain ps m u ap j v bt es x where
    m: "fetch_originals client n base hs ps Map.empty h = (Inr m, u)" and ap: "apply_text_diff diff m = Inr ap"
    and j: "send_json client ?base u = (Inr j, v)" and bt: "nested_sha ''tree'' j = Inr (JStr bt)"
    and es: "post_entries client n hs ap [] v = (Inr es, x)"
    and c: "commit_applied client n hs branch base run_text bt es x = (Inr commit, t)"
    by (auto simp: write_patch_def act_returns as_str_Some split: option.splits)
  from fetch_originals_told [OF m read_at_empty [of "[]"]] obtain k1 where
    k1: "hub_log u = hub_log h @ k1" "read_at k1 n hs base m" by auto
  from send_json_told [where f = "nested_sha ''tree''", OF j bt] obtain k2 where
    k2: "hub_log v = hub_log u @ [k2]" "told [k2] ?base (nested_sha ''tree'') (JStr bt)" by blast
  from post_entries_told [OF es] obtain k3 ess where
    k3: "hub_log x = hub_log v @ k3" "list_all2 (item_entries k3 n hs) ap ess" "es = concat ess" by auto
  from commit_applied_told [OF c] obtain k4 where
    k4: "hub_log t = hub_log x @ k4" "moved_at_last k4 n hs branch base run_text bt es commit" by blast
  have "list_all2 (item_entries (k1 @ [k2] @ k3) n hs) ap ess"
    using k3(2) by (rule list_all2_mono) (simp only: item_entries_append append_assoc [symmetric])
  moreover have "told (k1 @ [k2] @ k3) ?base (nested_sha ''tree'') (JStr bt)"
    using k2(2) by (simp only: told_append simp_thms)
  ultimately have "patch_over_base (k1 @ [k2] @ k3) n hs base diff bt es"
    unfolding patch_over_base_def using read_at_append [OF k1(2)] k3(3) ap by blast
  from patch_over_base_append(1) [OF this, of k4] moved_at_last_append [OF k4(2), of "k1 @ [k2] @ k3"]
  show ?thesis using k1(1) k2(1) k3(1) k4(1)
    by (intro exI [of _ "k1 @ [k2] @ k3 @ k4"] exI [of _ bt] exI [of _ es]) simp
qed

text \<open>
  C4: A returned commit is the patch over its base: for an allowed repository and a valid branch, the head
  of the branch was the base; the diff applied to the files as they are at the base gives the entries,
  each new path with the blob of its new content and each old path of a removal or a move taken away;
  the tree is over the tree of the base, the commit has the base as its only parent, and the last
  request, without force, moves the branch to it.
\<close>

theorem written_commit_is_the_patch_over_its_base:
  assumes "app_apply_unified_diff ac repository_id branch base diff run_text h = (Inr commit, t)"
  shows "\<exists>n token sent base_tree entries. repository_id \<in> set (ac_allowed ac) \<and> valid_branch branch \<and>
    hub_log t = hub_log h @ sent \<and>
    told sent (Http_Get (ref_path n branch) (auth_headers token) []) (nested_sha ''object'') (JStr base) \<and>
    patch_over_base sent n (auth_headers token) base diff base_tree entries \<and>
    moved_at_last sent n (auth_headers token) branch base run_text base_tree entries commit"
proof -
  from assms obtain token u n v j x where
    auth: "authorize ac repository_id branch = Inr ()"
    and token: "installation_token (ac_client ac) (ac_jwt ac) repository_id
      [(''contents'', ''write''), (''metadata'', ''read'')] h = (Inr token, u)"
    and n: "repository_name (ac_client ac) repository_id token u = (Inr n, v)"
    and j: "send_json (ac_client ac) (Http_Get (ref_path n branch) (auth_headers token) []) v = (Inr j, x)"
    and head: "nested_sha ''object'' j = Inr (JStr base)"
    and w: "write_patch (ac_client ac) n (auth_headers token) branch base diff run_text x = (Inr commit, t)"
    by (auto simp: app_apply_unified_diff_def act_returns split: if_splits)
  from logsD [OF logs_identity(1) token] logsD [OF logs_identity(2) n] obtain k where k: "hub_log v = hub_log h @ k"
    by auto
  from send_json_told [where f = "nested_sha ''object''", OF j head] obtain e where e: "hub_log x = hub_log v @ [e]"
    "told [e] (Http_Get (ref_path n branch) (auth_headers token) []) (nested_sha ''object'') (JStr base)" by blast
  from write_patch_told [OF w] obtain sent bt es where sent: "hub_log t = hub_log x @ sent"
    "patch_over_base sent n (auth_headers token) base diff bt es"
    "moved_at_last sent n (auth_headers token) branch base run_text bt es commit" by blast
  from patch_over_base_append(2) [OF sent(2), of "k @ [e]"] moved_at_last_append [OF sent(3), of "k @ [e]"]
  have "\<exists>base_tree entries. repository_id \<in> set (ac_allowed ac) \<and> valid_branch branch \<and>
    hub_log t = hub_log h @ (k @ [e]) @ sent \<and>
    told ((k @ [e]) @ sent) (Http_Get (ref_path n branch) (auth_headers token) []) (nested_sha ''object'') (JStr base) \<and>
    patch_over_base ((k @ [e]) @ sent) n (auth_headers token) base diff base_tree entries \<and>
    moved_at_last ((k @ [e]) @ sent) n (auth_headers token) branch base run_text base_tree entries commit"
    using k e sent(1) auth unfolding told_append by (auto simp: authorize_Inr)
  then show ?thesis by blast
qed

section \<open>Behind the validated push\<close>

abbreviation asked :: "db \<times> 'w hub \<Rightarrow> exchange list" where
  "asked s \<equiv> hub_log (snd s)"

lemma on_db_calls: "adds_calls asked (on_db m) {[]}"
  by (simp add: adds_calls_def on_db_def split: prod.splits)

lemma on_remote_calls:
  assumes "calls_within m C"
  shows "adds_calls asked (on_remote m) C"
  unfolding adds_calls_def
proof
  fix s :: "db \<times> 'a hub"
  from assms obtain cs where "cs \<in> C" "hub_log (snd (m (snd s))) = hub_log (snd s) @ cs"
    by (auto simp: adds_calls_def)
  then show "\<exists>cs \<in> C. asked (snd (on_remote m s)) = asked s @ cs"
    by (auto simp: on_remote_def split: prod.splits)
qed

lemma refuse_silent: "adds_calls asked (refuse rid target reason actor) {[]}"
  unfolding refuse_def then_act_def by (intro calls_then_silent on_db_calls calls_ret)

lemma moves_then_silent:
  assumes "adds_calls asked m still" and "\<And>x. adds_calls asked (f x) (ref_moves ac i branch)"
  shows "adds_calls asked (bind_act m f) (ref_moves ac i branch)"
  by (rule adds_calls_mono [OF calls_append [OF assms]])
    (auto simp: followed_by_def intro: still_in_moves still_then_moves)

lemma still_moves: "adds_calls asked m still \<Longrightarrow> adds_calls asked m (ref_moves ac i branch)"
  by (erule adds_calls_mono) (auto intro: still_in_moves)

lemma validated_patch_moves_one_ref:
  "adds_calls asked (apply_validated_patch recheck_at (github_app_writer ac) q policy audit)
     (ref_moves ac (vr_repository_id q) (vr_branch q))"
proof -
  note silent = on_db_calls [THEN only_silent] calls_throw [THEN only_silent]
  have stale: "adds_calls asked (then_act (on_db m) (throw e)) still" for m :: "(db, unit) act" and e
    unfolding then_act_def by (intro only_bind silent)
  have head: "adds_calls asked (on_remote (head_sha (github_app_writer ac) i b)) still" for i b
    by (rule on_remote_calls) (simp add: github_app_writer_def still_head_sha)
  have applied: "adds_calls asked (bind_act (on_remote (apply_unified_diff (github_app_writer ac)
      (vr_repository_id q) (vr_branch q) base diff i)) (\<lambda>r. then_act (on_db m) (ret r)))
      (ref_moves ac (vr_repository_id q) (vr_branch q))" for base diff i and m :: "(db, unit) act"
    unfolding then_act_def
    by (intro calls_then_silent on_db_calls calls_ret on_remote_calls)
      (simp add: github_app_writer_def apply_moves_one_ref)
  show ?thesis
    unfolding apply_validated_patch_def Let_def then_act_def
    by (intro moves_then_silent silent head calls_if still_moves [OF silent(2)]
        still_moves [OF stale [unfolded then_act_def]] applied [unfolded then_act_def])
qed

lemma push_write_moves_one_ref:
  "adds_calls asked (push_write recheck_at pushed_at (github_app_writer ac) q policy rid actor)
     (ref_moves ac (vr_repository_id q) (vr_branch q))"
proof -
  have refused: "adds_calls asked (case e of PermissionError msg \<Rightarrow> refuse rid REFUSED msg actor | _ \<Rightarrow> throw e) {[]}" for e
    by (cases e) (simp_all add: refuse_silent calls_throw)
  have succeeded: "adds_calls asked (then_act (on_db (m c)) (ret (Some c))) {[]}"
    for m :: "string \<Rightarrow> (db, unit) act" and c :: string
    unfolding then_act_def by (intro calls_then_silent on_db_calls calls_ret)
  show ?thesis unfolding push_write_def
    by (rule adds_calls_mono [OF calls_try [OF validated_patch_moves_one_ref refused succeeded]])
      (auto simp: followed_by_def)
qed

text \<open>
  C3: GitHub sees a ref move only through the gate: whatever comes of a validated push, the exchanges
  of the writer with GitHub hold at most one request that moves a ref, which is the last; it does not
  force, and names the branch of the evidence in the repository of the run, which is an allowed one:
  its name is what GitHub answered for the run's repository id, asked with a token that GitHub gave
  for that id alone. It is there only when the run was admitted as a CI run in \<open>evaluating\<close> with no
  patch from before and the gate allowed its patch, both times it was asked.
\<close>

theorem github_ref_moves_only_through_the_gate:
  assumes "push_validated_patch dump recheck_at pushed_at rid artifact ev (github_app_writer ac) policy actor (d, w) =
      (res, (d', w'))"
  shows "\<exists>ds us. hub_log w' = hub_log w @ ds @ us \<and> filter (\<lambda>e. moves_ref (fst e)) ds = [] \<and>
    (us = [] \<or> (\<exists>r pull n token commit a. push_admitted d rid artifact ev r pull \<and>
      get_artifact d rid ''patch'' = None \<and>
      pr_outcome (evaluate_push_gate (push_context_of r pull artifact ev d) policy (db_now d)) = ALLOW \<and>
      pr_outcome (evaluate_push_gate (push_context_of r pull artifact ev d) policy recheck_at) = ALLOW \<and>
      run_repository_id r \<in> set (ac_allowed ac) \<and> valid_branch (pe_branch ev) \<and>
      named_by_id ac (run_repository_id r) ds token n \<and>
      us = [(update_request n (auth_headers token) (pe_branch ev) commit, a)]))"
proof (cases "w' = w")
  case True
  then show ?thesis by auto
next
  case False
  with push_gate_passed [OF assms] obtain r pull where adm: "push_admitted d rid artifact ev r pull"
    and first: "get_artifact d rid ''patch'' = None"
    and allow: "pr_outcome (evaluate_push_gate (push_context_of r pull artifact ev d) policy (db_now d)) = ALLOW"
      "pr_outcome (evaluate_push_gate (push_context_of r pull artifact ev d) policy recheck_at) = ALLOW"
    by blast
  let ?q = "\<lparr>vr_repository_id = run_repository_id r, vr_branch = pe_branch ev, vr_context = push_context_of r pull artifact ev d\<rparr>"
  from assms [unfolded push_validated_gated [OF adm] push_gated_run [OF adm first refl] Let_def] False
  obtain d1 where "push_write recheck_at pushed_at (github_app_writer ac) ?q policy rid actor (d1, w) = (res, (d', w'))"
    by (auto split: if_splits)
  from adds_callsD [OF push_write_moves_one_ref this] obtain k where
    k: "hub_log w' = hub_log w @ k" "k \<in> ref_moves ac (run_repository_id r) (pe_branch ev)" by auto
  from k(2) obtain ds us where ds: "k = ds @ us" "ds \<in> still"
    and us: "us = [] \<or> (\<exists>n token commit a. us = [(update_request n (auth_headers token) (pe_branch ev) commit, a)] \<and>
      run_repository_id r \<in> set (ac_allowed ac) \<and> valid_branch (pe_branch ev) \<and>
      named_by_id ac (run_repository_id r) ds token n)"
    by (rule ref_movesE) blast
  from ds(2) have "filter (\<lambda>e. moves_ref (fst e)) ds = []" by (simp add: only_calls_def filter_empty_conv)
  with k(1) [unfolded ds(1)] adm first allow us show ?thesis by blast
qed

section \<open>A write answered by a script\<close>

definition scripted :: "json list http_client" where
  "scripted request world = (case world of [] \<Rightarrow> (Inl status_error, [])
     | j # js \<Rightarrow> (Inr \<lparr>hr_status = 200, hr_json = Inr j, hr_chunks = []\<rparr>, js))"

definition sha_json :: "string \<Rightarrow> json" where
  "sha_json s = JObj [(''sha'', JStr s)]"

definition identity_answers :: "json list" where
  "identity_answers = [JObj [(''id'', JInt 5)], JObj [(''token'', JStr ''t'')],
     JObj [(''full_name'', JStr ''o/r'')], JObj [(''object'', sha_json example_sha)]]"

definition write_answers :: "json list" where
  "write_answers = [JObj [(''type'', JStr ''file''), (''encoding'', JStr ''base64''), (''content'', JStr (b64_encode (''a'' @ [LF] @ ''c'' @ [LF])))],
     JObj [(''tree'', sha_json ''t0'')], sha_json ''b1'', sha_json ''t1'', sha_json (replicate 40 (CHR ''c'')), JNull]"

definition example_app :: "json list app_client" where
  "example_app = \<lparr>ac_client = scripted, ac_jwt = ''j'', ac_allowed = [11]\<rparr>"

definition scripted_hub :: "json list \<Rightarrow> json list hub" where
  "scripted_hub answers = \<lparr>hub_log = [], hub_world = answers\<rparr>"

definition example_commit :: string where
  "example_commit = replicate 40 (CHR ''c'')"

lemma example_write:
  "fst (app_apply_unified_diff example_app 11 ''fix'' example_sha example_diff (uuid_str 0)
     (scripted_hub (identity_answers @ write_answers))) = Inr example_commit"
  by code_simp

theorem written_commit_is_the_patch_over_its_base_witness:
  "\<exists>n token sent base_tree entries. 11 \<in> set (ac_allowed example_app) \<and> valid_branch ''fix'' \<and>
    told sent (Http_Get (ref_path n ''fix'') (auth_headers token) []) (nested_sha ''object'') (JStr example_sha) \<and>
    patch_over_base sent n (auth_headers token) example_sha example_diff base_tree entries \<and>
    moved_at_last sent n (auth_headers token) ''fix'' example_sha (uuid_str 0) base_tree entries example_commit"
  using written_commit_is_the_patch_over_its_base [OF prod_eqI [where q = "(Inr example_commit, snd (app_apply_unified_diff
      example_app 11 ''fix'' example_sha example_diff (uuid_str 0) (scripted_hub (identity_answers @ write_answers))))"]]
    example_write by fastforce

definition pushing_hub :: "json list hub" where
  "pushing_hub = scripted_hub (identity_answers @ identity_answers @ write_answers)"

definition head_read :: "json list hub" where
  "head_read = snd (app_head_sha example_app 11 ''fix'' pushing_hub)"

definition patch_written :: "json list hub" where
  "patch_written = snd (app_apply_unified_diff example_app 11 ''fix'' example_sha example_diff (uuid_str 0) head_read)"

lemma example_app_run:
  "app_head_sha example_app 11 ''fix'' pushing_hub = (Inr example_sha, head_read)"
  "app_apply_unified_diff example_app 11 ''fix'' example_sha example_diff (uuid_str 0) head_read = (Inr example_commit, patch_written)"
proof -
  have "fst (app_head_sha example_app 11 ''fix'' pushing_hub) = Inr example_sha" by code_simp
  then show "app_head_sha example_app 11 ''fix'' pushing_hub = (Inr example_sha, head_read)"
    by (simp add: head_read_def prod_eq_iff)
  have "fst (app_apply_unified_diff example_app 11 ''fix'' example_sha example_diff (uuid_str 0) head_read) = Inr example_commit"
    by code_simp
  then show "app_apply_unified_diff example_app 11 ''fix'' example_sha example_diff (uuid_str 0) head_read =
      (Inr example_commit, patch_written)"
    by (simp add: patch_written_def prod_eq_iff)
qed

lemma example_app_push:
  "\<exists>d'. push_validated_patch (\<lambda>_. []) (seconds 1) (seconds 2) 0 example_patch example_evidence (github_app_writer example_app)
     example_policy ''worker'' (evaluating_db, pushing_hub) = (Inr (Some example_commit), (d', patch_written))"
  by (rule allowed_push [OF evaluating_run(1,4) example_gate [OF example_times(1)] example_gate [OF example_times(2)]
        example_push_hyps(1), where ?w1.0 = head_read])
    (simp_all add: github_app_writer_def evaluating_run example_evidence_def example_patch_def example_app_run)

theorem github_ref_moves_only_through_the_gate_witness:
  "\<exists>ds n token commit a. hub_log patch_written = hub_log pushing_hub @ ds @
     [(update_request n (auth_headers token) ''fix'' commit, a)] \<and> named_by_id example_app 11 ds token n"
proof -
  have moved: "filter moves_ref (hub_calls patch_written) \<noteq> []" "filter moves_ref (hub_calls pushing_hub) = []"
    by code_simp+
  obtain d' where "push_validated_patch (\<lambda>_. []) (seconds 1) (seconds 2) 0 example_patch example_evidence
      (github_app_writer example_app) example_policy ''worker'' (evaluating_db, pushing_hub) =
      (Inr (Some example_commit), (d', patch_written))"
    using example_app_push by blast
  from github_ref_moves_only_through_the_gate [OF this] obtain ds us where
    log: "hub_log patch_written = hub_log pushing_hub @ ds @ us" "filter (\<lambda>e. moves_ref (fst e)) ds = []"
    and us: "us = [] \<or> (\<exists>r pull n token commit a. push_admitted evaluating_db 0 example_patch example_evidence r pull \<and>
      named_by_id example_app (run_repository_id r) ds token n \<and>
      us = [(update_request n (auth_headers token) (pe_branch example_evidence) commit, a)])"
    by blast
  have "us \<noteq> []" using moved log by (auto simp: hub_calls_def filter_map o_def)
  with us obtain r pull n token commit a where r: "push_admitted evaluating_db 0 example_patch example_evidence r pull"
    "named_by_id example_app (run_repository_id r) ds token n"
    "us = [(update_request n (auth_headers token) (pe_branch example_evidence) commit, a)]" by blast
  from r(1) have "run_repository_id r = 11" using evaluating_run(2) by (auto simp: push_admitted_def)
  with log r(2,3) show ?thesis by (auto simp: example_evidence_def)
qed

end
