(* ===== verification/Evidence.thy ===== *)
theory Evidence
  imports Schemas Redaction PatchApply Snapshot Json
begin

text \<open>
  \<open>gateway/github_evidence.py\<close>: the typed evidence about a pull request and a check, the bounding and
  redaction of untrusted text, and the hunks of a diff. The dumps are what \<open>model_dump\<close> gives in
  JSON mode, the fields in the order of the classes.
\<close>

definition EVIDENCE_LIMIT :: nat where "EVIDENCE_LIMIT = 12000"

section \<open>Texts\<close>

record evidence_text =
  et_locator :: string
  et_text :: string
  et_content_hash :: string
  et_redacted :: bool
  et_truncated :: bool

definition validate_evidence_text :: "evidence_text \<Rightarrow> evidence_text res" where
  "validate_evidence_text t = bind_res (checks
     [(len_between 1 2000 (et_locator t), ''field''), (length (et_text t) \<le> 12000, ''field''),
      (length (et_content_hash t) = 64, ''field''),
      (list_all is_lower_hex (et_content_hash t), ''evidence hash must be lowercase hexadecimal'')]) (\<lambda>_. Inr t)"

definition blocked_text :: string where
  "blocked_text = ''evidence blocked by redaction policy''"

definition bounded_untrusted_text :: "string \<Rightarrow> string \<Rightarrow> nat \<Rightarrow> rx list \<Rightarrow> evidence_text res" where
  "bounded_untrusted_text text locator limit extra =
    (let encoded = utf8 text; truncated = limit < length encoded;
         bounded = decode_ignore (take limit encoded); result = redact bounded extra
     in validate_evidence_text
       \<lparr>et_locator = locator, et_text = (if red_detected result then blocked_text else red_text result),
        et_content_hash = sha256_hex encoded, et_redacted = red_detected result, et_truncated = truncated\<rparr>)"

section \<open>Diffs\<close>

record diff_hunk =
  dh_locator :: string
  dh_header :: string
  dh_section :: "string option"
  dh_old_start :: int
  dh_old_count :: int
  dh_new_start :: int
  dh_new_count :: int
  dh_body :: evidence_text

record diff_file =
  df_path :: string
  df_previous_path :: "string option"
  df_status :: string
  df_additions :: int
  df_deletions :: int
  df_changes :: int
  df_binary :: string
  df_patch_hash :: string
  df_hunks :: "diff_hunk list"

text \<open>Paths are compared as text here: an empty component or \<open>.\<close> passes, \<open>..\<close> does not.\<close>

definition relative_path :: "string \<Rightarrow> bool" where
  "relative_path p \<longleftrightarrow> \<not> starts_with ''/'' p \<and> ''..'' \<notin> set (split_on (CHR ''/'') p) \<and> NUL \<notin> set p"

definition evidence_path :: "string \<Rightarrow> bool" where
  "evidence_path p \<longleftrightarrow> p \<noteq> [] \<and> relative_path p"

definition diff_statuses :: "string list" where
  "diff_statuses = [''added'', ''modified'', ''removed'', ''renamed'', ''copied'', ''changed'']"

definition validate_diff_file :: "diff_file \<Rightarrow> diff_file res" where
  "validate_diff_file f = bind_res (checks
     [(len_between 1 2000 (df_path f), ''field''),
      (case df_previous_path f of None \<Rightarrow> True | Some p \<Rightarrow> length p \<le> 2000, ''field''),
      (df_status f \<in> set diff_statuses, ''field''),
      (0 \<le> df_additions f \<and> 0 \<le> df_deletions f \<and> 0 \<le> df_changes f, ''field''),
      (df_binary f \<in> set [''yes'', ''no'', ''unknown''], ''field''),
      (length (df_patch_hash f) = 64, ''field''), (length (df_hunks f) \<le> 200, ''field''),
      (evidence_path (df_path f), ''diff evidence paths must be repository-relative''),
      (case df_previous_path f of None \<Rightarrow> True | Some p \<Rightarrow> evidence_path p,
       ''diff evidence paths must be repository-relative'')]) (\<lambda>_. Inr f)"

record pull_diff =
  pd_repository_id :: int
  pd_pull_number :: int
  pd_base_sha :: string
  pd_head_sha :: string
  pd_head_ref :: string
  pd_same_repository :: bool
  pd_files :: "diff_file list"
  pd_truncated :: bool

definition validate_pull_diff :: "pull_diff \<Rightarrow> pull_diff res" where
  "validate_pull_diff d = bind_res (checks
     [(0 < pd_repository_id d \<and> 0 < pd_pull_number d, ''field''),
      (len_between 40 64 (pd_base_sha d) \<and> len_between 40 64 (pd_head_sha d), ''field''),
      (len_between 1 255 (pd_head_ref d), ''field''),
      (1 \<le> length (pd_files d) \<and> length (pd_files d) \<le> 300, ''field''),
      (immutable_sha (pd_base_sha d) \<and> immutable_sha (pd_head_sha d),
       ''diff evidence requires immutable lowercase SHAs'')]) (\<lambda>_. Inr d)"

section \<open>Checks\<close>

record check_annotation =
  an_locator :: string
  an_path :: string
  an_start_line :: int
  an_end_line :: int
  an_level :: string
  an_title :: "string option"
  an_message :: evidence_text

definition annotation_levels :: "string list" where
  "annotation_levels = [''notice'', ''warning'', ''failure'']"

definition validate_annotation :: "check_annotation \<Rightarrow> check_annotation res" where
  "validate_annotation a = bind_res (checks
     [(len_between 1 2000 (an_path a), ''field''), (1 \<le> an_start_line a \<and> 1 \<le> an_end_line a, ''field''),
      (an_level a \<in> set annotation_levels, ''field''),
      (relative_path (an_path a), ''check annotation paths must be repository-relative'')]) (\<lambda>_. Inr a)"

record check_result =
  cr_repository_id :: int
  cr_check_run_id :: int
  cr_name :: string
  cr_head_sha :: string
  cr_status :: string
  cr_conclusion :: "string option"
  cr_app_slug :: "string option"
  cr_started_at :: "string option"
  cr_completed_at :: "string option"
  cr_output :: "evidence_text list"
  cr_log_excerpts :: "evidence_text list"
  cr_annotations :: "check_annotation list"
  cr_annotations_truncated :: bool
  cr_logs_available :: bool
  cr_unavailable_signals :: "string list"

definition check_statuses :: "string list" where
  "check_statuses = [''queued'', ''in_progress'', ''completed'', ''pending'', ''requested'', ''waiting'']"

definition validate_check_result :: "check_result \<Rightarrow> check_result res" where
  "validate_check_result c = bind_res (checks
     [(0 < cr_repository_id c \<and> 0 < cr_check_run_id c, ''field''), (len_between 1 255 (cr_name c), ''field''),
      (len_between 40 64 (cr_head_sha c), ''field''), (cr_status c \<in> set check_statuses, ''field''),
      (length (cr_output c) \<le> 3 \<and> length (cr_log_excerpts c) \<le> 3 \<and> length (cr_annotations c) \<le> 300, ''field''),
      (immutable_sha (cr_head_sha c), ''check evidence requires an immutable lowercase SHA'')]) (\<lambda>_. Inr c)"

section \<open>The hunks of a diff\<close>

text \<open>
  \<open>^@@ -(\d+)(?:,(\d+))? \+(\d+)(?:,(\d+))? @@(?:\s(?P<section>.*))?$\<close> on a line: the ranges, and
  the section if it is not empty.
\<close>

definition evidence_header :: "string \<Rightarrow> (((int \<times> int) \<times> (int \<times> int)) \<times> string option) option" where
  "evidence_header line = (case eat ''@@ -'' line of
     None \<Rightarrow> None
   | Some r1 \<Rightarrow> (case eat_range r1 of
      None \<Rightarrow> None
    | Some (old, r2) \<Rightarrow> (case eat '' +'' r2 of
       None \<Rightarrow> None
     | Some r3 \<Rightarrow> (case eat_range r3 of
        None \<Rightarrow> None
      | Some (new, r4) \<Rightarrow> (case eat '' @@'' r4 of
         None \<Rightarrow> None
       | Some [] \<Rightarrow> Some ((old, new), None)
       | Some (c # s) \<Rightarrow> if is_space c then Some ((old, new), if s = [] then None else Some s) else None)))))"

definition hunk_locator :: "int \<Rightarrow> string \<Rightarrow> nat \<Rightarrow> string" where
  "hunk_locator pull path index =
     ''pull_request#'' @ show_int pull @ '':'' @ path @ '':hunk-'' @ show_nat index"

text \<open>One hunk from its header and the lines after it; it is the one with this index.\<close>

definition hunk_of :: "int \<Rightarrow> string \<Rightarrow> rx list \<Rightarrow> nat \<times> string \<times> string list \<Rightarrow> diff_hunk res" where
  "hunk_of pull path extra seg = (case seg of (index, header, body) \<Rightarrow> (case evidence_header header of
     None \<Rightarrow> Inl (ValueError ''GitHub diff contains an invalid hunk header'')
   | Some (((old_start, old_count), (new_start, new_count)), sect) \<Rightarrow>
       bind_res (bounded_untrusted_text (join [LF] body) (hunk_locator pull path index) EVIDENCE_LIMIT extra)
         (\<lambda>t. Inr \<lparr>dh_locator = hunk_locator pull path index, dh_header = header, dh_section = sect,
            dh_old_start = old_start, dh_old_count = old_count, dh_new_start = new_start,
            dh_new_count = new_count, dh_body = t\<rparr>)))"

definition append_hunk ::
    "int \<Rightarrow> string \<Rightarrow> rx list \<Rightarrow> diff_hunk list \<Rightarrow> (string \<times> string list) option \<Rightarrow> diff_hunk list res" where
  "append_hunk pull path extra hunks current = (case current of
     None \<Rightarrow> Inr hunks
   | Some (header, body) \<Rightarrow>
       bind_res (hunk_of pull path extra (length hunks + 1, header, body)) (\<lambda>h. Inr (hunks @ [h])))"

fun hunk_loop ::
    "int \<Rightarrow> string \<Rightarrow> rx list \<Rightarrow> string list \<Rightarrow> diff_hunk list \<Rightarrow> (string \<times> string list) option \<Rightarrow> diff_hunk list res" where
  "hunk_loop pull path extra [] hunks current = append_hunk pull path extra hunks current"
| "hunk_loop pull path extra (line # ls) hunks current =
    (if starts_with ''@@ '' line
     then bind_res (append_hunk pull path extra hunks current)
       (\<lambda>hunks. hunk_loop pull path extra ls hunks (Some (line, [])))
     else (case current of
         None \<Rightarrow> hunk_loop pull path extra ls hunks None
       | Some (header, body) \<Rightarrow> hunk_loop pull path extra ls hunks (Some (header, body @ [line]))))"

definition parse_diff_hunks :: "string \<Rightarrow> int \<Rightarrow> string \<Rightarrow> rx list \<Rightarrow> diff_hunk list res" where
  "parse_diff_hunks patch pull path extra = hunk_loop pull path extra (splitlines patch) [] None"

section \<open>Dumps\<close>

definition opt_json :: "string option \<Rightarrow> json" where
  "opt_json v = (case v of None \<Rightarrow> JNull | Some s \<Rightarrow> JStr s)"

definition evidence_text_json :: "evidence_text \<Rightarrow> json" where
  "evidence_text_json t = JObj [(''locator'', JStr (et_locator t)), (''text'', JStr (et_text t)),
     (''content_hash'', JStr (et_content_hash t)), (''redacted'', JBool (et_redacted t)),
     (''truncated'', JBool (et_truncated t)), (''untrusted_source'', JBool True)]"

definition diff_hunk_json :: "diff_hunk \<Rightarrow> json" where
  "diff_hunk_json h = JObj [(''locator'', JStr (dh_locator h)), (''header'', JStr (dh_header h)),
     (''section'', opt_json (dh_section h)), (''old_start'', JInt (dh_old_start h)),
     (''old_count'', JInt (dh_old_count h)), (''new_start'', JInt (dh_new_start h)),
     (''new_count'', JInt (dh_new_count h)), (''body'', evidence_text_json (dh_body h))]"

definition diff_file_json :: "diff_file \<Rightarrow> json" where
  "diff_file_json f = JObj [(''path'', JStr (df_path f)), (''previous_path'', opt_json (df_previous_path f)),
     (''status'', JStr (df_status f)), (''additions'', JInt (df_additions f)),
     (''deletions'', JInt (df_deletions f)), (''changes'', JInt (df_changes f)),
     (''binary'', JStr (df_binary f)), (''symlink'', JStr ''unknown''), (''submodule'', JStr ''unknown''),
     (''patch_hash'', JStr (df_patch_hash f)), (''hunks'', JArr (map diff_hunk_json (df_hunks f)))]"

definition pull_diff_json :: "pull_diff \<Rightarrow> json" where
  "pull_diff_json d = JObj [(''schema_version'', JStr ''diff-evidence-v1''),
     (''repository_id'', JInt (pd_repository_id d)), (''pull_number'', JInt (pd_pull_number d)),
     (''base_sha'', JStr (pd_base_sha d)), (''head_sha'', JStr (pd_head_sha d)),
     (''head_ref'', JStr (pd_head_ref d)), (''same_repository'', JBool (pd_same_repository d)),
     (''files'', JArr (map diff_file_json (pd_files d))), (''truncated'', JBool (pd_truncated d))]"

definition check_annotation_json :: "check_annotation \<Rightarrow> json" where
  "check_annotation_json a = JObj [(''locator'', JStr (an_locator a)), (''path'', JStr (an_path a)),
     (''start_line'', JInt (an_start_line a)), (''end_line'', JInt (an_end_line a)),
     (''annotation_level'', JStr (an_level a)), (''title'', opt_json (an_title a)),
     (''message'', evidence_text_json (an_message a))]"

definition check_result_json :: "check_result \<Rightarrow> json" where
  "check_result_json c = JObj [(''schema_version'', JStr ''check-evidence-v1''),
     (''repository_id'', JInt (cr_repository_id c)), (''check_run_id'', JInt (cr_check_run_id c)),
     (''name'', JStr (cr_name c)), (''head_sha'', JStr (cr_head_sha c)), (''status'', JStr (cr_status c)),
     (''conclusion'', opt_json (cr_conclusion c)), (''app_slug'', opt_json (cr_app_slug c)),
     (''started_at'', opt_json (cr_started_at c)), (''completed_at'', opt_json (cr_completed_at c)),
     (''output'', JArr (map evidence_text_json (cr_output c))),
     (''log_excerpts'', JArr (map evidence_text_json (cr_log_excerpts c))),
     (''annotations'', JArr (map check_annotation_json (cr_annotations c))),
     (''annotations_truncated'', JBool (cr_annotations_truncated c)),
     (''logs_available'', JBool (cr_logs_available c)),
     (''unavailable_signals'', JArr (map JStr (cr_unavailable_signals c)))]"

section \<open>What a text may hold\<close>

text \<open>A text that went through the bound and the detectors: blocked, or a clean beginning of the original.\<close>

definition clean_evidence :: "evidence_text \<Rightarrow> string \<Rightarrow> nat \<Rightarrow> rx list \<Rightarrow> bool" where
  "clean_evidence t original limit extra \<longleftrightarrow>
     et_content_hash t = sha256_hex (utf8 original) \<and> (et_truncated t \<longleftrightarrow> limit < length (utf8 original)) \<and>
     (if et_redacted t then et_text t = blocked_text
      else et_text t = fit limit original \<and>
        (\<forall>r \<in> set (map snd redaction_patterns @ extra). \<not> re_search r (et_text t)))"

lemma bounded_untrusted_text_clean:
  assumes "bounded_untrusted_text original locator limit extra = Inr t"
  shows "clean_evidence t original limit extra \<and> et_locator t = locator"
proof -
  let ?r = "redact (fit limit original) extra"
  from assms have t: "et_locator t = locator" "et_content_hash t = sha256_hex (utf8 original)"
    "et_truncated t = (limit < length (utf8 original))" "et_redacted t = red_detected ?r"
    "et_text t = (if red_detected ?r then blocked_text else red_text ?r)"
    by (auto simp: bounded_untrusted_text_def validate_evidence_text_def Let_def bind_res_Inr_iff decode_ignore_take)
  show ?thesis
  proof (cases "red_detected ?r")
    case True
    with t show ?thesis by (simp add: clean_evidence_def)
  next
    case False
    with redact_clean [OF False] t redact_detected_iff [of "fit limit original" extra] show ?thesis
      unfolding clean_evidence_def by simp
  qed
qed

section \<open>The hunks are the segments of the patch\<close>

definition header_line :: "string \<Rightarrow> bool" where
  "header_line l = starts_with ''@@ '' l"

text \<open>The reference: each header line with the lines up to the next one.\<close>

fun segments :: "string list \<Rightarrow> (string \<times> string list) list" where
  "segments [] = []"
| "segments (l # ls) = (if header_line l then (l, takeWhile (\<lambda>x. \<not> header_line x) ls) # segments ls else segments ls)"

lemma hunk_loop_segments:
  "hunk_loop pull path extra ls hunks None =
     bind_res (traverse (hunk_of pull path extra) (enumerate (length hunks + 1) (segments ls))) (\<lambda>hs. Inr (hunks @ hs))"
  "hunk_loop pull path extra ls hunks (Some (h, b)) =
     bind_res (traverse (hunk_of pull path extra)
       ((length hunks + 1, h, b @ takeWhile (\<lambda>x. \<not> header_line x) ls) # enumerate (length hunks + 2) (segments ls)))
       (\<lambda>hs. Inr (hunks @ hs))"
proof (induction ls arbitrary: hunks h b)
  case Nil
  { case 1 show ?case by (simp add: append_hunk_def) }
  { case 2 show ?case by (simp add: append_hunk_def split: sum.splits) }
next
  case (Cons l ls)
  { case 1 show ?case using Cons.IH by (simp add: append_hunk_def header_line_def) }
  { case 2 show ?case using Cons.IH
      by (auto simp: append_hunk_def header_line_def bind_res_def split: sum.splits) }
qed

text \<open>
  C34: The hunks of a patch are its segments: the loop over the lines gives, in order and numbered from 1,
  one hunk for each line that begins with \<open>@@ \<close>, made of that line and of the lines up to the next
  such line; the lines before the first are left out, and the first invalid header is the error.
\<close>

theorem hunks_are_the_segments_of_the_patch:
  "parse_diff_hunks patch pull path extra =
     traverse (hunk_of pull path extra) (enumerate 1 (segments (splitlines patch)))"
  by (cases "traverse (hunk_of pull path extra) (enumerate (Suc 0) (segments (splitlines patch)))")
    (simp_all add: parse_diff_hunks_def hunk_loop_segments)

text \<open>What a hunk of a returned list is: its body is bounded and clean, and is found by its locator.\<close>

definition hunk_from :: "int \<Rightarrow> string \<Rightarrow> rx list \<Rightarrow> nat \<times> string \<times> string list \<Rightarrow> diff_hunk \<Rightarrow> bool" where
  "hunk_from pull path extra seg h \<longleftrightarrow> dh_header h = fst (snd seg) \<and> dh_locator h = hunk_locator pull path (fst seg) \<and>
     et_locator (dh_body h) = dh_locator h \<and>
     clean_evidence (dh_body h) (join [LF] (snd (snd seg))) EVIDENCE_LIMIT extra"

lemma hunk_of_from: "hunk_of pull path extra seg = Inr h \<Longrightarrow> hunk_from pull path extra seg h"
  by (auto simp: hunk_of_def hunk_from_def bind_res_Inr_iff split: option.splits prod.splits
      dest!: bounded_untrusted_text_clean)

lemma parsed_hunks_from:
  assumes "parse_diff_hunks patch pull path extra = Inr hunks"
  shows "list_all2 (hunk_from pull path extra) (enumerate 1 (segments (splitlines patch))) hunks"
  using assms unfolding parse_diff_hunks_def
  by (auto simp: hunk_loop_segments bind_res_Inr_iff dest!: traverse_Inr elim!: list_all2_mono intro: hunk_of_from)

end
