(* ===== verification/GithubRead.thy ===== *)
theory GithubRead
  imports GithubApi Evidence Capability
begin

text \<open>
  \<open>gateway/github_read.py\<close>: \<open>GitHubAppArchiveReader\<close>, the read port behind the capability gateway. It
  asks GitHub with the credentials of the app, bounds what it takes, and returns typed evidence and a
  snapshot without credentials. Opening a gzipped tar, \<open>decode(errors="replace")\<close> and \<open>str\<close> of JSON
  values that are no text are parameters; a stream is the list of its chunks.
\<close>

datatype member_kind = Regular_Member | Symlink_Member | Hardlink_Member | Other_Member

text \<open>A member of a tar; its data is absent when \<open>extractfile\<close> gives none.\<close>

record tar_member =
  tm_name :: string
  tm_kind :: member_kind
  tm_size :: int
  tm_data :: "bytes option"

record 'w reader =
  rd_client :: "'w http_client"
  rd_jwt :: string
  rd_max_archive_bytes :: nat
  rd_max_file_bytes :: nat
  rd_open_tar :: "bytes \<Rightarrow> tar_member list res"
  rd_decode :: "bytes \<Rightarrow> string"
  rd_str :: "json \<Rightarrow> string"

section \<open>Values of a payload\<close>

fun json_truthy :: "json \<Rightarrow> bool" where
  "json_truthy JNull = False"
| "json_truthy (JBool b) = b"
| "json_truthy (JInt i) = (i \<noteq> 0)"
| "json_truthy (JFloat q) = (q \<noteq> PyFloat 0)"
| "json_truthy (JStr s) = (s \<noteq> [])"
| "json_truthy (JArr vs) = (vs \<noteq> [])"
| "json_truthy (JObj d) = (d \<noteq> [])"

text \<open>\<open>int(text)\<close>: a sign and digits with single underscores between, space around.\<close>

definition parse_int :: "string \<Rightarrow> int option" where
  "parse_int text =
    (let t = strip text; neg = starts_with ''-'' t; d = (if neg \<or> starts_with ''+'' t then tl t else t);
         groups = split_on (CHR ''_'') d
     in if list_all (\<lambda>g. g \<noteq> [] \<and> list_all is_digit g) groups
        then map_option (\<lambda>(n, _). if neg then - n else n) (eat_number (concat groups)) else None)"

fun json_to_int :: "json \<Rightarrow> int res" where
  "json_to_int (JInt i) = Inr i"
| "json_to_int (JBool b) = Inr (if b then 1 else 0)"
| "json_to_int (JFloat q) = py_int q"
| "json_to_int (JStr s) = (case parse_int s of None \<Rightarrow> Inl (ValueError ''invalid literal for int()'') | Some i \<Rightarrow> Inr i)"
| "json_to_int _ = Inl (OtherError ''TypeError'' ''int() argument'')"

text \<open>\<open>int(value or default)\<close>\<close>

definition int_or :: "json \<Rightarrow> json \<Rightarrow> int res" where
  "int_or j dflt = json_to_int (if json_truthy j then j else dflt)"

text \<open>\<open>value == n\<close> for an integer \<open>n\<close>\<close>

fun json_equals_int :: "json \<Rightarrow> int \<Rightarrow> bool" where
  "json_equals_int (JInt i) n = (i = n)"
| "json_equals_int (JBool b) n = ((if b then 1 else 0) = n)"
| "json_equals_int (JFloat (PyFloat q)) n = (q = of_int n)"
| "json_equals_int _ n = False"

text \<open>\<open>value in {...}\<close> for a set of texts: a list or a dictionary cannot be hashed.\<close>

definition json_among :: "json \<Rightarrow> string list \<Rightarrow> bool res" where
  "json_among j texts = (case j of
     JStr s \<Rightarrow> Inr (s \<in> set texts)
   | JArr _ \<Rightarrow> Inl (OtherError ''TypeError'' ''unhashable type'')
   | JObj _ \<Rightarrow> Inl (OtherError ''TypeError'' ''unhashable type'')
   | _ \<Rightarrow> Inr False)"

text \<open>\<open>payload.get(key) if isinstance(payload, dict) else None\<close>\<close>

definition maybe_get :: "json \<Rightarrow> string \<Rightarrow> json" where
  "maybe_get j key = (case as_obj j of None \<Rightarrow> JNull | Some d \<Rightarrow> jget d key)"

text \<open>A field of type \<open>str | None\<close>.\<close>

fun optional_str :: "json \<Rightarrow> string option res" where
  "optional_str JNull = Inr None"
| "optional_str (JStr s) = Inr (Some s)"
| "optional_str _ = Inl (ValidationError ''field'')"

section \<open>The snapshot\<close>

text \<open>The chunks up to a limit; \<open>None\<close> when it is passed.\<close>

fun collect_chunks :: "nat \<Rightarrow> bytes list \<Rightarrow> bytes \<Rightarrow> bytes option" where
  "collect_chunks limit [] acc = Some acc"
| "collect_chunks limit (c # cs) acc = (if limit < length (acc @ c) then None else collect_chunks limit cs (acc @ c))"

definition root_of :: "string \<Rightarrow> string" where
  "root_of name = hd (split_on (CHR ''/'') name)"

definition unsafe_member_path :: "string \<Rightarrow> bool" where
  "unsafe_member_path path \<longleftrightarrow> path = [] \<or> starts_with ''/'' path \<or> ''..'' \<in> set (split_on (CHR ''/'') path)"

fun read_members ::
    "'w reader \<Rightarrow> string \<Rightarrow> tar_member list \<Rightarrow> (string \<times> string) list \<Rightarrow> (string \<times> string) list res" where
  "read_members rd folder [] files = Inr files"
| "read_members rd folder (m # ms) files =
    (if tm_kind m = Symlink_Member \<or> tm_kind m = Hardlink_Member then read_members rd folder ms files
     else if tm_kind m \<noteq> Regular_Member \<or> int (rd_max_file_bytes rd) < tm_size m then read_members rd folder ms files
     else if \<not> starts_with (folder @ ''/'') (tm_name m) then Inl (ValueError ''GitHub archive path escaped its root'')
     else (let path = drop (length folder + 1) (tm_name m) in
       if unsafe_member_path path then Inl (ValueError ''GitHub archive contains an unsafe path'')
       else (case tm_data m of
           None \<Rightarrow> read_members rd folder ms files
         | Some content \<Rightarrow> (let raw = take (rd_max_file_bytes rd + 1) content in
             if NUL \<in> set raw then read_members rd folder ms files
             else read_members rd folder ms (AList.update path (rd_decode rd raw) files)))))"

definition read_archive :: "'w reader \<Rightarrow> bytes \<Rightarrow> (string \<times> string) list res" where
  "read_archive rd content = bind_res (rd_open_tar rd content) (\<lambda>members.
     case remdups (map (root_of \<circ> tm_name) (filter (\<lambda>m. tm_name m \<noteq> []) members)) of
       [folder] \<Rightarrow> read_members rd folder members []
     | _ \<Rightarrow> Inl (ValueError ''GitHub archive has an invalid root''))"

definition tarball_request :: "string \<Rightarrow> string \<Rightarrow> string \<Rightarrow> http_request" where
  "tarball_request full_name sha token =
     Http_Stream (''/repos/'' @ full_name @ ''/tarball/'' @ sha) (auth_headers token)"

definition reader_fetch_snapshot :: "'w reader \<Rightarrow> int \<Rightarrow> string \<Rightarrow> ('w hub, snapshot) act" where
  "reader_fetch_snapshot rd repository_id sha =
    (if \<not> immutable_sha sha then throw (ValueError ''GitHub archive requires an immutable SHA'')
     else bind_act (installation_token (rd_client rd) (rd_jwt rd) repository_id
         [(''contents'', ''read''), (''metadata'', ''read'')]) (\<lambda>token.
       bind_act (repository_name (rd_client rd) repository_id token) (\<lambda>full_name.
       bind_act (send (rd_client rd) (tarball_request full_name sha token)) (\<lambda>response.
       bind_act (of_res (raise_for_status response)) (\<lambda>response.
         (case collect_chunks (rd_max_archive_bytes rd) (hr_chunks response) [] of
            None \<Rightarrow> throw (ValueError ''repository archive exceeds the configured size limit'')
          | Some archive \<Rightarrow>
              of_res (bind_res (read_archive rd archive) (\<lambda>files. make_snapshot sha files []))))))))"

section \<open>Pages\<close>

definition page_request :: "string \<Rightarrow> string \<Rightarrow> nat \<Rightarrow> nat \<Rightarrow> http_request" where
  "page_request path token per_page page = Http_Get path (auth_headers token)
     [(''per_page'', show_nat per_page), (''page'', show_nat page)]"

definition per_page :: nat where "per_page = 100"

text \<open>A page is a list of dictionaries.\<close>

definition page_items :: "json \<Rightarrow> (string \<times> json) list list res" where
  "page_items payload = (case as_list payload of
     None \<Rightarrow> Inl (ValueError ''GitHub paginated response is invalid'')
   | Some vs \<Rightarrow> (if list_all (\<lambda>v. as_obj v \<noteq> None) vs then Inr (map (\<lambda>v. the (as_obj v)) vs)
       else Inl (ValueError ''GitHub paginated response is invalid'')))"

definition get_page :: "'w http_client \<Rightarrow> string \<Rightarrow> string \<Rightarrow> nat \<Rightarrow> ('w hub, (string \<times> json) list list) act" where
  "get_page client path token page =
     bind_act (send_json client (page_request path token per_page page)) (\<lambda>payload. of_res (page_items payload))"

text \<open>After the maximum was reached: is there anything on the next page of one item?\<close>

definition probe_page ::
    "'w http_client \<Rightarrow> string \<Rightarrow> string \<Rightarrow> nat \<Rightarrow> (string \<times> json) list list \<Rightarrow>
     ('w hub, (string \<times> json) list list \<times> bool) act" where
  "probe_page client path token page items =
     bind_act (send_json client (page_request path token 1 page)) (\<lambda>payload.
       ret (items, case as_list payload of None \<Rightarrow> False | Some vs \<Rightarrow> vs \<noteq> []))"

function paginate ::
    "'w http_client \<Rightarrow> string \<Rightarrow> string \<Rightarrow> nat \<Rightarrow> nat \<Rightarrow> (string \<times> json) list list \<Rightarrow> 'w hub \<Rightarrow>
     ((string \<times> json) list list \<times> bool) res \<times> 'w hub" where
  "paginate client path token maximum page items h =
    (if length items < maximum
     then (case get_page client path token page h of
         (Inl e, h') \<Rightarrow> (Inl e, h')
       | (Inr payload, h') \<Rightarrow>
           (let remaining = maximum - length items; items' = items @ take remaining payload in
            if length payload < per_page then (Inr (items', False), h')
            else if remaining < length payload then (Inr (items', True), h')
            else paginate client path token maximum (page + 1) items' h'))
     else probe_page client path token page items h)"
  by pat_completeness auto

termination
  by (relation "measure (\<lambda>(client, path, token, maximum, page, items, h). maximum - length items)")
    (auto simp: per_page_def)

declare paginate.simps [simp del]

definition paginated ::
    "'w http_client \<Rightarrow> string \<Rightarrow> string \<Rightarrow> nat \<Rightarrow> ('w hub, (string \<times> json) list list \<times> bool) act" where
  "paginated client path token maximum = paginate client path token maximum 1 []"

section \<open>The diff of a pull request\<close>

definition diff_permissions :: "(string \<times> string) list" where
  "diff_permissions = [(''contents'', ''read''), (''metadata'', ''read''), (''pull_requests'', ''read'')]"

definition file_evidence :: "int \<Rightarrow> (string \<times> json) list \<Rightarrow> diff_file res" where
  "file_evidence pull item = (case as_str (jget item ''filename'') of
     None \<Rightarrow> Inl (ValueError ''pull-request file response is invalid'')
   | Some path \<Rightarrow>
      bind_res (json_among (jget item ''status'') diff_statuses) (\<lambda>known.
      if \<not> known then Inl (ValueError ''pull-request file response is invalid'')
      else
        (let patch = jget item ''patch''; patch_text = (case as_str patch of None \<Rightarrow> [] | Some s \<Rightarrow> s) in
         bind_res (int_or (jget item ''changes'') (JInt 0)) (\<lambda>changes.
         bind_res (int_or (jget item ''additions'') (JInt 0)) (\<lambda>additions.
         bind_res (int_or (jget item ''deletions'') (JInt 0)) (\<lambda>deletions.
         bind_res (parse_diff_hunks patch_text pull path []) (\<lambda>hunks.
           validate_diff_file \<lparr>df_path = path, df_previous_path = as_str (jget item ''previous_filename''),
             df_status = the (as_str (jget item ''status'')), df_additions = additions,
             df_deletions = deletions, df_changes = changes,
             df_binary = (if patch = JNull \<and> changes \<noteq> 0 then ''unknown'' else ''no''),
             df_patch_hash = sha256_hex (utf8 patch_text), df_hunks = hunks\<rparr>)))))))"

text \<open>The head and the base of a pull request: base SHA, head branch and whether it is this repository.\<close>

definition pull_identity :: "json \<Rightarrow> int \<Rightarrow> string \<Rightarrow> (string \<times> string \<times> bool) res" where
  "pull_identity payload repository_id sha =
    (let head = maybe_get payload ''head''; base = maybe_get payload ''base'' in
     if as_obj head = None \<or> maybe_get head ''sha'' \<noteq> JStr sha
     then Inl (ValueError ''pull-request head does not match the pinned SHA'')
     else (case as_str (maybe_get base ''sha'') of
        None \<Rightarrow> Inl (ValueError ''pull-request response is missing its base SHA'')
      | Some base_sha \<Rightarrow>
          (let same = json_equals_int (maybe_get (maybe_get head ''repo'') ''id'') repository_id in
           case as_str (maybe_get head ''ref'') of
             None \<Rightarrow> Inl (ValueError ''pull-request response is missing its head branch'')
           | Some ref \<Rightarrow> if ref = [] then Inl (ValueError ''pull-request response is missing its head branch'')
               else Inr (base_sha, ref, same))))"

definition pull_path :: "string \<Rightarrow> int \<Rightarrow> string" where
  "pull_path full_name pull = ''/repos/'' @ full_name @ ''/pulls/'' @ show_int pull"

definition reader_fetch_diff :: "'w reader \<Rightarrow> int \<Rightarrow> int \<Rightarrow> string \<Rightarrow> ('w hub, pull_diff) act" where
  "reader_fetch_diff rd repository_id pull sha =
    (if \<not> immutable_sha sha then throw (ValueError ''GitHub evidence requires an immutable SHA'')
     else if pull < 1 then throw (ValueError ''pull number must be positive'')
     else bind_act (installation_token (rd_client rd) (rd_jwt rd) repository_id diff_permissions) (\<lambda>token.
       bind_act (repository_name (rd_client rd) repository_id token) (\<lambda>full_name.
       bind_act (send_json (rd_client rd) (Http_Get (pull_path full_name pull) (auth_headers token) [])) (\<lambda>payload.
       bind_act (of_res (pull_identity payload repository_id sha)) (\<lambda>(base_sha, ref, same).
       bind_act (paginated (rd_client rd) (pull_path full_name pull @ ''/files'') token 300) (\<lambda>(raw, truncated).
         of_res (bind_res (traverse (file_evidence pull) raw) (\<lambda>files.
           validate_pull_diff \<lparr>pd_repository_id = repository_id, pd_pull_number = pull, pd_base_sha = base_sha,
             pd_head_sha = sha, pd_head_ref = ref, pd_same_repository = same, pd_files = files,
             pd_truncated = truncated\<rparr>))))))))"

section \<open>The evidence of a check\<close>

definition log_locator :: "int \<Rightarrow> string" where
  "log_locator crun = ''check_run#'' @ show_int crun @ '':github-actions-log''"

text \<open>The job of \<open>https://github.com/NAME/actions/runs/N/job/N\<close>, the whole text.\<close>

definition job_of_url :: "string \<Rightarrow> string \<Rightarrow> string option" where
  "job_of_url full_name url = (case eat (''https://github.com/'' @ full_name @ ''/actions/runs/'') url of
     None \<Rightarrow> None
   | Some r \<Rightarrow> (case eat ''/job/'' (dropWhile is_digit r) of
       None \<Rightarrow> None
     | Some job \<Rightarrow> if takeWhile is_digit r = [] \<or> job = [] \<or> \<not> list_all is_digit job then None else Some job))"

text \<open>The chunks of a log until it is too long.\<close>

fun log_chunks :: "nat \<Rightarrow> bytes list \<Rightarrow> bytes \<Rightarrow> bytes" where
  "log_chunks limit [] acc = acc"
| "log_chunks limit (c # cs) acc = (if limit < length (acc @ c) then acc @ c else log_chunks limit cs (acc @ c))"

definition log_permissions :: "(string \<times> string) list" where
  "log_permissions = [(''actions'', ''read''), (''checks'', ''read''), (''metadata'', ''read'')]"

definition fetch_log :: "'w reader \<Rightarrow> int \<Rightarrow> string \<Rightarrow> string \<Rightarrow> ('w hub, bytes) act" where
  "fetch_log rd repository_id full_name job =
     bind_act (installation_token (rd_client rd) (rd_jwt rd) repository_id log_permissions) (\<lambda>token.
     bind_act (send (rd_client rd) (Http_Stream (''/repos/'' @ full_name @ ''/actions/jobs/'' @ job @ ''/logs'')
         (auth_headers token))) (\<lambda>response.
     bind_act (of_res (raise_for_status response)) (\<lambda>response. ret (log_chunks 2000000 (hr_chunks response) []))))"

definition github_actions_logs ::
    "'w reader \<Rightarrow> int \<Rightarrow> string \<Rightarrow> int \<Rightarrow> json \<Rightarrow> ('w hub, evidence_text list \<times> string list) act" where
  "github_actions_logs rd repository_id full_name crun details_url =
    (case as_str details_url of
       None \<Rightarrow> ret ([], [''check_log_locator_unavailable''])
     | Some url \<Rightarrow> (case job_of_url full_name url of
         None \<Rightarrow> ret ([], [''check_log_locator_unavailable''])
       | Some job \<Rightarrow> try_else (fetch_log rd repository_id full_name job)
           (\<lambda>e. if exn_type_name e = ''HTTPStatusError''
                then ret ([], [''check_logs_permission_or_source_unavailable'']) else throw e)
           (\<lambda>content. of_res (bind_res
              (bounded_untrusted_text (rd_decode rd content) (log_locator crun) EVIDENCE_LIMIT [])
              (\<lambda>t. Inr ([t], []))))))"

definition output_locator :: "int \<Rightarrow> string \<Rightarrow> string" where
  "output_locator crun field = ''check_run#'' @ show_int crun @ '':output:'' @ field"

text \<open>The texts of the output, those that are not empty.\<close>

definition output_evidence :: "int \<Rightarrow> json \<Rightarrow> evidence_text list res" where
  "output_evidence crun output = (case as_obj output of
     None \<Rightarrow> Inr []
   | Some d \<Rightarrow> traverse (\<lambda>field. bounded_untrusted_text (the (as_str (jget d field))) (output_locator crun field) EVIDENCE_LIMIT [])
       (filter (\<lambda>field. case as_str (jget d field) of None \<Rightarrow> False | Some t \<Rightarrow> t \<noteq> []) [''title'', ''summary'', ''text'']))"

definition annotation_locator :: "int \<Rightarrow> nat \<Rightarrow> string" where
  "annotation_locator crun index = ''check_run#'' @ show_int crun @ '':annotation-'' @ show_nat index"

definition annotation_evidence :: "int \<Rightarrow> nat \<times> (string \<times> json) list \<Rightarrow> check_annotation res" where
  "annotation_evidence crun entry = (case entry of (index, item) \<Rightarrow>
     (case (as_str (jget item ''path''), as_str (jget item ''message'')) of
        (Some path, Some message) \<Rightarrow>
          bind_res (json_among (jget item ''annotation_level'') annotation_levels) (\<lambda>known.
          if \<not> known then Inl (ValueError ''check annotation response is invalid'')
          else
            bind_res (int_or (jget item ''start_line'') (JInt 1)) (\<lambda>start_line.
            bind_res (int_or (jget item ''end_line'')
                (if json_truthy (jget item ''start_line'') then jget item ''start_line'' else JInt 1)) (\<lambda>end_line.
            bind_res (bounded_untrusted_text message (annotation_locator crun index) EVIDENCE_LIMIT []) (\<lambda>t.
              validate_annotation \<lparr>an_locator = annotation_locator crun index, an_path = path,
                an_start_line = start_line, an_end_line = end_line,
                an_level = the (as_str (jget item ''annotation_level'')),
                an_title = as_str (jget item ''title''), an_message = t\<rparr>))))
      | _ \<Rightarrow> Inl (ValueError ''check annotation response is invalid'')))"

text \<open>\<open>str(value or "unnamed check")\<close>\<close>

definition check_name :: "(json \<Rightarrow> string) \<Rightarrow> json \<Rightarrow> string" where
  "check_name str j = (if \<not> json_truthy j then ''unnamed check'' else
     (case j of JStr s \<Rightarrow> s | JBool b \<Rightarrow> ''True'' | JInt i \<Rightarrow> show_int i | _ \<Rightarrow> str j))"

definition status_text :: "json \<Rightarrow> string res" where
  "status_text j = (case as_str j of None \<Rightarrow> Inl (ValidationError ''field'') | Some s \<Rightarrow> Inr s)"

definition check_evidence_of ::
    "(json \<Rightarrow> string) \<Rightarrow> int \<Rightarrow> int \<Rightarrow> string \<Rightarrow> json \<Rightarrow> evidence_text list \<Rightarrow> evidence_text list \<times> string list \<Rightarrow>
     check_annotation list \<Rightarrow> bool \<Rightarrow> check_result res" where
  "check_evidence_of str repository_id crun sha payload output logs annotations truncated =
     bind_res (status_text (maybe_get payload ''status'')) (\<lambda>status.
     bind_res (optional_str (maybe_get (maybe_get payload ''app'') ''slug'')) (\<lambda>slug.
       validate_check_result \<lparr>cr_repository_id = repository_id, cr_check_run_id = crun,
         cr_name = check_name str (maybe_get payload ''name''), cr_head_sha = sha, cr_status = status,
         cr_conclusion = as_str (maybe_get payload ''conclusion''), cr_app_slug = slug,
         cr_started_at = as_str (maybe_get payload ''started_at''),
         cr_completed_at = as_str (maybe_get payload ''completed_at''), cr_output = output,
         cr_log_excerpts = fst logs, cr_annotations = annotations, cr_annotations_truncated = truncated,
         cr_logs_available = (fst logs \<noteq> []), cr_unavailable_signals = snd logs\<rparr>))"

definition check_permissions :: "(string \<times> string) list" where
  "check_permissions = [(''checks'', ''read''), (''metadata'', ''read'')]"

definition check_path_of :: "string \<Rightarrow> int \<Rightarrow> string" where
  "check_path_of full_name crun = ''/repos/'' @ full_name @ ''/check-runs/'' @ show_int crun"

definition reader_fetch_check :: "'w reader \<Rightarrow> int \<Rightarrow> int \<Rightarrow> string \<Rightarrow> ('w hub, check_result) act" where
  "reader_fetch_check rd repository_id crun sha =
    (if \<not> immutable_sha sha then throw (ValueError ''GitHub evidence requires an immutable SHA'')
     else if crun < 1 then throw (ValueError ''check-run ID must be positive'')
     else bind_act (installation_token (rd_client rd) (rd_jwt rd) repository_id check_permissions) (\<lambda>token.
       bind_act (repository_name (rd_client rd) repository_id token) (\<lambda>full_name.
       bind_act (send_json (rd_client rd) (Http_Get (check_path_of full_name crun) (auth_headers token) [])) (\<lambda>payload.
       if as_obj payload = None \<or> maybe_get payload ''head_sha'' \<noteq> JStr sha
       then throw (ValueError ''check-run head does not match the pinned SHA'')
       else
         bind_act (of_res (output_evidence crun (maybe_get payload ''output''))) (\<lambda>output.
         bind_act (paginated (rd_client rd) (check_path_of full_name crun @ ''/annotations'') token 300)
           (\<lambda>(raw, truncated).
         bind_act (of_res (traverse (annotation_evidence crun) (enumerate 1 raw))) (\<lambda>annotations.
         bind_act (github_actions_logs rd repository_id full_name crun (maybe_get payload ''details_url'')) (\<lambda>logs.
           of_res (check_evidence_of (rd_str rd) repository_id crun sha payload output logs annotations truncated)))))))))"

section \<open>The port\<close>

text \<open>What the capability gateway and the tools read of the evidence: its identity and its dump.\<close>

definition diff_of :: "pull_diff \<Rightarrow> diff_evidence" where
  "diff_of d = \<lparr>de_repository_id = pd_repository_id d, de_pull_number = pd_pull_number d,
     de_head_sha = pd_head_sha d, de_dump = pull_diff_json d\<rparr>"

definition check_of :: "check_result \<Rightarrow> check_evidence" where
  "check_of c = \<lparr>ce_repository_id = cr_repository_id c, ce_check_run_id = cr_check_run_id c,
     ce_head_sha = cr_head_sha c, ce_dump = check_result_json c\<rparr>"

definition map_act :: "('a \<Rightarrow> 'b) \<Rightarrow> ('s, 'a) act \<Rightarrow> ('s, 'b) act" where
  "map_act f m = bind_act m (\<lambda>x. ret (f x))"

definition github_read_port :: "'w reader \<Rightarrow> 'w hub read_port" where
  "github_read_port rd = \<lparr>port_snapshot = reader_fetch_snapshot rd,
     port_diff = (\<lambda>i n sha. map_act diff_of (reader_fetch_diff rd i n sha)),
     port_check = (\<lambda>i n sha. map_act check_of (reader_fetch_check rd i n sha))\<rparr>"

text \<open>\<open>PinnedArchiveReader\<close>, the reader of prepared evidence.\<close>

record archive =
  ac_sha :: string
  ac_files :: "(string \<times> string) list"

record pinned_reader =
  pr_archives :: "(int \<times> string) \<rightharpoonup> archive"
  pr_diffs :: "(int \<times> int \<times> string) \<rightharpoonup> pull_diff"
  pr_checks :: "(int \<times> int \<times> string) \<rightharpoonup> check_result"

definition pinned_fetch_snapshot :: "pinned_reader \<Rightarrow> int \<Rightarrow> string \<Rightarrow> snapshot res" where
  "pinned_fetch_snapshot rd repository_id sha = (case pr_archives rd (repository_id, sha) of
     None \<Rightarrow> Inl (FileNotFoundError ''pinned archive unavailable'')
   | Some a \<Rightarrow> if ac_sha a \<noteq> sha then Inl (FileNotFoundError ''pinned archive unavailable'')
       else make_snapshot sha (ac_files a) [])"

definition pinned_fetch_diff :: "pinned_reader \<Rightarrow> int \<Rightarrow> int \<Rightarrow> string \<Rightarrow> pull_diff res" where
  "pinned_fetch_diff rd repository_id pull sha = (case pr_diffs rd (repository_id, pull, sha) of
     None \<Rightarrow> Inl (FileNotFoundError ''pinned pull-request diff unavailable'')
   | Some d \<Rightarrow> if pd_head_sha d \<noteq> sha then Inl (FileNotFoundError ''pinned pull-request diff unavailable'') else Inr d)"

definition pinned_fetch_check :: "pinned_reader \<Rightarrow> int \<Rightarrow> int \<Rightarrow> string \<Rightarrow> check_result res" where
  "pinned_fetch_check rd repository_id crun sha = (case pr_checks rd (repository_id, crun, sha) of
     None \<Rightarrow> Inl (FileNotFoundError ''pinned check evidence unavailable'')
   | Some c \<Rightarrow> if cr_head_sha c \<noteq> sha then Inl (FileNotFoundError ''pinned check evidence unavailable'') else Inr c)"

section \<open>What the pages give\<close>

lemma as_obj_JObj [simp]: "as_obj v \<noteq> None \<longleftrightarrow> (\<exists>d. v = JObj d)"
  by (cases v) auto

lemma page_items_objects: "page_items (JArr (map JObj ds)) = Inr ds"
  by (simp add: page_items_def list_all_iff comp_def)

text \<open>A server that has this list and cuts it into pages as documented.\<close>

definition serves :: "'w http_client \<Rightarrow> string \<Rightarrow> string \<Rightarrow> (string \<times> json) list list \<Rightarrow> bool" where
  "serves client path token ds \<longleftrightarrow> (\<forall>k p w. 1 \<le> k \<and> 1 \<le> p \<longrightarrow> (\<exists>w'. client (page_request path token k p) w =
     (Inr \<lparr>hr_status = 200, hr_json = Inr (JArr (map JObj (take k (drop (k * (p - 1)) ds)))), hr_chunks = []\<rparr>, w')))"

lemma serves_send:
  assumes "serves client path token ds" and "1 \<le> k" and "1 \<le> p"
  shows "\<exists>h'. send_json client (page_request path token k p) h =
    (Inr (JArr (map JObj (take k (drop (k * (p - 1)) ds)))), h')"
proof -
  from assms obtain w' where "client (page_request path token k p) (hub_world h) =
    (Inr \<lparr>hr_status = 200, hr_json = Inr (JArr (map JObj (take k (drop (k * (p - 1)) ds)))), hr_chunks = []\<rparr>, w')"
    unfolding serves_def by blast
  then show ?thesis
    by (simp add: send_json_def send_def bind_act_def raise_for_status_def successful_def of_res_def)
qed

lemma serves_page:
  assumes "serves client path token ds"
  shows "\<exists>h'. get_page client path token (Suc p) h = (Inr (take per_page (drop (per_page * p) ds)), h')"
  using serves_send [OF assms, of per_page "Suc p" h]
  by (auto simp: get_page_def bind_act_def of_res_def page_items_objects per_page_def)

lemma serves_probe:
  assumes "serves client path token ds"
  shows "\<exists>h'. probe_page client path token (Suc p) items h = (Inr (items, p < length ds), h')"
  using serves_send [OF assms, of 1 "Suc p" h]
  by (auto simp: probe_page_def bind_act_def ret_def)

lemma paginate_serves:
  assumes "serves client path token ds" and "0 < m" and "p \<le> m" and "per_page * p \<le> length ds"
  shows "\<exists>h'. paginate client path token (per_page * m) (Suc p) (take (per_page * p) ds) h =
    (Inr (take (per_page * m) ds, per_page * m \<le> length ds), h')"
  using assms(3,4)
proof (induction "m - p" arbitrary: p h)
  case 0
  then have p: "p = m" by simp
  from serves_probe [OF assms(1), of m "take (per_page * m) ds" h] 0 p assms(2) show ?case
    by (auto simp: paginate.simps per_page_def)
next
  case (Suc k)
  let ?items = "take (per_page * p) ds" and ?page = "take per_page (drop (per_page * p) ds)"
  obtain h1 where g: "get_page client path token (Suc p) h = (Inr ?page, h1)"
    using serves_page [OF assms(1)] by blast
  have more: "length ?items < per_page * m" "per_page \<le> per_page * m - length ?items"
    using Suc by (auto simp: per_page_def)
  have joined: "?items @ take (per_page * m - length ?items) ?page = take (per_page * Suc p) ds"
  proof -
    have "take (per_page * Suc p) ds = ?items @ ?page"
      using take_add [of "per_page * p" per_page ds] by (simp add: add.commute)
    then show ?thesis using more(2) by simp
  qed
  show ?case
  proof (cases "per_page * Suc p \<le> length ds")
    case True
    then have "length ?page = per_page" by simp
    with more g joined have "paginate client path token (per_page * m) (Suc p) ?items h =
        paginate client path token (per_page * m) (Suc (Suc p)) (take (per_page * Suc p) ds) h1"
      by (simp add: paginate.simps [of _ _ _ _ "Suc p"] Let_def del: take_Suc_conv_app_nth)
    with Suc(1) [of "Suc p" h1] Suc(2,3) True show ?thesis by simp
  next
    case False
    then have short: "length ?page < per_page" "take (per_page * Suc p) ds = ds"
      using Suc(4) by auto
    moreover from Suc(2,3) have "per_page * Suc p \<le> per_page * m" by (intro mult_le_mono2) simp
    ultimately show ?thesis using g joined more False
      by (simp add: paginate.simps [of _ _ _ _ "Suc p"] Let_def)
  qed
qed

text \<open>
  C31: Against a server that has a list and cuts it into pages as documented, the reader takes its first
  items up to the maximum, and calls it truncated exactly when the list has at least as many: the probe
  after the last page asks for a page of one item with the number of the next page of a hundred, so a
  list of exactly the maximum counts as truncated.
\<close>

theorem paginated_takes_the_first_items:
  assumes "serves client path token ds" and "0 < m"
  shows "\<exists>h'. paginated client path token (per_page * m) h = (Inr (take (per_page * m) ds, per_page * m \<le> length ds), h')"
  using paginate_serves [OF assms, of 0 h] by (simp add: paginated_def)

section \<open>What a snapshot holds\<close>

lemma collect_chunks_all: "collect_chunks limit cs acc = Some b \<Longrightarrow> b = acc @ concat cs \<and> (cs = [] \<or> length b \<le> limit)"
proof (induction cs arbitrary: acc)
  case (Cons c cs)
  from Cons.prems have "length (acc @ c) \<le> limit" "collect_chunks limit cs (acc @ c) = Some b"
    by (auto split: if_splits)
  with Cons.IH [of "acc @ c"] show ?case by (cases cs) auto
qed simp

text \<open>The file of a member: a regular one, not too large, without a zero byte.\<close>

definition member_file :: "'w reader \<Rightarrow> string \<Rightarrow> tar_member \<Rightarrow> (string \<times> string) option" where
  "member_file rd folder m =
    (if tm_kind m = Regular_Member \<and> tm_size m \<le> int (rd_max_file_bytes rd)
     then Option.bind (tm_data m) (\<lambda>content. let raw = take (rd_max_file_bytes rd + 1) content in
       if NUL \<in> set raw then None else Some (drop (length folder + 1) (tm_name m), rd_decode rd raw)) else None)"

definition archive_files :: "'w reader \<Rightarrow> string \<Rightarrow> tar_member list \<Rightarrow> (string \<times> string) list" where
  "archive_files rd folder ms = List.map_filter (member_file rd folder) ms"

lemma archive_files_Cons:
  "archive_files rd folder (m # ms) = (case member_file rd folder m of None \<Rightarrow> archive_files rd folder ms
     | Some e \<Rightarrow> e # archive_files rd folder ms)"
  by (simp add: archive_files_def List.map_filter_simps split: option.splits)

text \<open>One member read: skipped when it has no file, else checked and put into the dictionary.\<close>

lemma read_member:
  assumes "read_members rd folder (m # ms) files = Inr out"
  shows "member_file rd folder m = None \<and> read_members rd folder ms files = Inr out \<or>
    (\<exists>path text. member_file rd folder m = Some (path, text) \<and> tm_name m = folder @ ''/'' @ path \<and>
       \<not> unsafe_member_path path \<and> read_members rd folder ms (AList.update path text files) = Inr out)"
proof (cases "tm_kind m = Regular_Member \<and> tm_size m \<le> int (rd_max_file_bytes rd)")
  case False
  with assms show ?thesis by (auto simp: member_file_def split: if_splits member_kind.splits)
next
  case True
  let ?path = "drop (length folder + 1) (tm_name m)"
  from assms True have named: "starts_with (folder @ ''/'') (tm_name m)" "\<not> unsafe_member_path ?path"
    by (auto simp: Let_def split: if_splits)
  from named(1) have "tm_name m = folder @ ''/'' @ ?path" by (auto simp: starts_with_iff)
  with True assms named show ?thesis
    by (auto simp: member_file_def Let_def split: if_splits option.splits)
qed

lemma read_members_files:
  "read_members rd folder ms files = Inr out \<Longrightarrow>
     map_of out = map_of (rev (archive_files rd folder ms) @ files) \<and>
     (distinct (map fst files) \<longrightarrow> distinct (map fst out)) \<and>
     ((\<forall>p \<in> fst ` set files. \<not> unsafe_member_path p) \<longrightarrow> (\<forall>p \<in> fst ` set out. \<not> unsafe_member_path p))"
proof (induction ms arbitrary: files)
  case Nil
  then show ?case by (simp add: archive_files_def List.map_filter_simps)
next
  case (Cons m ms)
  from read_member [OF Cons.prems] show ?case
  proof (elim disjE exE conjE)
    assume "member_file rd folder m = None" "read_members rd folder ms files = Inr out"
    with Cons.IH show ?thesis by (simp add: archive_files_Cons)
  next
    fix path t
    assume m: "member_file rd folder m = Some (path, t)" and ok: "\<not> unsafe_member_path path"
      and rest: "read_members rd folder ms (AList.update path t files) = Inr out"
    from Cons.IH [OF rest] m ok show ?thesis
      by (auto simp: archive_files_Cons map_of_append AList.update_conv' distinct_update dom_update)
  qed
qed

lemma read_archive_files:
  assumes "read_archive rd content = Inr files"
  shows "\<exists>members folder. rd_open_tar rd content = Inr members \<and>
    set (map (root_of \<circ> tm_name) (filter (\<lambda>m. tm_name m \<noteq> []) members)) = {folder} \<and>
    map_of files = map_of (rev (archive_files rd folder members)) \<and> distinct (map fst files) \<and>
    (\<forall>p \<in> fst ` set files. \<not> unsafe_member_path p)"
proof -
  from assms obtain members where m: "rd_open_tar rd content = Inr members"
    by (auto simp: read_archive_def bind_res_Inr_iff)
  with assms obtain folder where f: "remdups (map (root_of \<circ> tm_name) (filter (\<lambda>m. tm_name m \<noteq> []) members)) = [folder]"
    and r: "read_members rd folder members [] = Inr files"
    by (auto simp: read_archive_def split: list.splits)
  from f have "set (map (root_of \<circ> tm_name) (filter (\<lambda>m. tm_name m \<noteq> []) members)) = {folder}"
    by (metis set_remdups list.set(1,2))
  with m read_members_files [OF r] show ?thesis by auto
qed

lemma make_snapshot_Inr:
  "make_snapshot sha files hist = Inr sn \<Longrightarrow> immutable_sha sha \<and>
     sn = \<lparr>sn_pinned_sha = sha, sn_files = files, sn_history = hist\<rparr>"
  by (auto simp: make_snapshot_def bind_res_Inr_iff split: if_splits)

text \<open>
  C30: A fetched snapshot is the archive GitHub gave for the pinned SHA: the archive is at most as large as
  allowed and has one root; every path of the snapshot is below it, without \<open>..\<close>; and a path has the
  text of the last regular member of that name that is not too large and has no zero byte.
\<close>

theorem fetched_snapshot_is_the_pinned_archive:
  assumes "reader_fetch_snapshot rd repository_id sha h = (Inr sn, h')"
  shows "\<exists>n token response members folder. (tarball_request n sha token, Inr response) \<in> set (hub_log h') \<and>
    successful response \<and> length (concat (hr_chunks response)) \<le> rd_max_archive_bytes rd \<and>
    rd_open_tar rd (concat (hr_chunks response)) = Inr members \<and>
    set (map (root_of \<circ> tm_name) (filter (\<lambda>m. tm_name m \<noteq> []) members)) = {folder} \<and>
    sn_pinned_sha sn = sha \<and> immutable_sha sha \<and> distinct (map fst (sn_files sn)) \<and>
    map_of (sn_files sn) = map_of (rev (archive_files rd folder members)) \<and>
    list_all (\<lambda>(p, text). \<not> unsafe_member_path p) (sn_files sn)"
proof -
  from assms obtain token u n v r a files where
    r: "send (rd_client rd) (tarball_request n sha token) v = (Inr r, h')" and ok: "successful r"
    and a: "collect_chunks (rd_max_archive_bytes rd) (hr_chunks r) [] = Some a"
    and files: "read_archive rd a = Inr files" and sn: "make_snapshot sha files [] = Inr sn"
    by (auto simp: reader_fetch_snapshot_def act_returns raise_for_status_Inr bind_res_Inr_iff
        split: if_splits option.splits)
  from collect_chunks_all [OF a] have a': "a = concat (hr_chunks r)" "length a \<le> rd_max_archive_bytes rd" by auto
  from read_archive_files [OF files] obtain members folder where
    "rd_open_tar rd a = Inr members" "set (map (root_of \<circ> tm_name) (filter (\<lambda>m. tm_name m \<noteq> []) members)) = {folder}"
    "map_of files = map_of (rev (archive_files rd folder members))" "distinct (map fst files)"
    "\<forall>p \<in> fst ` set files. \<not> unsafe_member_path p" by blast
  moreover from make_snapshot_Inr [OF sn] have "sn_files sn = files" "sn_pinned_sha sn = sha" "immutable_sha sha" by auto
  moreover from send_log [OF r] have "(tarball_request n sha token, Inr r) \<in> set (hub_log h')" by simp
  moreover have "list_all (\<lambda>(p, text). \<not> unsafe_member_path p) files"
    using calculation(5) by (auto simp: list_all_iff)
  ultimately show ?thesis using ok a' by blast
qed

section \<open>What the evidence holds\<close>

text \<open>A text of the evidence: blocked, or short and without anything a built-in detector finds.\<close>

definition clean_text :: "evidence_text \<Rightarrow> bool" where
  "clean_text t \<longleftrightarrow> (if et_redacted t then et_text t = blocked_text
     else length (utf8 (et_text t)) \<le> EVIDENCE_LIMIT \<and>
       list_all (\<lambda>r. \<not> re_search r (et_text t)) (map snd redaction_patterns))"

lemma bounded_clean_text: "bounded_untrusted_text original locator EVIDENCE_LIMIT [] = Inr t \<Longrightarrow> clean_text t"
  by (drule bounded_untrusted_text_clean)
    (auto simp: clean_text_def clean_evidence_def fit_length list_all_iff split: if_splits)

lemma hunk_from_clean: "hunk_from pull path [] seg h \<Longrightarrow> clean_text (dh_body h)"
  by (auto simp: hunk_from_def clean_text_def clean_evidence_def fit_length list_all_iff split: if_splits)

lemma parsed_hunks_clean:
  assumes "parse_diff_hunks patch pull path [] = Inr hunks" and "h \<in> set hunks"
  shows "clean_text (dh_body h)"
proof -
  from assms(2) obtain i where "i < length hunks" "h = hunks ! i" by (auto simp: in_set_conv_nth)
  with list_all2_nthD2 [OF parsed_hunks_from [OF assms(1)]] show ?thesis by (blast intro: hunk_from_clean)
qed

lemma file_evidence_clean:
  "file_evidence pull item = Inr f \<Longrightarrow> h \<in> set (df_hunks f) \<Longrightarrow> clean_text (dh_body h)"
  by (auto simp: file_evidence_def Let_def bind_res_Inr_iff validate_diff_file_def split: option.splits if_splits
      intro: parsed_hunks_clean)

lemma traverse_all:
  assumes "traverse f xs = Inr ys" and "\<And>x y. f x = Inr y \<Longrightarrow> P y" and "y \<in> set ys"
  shows "P y"
proof -
  from assms(3) obtain i where "i < length ys" "y = ys ! i" by (auto simp: in_set_conv_nth)
  with list_all2_nthD2 [OF traverse_Inr [OF assms(1)]] assms(2) show ?thesis by blast
qed

definition diff_texts :: "pull_diff \<Rightarrow> evidence_text list" where
  "diff_texts d = concat (map (\<lambda>f. map dh_body (df_hunks f)) (pd_files d))"

text \<open>What the reader bounds and redacts: of an annotation its message, not its title.\<close>

definition check_texts :: "check_result \<Rightarrow> evidence_text list" where
  "check_texts c = cr_output c @ cr_log_excerpts c @ map an_message (cr_annotations c)"

text \<open>
  Returned evidence of a pull request is about what was asked for: GitHub answered that the head of this
  pull request is the pinned SHA, the base SHA, the head branch and whether it is the same repository
  come from that answer, there are at most 300 files, and each text is blocked or short and clean.
\<close>

theorem diff_evidence_is_pinned_and_clean:
  assumes "reader_fetch_diff rd repository_id pull sha h = (Inr d, h')"
  shows "pd_repository_id d = repository_id \<and> pd_pull_number d = pull \<and> pd_head_sha d = sha \<and> immutable_sha sha \<and>
    length (pd_files d) \<le> 300 \<and> list_all clean_text (diff_texts d) \<and>
    (\<exists>n token u v payload. send_json (rd_client rd) (Http_Get (pull_path n pull) (auth_headers token) []) u = (Inr payload, v) \<and>
       pull_identity payload repository_id sha = Inr (pd_base_sha d, pd_head_ref d, pd_same_repository d))"
proof -
  from assms obtain n token u v payload base_sha ref same raw files where
    p: "send_json (rd_client rd) (Http_Get (pull_path n pull) (auth_headers token) []) u = (Inr payload, v)"
    "pull_identity payload repository_id sha = Inr (base_sha, ref, same)"
    and files: "traverse (file_evidence pull) raw = Inr files"
    and d: "pd_repository_id d = repository_id" "pd_pull_number d = pull" "pd_head_sha d = sha" "pd_base_sha d = base_sha"
      "pd_head_ref d = ref" "pd_same_repository d = same" "pd_files d = files" "length files \<le> 300" "immutable_sha sha"
    by (auto simp: reader_fetch_diff_def act_returns bind_res_Inr_iff validate_pull_diff_def checks_Inr
        split: if_splits prod.splits)
  have "\<forall>h \<in> set (df_hunks f). clean_text (dh_body h)" if "f \<in> set files" for f
    by (rule traverse_all [OF files _ that]) (blast intro: file_evidence_clean)
  then have "list_all clean_text (diff_texts d)"
    by (auto simp: diff_texts_def list_all_iff d(7))
  with p d show ?thesis by blast
qed

lemma annotation_clean: "annotation_evidence crun entry = Inr a \<Longrightarrow> clean_text (an_message a)"
  by (auto simp: annotation_evidence_def bind_res_Inr_iff validate_annotation_def split: prod.splits option.splits if_splits
      dest: bounded_clean_text)

lemma output_clean: "output_evidence crun output = Inr ts \<Longrightarrow> t \<in> set ts \<Longrightarrow> clean_text t"
  by (auto simp: output_evidence_def split: option.splits intro: traverse_all bounded_clean_text)

lemma logs_clean:
  assumes "github_actions_logs rd i n crun url h = (Inr (ts, unknowns), h')" and "t \<in> set ts"
  shows "clean_text t"
proof -
  from assms obtain job where "as_str url \<noteq> None" and
    "try_else (fetch_log rd i n job)
       (\<lambda>e. if exn_type_name e = ''HTTPStatusError''
            then ret ([], [''check_logs_permission_or_source_unavailable'']) else throw e)
       (\<lambda>content. of_res (bind_res (bounded_untrusted_text (rd_decode rd content) (log_locator crun) EVIDENCE_LIMIT [])
          (\<lambda>t. Inr ([t], [])))) h = (Inr (ts, unknowns), h')"
    by (auto simp: github_actions_logs_def act_returns split: option.splits)
  with assms(2) show ?thesis
    by (auto simp: try_else_def act_returns bind_res_Inr_iff bounded_clean_text split: prod.splits sum.splits if_splits)
qed

text \<open>
  The title of an annotation is neither bounded nor redacted: whatever title GitHub gives, the annotation
  is evidence with that title.
\<close>

lemma annotation_title_is_unchecked:
  assumes "annotation_evidence crun (i, item) = Inr a"
  shows "annotation_evidence crun (i, AList.update ''title'' (JStr s) item) = Inr (a\<lparr>an_title := Some s\<rparr>)"
proof -
  have same: "jget (AList.update ''title'' (JStr s) item) key = jget item key" if "key \<noteq> ''title''" for key
    using that by (simp add: jget_def update_conv)
  have title: "jget (AList.update ''title'' (JStr s) item) ''title'' = JStr s"
    by (simp add: jget_def update_conv)
  from assms obtain path message start_line end_line t where
    texts: "as_str (jget item ''path'') = Some path" "as_str (jget item ''message'') = Some message"
      "json_among (jget item ''annotation_level'') annotation_levels = Inr True"
    and lines: "int_or (jget item ''start_line'') (JInt 1) = Inr start_line"
      "int_or (jget item ''end_line'') (if json_truthy (jget item ''start_line'') then jget item ''start_line'' else JInt 1) =
        Inr end_line"
    and t: "bounded_untrusted_text message (annotation_locator crun i) EVIDENCE_LIMIT [] = Inr t"
    and valid: "validate_annotation \<lparr>an_locator = annotation_locator crun i, an_path = path, an_start_line = start_line,
      an_end_line = end_line, an_level = the (as_str (jget item ''annotation_level'')),
      an_title = as_str (jget item ''title''), an_message = t\<rparr> = Inr a"
    unfolding annotation_evidence_def prod.case bind_res_Inr_iff
    by (auto simp: bind_res_Inr_iff simp del: if_split split: option.splits if_splits)
  from valid have "validate_annotation \<lparr>an_locator = annotation_locator crun i, an_path = path, an_start_line = start_line,
      an_end_line = end_line, an_level = the (as_str (jget item ''annotation_level'')),
      an_title = Some s, an_message = t\<rparr> = Inr (a\<lparr>an_title := Some s\<rparr>)"
    by (auto simp: validate_annotation_def bind_res_Inr_iff checks_Inr)
  moreover have "jget (AList.update ''title'' (JStr s) item) ''path'' = jget item ''path''"
    "jget (AList.update ''title'' (JStr s) item) ''message'' = jget item ''message''"
    "jget (AList.update ''title'' (JStr s) item) ''annotation_level'' = jget item ''annotation_level''"
    "jget (AList.update ''title'' (JStr s) item) ''start_line'' = jget item ''start_line''"
    "jget (AList.update ''title'' (JStr s) item) ''end_line'' = jget item ''end_line''"
    by (simp_all add: same)
  ultimately show ?thesis
    by (simp only: annotation_evidence_def prod.case title texts lines t bind_res_def sum.case option.case as_str.simps
        not_True_eq_False if_False)
qed

text \<open>
  C29: Returned evidence of a check is about what was asked for: GitHub answered that the head of this check
  is the pinned SHA, there are at most 300 annotations and one log, and each text of the output and the
  log and each message of an annotation is blocked, or short and without anything a built-in detector
  finds. The titles of the annotations are not among these texts (\<open>annotation_title_is_unchecked\<close>).
\<close>

theorem check_evidence_is_pinned_and_clean:
  assumes "reader_fetch_check rd repository_id crun sha h = (Inr c, h')"
  shows "cr_repository_id c = repository_id \<and> cr_check_run_id c = crun \<and> cr_head_sha c = sha \<and> immutable_sha sha \<and>
    length (cr_annotations c) \<le> 300 \<and> list_all clean_text (check_texts c) \<and>
    (\<exists>n token u v payload. send_json (rd_client rd) (Http_Get (check_path_of n crun) (auth_headers token) []) u = (Inr payload, v) \<and>
       maybe_get payload ''head_sha'' = JStr sha)"
proof -
  from assms obtain n token u v payload outs raw truncated annotations x logs unknowns where
    p: "send_json (rd_client rd) (Http_Get (check_path_of n crun) (auth_headers token) []) u = (Inr payload, v)"
    "maybe_get payload ''head_sha'' = JStr sha" "immutable_sha sha"
    and outs: "output_evidence crun (maybe_get payload ''output'') = Inr outs"
    and annotations: "traverse (annotation_evidence crun) (enumerate 1 raw) = Inr annotations"
    and logs: "github_actions_logs rd repository_id n crun (maybe_get payload ''details_url'') x = (Inr (logs, unknowns), h')"
    and c: "check_evidence_of (rd_str rd) repository_id crun sha payload outs (logs, unknowns) annotations truncated = Inr c"
    by (auto simp: reader_fetch_check_def act_returns split: if_splits prod.splits)
  from c have c: "cr_repository_id c = repository_id" "cr_check_run_id c = crun" "cr_head_sha c = sha"
    "cr_output c = outs" "cr_log_excerpts c = logs" "cr_annotations c = annotations" "length annotations \<le> 300"
    by (auto simp: check_evidence_of_def bind_res_Inr_iff validate_check_result_def checks_Inr)
  have "list_all clean_text (check_texts c)"
    using traverse_all [OF annotations annotation_clean]
    by (auto simp: check_texts_def list_all_iff c intro: output_clean [OF outs] logs_clean [OF logs])
  with p c show ?thesis by blast
qed

section \<open>The contract of a read port\<close>

text \<open>
  What the gateway's clients rely on: evidence is of the SHA it was asked for. It holds of both ports,
  and through the gateway of whatever port is behind it.
\<close>

locale pinned_port =
  fixes port :: "'w read_port"
  assumes snapshot_sha: "port_snapshot port i sha w = (Inr sn, w') \<Longrightarrow> sn_pinned_sha sn = sha"
    and diff_sha: "port_diff port i n sha w = (Inr d, w') \<Longrightarrow> de_head_sha d = sha"
    and check_sha: "port_check port i n sha w = (Inr c, w') \<Longrightarrow> ce_head_sha c = sha"
begin

lemma gateway_snapshot_sha:
  assumes "cg_port g = port" and "fetch_snapshot g rid role i sha (d, w) = (Inr sn, (d', w'))"
  shows "sn_pinned_sha sn = sha \<and> immutable_sha sha \<and> i \<in> set (cg_allowed g)"
  using snapshot_read.touches_port_only_if_permitted [OF assms(2)] assms(1) snapshot_sha by blast

lemma gateway_diff_sha:
  assumes "cg_port g = port" and "fetch_pull_request_diff g rid role i n sha (d, w) = (Inr e, (d', w'))"
  shows "de_head_sha e = sha \<and> immutable_sha sha \<and> i \<in> set (cg_allowed g) \<and> role \<in> {ASSESSOR, CI}"
  using diff_read.touches_port_only_if_permitted [OF assms(2)] assms(1) diff_sha by blast

lemma gateway_check_sha:
  assumes "cg_port g = port" and "fetch_check_evidence g rid role i n sha (d, w) = (Inr e, (d', w'))"
  shows "ce_head_sha e = sha \<and> immutable_sha sha \<and> i \<in> set (cg_allowed g) \<and> role = CI"
  using check_read.touches_port_only_if_permitted [OF assms(2)] assms(1) check_sha by blast

end

lemma snapshot_fetched_sha: "reader_fetch_snapshot rd i sha h = (Inr sn, h') \<Longrightarrow> sn_pinned_sha sn = sha"
  by (auto simp: reader_fetch_snapshot_def act_returns bind_res_Inr_iff split: if_splits option.splits
      dest!: make_snapshot_Inr)

lemma diff_fetched_sha: "reader_fetch_diff rd i n sha h = (Inr d, h') \<Longrightarrow> pd_head_sha d = sha"
  by (auto simp: reader_fetch_diff_def act_returns bind_res_Inr_iff validate_pull_diff_def split: if_splits prod.splits)

lemma check_fetched_sha: "reader_fetch_check rd i n sha h = (Inr c, h') \<Longrightarrow> cr_head_sha c = sha"
  by (auto simp: reader_fetch_check_def check_evidence_of_def validate_check_result_def act_returns bind_res_Inr_iff
      split: if_splits prod.splits)

interpretation github_port: pinned_port "github_read_port rd" for rd
  by unfold_locales
    (auto simp: github_read_port_def map_act_def act_returns diff_of_def check_of_def
      intro: snapshot_fetched_sha diff_fetched_sha check_fetched_sha)

text \<open>The reader of prepared evidence as a port on any state.\<close>

definition pinned_read_port :: "pinned_reader \<Rightarrow> 'w read_port" where
  "pinned_read_port rd = \<lparr>port_snapshot = (\<lambda>i sha. of_res (pinned_fetch_snapshot rd i sha)),
     port_diff = (\<lambda>i n sha. map_act diff_of (of_res (pinned_fetch_diff rd i n sha))),
     port_check = (\<lambda>i n sha. map_act check_of (of_res (pinned_fetch_check rd i n sha)))\<rparr>"

interpretation prepared_port: pinned_port "pinned_read_port rd" for rd
  by unfold_locales
    (auto simp: pinned_read_port_def map_act_def act_returns diff_of_def check_of_def pinned_fetch_snapshot_def
      pinned_fetch_diff_def pinned_fetch_check_def split: option.splits if_splits dest!: make_snapshot_Inr)

text \<open>
  With the GitHub reader behind it, the gateway gives evidence of a check only to the CI role, of an
  allowlisted repository, for an immutable SHA, and of that SHA.
\<close>

theorem gateway_evidence_is_of_the_pinned_sha:
  assumes "cg_port g = github_read_port rd"
    and "fetch_check_evidence g rid role i n sha (d, w) = (Inr e, (d', w'))"
  shows "ce_head_sha e = sha \<and> immutable_sha sha \<and> i \<in> set (cg_allowed g) \<and> role = CI"
  using assms by (rule github_port.gateway_check_sha)

section \<open>Reads at concrete inputs\<close>

definition paging_client :: "(string \<times> json) list list \<Rightarrow> unit http_client" where
  "paging_client ds request w = (case request of
     Http_Get path hs [(_, k), (_, p)] \<Rightarrow>
       (Inr \<lparr>hr_status = 200, hr_json = Inr (JArr (map JObj (take (nat (fst (the (eat_number k))))
          (drop (nat (fst (the (eat_number k))) * (nat (fst (the (eat_number p))) - 1)) ds)))), hr_chunks = []\<rparr>, w)
   | _ \<Rightarrow> (Inl status_error, w))"

lemma paging_client_serves: "serves (paging_client ds) path token ds"
  using eat_number_show [of "[]"] by (simp add: serves_def paging_client_def page_request_def)

theorem paginated_takes_the_first_items_witness:
  "\<exists>h'. paginated (paging_client (replicate 100 [])) ''/x'' ''t'' (per_page * 1) \<lparr>hub_log = [], hub_world = ()\<rparr> =
     (Inr (replicate 100 [], True), h')"
  using paginated_takes_the_first_items [OF paging_client_serves, of 1 "replicate 100 []" "''/x''" "''t''" "\<lparr>hub_log = [], hub_world = ()\<rparr>"]
  by (simp add: per_page_def)

definition answering :: "http_response list http_client" where
  "answering request world = (case world of [] \<Rightarrow> (Inl status_error, []) | r # rs \<Rightarrow> (Inr r, rs))"

definition json_answer :: "json \<Rightarrow> http_response" where
  "json_answer j = \<lparr>hr_status = 200, hr_json = Inr j, hr_chunks = []\<rparr>"

definition example_members :: "tar_member list" where
  "example_members = [\<lparr>tm_name = ''o-r-1'', tm_kind = Other_Member, tm_size = 0, tm_data = None\<rparr>,
     \<lparr>tm_name = ''o-r-1/a.py'', tm_kind = Regular_Member, tm_size = 1, tm_data = Some ''x''\<rparr>,
     \<lparr>tm_name = ''o-r-1/l'', tm_kind = Symlink_Member, tm_size = 0, tm_data = None\<rparr>]"

definition example_reader :: "http_response list reader" where
  "example_reader = \<lparr>rd_client = answering, rd_jwt = ''j'', rd_max_archive_bytes = 100,
     rd_max_file_bytes = 10, rd_open_tar = (\<lambda>b. if b = ''gz'' then Inr example_members else Inl status_error),
     rd_decode = id, rd_str = (\<lambda>_. [])\<rparr>"

definition identified :: "http_response list" where
  "identified = [json_answer (JObj [(''id'', JInt 5)]), json_answer (JObj [(''token'', JStr ''t'')]),
     json_answer (JObj [(''full_name'', JStr ''o/r'')])]"

definition answered_hub :: "http_response list \<Rightarrow> http_response list hub" where
  "answered_hub rs = \<lparr>hub_log = [], hub_world = identified @ rs\<rparr>"

definition archive_hub :: "http_response list hub" where
  "archive_hub = answered_hub [\<lparr>hr_status = 200, hr_json = Inr JNull, hr_chunks = [''g'', ''z'']\<rparr>]"

lemma example_fetch: "fst (reader_fetch_snapshot example_reader 11 example_sha archive_hub) =
  Inr \<lparr>sn_pinned_sha = example_sha, sn_files = [(''a.py'', ''x'')], sn_history = []\<rparr>"
  by code_simp

theorem fetched_snapshot_is_the_pinned_archive_witness:
  "\<exists>sn h'. reader_fetch_snapshot example_reader 11 example_sha archive_hub = (Inr sn, h') \<and>
     sn_files sn = [(''a.py'', ''x'')] \<and>
     (\<exists>members folder. map_of (sn_files sn) = map_of (rev (archive_files example_reader folder members)))"
proof -
  obtain sn h' where run: "reader_fetch_snapshot example_reader 11 example_sha archive_hub = (Inr sn, h')"
    "sn_files sn = [(''a.py'', ''x'')]"
    using example_fetch by (cases "reader_fetch_snapshot example_reader 11 example_sha archive_hub") auto
  with fetched_snapshot_is_the_pinned_archive [OF run(1)] show ?thesis by blast
qed

definition check_hub :: "http_response list hub" where
  "check_hub = answered_hub [json_answer (JObj [(''head_sha'', JStr example_sha), (''status'', JStr ''completed''),
       (''name'', JStr ''tests''), (''conclusion'', JStr ''failure'')]), json_answer (JArr [])]"

lemma example_fetch_check: "fst (reader_fetch_check example_reader 11 5 example_sha check_hub) =
  Inr \<lparr>cr_repository_id = 11, cr_check_run_id = 5, cr_name = ''tests'', cr_head_sha = example_sha,
    cr_status = ''completed'', cr_conclusion = Some ''failure'', cr_app_slug = None, cr_started_at = None,
    cr_completed_at = None, cr_output = [], cr_log_excerpts = [], cr_annotations = [],
    cr_annotations_truncated = False, cr_logs_available = False,
    cr_unavailable_signals = [''check_log_locator_unavailable'']\<rparr>"
  by code_simp

text \<open>A pull request of one added file, whose patch GitHub did not send.\<close>

definition pull_payload :: json where
  "pull_payload = JObj [(''head'', JObj [(''sha'', JStr example_sha), (''ref'', JStr ''fix''),
       (''repo'', JObj [(''id'', JInt 11)])]), (''base'', JObj [(''sha'', JStr example_sha)])]"

definition example_item :: "(string \<times> json) list" where
  "example_item = [(''filename'', JStr ''a.py''), (''status'', JStr ''added''), (''additions'', JInt 3), (''changes'', JInt 3)]"

definition example_file :: diff_file where
  "example_file = \<lparr>df_path = ''a.py'', df_previous_path = None, df_status = ''added'', df_additions = 3,
     df_deletions = 0, df_changes = 3, df_binary = ''unknown'', df_patch_hash = sha256_hex [], df_hunks = []\<rparr>"

lemma example_file_evidence: "file_evidence 7 example_item = Inr example_file"
proof -
  have "relative_path ''a.py''" by code_simp
  then show ?thesis
    by (simp add: file_evidence_def example_item_def example_file_def jget_def json_among_def diff_statuses_def int_or_def
        parse_diff_hunks_def append_hunk_def utf8_def validate_diff_file_def checks.simps len_between_def
        evidence_path_def length_sha256_hex)
qed

theorem check_evidence_is_pinned_and_clean_witness:
  "\<exists>c h'. reader_fetch_check example_reader 11 5 example_sha check_hub = (Inr c, h') \<and> cr_status c = ''completed'' \<and>
     cr_head_sha c = example_sha \<and> list_all clean_text (check_texts c)"
proof -
  obtain c h' where run: "reader_fetch_check example_reader 11 5 example_sha check_hub = (Inr c, h')"
    "cr_status c = ''completed''"
    using example_fetch_check by (cases "reader_fetch_check example_reader 11 5 example_sha check_hub") auto
  with check_evidence_is_pinned_and_clean [OF run(1)] show ?thesis by blast
qed

definition pull_hub :: "http_response list hub" where
  "pull_hub = answered_hub [json_answer pull_payload, json_answer (JArr [JObj example_item])]"

lemma example_fetch_diff: "\<exists>d. fst (reader_fetch_diff example_reader 11 7 example_sha pull_hub) = Inr d \<and> pd_files d = [example_file]"
proof -
  define h1 where "h1 = snd (installation_token answering ''j'' 11 diff_permissions pull_hub)"
  define h2 where "h2 = snd (repository_name answering 11 ''t'' h1)"
  let ?pull = "Http_Get (pull_path ''o/r'' 7) (auth_headers ''t'') []"
  define h3 where "h3 = snd (send_json answering ?pull h2)"
  have "fst (installation_token answering ''j'' 11 diff_permissions pull_hub) = Inr ''t''" by code_simp
  then have t: "installation_token answering ''j'' 11 diff_permissions pull_hub = (Inr ''t'', h1)"
    by (simp add: h1_def prod_eq_iff)
  have "fst (repository_name answering 11 ''t'' h1) = Inr ''o/r''" unfolding h1_def by code_simp
  then have n: "repository_name answering 11 ''t'' h1 = (Inr ''o/r'', h2)" by (simp add: h2_def prod_eq_iff)
  have "fst (send_json answering ?pull h2) = Inr pull_payload" unfolding h1_def h2_def by code_simp
  then have p: "send_json answering ?pull h2 = (Inr pull_payload, h3)" by (simp add: h3_def prod_eq_iff)
  have i: "pull_identity pull_payload 11 example_sha = Inr (example_sha, ''fix'', True)" by code_simp
  have f: "fst (paginated answering (pull_path ''o/r'' 7 @ ''/files'') ''t'' 300 h3) = Inr ([example_item], False)"
    unfolding h1_def h2_def h3_def by code_simp
  have sha: "immutable_sha example_sha" by (rule immutable_example_sha)
  then have "len_between 40 64 example_sha" by (auto simp: immutable_sha_def len_between_def)
  with sha have v: "validate_pull_diff \<lparr>pd_repository_id = 11, pd_pull_number = 7, pd_base_sha = example_sha,
      pd_head_sha = example_sha, pd_head_ref = ''fix'', pd_same_repository = True, pd_files = [example_file],
      pd_truncated = False\<rparr> = Inr \<lparr>pd_repository_id = 11, pd_pull_number = 7, pd_base_sha = example_sha,
      pd_head_sha = example_sha, pd_head_ref = ''fix'', pd_same_repository = True, pd_files = [example_file],
      pd_truncated = False\<rparr>"
    by (simp add: validate_pull_diff_def checks.simps len_between_def)
  have rd: "rd_client example_reader = answering" "rd_jwt example_reader = ''j''" by (simp_all add: example_reader_def)
  show ?thesis
    using t n p i f v sha
    by (cases "paginated answering (pull_path ''o/r'' 7 @ ''/files'') ''t'' 300 h3")
      (simp add: reader_fetch_diff_def rd bind_act_def of_res_def example_file_evidence)
qed

theorem diff_evidence_is_pinned_and_clean_witness:
  "\<exists>d h'. reader_fetch_diff example_reader 11 7 example_sha pull_hub = (Inr d, h') \<and> pd_files d = [example_file] \<and>
     pd_head_sha d = example_sha \<and> list_all clean_text (diff_texts d)"
proof -
  obtain d h' where run: "reader_fetch_diff example_reader 11 7 example_sha pull_hub = (Inr d, h')"
    "pd_files d = [example_file]"
    using example_fetch_diff by (cases "reader_fetch_diff example_reader 11 7 example_sha pull_hub") auto
  with diff_evidence_is_pinned_and_clean [OF run(1)] show ?thesis by blast
qed

definition github_gateway :: "http_response list hub capability_gateway" where
  "github_gateway = \<lparr>cg_port = github_read_port example_reader, cg_allowed = [11], cg_audited = False\<rparr>"

theorem gateway_evidence_is_of_the_pinned_sha_witness:
  "\<exists>e s'. fetch_check_evidence github_gateway 0 CI 11 5 example_sha (empty_db 0, check_hub) = (Inr e, s') \<and>
     ce_head_sha e = example_sha"
proof -
  obtain c h' where run: "reader_fetch_check example_reader 11 5 example_sha check_hub = (Inr c, h')"
    using example_fetch_check by (cases "reader_fetch_check example_reader 11 5 example_sha check_hub") auto
  then have "port_check (github_read_port example_reader) 11 5 example_sha check_hub = (Inr (check_of c), h')"
    by (simp add: github_read_port_def map_act_def bind_act_def ret_def)
  then have "fetch_check_evidence github_gateway 0 CI 11 5 example_sha (empty_db 0, check_hub) =
      (Inr (check_of c), (empty_db 0, h'))"
    using check_read.allowed [of CI 5 11 github_gateway example_sha 0 "(empty_db 0, check_hub)"] immutable_example_sha
    by (simp add: github_gateway_def)
  moreover have "ce_head_sha (check_of c) = example_sha"
    by (rule conjunct1 [OF gateway_evidence_is_of_the_pinned_sha [OF _ calculation, of example_reader]])
      (simp add: github_gateway_def)
  ultimately show ?thesis by blast
qed

end
