(* ===== verification/Gateway.thy ===== *)
theory Gateway
  imports Orchestrator GithubApi
begin

text \<open>
  \<open>gateway/model.py\<close>: the two adapters behind the model gateway of the agents. The direct adapter
  for OpenRouter is a loop of requests; the production adapter wraps the agent of a library. Both are
  dialogues: they reach the tools of a run by their calls only. The client, the clock, the reading of
  JSON and the validation of an output are parameters, and so is the agent of the library.
\<close>

section \<open>Numbers\<close>

fun num_add :: "pynum \<Rightarrow> pynum \<Rightarrow> pynum" where
  "num_add PyNaN y = PyNaN"
| "num_add x PyNaN = PyNaN"
| "num_add PyInf PyNegInf = PyNaN"
| "num_add PyNegInf PyInf = PyNaN"
| "num_add PyInf y = PyInf"
| "num_add x PyInf = PyInf"
| "num_add PyNegInf y = PyNegInf"
| "num_add x PyNegInf = PyNegInf"
| "num_add x y = PyFloat (num_val x + num_val y)"

text \<open>
  \<open>float(value or 0.0)\<close>, 0 where that raises a \<open>TypeError\<close> or a \<open>ValueError\<close>; how a text is read is a
  parameter. An integer that rounds to \<open>2\<^sup>1\<^sup>0\<^sup>2\<^sup>4\<close> or beyond raises an \<open>OverflowError\<close>, which is not caught.
\<close>

definition float_overflow :: exn where
  "float_overflow = OtherError ''OverflowError'' ''int too large to convert to float''"

definition float_cost :: "(string \<Rightarrow> pynum option) \<Rightarrow> json \<Rightarrow> pynum res" where
  "float_cost read j = (case j of
     JBool b \<Rightarrow> Inr (PyFloat (if b then 1 else 0))
   | JInt i \<Rightarrow> if 2 ^ 1024 - 2 ^ 970 \<le> \<bar>i\<bar> then Inl float_overflow else Inr (PyFloat (of_int i))
   | JFloat q \<Rightarrow> Inr q
   | JStr s \<Rightarrow> Inr (if s = [] then PyFloat 0 else case read s of None \<Rightarrow> PyFloat 0 | Some q \<Rightarrow> q)
   | _ \<Rightarrow> Inr (PyFloat 0))"

section \<open>The direct adapter\<close>

record model_call = call_metadata +
  mc_response_id :: "string option"

text \<open>The state of the adapter: what was sent with what came of it, the world behind the client, its fields.\<close>

record 'w gateway =
  gt_log :: "(json \<times> http_response res) list"
  gt_world :: 'w
  gt_last_call :: "model_call option"
  gt_last_request :: "model_request option"
  gt_last_allowlist :: "string list"

text \<open>
  The client: a request with its timeout, the monotonic clock, \<open>json.loads\<close> (\<open>None\<close> for an error),
  \<open>float\<close> of a text, the JSON schema of a tool's input, the time a tool call takes, and the
  representation of floats in a dump.
\<close>

record 'w model_client =
  ml_post :: "json \<Rightarrow> rat \<Rightarrow> 'w \<Rightarrow> http_response res \<times> 'w"
  ml_clock :: "'w \<Rightarrow> rat \<times> 'w"
  ml_loads :: "string \<Rightarrow> json option"
  ml_float :: "string \<Rightarrow> pynum option"
  ml_schema :: "string \<Rightarrow> json"
  ml_tool_ms :: int
  ml_float_repr :: "pynum \<Rightarrow> string"

definition clock :: "'w model_client \<Rightarrow> ('w gateway, rat) act" where
  "clock c g = (case ml_clock c (gt_world g) of (t, w) \<Rightarrow> (Inr t, g\<lparr>gt_world := w\<rparr>))"

definition post :: "'w model_client \<Rightarrow> json \<Rightarrow> rat \<Rightarrow> ('w gateway, http_response) act" where
  "post c payload timeout g = (case ml_post c payload timeout (gt_world g) of
     (r, w) \<Rightarrow> (r, g\<lparr>gt_world := w, gt_log := gt_log g @ [(payload, r)]\<rparr>))"

definition validate_model_id :: "string list \<Rightarrow> string \<Rightarrow> unit res" where
  "validate_model_id allowed model_id =
     require (model_id \<in> set allowed \<and> \<not> ends_with ''latest'' (lower model_id))
       (ValueError ''model must be an explicitly configured pinned model ID'')"

definition gateway_message :: "json \<Rightarrow> (string \<times> json) list res" where
  "gateway_message payload =
    (let none = Inl (ValueError ''provider response has no assistant message'') in
     case (case payload of JObj d \<Rightarrow> map_of d ''choices'' | _ \<Rightarrow> None) of
       Some (JArr (JObj choice # _)) \<Rightarrow> (case map_of choice ''message'' of
           None \<Rightarrow> none
         | Some (JObj m) \<Rightarrow> Inr m
         | Some _ \<Rightarrow> Inl (ValueError ''provider assistant message is invalid''))
     | _ \<Rightarrow> none)"

definition gateway_content :: "(pynum \<Rightarrow> string) \<Rightarrow> (string \<times> json) list \<Rightarrow> string res" where
  "gateway_content fr message = (case jget message ''content'' of
     JStr s \<Rightarrow> Inr s
   | JNull \<Rightarrow> Inl (ValueError ''provider response has no assistant content'')
   | j \<Rightarrow> Inr (dumps False fr j))"

definition tool_request :: "(string \<Rightarrow> json option) \<Rightarrow> json \<Rightarrow> (string \<times> string \<times> (string \<times> json) list) res" where
  "tool_request loads tool_call =
    (let invalid = Inl (ValueError ''provider tool call is invalid'') in
     case as_obj tool_call of
       None \<Rightarrow> invalid
     | Some d \<Rightarrow> (case (as_str (jget d ''id''), as_obj (jget d ''function'')) of
         (Some tool_id, Some f) \<Rightarrow>
           (case (as_str (jget f ''name''),
                  as_str (case map_of f ''arguments'' of None \<Rightarrow> JStr ''{}'' | Some v \<Rightarrow> v)) of
              (Some name, Some raw) \<Rightarrow> Inr (tool_id, name,
                 (case loads raw of
                    None \<Rightarrow> [(''_invalid_json'', JBool True)]
                  | Some (JObj args) \<Rightarrow> args
                  | Some _ \<Rightarrow> [(''_invalid_shape'', JBool True)]))
            | _ \<Rightarrow> invalid)
       | _ \<Rightarrow> invalid))"

definition gateway_metadata :: "(string \<Rightarrow> pynum option) \<Rightarrow> json \<Rightarrow> model_call res" where
  "gateway_metadata read payload = (case as_obj payload of
     None \<Rightarrow> Inl no_attribute
   | Some d \<Rightarrow>
      (let usage = (case as_obj (jget d ''usage'') of None \<Rightarrow> [] | Some u \<Rightarrow> u);
           provider = (case as_str (jget d ''provider'') of None \<Rightarrow> ''unknown'' | Some p \<Rightarrow> if p = [] then ''unknown'' else p);
           cost = (case map_of usage ''cost'' of
               Some v \<Rightarrow> v
             | None \<Rightarrow> (case map_of d ''cost'' of None \<Rightarrow> JFloat (PyFloat 0) | Some v \<Rightarrow> v))
       in bind_res (float_cost read cost) (\<lambda>billed.
            Inr \<lparr>cm_provider = provider, cm_usage = JObj usage, cm_billed_cost = billed,
              mc_response_id = as_str (jget d ''id'')\<rparr>)))"

record gateway_config =
  gc_allowed_models :: "string list"
  gc_allowed_providers :: "string list"

definition chosen_providers :: "gateway_config \<Rightarrow> model_request \<Rightarrow> string list" where
  "chosen_providers cfg q = (if mq_provider_allowlist q \<noteq> [] then mq_provider_allowlist q
     else sort (remdups (gc_allowed_providers cfg)))"

definition providers_known :: "gateway_config \<Rightarrow> string list \<Rightarrow> bool" where
  "providers_known cfg providers \<longleftrightarrow>
     \<not> (providers \<noteq> [] \<and> gc_allowed_providers cfg \<noteq> [] \<and> \<not> set providers \<subseteq> set (gc_allowed_providers cfg))"

definition provider_json :: "model_request \<Rightarrow> string list \<Rightarrow> json" where
  "provider_json q providers = JObj ([(''allow_fallbacks'', JBool (if mq_evaluation q then False else length providers \<noteq> 1)),
     (''data_collection'', JStr ''deny'')] @
     (if providers \<noteq> [] then [(''order'', JArr (map JStr providers))] else []))"

definition metadata_json :: "model_request \<Rightarrow> json" where
  "metadata_json q = JObj [(''run_id'', JStr (uuid_str (mq_run_id q))), (''role'', JStr (role_value (mq_role q)))]"

definition request_payload :: "model_request \<Rightarrow> string list \<Rightarrow> json option \<Rightarrow> json list \<Rightarrow> json" where
  "request_payload q providers definitions messages = JObj ([(''model'', JStr (mq_model_id q)), (''messages'', JArr messages),
     (''response_format'', JObj [(''type'', JStr ''json_object'')]), (''provider'', provider_json q providers),
     (''metadata'', metadata_json q)] @
     (case definitions of None \<Rightarrow> [] | Some d \<Rightarrow> [(''tools'', d)]))"

definition wall_exhausted :: exn where
  "wall_exhausted = BudgetExhaustedError ''model wall-time budget exhausted''"

definition foreign_provider :: exn where
  "foreign_provider = ValueError ''provider response came from outside the configured allowlist''"

definition cost_exhausted :: exn where
  "cost_exhausted = BudgetExhaustedError ''provider billed cost exceeded the run budget''"

text \<open>One request of the loop: the message of the answer and what has been billed so far.\<close>

definition model_turn ::
    "'w model_client \<Rightarrow> model_request \<Rightarrow> string list \<Rightarrow> json option \<Rightarrow> rat \<Rightarrow> json list \<Rightarrow> pynum \<Rightarrow>
     ('w gateway, (string \<times> json) list \<times> pynum) act" where
  "model_turn c q providers definitions deadline messages billed =
    bind_act (clock c) (\<lambda>now. if deadline - now \<le> 0 then throw wall_exhausted
    else bind_act (post c (request_payload q providers definitions messages) (max (1 / 1000) (min 60 (deadline - now)))) (\<lambda>response.
    bind_act (of_res (raise_for_status response)) (\<lambda>response.
    bind_act (clock c) (\<lambda>now. if deadline < now then throw wall_exhausted
    else bind_act (of_res (hr_json response)) (\<lambda>payload.
    bind_act (of_res (gateway_metadata (ml_float c) payload)) (\<lambda>m.
      (let billed' = num_add billed (cm_billed_cost m); call = m\<lparr>cm_billed_cost := billed'\<rparr> in
       then_act (modify (\<lambda>g. g\<lparr>gt_last_call := Some call\<rparr>))
         (if providers \<noteq> [] \<and> cm_provider call \<noteq> ''unknown'' \<and> cm_provider call \<notin> set providers
          then throw foreign_provider
          else if num_gt billed' (mb_max_usd (mq_budget q)) then throw cost_exhausted
          else bind_act (of_res (gateway_message payload)) (\<lambda>message. ret (message, billed'))))))))))"

definition requested_tools :: "(string \<times> json) list \<Rightarrow> json list" where
  "requested_tools message = (case as_list (jget message ''tool_calls'') of None \<Rightarrow> [] | Some calls \<Rightarrow> calls)"

definition tool_message :: "(pynum \<Rightarrow> string) \<Rightarrow> string \<Rightarrow> (string \<times> json) list \<Rightarrow> json" where
  "tool_message fr tool_id result = JObj [(''role'', JStr ''tool''), (''tool_call_id'', JStr tool_id),
     (''content'', JStr (dumps True fr (JObj result)))]"

text \<open>The tool calls of a message, one after the other, and what follows with their answers.\<close>

fun call_tools ::
    "'w model_client \<Rightarrow> 'w gateway \<Rightarrow> json list \<Rightarrow> json list \<Rightarrow> (json list \<Rightarrow> ('w gateway, 'a) dialogue) \<Rightarrow>
     ('w gateway, 'a) dialogue" where
  "call_tools c g [] messages k = k messages"
| "call_tools c g (call # calls) messages k = (case tool_request (ml_loads c) call of
     Inl e \<Rightarrow> Finish (Inl e) g
   | Inr (tool_id, name, args) \<Rightarrow> Call_Tool name args None (ml_tool_ms c) (\<lambda>answer. case answer of
       Inl e \<Rightarrow> Finish (Inl e) g
     | Inr result \<Rightarrow> call_tools c g calls (messages @ [tool_message (ml_float_repr c) tool_id result]) k))"

definition repair_message :: "string \<Rightarrow> json" where
  "repair_message errors = JObj [(''role'', JStr ''user''),
     (''content'', JStr (''Return only corrected JSON matching this schema error: '' @ errors))]"

primrec turns ::
    "'w model_client \<Rightarrow> (string \<Rightarrow> string + 'a) \<Rightarrow> model_request \<Rightarrow> string list \<Rightarrow> json option \<Rightarrow> rat \<Rightarrow> nat \<Rightarrow>
     json list \<Rightarrow> bool \<Rightarrow> int \<Rightarrow> pynum \<Rightarrow> 'w gateway \<Rightarrow> ('w gateway, 'a) dialogue" where
  "turns c valid q providers definitions deadline 0 = (\<lambda>messages repair_used count billed g.
     Finish (Inl (BudgetExhaustedError ''model turn budget exhausted'')) g)"
| "turns c valid q providers definitions deadline (Suc n) = (\<lambda>messages repair_used count billed g.
     case model_turn c q providers definitions deadline messages billed g of
       (Inl e, g') \<Rightarrow> Finish (Inl e) g'
     | (Inr (message, billed'), g') \<Rightarrow>
         (let calls = requested_tools message in
          if calls \<noteq> [] then
            (if definitions = None
             then Finish (Inl (ValueError ''model requested a tool when no registry was provided'')) g'
             else if mb_max_tool_calls (mq_budget q) < count + int (length calls)
             then Finish (Inl (BudgetExhaustedError ''tool call budget exhausted'')) g'
             else call_tools c g' calls (messages @ [JObj message]) (\<lambda>messages.
               turns c valid q providers definitions deadline n messages repair_used (count + int (length calls)) billed' g'))
          else (case gateway_content (ml_float_repr c) message of
              Inl e \<Rightarrow> Finish (Inl e) g'
            | Inr content \<Rightarrow> (case valid content of
                Inr x \<Rightarrow> Finish (Inr x) g'
              | Inl errors \<Rightarrow>
                  if repair_used then Finish (Inl (ValueError ''model output failed schema repair'')) g'
                  else turns c valid q providers definitions deadline n
                    (messages @ [JObj [(''role'', JStr ''assistant''), (''content'', JStr content)], repair_message errors])
                    True count billed' g'))))"

definition first_messages :: "model_request \<Rightarrow> json list" where
  "first_messages q = [JObj [(''role'', JStr ''system''), (''content'', JStr (mq_system_prompt q))],
     JObj [(''role'', JStr ''user''), (''content'', JStr (mq_task q))]]"

definition direct_agent_loop ::
    "'w model_client \<Rightarrow> gateway_config \<Rightarrow> (string \<Rightarrow> string + 'a) \<Rightarrow> model_request \<Rightarrow> registry option \<Rightarrow> 'w gateway \<Rightarrow>
     ('w gateway, 'a) dialogue" where
  "direct_agent_loop c cfg valid q tools g =
    (let g = g\<lparr>gt_last_call := None, gt_last_request := Some q\<rparr>; b = mq_budget q in
     case validate_model_id (gc_allowed_models cfg) (mq_model_id q) of
       Inl e \<Rightarrow> Finish (Inl e) g
     | Inr _ \<Rightarrow>
         if mb_max_turns b < 1 \<or> mb_max_tool_calls b < 0 \<or> mb_max_wall_seconds b < 1
         then Finish (Inl (BudgetExhaustedError ''model budget is exhausted before execution'')) g
         else (let providers = chosen_providers cfg q; g = g\<lparr>gt_last_allowlist := providers\<rparr> in
           if \<not> providers_known cfg providers then Finish (Inl (ValueError ''request contains an unknown provider'')) g
           else (case clock c g of
               (Inl e, g) \<Rightarrow> Finish (Inl e) g
             | (Inr now, g) \<Rightarrow> turns c valid q providers (map_option (\<lambda>t. JArr (tool_definitions (ml_schema c) t)) tools)
                 (now + of_int (mb_max_wall_seconds b)) (nat (mb_max_turns b)) (first_messages q) False 0 (PyFloat 0) g)))"

section \<open>The adapter of the library\<close>

text \<open>What \<open>_process_provider_details\<close> keeps of an answer: the library's details, the provider, the cost.\<close>

record provider_answer =
  pv_details :: "(string \<times> json) list"
  pv_extra :: "(string \<times> json) list"
  pv_usage_extra :: "(string \<times> json) list option"

definition provider_details :: "provider_answer \<Rightarrow> (string \<times> json) list" where
  "provider_details a =
    (let usage = (case pv_usage_extra a of None \<Rightarrow> [] | Some u \<Rightarrow> u);
         cost = (case map_of usage ''cost'' of Some v \<Rightarrow> v | None \<Rightarrow> jget (pv_extra a) ''cost'');
         d1 = (case jget (pv_extra a) ''provider'' of
             JStr p \<Rightarrow> if p = [] then pv_details a else AList.update ''provider'' (JStr p) (pv_details a)
           | _ \<Rightarrow> pv_details a)
     in if cost = JNull then d1 else AList.update ''cost'' cost d1)"

definition recorded_details :: "provider_answer list \<Rightarrow> (string \<times> json) list list" where
  "recorded_details answers = filter (\<lambda>d. d \<noteq> []) (map provider_details answers)"

record agent_usage =
  au_requests :: int
  au_tool_calls :: int
  au_input_tokens :: int
  au_output_tokens :: int

text \<open>The tools the library is given, with the arguments of their signatures.\<close>

datatype library_call =
    List_Tree string int
  | Read_File string int int
  | Search_Text string string bool int
  | Search_Structure string string string int
  | Git_History string int

fun library_tool :: "library_call \<Rightarrow> string \<times> (string \<times> json) list" where
  "library_tool (List_Tree below depth) = (''list_tree'', [(''prefix'', JStr below), (''depth'', JInt depth)])"
| "library_tool (Read_File path a b) =
     (''read_file'', [(''path'', JStr path), (''start_line'', JInt a), (''end_line'', JInt b)])"
| "library_tool (Search_Text query below regex limit) = (''search_text'', [(''query'', JStr query),
     (''path_prefix'', JStr below), (''regex'', JBool regex), (''limit'', JInt limit)])"
| "library_tool (Search_Structure symbol language below limit) = (''search_structure'', [(''symbol'', JStr symbol),
     (''language'', JStr language), (''path_prefix'', JStr below), (''limit'', JInt limit)])"
| "library_tool (Git_History below limit) = (''git_history'', [(''path_prefix'', JStr below), (''limit'', JInt limit)])"

text \<open>How a run of the library's agent ends, and the run: tool calls with the model requests so far.\<close>

datatype agent_error =
    Usage_Limit_Exceeded string
  | Model_HTTP_Error int json
  | Unexpected_Behavior string "(string \<times> string) option"
  | Agent_Error exn

record agent_end =
  ae_usage :: agent_usage
  ae_answers :: "provider_answer list"
  ae_response_id :: "string option"

datatype ('w, 'a) agent_run =
    Agent_Ends "agent_error + 'a" agent_end 'w
  | Agent_Calls library_call int int "(string \<times> json) list res \<Rightarrow> ('w, 'a) agent_run"

text \<open>What the agent is made with; the library is a parameter that runs it.\<close>

record agent_setup =
  as_model_id :: string
  as_system_prompt :: string
  as_has_tools :: bool
  as_timeout :: int
  as_provider :: json
  as_metadata :: json
  as_task :: string
  as_request_limit :: int
  as_tool_calls_limit :: int

type_synonym ('w, 'a) agent_library = "agent_setup \<Rightarrow> 'w \<Rightarrow> ('w, 'a) agent_run"

definition returned_providers :: "(string \<times> json) list list \<Rightarrow> string list" where
  "returned_providers details = List.map_filter (\<lambda>d. as_str (jget d ''provider'')) details"

definition detail_cost :: "(string \<Rightarrow> pynum option) \<Rightarrow> (string \<times> json) list \<Rightarrow> pynum res" where
  "detail_cost read d = float_cost read (case map_of d ''cost'' of None \<Rightarrow> JFloat (PyFloat 0) | Some v \<Rightarrow> v)"

definition library_metadata ::
    "(string \<Rightarrow> pynum option) \<Rightarrow> agent_usage \<Rightarrow> (string \<times> json) list list \<Rightarrow> string option \<Rightarrow> model_call option res" where
  "library_metadata read usage details response_id =
    (if au_requests usage = 0 \<and> details = [] then Inr None
     else (let returned = returned_providers details in
       bind_res (traverse (detail_cost read) details) (\<lambda>costs. Inr (Some
       \<lparr>cm_provider = (if returned = [] then ''unknown'' else last returned),
        cm_usage = JObj [(''requests'', JInt (au_requests usage)), (''tool_calls'', JInt (au_tool_calls usage)),
          (''input_tokens'', JInt (au_input_tokens usage)), (''output_tokens'', JInt (au_output_tokens usage))],
        cm_billed_cost = foldl num_add (PyInt 0) costs,
        mc_response_id = response_id\<rparr>))))"

definition validate_returned_providers :: "(string \<times> json) list list \<Rightarrow> string list \<Rightarrow> unit res" where
  "validate_returned_providers details providers =
     require (\<not> (providers \<noteq> [] \<and> list_ex (\<lambda>p. p \<notin> set providers) (returned_providers details))) foreign_provider"

subsection \<open>Errors that may be shown\<close>

definition shown_code :: "json \<Rightarrow> int \<Rightarrow> string" where
  "shown_code j status = (case j of JStr s \<Rightarrow> take 100 s | JInt i \<Rightarrow> take 100 (show_int i)
     | JBool b \<Rightarrow> (if b then ''True'' else ''False'') | _ \<Rightarrow> show_int status)"

definition shown_message :: "json \<Rightarrow> string" where
  "shown_message j = (case j of JStr s \<Rightarrow> take 500 s | JInt i \<Rightarrow> take 500 (show_int i)
     | JBool b \<Rightarrow> (if b then ''True'' else ''False'') | _ \<Rightarrow> ''provider request failed'')"

definition safe_provider_error :: "int \<Rightarrow> json \<Rightarrow> string" where
  "safe_provider_error status body =
    (let details = (case as_obj body of
           Some d \<Rightarrow> (case jget d ''error'' of JObj e \<Rightarrow> JObj e | _ \<Rightarrow> body) | None \<Rightarrow> body);
         code = (case as_obj details of None \<Rightarrow> JInt status
           | Some d \<Rightarrow> (case map_of d ''code'' of None \<Rightarrow> JInt status | Some v \<Rightarrow> v));
         message = (case as_obj details of None \<Rightarrow> JStr ''provider request failed''
           | Some d \<Rightarrow> (case map_of d ''message'' of None \<Rightarrow> JStr ''provider request failed'' | Some v \<Rightarrow> v));
         redaction = redact (shown_message message) [];
         safe_message = (if red_detected redaction then ''provider error detail redacted'' else red_text redaction)
     in ''provider HTTP '' @ show_int status @ ''; code='' @ shown_code code status @ ''; message='' @ safe_message)"

text \<open>\<open>str(error).splitlines()[0]\<close>: a text without a line has no first one.\<close>

definition first_line :: "string \<Rightarrow> string res" where
  "first_line s = (case splitlines s of [] \<Rightarrow> Inl (OtherError ''IndexError'' ''list index out of range'') | l # _ \<Rightarrow> Inr l)"

definition safe_model_behavior_error :: "string \<Rightarrow> (string \<times> string) option \<Rightarrow> string res" where
  "safe_model_behavior_error error cause =
     bind_res (first_line error) (\<lambda>line.
     bind_res (case cause of None \<Rightarrow> Inr ''none''
         | Some (name, msg) \<Rightarrow> bind_res (first_line msg) (\<lambda>l. Inr (name @ '': '' @ take 200 l))) (\<lambda>detail.
       (let redaction = redact (take 300 line @ ''; cause='' @ detail) [] in
        Inr (''unexpected model behavior; '' @
          (if red_detected redaction then ''provider error detail redacted'' else red_text redaction)))))"

subsection \<open>The run of the agent\<close>

text \<open>After the run: the call is recorded, its providers are checked, then what happened is told.\<close>

definition agent_failed :: "agent_error \<Rightarrow> 'a res" where
  "agent_failed error = (case error of
     Usage_Limit_Exceeded msg \<Rightarrow> Inl (BudgetExhaustedError msg)
   | Model_HTTP_Error status body \<Rightarrow> Inl (ModelGatewayError (safe_provider_error status body))
   | Unexpected_Behavior msg cause \<Rightarrow>
       bind_res (safe_model_behavior_error msg cause) (\<lambda>t. Inl (ModelGatewayError t))
   | Agent_Error e \<Rightarrow> Inl e)"

definition agent_ended ::
    "'w model_client \<Rightarrow> ('a \<Rightarrow> 'a res) \<Rightarrow> model_request \<Rightarrow> string list \<Rightarrow> rat \<Rightarrow> agent_error + 'a \<Rightarrow> agent_end \<Rightarrow>
     ('w gateway, 'a) act" where
  "agent_ended c valid q providers started outcome ending =
    (let details = recorded_details (ae_answers ending);
         call = library_metadata (ml_float c) (ae_usage ending) details in
     case outcome of
       Inl (Agent_Error e) \<Rightarrow> throw e
     | Inl error \<Rightarrow>
         bind_act (of_res (call None)) (\<lambda>m.
         then_act (modify (\<lambda>g. g\<lparr>gt_last_call := m\<rparr>))
        (then_act (of_res (validate_returned_providers details providers)) (of_res (agent_failed error))))
     | Inr x \<Rightarrow>
         bind_act (of_res (call (ae_response_id ending))) (\<lambda>m.
         then_act (modify (\<lambda>g. g\<lparr>gt_last_call := m\<rparr>))
        (then_act (of_res (validate_returned_providers details providers))
        (bind_act (clock c) (\<lambda>now.
           if of_int (mb_max_wall_seconds (mq_budget q)) < now - started then throw wall_exhausted
           else if (case m of None \<Rightarrow> False
               | Some m \<Rightarrow> num_gt (cm_billed_cost m) (mb_max_usd (mq_budget q))) then throw cost_exhausted
           else of_res (valid x))))))"

primrec wrap_agent ::
    "'w model_client \<Rightarrow> ('a \<Rightarrow> 'a res) \<Rightarrow> model_request \<Rightarrow> string list \<Rightarrow> rat \<Rightarrow> 'w gateway \<Rightarrow> ('w, 'a) agent_run \<Rightarrow>
     ('w gateway, 'a) dialogue" where
  "wrap_agent c valid q providers started g (Agent_Ends outcome ending w) =
     (case agent_ended c valid q providers started outcome ending (g\<lparr>gt_world := w\<rparr>) of (r, g') \<Rightarrow> Finish r g')"
| "wrap_agent c valid q providers started g (Agent_Calls call requests ms k) =
     Call_Tool (fst (library_tool call)) (snd (library_tool call)) (Some requests) ms
       (\<lambda>answer. wrap_agent c valid q providers started g (k answer))"

definition agent_setup_of :: "model_request \<Rightarrow> string list \<Rightarrow> registry option \<Rightarrow> agent_setup" where
  "agent_setup_of q providers tools = \<lparr>as_model_id = mq_model_id q, as_system_prompt = mq_system_prompt q,
     as_has_tools = (tools \<noteq> None), as_timeout = mb_max_wall_seconds (mq_budget q),
     as_provider = provider_json q providers, as_metadata = metadata_json q, as_task = mq_task q,
     as_request_limit = mb_max_turns (mq_budget q), as_tool_calls_limit = mb_max_tool_calls (mq_budget q)\<rparr>"

definition library_agent_loop ::
    "'w model_client \<Rightarrow> ('w, 'a) agent_library \<Rightarrow> gateway_config \<Rightarrow> ('a \<Rightarrow> 'a res) \<Rightarrow> model_request \<Rightarrow>
     registry option \<Rightarrow> 'w gateway \<Rightarrow> ('w gateway, 'a) dialogue" where
  "library_agent_loop c library cfg valid q tools g =
    (let g = g\<lparr>gt_last_call := None, gt_last_request := Some q\<rparr> in
     case validate_model_id (gc_allowed_models cfg) (mq_model_id q) of
       Inl e \<Rightarrow> Finish (Inl e) g
     | Inr _ \<Rightarrow>
         (let providers = chosen_providers cfg q; g = g\<lparr>gt_last_allowlist := providers\<rparr> in
          if \<not> providers_known cfg providers then Finish (Inl (ValueError ''request contains an unknown provider'')) g
          else (case clock c g of
              (Inl e, g) \<Rightarrow> Finish (Inl e) g
            | (Inr started, g) \<Rightarrow>
                wrap_agent c valid q providers started g (library (agent_setup_of q providers tools) (gt_world g)))))"

section \<open>What holds of a dialogue whatever the tools answer\<close>

primrec finishes :: "('w, 'a) dialogue \<Rightarrow> ('a res \<Rightarrow> 'w \<Rightarrow> bool) \<Rightarrow> bool" where
  "finishes (Finish r w) Q = Q r w"
| "finishes (Call_Tool name args requests ms k) Q = (\<forall>answer. finishes (k answer) Q)"

lemma finishes_run:
  "finishes d Q \<Longrightarrow> run_dialogue env d tools = (r, w, t) \<Longrightarrow> Q r w"
proof (induction d arbitrary: tools)
  case (Finish r' w')
  then show ?case by simp
next
  case (Call_Tool name args requests ms k)
  then show ?case
    by (auto split: option.splits prod.splits)
qed

lemma finishes_mono: "finishes d Q \<Longrightarrow> (\<And>r w. Q r w \<Longrightarrow> R r w) \<Longrightarrow> finishes d R"
  by (induction d) auto

text \<open>At most so many tool calls on every way through.\<close>

primrec asks_at_most :: "('w, 'a) dialogue \<Rightarrow> int \<Rightarrow> bool" where
  "asks_at_most (Finish r w) = (\<lambda>n. True)"
| "asks_at_most (Call_Tool name args requests ms k) = (\<lambda>n. 0 < n \<and> (\<forall>answer. asks_at_most (k answer) (n - 1)))"

lemma call_tools_finishes:
  "(\<And>e. Q (Inl e) g) \<Longrightarrow> (\<And>ms. finishes (k ms) Q) \<Longrightarrow> finishes (call_tools c g calls messages k) Q"
  by (induction c g calls messages k rule: call_tools.induct) (auto split: sum.splits)

lemma call_tools_asks:
  "(\<And>ms. asks_at_most (k ms) (n - int (length calls))) \<Longrightarrow> int (length calls) \<le> n \<Longrightarrow>
   asks_at_most (call_tools c g calls messages k) n"
proof (induction c g calls messages k arbitrary: n rule: call_tools.induct)
  case (2 c g call calls messages k)
  then show ?case by (auto split: sum.splits simp: algebra_simps)
qed simp

section \<open>The budget of the direct adapter\<close>

type_synonym model_exchange = "json \<times> http_response res"

text \<open>
  What the adapter sends: an allowed, pinned model, the one of the request; no data collection; only the
  chosen providers, in their order, and no fallback in an evaluation.
\<close>

definition sent_for :: "gateway_config \<Rightarrow> model_request \<Rightarrow> string list \<Rightarrow> json \<Rightarrow> bool" where
  "sent_for cfg q providers payload \<longleftrightarrow> (\<exists>d p. payload = JObj d \<and>
     map_of d ''model'' = Some (JStr (mq_model_id q)) \<and> mq_model_id q \<in> set (gc_allowed_models cfg) \<and>
     \<not> ends_with ''latest'' (lower (mq_model_id q)) \<and> map_of d ''provider'' = Some (JObj p) \<and>
     map_of p ''data_collection'' = Some (JStr ''deny'') \<and>
     (providers \<noteq> [] \<longrightarrow> map_of p ''order'' = Some (JArr (map JStr providers))) \<and>
     (mq_evaluation q \<longrightarrow> map_of p ''allow_fallbacks'' = Some (JBool False)))"

text \<open>What the gateway reads from an answer, and what the answers of a run were billed in all.\<close>

definition answer_json :: "model_exchange \<Rightarrow> json option" where
  "answer_json e = (case snd e of Inl _ \<Rightarrow> None
     | Inr r \<Rightarrow> if successful r then (case hr_json r of Inr j \<Rightarrow> Some j | Inl _ \<Rightarrow> None) else None)"

definition answer_call :: "'w model_client \<Rightarrow> model_exchange \<Rightarrow> model_call option" where
  "answer_call c e = (case answer_json e of None \<Rightarrow> None
     | Some j \<Rightarrow> (case gateway_metadata (ml_float c) j of Inr m \<Rightarrow> Some m | Inl _ \<Rightarrow> None))"

definition billed_in :: "'w model_client \<Rightarrow> pynum \<Rightarrow> model_exchange list \<Rightarrow> pynum" where
  "billed_in c billed es = foldl num_add billed (map (\<lambda>e. cm_billed_cost (the (answer_call c e))) es)"

definition known_answer :: "'w model_client \<Rightarrow> string list \<Rightarrow> model_exchange \<Rightarrow> bool" where
  "known_answer c providers e \<longleftrightarrow> (\<exists>m. answer_call c e = Some m \<and>
     (providers = [] \<or> cm_provider m = ''unknown'' \<or> cm_provider m \<in> set providers))"

definition output_of :: "'w model_client \<Rightarrow> (string \<Rightarrow> string + 'a) \<Rightarrow> model_exchange \<Rightarrow> 'a \<Rightarrow> bool" where
  "output_of c valid e x \<longleftrightarrow> (\<exists>j message content. answer_json e = Some j \<and> gateway_message j = Inr message \<and>
     gateway_content (ml_float_repr c) message = Inr content \<and> valid content = Inr x)"

text \<open>
  What holds of a returned output: every exchange was answered by a known provider, the recorded cost is
  that of all the answers and not above the limit, and the output is the content of the last answer.
\<close>

definition accounted ::
    "'w model_client \<Rightarrow> (string \<Rightarrow> string + 'a) \<Rightarrow> model_request \<Rightarrow> string list \<Rightarrow> pynum \<Rightarrow> model_exchange list \<Rightarrow>
     'a res \<Rightarrow> 'w gateway \<Rightarrow> bool" where
  "accounted c valid q providers billed es r g \<longleftrightarrow> (case r of Inl e \<Rightarrow> True | Inr x \<Rightarrow>
     es \<noteq> [] \<and> list_all (known_answer c providers) es \<and> output_of c valid (last es) x \<and>
     (\<exists>m. gt_last_call g = Some m \<and> cm_billed_cost m = billed_in c billed es \<and>
        \<not> num_gt (cm_billed_cost m) (mb_max_usd (mq_budget q))))"

definition kept ::
    "'w model_client \<Rightarrow> gateway_config \<Rightarrow> (string \<Rightarrow> string + 'a) \<Rightarrow> model_request \<Rightarrow> string list \<Rightarrow> nat \<Rightarrow> pynum \<Rightarrow>
     model_exchange list \<Rightarrow> 'a res \<Rightarrow> 'w gateway \<Rightarrow> bool" where
  "kept c cfg valid q providers n billed before r g \<longleftrightarrow> (\<exists>es. gt_log g = before @ es \<and> length es \<le> n \<and>
     list_all (\<lambda>e. sent_for cfg q providers (fst e)) es \<and> accounted c valid q providers billed es r g)"

lemma clock_frame: "clock c g = (r, g') \<Longrightarrow> gt_log g' = gt_log g \<and> gt_last_call g' = gt_last_call g"
  by (auto simp: clock_def split: prod.splits)

lemma post_frame: "post c payload t g = (r, g') \<Longrightarrow> gt_log g' = gt_log g @ [(payload, r)] \<and> gt_last_call g' = gt_last_call g"
  by (auto simp: post_def split: prod.splits)

lemma request_payload_sent:
  "validate_model_id (gc_allowed_models cfg) (mq_model_id q) = Inr () \<Longrightarrow>
   sent_for cfg q providers (request_payload q providers definitions messages)"
  by (auto simp: sent_for_def request_payload_def provider_json_def validate_model_id_def split: if_splits)

text \<open>A turn sends at most one request, which it makes of the pinned request.\<close>

lemma adds_clock: "adds_calls gt_log (clock c) {[]}"
  by (simp add: adds_calls_def clock_def split: prod.splits)

lemma adds_post: "adds_calls gt_log (post c payload t) {[(payload, r)] | r. True}"
  by (auto simp: adds_calls_def post_def split: prod.splits)

abbreviation one_request :: "gateway_config \<Rightarrow> model_request \<Rightarrow> string list \<Rightarrow> model_exchange list set" where
  "one_request cfg q providers \<equiv> {[]} \<union> {[(p, r)] | p r. sent_for cfg q providers p}"

lemma model_turn_requests:
  assumes "validate_model_id (gc_allowed_models cfg) (mq_model_id q) = Inr ()"
  shows "adds_calls gt_log (model_turn c q providers definitions deadline messages billed) (one_request cfg q providers)"
proof -
  have silent: "adds_calls gt_log (modify (\<lambda>g. g\<lparr>gt_last_call := v\<rparr>)) {[]}" for v :: "model_call option"
    by (rule adds_calls_silent) (simp add: modify_def)
  have payload: "{[(request_payload q providers definitions messages, r)] | r. True} \<subseteq> one_request cfg q providers"
    using request_payload_sent [OF assms] by auto
  have none: "adds_calls gt_log m {[]} \<Longrightarrow> adds_calls gt_log m (one_request cfg q providers)"
    for m :: "('a gateway, (string \<times> json) list \<times> pynum) act"
    by (erule adds_calls_mono) simp
  show ?thesis unfolding model_turn_def then_act_def Let_def
    by (intro calls_bind [OF adds_clock] calls_if none [OF calls_throw] adds_calls_mono [OF calls_then_silent payload]
        adds_post calls_bind calls_of_res calls_throw calls_ret silent adds_clock) simp_all
qed

text \<open>A turn that goes on has an answer, which it adds to the bill.\<close>

lemma model_turn_answered:
  assumes "model_turn c q providers definitions deadline messages billed g = (Inr (message, billed'), g')"
  shows "\<exists>e m. gt_log g' = gt_log g @ [e] \<and> known_answer c providers e \<and> billed' = billed_in c billed [e] \<and>
    (\<exists>j. answer_json e = Some j \<and> gateway_message j = Inr message) \<and>
    gt_last_call g' = Some m \<and> cm_billed_cost m = billed' \<and> \<not> num_gt billed' (mb_max_usd (mq_budget q))"
proof -
  let ?p = "request_payload q providers definitions messages"
  from assms obtain t g1 r g2 t2 g3 j m where
    1: "clock c g = (Inr t, g1)" "post c ?p (max (1 / 1000) (min 60 (deadline - t))) g1 = (Inr r, g2)" "successful r"
    and 2: "clock c g2 = (Inr t2, g3)" "hr_json r = Inr j" "gateway_metadata (ml_float c) j = Inr m"
    and 3: "\<not> (providers \<noteq> [] \<and> cm_provider m \<noteq> ''unknown'' \<and> cm_provider m \<notin> set providers)"
      "billed' = num_add billed (cm_billed_cost m)" "\<not> num_gt billed' (mb_max_usd (mq_budget q))"
      "gateway_message j = Inr message" "g' = g3\<lparr>gt_last_call := Some (m\<lparr>cm_billed_cost := billed'\<rparr>)\<rparr>"
    by (auto simp: model_turn_def act_returns Let_def raise_for_status_Inr split: if_splits)
  have answer: "answer_json (?p, Inr r) = Some j" "answer_call c (?p, Inr r) = Some m"
    using 1(3) 2(2,3) by (simp_all add: answer_json_def answer_call_def)
  have "gt_log g' = gt_log g @ [(?p, Inr r)]"
    using clock_frame [OF 1(1)] post_frame [OF 1(2)] clock_frame [OF 2(1)] 3(5) by simp
  with 3 answer show ?thesis
    by (intro exI [of _ "(?p, Inr r)"] exI [of _ "m\<lparr>cm_billed_cost := billed'\<rparr>"]) (auto simp: known_answer_def billed_in_def)
qed

lemma kept_later:
  assumes "kept c cfg valid q providers n (billed_in c billed [e]) (before @ [e]) r g"
    and "sent_for cfg q providers (fst e)" and "known_answer c providers e"
  shows "kept c cfg valid q providers (Suc n) billed before r g"
proof -
  from assms(1) obtain es where es: "gt_log g = (before @ [e]) @ es" "length es \<le> n"
    "list_all (\<lambda>e. sent_for cfg q providers (fst e)) es" "accounted c valid q providers (billed_in c billed [e]) es r g"
    unfolding kept_def by blast
  from es(4) assms(3) have "accounted c valid q providers billed (e # es) r g"
    by (auto simp: accounted_def billed_in_def split: sum.splits)
  with es assms(2) show ?thesis unfolding kept_def by (intro exI [of _ "e # es"]) simp
qed

lemma kept_stop:
  "gt_log g = before @ es \<Longrightarrow> es \<in> one_request cfg q providers \<Longrightarrow> kept c cfg valid q providers (Suc n) billed before (Inl x) g"
  unfolding kept_def by (intro exI [of _ es]) (auto simp: accounted_def)

lemma turns_kept:
  assumes pinned: "validate_model_id (gc_allowed_models cfg) (mq_model_id q) = Inr ()"
  shows "finishes (turns c valid q providers definitions deadline n messages repair count billed g)
     (kept c cfg valid q providers n billed (gt_log g))"
proof (induction n arbitrary: messages repair count billed g)
  case 0
  show ?case by (simp add: kept_def accounted_def)
next
  case (Suc n)
  obtain r g' where turn: "model_turn c q providers definitions deadline messages billed g = (r, g')" by fastforce
  with adds_callsD [OF model_turn_requests [OF pinned] turn] obtain es where
    es: "gt_log g' = gt_log g @ es" "es \<in> one_request cfg q providers" by blast
  have stop: "kept c cfg valid q providers (Suc n) billed (gt_log g) (Inl e) g'" for e
    by (rule kept_stop [OF es])
  show ?case
  proof (cases r)
    case (Inl e)
    with turn stop show ?thesis by simp
  next
    case (Inr mb)
    obtain message b where mb: "mb = (message, b)" by fastforce
    from model_turn_answered [OF turn [unfolded Inr mb]] obtain e m j where e: "gt_log g' = gt_log g @ [e]"
      "known_answer c providers e" "b = billed_in c billed [e]" "answer_json e = Some j" "gateway_message j = Inr message"
      and m: "gt_last_call g' = Some m" "cm_billed_cost m = b" "\<not> num_gt b (mb_max_usd (mq_budget q))" by blast
    have sent: "sent_for cfg q providers (fst e)" using es e(1) by auto
    have go_on: "finishes (turns c valid q providers definitions deadline n ms rep k b g')
        (kept c cfg valid q providers (Suc n) billed (gt_log g))" for ms rep k
      by (rule finishes_mono [OF Suc [of ms rep k b g']]) (unfold e(1,3), rule kept_later [OF _ sent e(2)])
    have good: "kept c cfg valid q providers (Suc n) billed (gt_log g) (Inr x) g'"
      if "gateway_content (ml_float_repr c) message = Inr content" "valid content = Inr x" for content x
      unfolding kept_def using that e m sent
      by (intro exI [of _ "[e]"]) (auto simp: accounted_def output_of_def)
    show ?thesis using turn Inr stop go_on good
      by (auto simp: mb Let_def intro!: call_tools_finishes split: sum.splits)
  qed
qed

lemma turns_ask:
  "count \<le> mb_max_tool_calls (mq_budget q) \<Longrightarrow>
   asks_at_most (turns c valid q providers definitions deadline n messages repair count billed g)
     (mb_max_tool_calls (mq_budget q) - count)"
proof (induction n arbitrary: messages repair count billed g)
  case (Suc n)
  have rest: "asks_at_most (turns c valid q providers definitions deadline n ms rep (count + k) b g')
      (mb_max_tool_calls (mq_budget q) - count - k)" if "\<not> mb_max_tool_calls (mq_budget q) < count + k" for ms rep k b g'
    using Suc.IH [of "count + k" ms rep b g'] that by (simp add: algebra_simps)
  obtain r g' where turn: "model_turn c q providers definitions deadline messages billed g = (r, g')" by fastforce
  show ?case
  proof (cases r)
    case (Inl e)
    with turn show ?thesis by simp
  next
    case (Inr mb)
    obtain message b where mb: "mb = (message, b)" by fastforce
    show ?thesis
    proof (cases "requested_tools message = []")
      case True
      with turn Inr mb Suc.prems rest [of 0] show ?thesis by (auto simp: Let_def split: sum.splits)
    next
      case False
      show ?thesis
      proof (cases definitions)
        case None
        with turn Inr mb False show ?thesis by simp
      next
        case (Some ds)
        with turn Inr mb False show ?thesis
          by (auto simp: Let_def intro!: call_tools_asks rest [unfolded Some])
      qed
    qed
  qed
qed simp

lemma kept_stopped: "gt_log g' = gt_log g \<Longrightarrow> kept c cfg valid q providers n billed (gt_log g) (Inl e) g'"
  by (simp add: kept_def accounted_def)

text \<open>
  C17: The direct adapter keeps its budget whatever the provider and the tools answer: it sends at most as
  many requests as the budget has turns, each naming the model of the request, which is an allowed,
  pinned one, with data collection denied and ordered to the chosen providers; it asks for at most as
  many tool calls as the budget allows; and an output it returns is the content of the last answer,
  validated, where every answer came from a provider that is unknown or one of the chosen, and the
  recorded cost is what all the answers were billed together and not above the limit.
\<close>

theorem direct_adapter_keeps_its_budget:
  "finishes (direct_agent_loop c cfg valid q tools g)
     (kept c cfg valid q (chosen_providers cfg q) (nat (mb_max_turns (mq_budget q))) (PyFloat 0) (gt_log g)) \<and>
   asks_at_most (direct_agent_loop c cfg valid q tools g) (mb_max_tool_calls (mq_budget q))"
proof -
  let ?p = "chosen_providers cfg q" and ?n = "nat (mb_max_turns (mq_budget q))"
  have "finishes (turns c valid q ?p ds t ?n ms False 0 (PyFloat 0) g') (kept c cfg valid q ?p ?n (PyFloat 0) (gt_log g))"
    if "gt_log g' = gt_log g" "validate_model_id (gc_allowed_models cfg) (mq_model_id q) = Inr ()" for ds t ms g'
    using turns_kept [OF that(2), of c valid ?p ds t ?n ms False 0 "PyFloat 0" g'] that(1) by simp
  moreover have "asks_at_most (turns c valid q ?p ds t ?n ms False 0 b g') (mb_max_tool_calls (mq_budget q))"
    if "\<not> mb_max_tool_calls (mq_budget q) < 0" for ds t ms b g'
    using turns_ask [of 0 q c valid ?p ds t ?n ms False b g'] that by simp
  ultimately show ?thesis
    by (auto simp: direct_agent_loop_def Let_def kept_stopped split: sum.splits prod.splits dest: clock_frame)
qed

section \<open>The adapter of the library\<close>

text \<open>The tools a dialogue may ask for.\<close>

primrec asks_only :: "('w, 'a) dialogue \<Rightarrow> string set \<Rightarrow> bool" where
  "asks_only (Finish r w) names = True"
| "asks_only (Call_Tool name args requests ms k) names = (name \<in> names \<and> (\<forall>answer. asks_only (k answer) names))"

definition library_tools :: "string list" where
  "library_tools = [''list_tree'', ''read_file'', ''search_text'', ''search_structure'', ''git_history'']"

lemma library_tool_name: "fst (library_tool call) \<in> set library_tools"
  by (cases call) (simp_all add: library_tools_def)

text \<open>
  A dialogue follows the run of an agent: it asks for the agent's calls, one by one and with the requests
  the agent had made, hands each answer on to it, and finishes when it ends.
\<close>

primrec follows ::
    "('w, 'a) agent_run \<Rightarrow> ('v, 'b) dialogue \<Rightarrow> (agent_error + 'a \<Rightarrow> agent_end \<Rightarrow> 'b res \<Rightarrow> 'v \<Rightarrow> bool) \<Rightarrow> bool" where
  "follows (Agent_Ends outcome ending w) d Q = (case d of Finish r g \<Rightarrow> Q outcome ending r g | Call_Tool _ _ _ _ _ \<Rightarrow> False)"
| "follows (Agent_Calls call requests ms k) d Q = (case d of Finish _ _ \<Rightarrow> False
     | Call_Tool name args asked ms' k' \<Rightarrow> (name, args) = library_tool call \<and> asked = Some requests \<and>
         (\<forall>answer. follows (k answer) (k' answer) Q))"

text \<open>
  What holds of an output the library adapter returns: every provider an answer names is a chosen one, and
  the recorded cost is that of all the answers and not above the limit.
\<close>

definition answers_billed :: "'w model_client \<Rightarrow> (string \<times> json) list list \<Rightarrow> pynum \<Rightarrow> bool" where
  "answers_billed c details billed \<longleftrightarrow>
     (\<exists>costs. list_all2 (\<lambda>d cost. detail_cost (ml_float c) d = Inr cost) details costs \<and> billed = foldl num_add (PyInt 0) costs)"

definition library_kept ::
    "'w model_client \<Rightarrow> ('a \<Rightarrow> 'a res) \<Rightarrow> model_request \<Rightarrow> string list \<Rightarrow> agent_error + 'a \<Rightarrow> agent_end \<Rightarrow> 'a res \<Rightarrow>
     'w gateway \<Rightarrow> bool" where
  "library_kept c valid q providers outcome ending r g \<longleftrightarrow> (case r of Inl e \<Rightarrow> True | Inr x \<Rightarrow>
     (\<exists>y. outcome = Inr y \<and> valid y = Inr x) \<and>
     (let details = recorded_details (ae_answers ending) in
       (\<forall>d \<in> set details. \<forall>p. jget d ''provider'' = JStr p \<longrightarrow> providers = [] \<or> p \<in> set providers) \<and>
       (case gt_last_call g of
          None \<Rightarrow> details = [] \<and> au_requests (ae_usage ending) = 0
        | Some m \<Rightarrow> answers_billed c details (cm_billed_cost m) \<and>
            \<not> num_gt (cm_billed_cost m) (mb_max_usd (mq_budget q)))))"

lemma agent_failed_raises [simp]: "agent_failed error \<noteq> Inr x"
  by (cases error) (auto simp: agent_failed_def bind_res_def split: sum.splits)

lemma returned_provider: "d \<in> set details \<Longrightarrow> jget d ''provider'' = JStr p \<Longrightarrow> p \<in> set (returned_providers details)"
  unfolding returned_providers_def List.map_filter_def by force

lemma providers_checked:
  assumes "validate_returned_providers details providers = Inr u" and "d \<in> set details" and "jget d ''provider'' = JStr p"
  shows "providers = [] \<or> p \<in> set providers"
  using assms(1) returned_provider [OF assms(2,3)]
  by (auto simp: validate_returned_providers_def list_ex_iff split: if_splits)

lemma library_metadata_billed:
  assumes "library_metadata (ml_float c) usage details response_id = Inr (Some m)"
  shows "answers_billed c details (cm_billed_cost m)"
  using assms unfolding answers_billed_def
  by (auto simp: library_metadata_def Let_def bind_res_Inr_iff dest!: traverse_Inr split: if_splits)

lemma library_metadata_none:
  "library_metadata read usage details response_id = Inr None \<Longrightarrow> details = [] \<and> au_requests usage = 0"
  by (auto simp: library_metadata_def Let_def bind_res_Inr_iff split: if_splits)

lemma agent_ended_kept:
  assumes "agent_ended c valid q providers started outcome ending g = (r, g')"
  shows "library_kept c valid q providers outcome ending r g'"
proof (cases r)
  case (Inl e)
  then show ?thesis by (simp add: library_kept_def)
next
  case (Inr x)
  let ?details = "recorded_details (ae_answers ending)"
  have no_error: "outcome \<noteq> Inl error" for error
    using assms Inr
    by (cases error) (auto simp: agent_ended_def Let_def act_returns)
  then obtain y where y: "outcome = Inr y" by (cases outcome) auto
  from assms [unfolded Inr y] obtain call where
    call: "library_metadata (ml_float c) (ae_usage ending) ?details (ae_response_id ending) = Inr call" "gt_last_call g' = call"
    and known: "validate_returned_providers ?details providers = Inr ()"
    and cost: "case call of None \<Rightarrow> True | Some m \<Rightarrow> \<not> num_gt (cm_billed_cost m) (mb_max_usd (mq_budget q))"
    and v: "valid y = Inr x"
    by (auto simp: agent_ended_def Let_def act_returns dest!: clock_frame split: if_splits option.splits)
  show ?thesis
    using y v providers_checked [OF known] call cost library_metadata_billed library_metadata_none
    by (auto simp: library_kept_def Inr Let_def split: option.splits)
qed

lemma wrap_agent_kept:
  "follows run (wrap_agent c valid q providers started g run) (library_kept c valid q providers) \<and>
   asks_only (wrap_agent c valid q providers started g run) (set library_tools)"
proof (induction run)
  case (Agent_Ends outcome ending w)
  show ?case
    by (auto split: prod.splits dest: agent_ended_kept)
next
  case (Agent_Calls call requests ms k)
  then show ?case by (simp add: library_tool_name)
qed

text \<open>The agent is set up with the limits of the budget, an allowed pinned model and no data collection.\<close>

definition bounded_setup :: "gateway_config \<Rightarrow> model_request \<Rightarrow> agent_setup \<Rightarrow> bool" where
  "bounded_setup cfg q setup \<longleftrightarrow> as_model_id setup = mq_model_id q \<and> mq_model_id q \<in> set (gc_allowed_models cfg) \<and>
     \<not> ends_with ''latest'' (lower (mq_model_id q)) \<and> as_request_limit setup = mb_max_turns (mq_budget q) \<and>
     as_tool_calls_limit setup = mb_max_tool_calls (mq_budget q) \<and>
     (\<exists>p. as_provider setup = JObj p \<and> map_of p ''data_collection'' = Some (JStr ''deny''))"

text \<open>
  C18: The production adapter, around any agent of the library: it raises an error before the agent is run,
  or sets the agent up with the limits of the budget and follows its run. An output it returns is the
  agent's, validated, every provider that any recorded answer names is a chosen one, and the recorded
  cost is the sum over all recorded answers and not above the limit; it asks for the five snapshot tools
  only, never for the evidence of a pull request or of a check, although both are among the tools a run
  defines and hashes.
\<close>

theorem library_adapter_keeps_cost_and_tools:
  "((\<exists>e g'. library_agent_loop c library cfg valid q tools g = Finish (Inl e) g') \<or>
    (\<exists>setup w. bounded_setup cfg q setup \<and>
       follows (library setup w) (library_agent_loop c library cfg valid q tools g)
         (library_kept c valid q (chosen_providers cfg q)))) \<and>
   asks_only (library_agent_loop c library cfg valid q tools g) (set library_tools) \<and>
   ''inspect_diff'' \<notin> set library_tools \<and> ''inspect_check'' \<notin> set library_tools"
proof -
  have "bounded_setup cfg q (agent_setup_of q providers tools)"
    if "validate_model_id (gc_allowed_models cfg) (mq_model_id q) = Inr ()" for providers
    using that by (auto simp: bounded_setup_def agent_setup_of_def provider_json_def validate_model_id_def split: if_splits)
  then show ?thesis
    using wrap_agent_kept [of _ c valid q "chosen_providers cfg q"]
    by (fastforce simp: library_agent_loop_def Let_def library_tools_def split: sum.splits prod.splits)
qed

section \<open>Errors that may be shown\<close>

text \<open>The message of a provider is shown only if no detector finds anything in it; its code is not looked at.\<close>

lemma provider_code_is_shown:
  "safe_provider_error 401 (JObj [(''code'', JStr s), (''message'', JNull)]) =
     ''provider HTTP 401; code='' @ take 100 s @ ''; message=provider request failed''"
proof -
  have "\<not> list_ex (\<lambda>r. re_search r ''provider request failed'') (map snd redaction_patterns)" by code_simp
  then have "\<not> red_detected (redact ''provider request failed'' [])"
    by (simp add: redact_detected_iff list_ex_iff)
  moreover have "show_int 401 = ''401''" by code_simp
  ultimately show ?thesis
    by (simp add: safe_provider_error_def jget_def shown_message_def shown_code_def redact_clean)
qed

text \<open>A cause without a text raises an \<open>IndexError\<close> instead of the gateway's own error.\<close>

lemma silent_cause_escapes:
  "splitlines message \<noteq> [] \<Longrightarrow>
     agent_failed (Unexpected_Behavior message (Some (name, []))) = Inl (OtherError ''IndexError'' ''list index out of range'')"
  by (cases "splitlines message") (simp_all add: agent_failed_def safe_model_behavior_error_def first_line_def)

section \<open>The provider of the orchestration\<close>

text \<open>The production gateway as the orchestration sees it, with the library run for each kind of output.\<close>

definition library_provider ::
    "'w model_client \<Rightarrow> gateway_config \<Rightarrow> ('w, scout_artifact) agent_library \<Rightarrow> ('w, risk_artifact) agent_library \<Rightarrow>
     ('w, ci_diagnosis_artifact) agent_library \<Rightarrow>
     (string \<Rightarrow> string \<Rightarrow> trace_payload \<Rightarrow> ('w gateway, unit) act) option \<Rightarrow> 'w gateway provider" where
  "library_provider c cfg scout risk ci emit = \<lparr>gw_scout = library_agent_loop c scout cfg validate_scout,
     gw_risk = library_agent_loop c risk cfg validate_risk, gw_ci = library_agent_loop c ci cfg validate_ci_diagnosis,
     gw_last_call = (\<lambda>g. map_option call_metadata.truncate (gt_last_call g)), gw_last_request = gt_last_request,
     gw_last_allowlist = (\<lambda>g. Some (gt_last_allowlist g)), gw_emit = emit\<rparr>"

end
