(* ===== verification/Batch.thy ===== *)
theory Batch
  imports Schemas Json
begin

text \<open>
  \<open>evaluation/fixtures.py\<close>, \<open>evaluation/batch.py\<close> and \<open>evaluation/cycle.py\<close>: the cases of an evaluation
  and what an agent is told of one, the datasets of a role, the configuration of a batch, the export of
  its scorecard, the comparison of candidates and the plan of a cycle. Reading JSON, its indented dump
  and the text of a rate are parameters; a rate is a rational, as floats are everywhere here.
\<close>

section \<open>Cases\<close>

record label_change =
  lc_reason :: string
  lc_author :: string
  lc_timestamp :: int
  lc_old_value_hash :: string
  lc_new_value_hash :: string

record evaluation_case =
  ec_case_id :: string
  ec_role :: agent_role
  ec_fixture_revision :: string
  ec_repository_id :: int
  ec_base_sha :: string
  ec_pinned_sha :: string
  ec_pull_request_number :: int
  ec_check_run_id :: int
  ec_task_input :: string
  ec_source_provenance :: string
  ec_expected_evidence :: "string list"
  ec_deterministic_assertions :: "string list"
  ec_human_rubric :: string
  ec_split :: string
  ec_label_change_log :: "label_change list"

definition dataset_splits :: "string list" where
  "dataset_splits = [''development'', ''held_out'']"

definition label_change_ok :: "label_change \<Rightarrow> bool" where
  "label_change_ok l \<longleftrightarrow> lc_reason l \<noteq> [] \<and> lc_author l \<noteq> [] \<and> length (lc_old_value_hash l) = 64 \<and>
     length (lc_new_value_hash l) = 64"

definition validate_case :: "evaluation_case \<Rightarrow> evaluation_case res" where
  "validate_case c = bind_res (checks
     [(ec_fixture_revision c \<noteq> [] \<and> ec_task_input c \<noteq> [] \<and> ec_source_provenance c \<noteq> [] \<and> ec_human_rubric c \<noteq> [], ''field''),
      (0 < ec_repository_id c \<and> 0 < ec_pull_request_number c \<and> 0 < ec_check_run_id c, ''field''),
      (len_between 40 64 (ec_base_sha c) \<and> len_between 40 64 (ec_pinned_sha c), ''field''),
      (ec_expected_evidence c \<noteq> [] \<and> ec_deterministic_assertions c \<noteq> [], ''field''),
      (ec_split c \<in> set dataset_splits, ''field''), (list_all label_change_ok (ec_label_change_log c), ''field''),
      (immutable_sha (ec_base_sha c) \<and> immutable_sha (ec_pinned_sha c),
       ''fixture SHA must be immutable lowercase hexadecimal'')]) (\<lambda>_. Inr c)"

text \<open>What the agent is told: no label, no expected evidence, no assertion.\<close>

definition agent_input :: "evaluation_case \<Rightarrow> json" where
  "agent_input c = JObj ([(''case_id'', JStr (ec_case_id c)), (''fixture_revision'', JStr (ec_fixture_revision c)),
     (''repository_id'', JInt (ec_repository_id c)), (''pinned_sha'', JStr (ec_pinned_sha c)),
     (''task_input'', JStr (ec_task_input c))] @
     (if ec_role c \<in> {ASSESSOR, CI} then [(''pull_request_number'', JInt (ec_pull_request_number c))] else []) @
     (if ec_role c = CI then [(''check_run_id'', JInt (ec_check_run_id c))] else []))"

section \<open>Datasets\<close>

text \<open>The files of a directory by name, with the case each holds or what its validation raises.\<close>

definition wrong_split :: "string \<Rightarrow> exn" where
  "wrong_split name = ValueError (''fixture '' @ name @ '' is in the wrong split'')"

definition duplicate_case :: "string \<Rightarrow> exn" where
  "duplicate_case name = ValueError (''fixture '' @ name @ '' has a duplicate case ID'')"

fun collect_cases ::
    "(string \<Rightarrow> evaluation_case res) \<Rightarrow> string \<Rightarrow> (string \<times> string) list \<Rightarrow> evaluation_case list \<Rightarrow> evaluation_case list res" where
  "collect_cases read split [] cases = Inr cases"
| "collect_cases read split ((name, content) # fs) cases = bind_res (bind_res (read content) validate_case) (\<lambda>c.
     if ec_split c \<noteq> split then Inl (wrong_split name)
     else if list_ex (\<lambda>d. ec_case_id d = ec_case_id c) cases then Inl (duplicate_case name)
     else collect_cases read split fs (cases @ [c]))"

definition load_cases ::
    "(string \<Rightarrow> evaluation_case res) \<Rightarrow> (string \<times> string) list \<Rightarrow> string \<Rightarrow> evaluation_case list res" where
  "load_cases read directory split =
     collect_cases read split (sort_key fst (filter (\<lambda>(name, _). ends_with ''.json'' name) directory)) []"

record role_dataset =
  rd_development :: "evaluation_case list"
  rd_held_out :: "evaluation_case list"

definition check_split :: "agent_role \<Rightarrow> string \<Rightarrow> evaluation_case list \<Rightarrow> unit res" where
  "check_split role split cases =
    (if length cases \<noteq> 5
     then Inl (ValueError (role_value role @ '' '' @ split @ '' dataset must contain exactly five cases''))
     else require (list_all (\<lambda>c. ec_role c = role) cases)
       (ValueError (role_value role @ '' '' @ split @ '' dataset contains another role'')))"

definition load_role_dataset ::
    "(string \<Rightarrow> evaluation_case res) \<Rightarrow> (string \<times> string) list \<Rightarrow> (string \<times> string) list \<Rightarrow> agent_role \<Rightarrow> role_dataset res" where
  "load_role_dataset read development_directory held_out_directory role =
     bind_res (load_cases read development_directory ''development'') (\<lambda>development.
     bind_res (load_cases read held_out_directory ''held_out'') (\<lambda>held_out.
     bind_res (check_split role ''development'' development) (\<lambda>_.
     bind_res (check_split role ''held_out'' held_out) (\<lambda>_.
       if \<not> distinct (map ec_case_id (development @ held_out))
       then Inl (ValueError ''case IDs must be unique across dataset splits'')
       else Inr \<lparr>rd_development = development, rd_held_out = held_out\<rparr>))))"

section \<open>The configuration of a batch\<close>

record provider_policy =
  pp_provider_allowlist :: "string list"

record batch_budget =
  bb_max_turns :: int
  bb_max_tool_calls :: int
  bb_max_usd :: pynum
  bb_max_wall_seconds :: int

record batch_configuration =
  bc_batch_id :: string
  bc_role :: agent_role
  bc_split :: string
  bc_model_id :: string
  bc_provider_policy :: provider_policy
  bc_budget :: batch_budget
  bc_prompt_hash :: string
  bc_tool_definitions_hash :: string
  bc_manifest_version :: string
  bc_policy_version :: string
  bc_evaluator_version :: string
  bc_fixture_revision :: string
  bc_label_version :: string
  bc_repository_scope :: "int list"
  bc_limitations :: "string list"

definition floating_alias :: "string \<Rightarrow> bool" where
  "floating_alias model_id \<longleftrightarrow> ends_with ''latest'' (lower model_id)"

definition budget_ok :: "batch_budget \<Rightarrow> bool" where
  "budget_ok b \<longleftrightarrow> 1 \<le> bb_max_turns b \<and> bb_max_turns b \<le> 100 \<and> 1 \<le> bb_max_tool_calls b \<and> bb_max_tool_calls b \<le> 1000 \<and>
     num_lt (PyInt 0) (bb_max_usd b) \<and> \<not> num_lt (PyInt 10) (bb_max_usd b) \<and>
     1 \<le> bb_max_wall_seconds b \<and> bb_max_wall_seconds b \<le> 86400"

definition validate_batch_configuration :: "batch_configuration \<Rightarrow> batch_configuration res" where
  "validate_batch_configuration c = bind_res (checks
     [(bc_batch_id c \<noteq> [] \<and> bc_model_id c \<noteq> [] \<and> bc_manifest_version c \<noteq> [] \<and> bc_policy_version c \<noteq> [] \<and>
         bc_evaluator_version c \<noteq> [] \<and> bc_fixture_revision c \<noteq> [] \<and> bc_label_version c \<noteq> [], ''field''),
      (bc_split c \<in> set dataset_splits, ''field''), (pp_provider_allowlist (bc_provider_policy c) \<noteq> [], ''field''),
      (budget_ok (bc_budget c), ''field''),
      (length (bc_prompt_hash c) = 64 \<and> length (bc_tool_definitions_hash c) = 64, ''field''),
      (bc_repository_scope c \<noteq> [] \<and> bc_limitations c \<noteq> [], ''field''),
      (\<not> floating_alias (bc_model_id c), ''latest aliases are not valid evaluation candidates''),
      (list_all is_lower_hex (bc_prompt_hash c) \<and> list_all is_lower_hex (bc_tool_definitions_hash c),
       ''configuration hashes must be lowercase hexadecimal'')]) (\<lambda>_. Inr c)"

definition provider_policy_json :: "provider_policy \<Rightarrow> json" where
  "provider_policy_json p = JObj [(''provider_allowlist'', JArr (map JStr (pp_provider_allowlist p))),
     (''data_collection'', JStr ''deny''), (''allow_fallbacks'', JBool False)]"

definition batch_budget_json :: "batch_budget \<Rightarrow> json" where
  "batch_budget_json b = JObj [(''max_turns'', JInt (bb_max_turns b)), (''max_tool_calls'', JInt (bb_max_tool_calls b)),
     (''max_usd'', JFloat (PyFloat (num_val (bb_max_usd b)))), (''max_wall_seconds'', JInt (bb_max_wall_seconds b))]"

text \<open>The fields a comparison must share, in their order, and all of them.\<close>

definition shared_fields :: "batch_configuration \<Rightarrow> (string \<times> json) list" where
  "shared_fields c = [(''role'', JStr (role_value (bc_role c))), (''split'', JStr (bc_split c)),
     (''budget'', batch_budget_json (bc_budget c)), (''prompt_hash'', JStr (bc_prompt_hash c)),
     (''tool_definitions_hash'', JStr (bc_tool_definitions_hash c)),
     (''manifest_version'', JStr (bc_manifest_version c)), (''policy_version'', JStr (bc_policy_version c)),
     (''evaluator_version'', JStr (bc_evaluator_version c)), (''fixture_revision'', JStr (bc_fixture_revision c)),
     (''label_version'', JStr (bc_label_version c)), (''repository_scope'', JArr (map JInt (bc_repository_scope c))),
     (''limitations'', JArr (map JStr (bc_limitations c)))]"

definition configuration_json :: "batch_configuration \<Rightarrow> json" where
  "configuration_json c = (case shared_fields c of
     role # splt # others \<Rightarrow> JObj ([(''batch_id'', JStr (bc_batch_id c)), role, splt, (''model_id'', JStr (bc_model_id c)),
       (''provider_policy'', provider_policy_json (bc_provider_policy c))] @ others) | _ \<Rightarrow> JNull)"

definition validate_comparison :: "batch_configuration list \<Rightarrow> unit res" where
  "validate_comparison configurations =
    (if length configurations \<noteq> 3 then Inl (ValueError ''a model comparison requires exactly three candidates'')
     else if card (set (map bc_model_id configurations)) \<noteq> 3
     then Inl (ValueError ''comparison candidates must use distinct pinned model IDs'')
     else if list_ex (\<lambda>c. length (pp_provider_allowlist (bc_provider_policy c)) \<noteq> 1) configurations
     then Inl (ValueError ''each comparison candidate requires exactly one pinned provider'')
     else require (\<not> list_ex (\<lambda>c. shared_fields c \<noteq> shared_fields (hd configurations)) (tl configurations))
       (ValueError ''comparison candidates must share task and policy configuration''))"

section \<open>The scorecard\<close>

record case_result =
  cs_case_id :: string
  cs_split :: string
  cs_passed :: bool
  cs_terminal_status :: string
  cs_scores :: "(string \<times> bool) list"
  cs_run_id :: "string option"
  cs_provider :: "string option"
  cs_billed_cost :: "rat option"
  cs_latency_ms :: "int option"
  cs_review_minutes :: "int option"
  cs_failure_category :: "string option"
  cs_excluded_reason :: "string option"
  cs_retries :: int

definition run_batch :: "evaluation_case list \<Rightarrow> (evaluation_case \<Rightarrow> ('s, case_result) act) \<Rightarrow> ('s, case_result list) act" where
  "run_batch cases execute = foldr (\<lambda>c rest. bind_act (execute c) (\<lambda>r. bind_act rest (\<lambda>rs. ret (r # rs)))) cases (ret [])"

definition held_out_complete :: "case_result list \<Rightarrow> string list \<Rightarrow> bool" where
  "held_out_complete results reviewed =
    (let held_out = filter (\<lambda>r. cs_split r = ''held_out'') results in
     held_out \<noteq> [] \<and> list_all (\<lambda>r. cs_case_id r \<in> set reviewed) held_out)"

definition rate :: "nat \<Rightarrow> nat \<Rightarrow> json" where
  "rate k n = JFloat (PyFloat (of_nat k / of_nat n))"

definition cost_per_success :: "case_result list \<Rightarrow> json" where
  "cost_per_success results =
    (let successful = length (filter cs_passed results); known = List.map_filter cs_billed_cost results in
     if successful \<noteq> 0 \<and> length known = length results then JFloat (PyFloat (sum_list known / of_nat successful)) else JNull)"

definition failure_rate :: "case_result list \<Rightarrow> string \<Rightarrow> json" where
  "failure_rate results score =
    (let measured = List.map_filter (\<lambda>r. map_of (cs_scores r) score) results in
     if measured = [] then JNull
     else JFloat (PyFloat (1 - of_nat (length (filter id measured)) / of_nat (length measured))))"

definition opt_int :: "int option \<Rightarrow> json" where
  "opt_int v = (case v of None \<Rightarrow> JNull | Some i \<Rightarrow> JInt i)"

definition opt_str :: "string option \<Rightarrow> json" where
  "opt_str v = (case v of None \<Rightarrow> JNull | Some t \<Rightarrow> JStr t)"

definition case_result_json :: "case_result \<Rightarrow> json" where
  "case_result_json r = JObj [(''case_id'', JStr (cs_case_id r)), (''split'', JStr (cs_split r)),
     (''passed'', JBool (cs_passed r)), (''terminal_status'', JStr (cs_terminal_status r)),
     (''scores'', JObj (map (\<lambda>(k, v). (k, JBool v)) (cs_scores r))), (''run_id'', opt_str (cs_run_id r)),
     (''provider'', opt_str (cs_provider r)),
     (''billed_cost'', case cs_billed_cost r of None \<Rightarrow> JNull | Some q \<Rightarrow> JFloat (PyFloat q)),
     (''latency_ms'', opt_int (cs_latency_ms r)), (''review_minutes'', opt_int (cs_review_minutes r)),
     (''failure_category'', opt_str (cs_failure_category r)), (''excluded_reason'', opt_str (cs_excluded_reason r)),
     (''retries'', JInt (cs_retries r))]"

definition counted :: "(case_result \<Rightarrow> bool) \<Rightarrow> case_result list \<Rightarrow> json" where
  "counted P results = JInt (int (length (filter P results)))"

definition missing_data :: "case_result list \<Rightarrow> string list" where
  "missing_data results = sort (filter (\<lambda>field. list_ex (\<lambda>r.
     (field = ''run_id'' \<and> cs_run_id r = None) \<or> (field = ''provider'' \<and> cs_provider r = None) \<or>
     (field = ''billed_cost'' \<and> cs_billed_cost r = None) \<or> (field = ''latency_ms'' \<and> cs_latency_ms r = None)) results)
     [''run_id'', ''provider'', ''billed_cost'', ''latency_ms''])"

definition failure_kinds :: "string list" where
  "failure_kinds = [''infrastructure'', ''model'', ''policy'', ''evaluator'']"

text \<open>The payload; the statuses are a set, listed here in the order of their first result.\<close>

definition scorecard :: "batch_configuration \<Rightarrow> case_result list \<Rightarrow> json" where
  "scorecard config results = JObj
    [(''configuration'', configuration_json config), (''task_count'', JInt (int (length results))),
     (''terminal_outcomes'', JObj (map (\<lambda>status. (status, counted (\<lambda>r. cs_terminal_status r = status) results))
        (rev (remdups (rev (map cs_terminal_status results)))))),
     (''success_rate'', rate (length (filter cs_passed results)) (length results)),
     (''cost_per_successful_task'', cost_per_success results),
     (''unsupported_claim_rate'', failure_rate results ''citation_coverage''),
     (''failure_categories'', JObj (map (\<lambda>k. (k, counted (\<lambda>r. cs_failure_category r = Some k) results)) failure_kinds)),
     (''exclusions'', JArr (map (\<lambda>r. JObj [(''case_id'', JStr (cs_case_id r)), (''reason'', opt_str (cs_excluded_reason r))])
        (filter (\<lambda>r. cs_excluded_reason r \<noteq> None) results))),
     (''retry_rate'', JFloat (PyFloat (of_int (sum_list (map cs_retries results)) / of_nat (length results)))),
     (''missing_data'', JArr (map JStr (missing_data results))),
     (''results'', JArr (map case_result_json results))]"

definition render_scorecard :: "(rat \<Rightarrow> string) \<Rightarrow> (pynum \<Rightarrow> string) \<Rightarrow> batch_configuration \<Rightarrow> case_result list \<Rightarrow> string" where
  "render_scorecard three_places fr config results =
     ''# Evaluation scorecard'' @ [LF, LF] @ ''Task count '' @ show_int (int (length results)) @ [LF, LF] @
     ''Success rate '' @ three_places (of_nat (length (filter cs_passed results)) / of_nat (length results)) @ [LF, LF] @
     ''Configuration `'' @ dumps True fr (configuration_json config) @ ''`'' @ [LF, LF] @
     ''Results are specific to this dataset and repository. '' @
     ''They do not identify a global model winner.'' @ [LF]"

text \<open>The texts of the two files, or what is raised before anything is written.\<close>

definition export_scorecard ::
    "(json \<Rightarrow> string) \<Rightarrow> (rat \<Rightarrow> string) \<Rightarrow> (pynum \<Rightarrow> string) \<Rightarrow> case_result list \<Rightarrow> batch_configuration \<Rightarrow> string list \<Rightarrow>
     (string \<times> string) res" where
  "export_scorecard dump three_places fr results configuration reviewed =
    (if results = [] then Inl (ValueError ''cannot export an empty batch'')
     else bind_res (validate_batch_configuration configuration) (\<lambda>config.
       if length results \<noteq> 5 then Inl (ValueError ''a release scorecard requires exactly five cases'')
       else if \<not> distinct (map cs_case_id results) then Inl (ValueError ''a scorecard cannot contain duplicate case IDs'')
       else if list_ex (\<lambda>r. cs_split r \<noteq> bc_split config) results
       then Inl (ValueError ''scorecard results do not match the configured split'')
       else if bc_split config = ''held_out'' \<and> \<not> held_out_complete results reviewed
       then Inl (ValueError ''held-out scorecard requires human review for every case'')
       else Inr (dump (scorecard config results) @ [LF], render_scorecard three_places fr config results)))"

section \<open>The plan of a cycle\<close>

record evaluation_candidate =
  cd_model_id :: string
  cd_provider_policy :: provider_policy

record budget_allocation =
  al_scout_comparison_usd :: pynum
  al_assessor_usd :: pynum
  al_ci_usd :: pynum
  al_per_run_max_usd :: pynum

record cycle_plan =
  cy_schema_version :: string
  cy_repository_id :: int
  cy_repository :: string
  cy_reviewer :: string
  cy_total_budget_usd :: pynum
  cy_budget_allocation :: budget_allocation
  cy_candidates :: "evaluation_candidate list"
  cy_limitations :: "string list"

text \<open>\<open>Field(gt=0)\<close> and an upper bound: no infinity passes a bound, NaN passes nothing.\<close>

definition positive :: "pynum \<Rightarrow> bool" where
  "positive x \<longleftrightarrow> num_lt (PyInt 0) x"

definition at_most :: "pynum \<Rightarrow> int \<Rightarrow> bool" where
  "at_most x n \<longleftrightarrow> x \<noteq> PyNaN \<and> \<not> num_lt (PyInt n) x"

definition repo_char :: "char \<Rightarrow> bool" where
  "repo_char c \<longleftrightarrow> is_ascii_alnum c \<or> c \<in> set ''_.-''"

definition repository_pattern :: "string \<Rightarrow> bool" where
  "repository_pattern r = (case split_on (CHR ''/'') r of
     [a, b] \<Rightarrow> a \<noteq> [] \<and> b \<noteq> [] \<and> list_all repo_char a \<and> list_all repo_char b | _ \<Rightarrow> False)"

text \<open>The sum is compared with a tolerance; an infinite part makes the difference infinite or NaN.\<close>

definition allocation_matches :: "budget_allocation \<Rightarrow> pynum \<Rightarrow> bool" where
  "allocation_matches a whole \<longleftrightarrow>
    (let parts = [al_scout_comparison_usd a, al_assessor_usd a, al_ci_usd a] in
     PyInf \<notin> set parts \<and> \<bar>sum_list (map num_val parts) - num_val whole\<bar> \<le> 1 / 1000000)"

definition validate_cycle_plan :: "cycle_plan \<Rightarrow> cycle_plan res" where
  "validate_cycle_plan p =
    (let a = cy_budget_allocation p; cs = cy_candidates p in bind_res (checks
     [(0 < cy_repository_id p, ''field''), (repository_pattern (cy_repository p), ''field''),
      (len_between 1 255 (cy_reviewer p), ''field''),
      (positive (cy_total_budget_usd p) \<and> at_most (cy_total_budget_usd p) 100, ''field''),
      (positive (al_scout_comparison_usd a) \<and> positive (al_assessor_usd a) \<and> positive (al_ci_usd a) \<and>
         positive (al_per_run_max_usd a) \<and> at_most (al_per_run_max_usd a) 1, ''field''),
      (length cs = 3 \<and> cy_limitations p \<noteq> [], ''field''),
      (list_all (\<lambda>c. cd_model_id c \<noteq> [] \<and> pp_provider_allowlist (cd_provider_policy c) \<noteq> []) cs, ''field''),
      (\<not> list_ex (\<lambda>c. floating_alias (cd_model_id c)) cs, ''evaluation candidates cannot use latest aliases''),
      (card (set (map cd_model_id cs)) = 3, ''evaluation cycle requires three distinct model IDs''),
      (\<not> list_ex (\<lambda>c. length (pp_provider_allowlist (cd_provider_policy c)) \<noteq> 1) cs, ''each candidate requires one pinned provider''),
      (allocation_matches a (cy_total_budget_usd p), ''evaluation allocations must equal the total budget'')]) (\<lambda>_. Inr p))"

section \<open>What the agent may know\<close>

text \<open>
  The agent's input does not depend on anything it is scored by: whatever the provenance, the expected
  evidence, the assertions, the rubric, the split and the log of labels are, it is the same; for a Scout
  neither the pull request nor the check run matters, and for an assessor the check run does not.
\<close>

theorem labels_never_reach_the_agent:
  "agent_input (c\<lparr>ec_source_provenance := provenance, ec_expected_evidence := evidence,
       ec_deterministic_assertions := assertions, ec_human_rubric := rubric, ec_split := split,
       ec_label_change_log := changes, ec_base_sha := base\<rparr>) = agent_input c \<and>
   agent_input (c\<lparr>ec_role := SCOUT, ec_pull_request_number := pull, ec_check_run_id := crun\<rparr>) =
     agent_input (c\<lparr>ec_role := SCOUT\<rparr>) \<and>
   agent_input (c\<lparr>ec_role := ASSESSOR, ec_check_run_id := crun\<rparr>) = agent_input (c\<lparr>ec_role := ASSESSOR\<rparr>)"
  by (simp add: agent_input_def)

section \<open>What a dataset and a scorecard are\<close>

lemma validate_case_same: "validate_case c = Inr d \<Longrightarrow> d = c"
  by (simp add: validate_case_def bind_res_Inr_iff)

lemma collect_cases_ok:
  assumes "collect_cases read split fs cases = Inr out" and "distinct (map ec_case_id cases)" and "list_all (\<lambda>c. ec_split c = split) cases"
  shows "distinct (map ec_case_id out) \<and> list_all (\<lambda>c. ec_split c = split) out"
  using assms
proof (induction read split fs cases rule: collect_cases.induct)
  case (2 read split name content fs cases)
  from 2(2) obtain c where c: "bind_res (read content) validate_case = Inr c" "ec_split c = split"
    "\<forall>d \<in> set cases. ec_case_id d \<noteq> ec_case_id c" "collect_cases read split fs (cases @ [c]) = Inr out"
    unfolding collect_cases.simps bind_res_Inr_iff [of "bind_res (read content) validate_case"]
    by (auto simp: list_ex_iff split: if_splits)
  show ?case by (rule 2(1) [OF _ _ c(4)]) (use c 2(3,4) in \<open>auto simp: list_ex_iff\<close>)
qed simp

text \<open>
  A loaded dataset has five development and five held-out cases, all of its role and each of its split,
  and no two of the ten have the same identifier.
\<close>

theorem loaded_dataset_is_complete:
  assumes "load_role_dataset read development_directory held_out_directory role = Inr d"
  shows "length (rd_development d) = 5 \<and> length (rd_held_out d) = 5 \<and>
    distinct (map ec_case_id (rd_development d @ rd_held_out d)) \<and>
    list_all (\<lambda>c. ec_role c = role) (rd_development d @ rd_held_out d) \<and>
    list_all (\<lambda>c. ec_split c = ''development'') (rd_development d) \<and>
    list_all (\<lambda>c. ec_split c = ''held_out'') (rd_held_out d)"
proof -
  from assms obtain dev held where d: "d = \<lparr>rd_development = dev, rd_held_out = held\<rparr>"
    and dev: "load_cases read development_directory ''development'' = Inr dev"
    and held: "load_cases read held_out_directory ''held_out'' = Inr held"
    and five: "check_split role ''development'' dev = Inr ()" "check_split role ''held_out'' held = Inr ()"
    and ids: "distinct (map ec_case_id (dev @ held))"
    by (auto simp: load_role_dataset_def bind_res_Inr_iff split: if_splits)
  from collect_cases_ok [OF dev [unfolded load_cases_def]] collect_cases_ok [OF held [unfolded load_cases_def]]
  have "list_all (\<lambda>c. ec_split c = ''development'') dev" "list_all (\<lambda>c. ec_split c = ''held_out'') held" by simp_all
  with five ids show ?thesis unfolding d by (simp add: check_split_def split: if_splits)
qed

text \<open>
  C32: A scorecard is exported only for five results with different case identifiers, all of the configured
  split; a held-out one only when a human reviewed every one of them; and its configuration names a
  pinned model.
\<close>

theorem exported_scorecard_is_complete:
  assumes "export_scorecard dump three_places fr results configuration reviewed = Inr files"
  shows "length results = 5 \<and> distinct (map cs_case_id results) \<and>
    list_all (\<lambda>r. cs_split r = bc_split configuration) results \<and> \<not> floating_alias (bc_model_id configuration) \<and>
    (bc_split configuration = ''development'' \<or>
     bc_split configuration = ''held_out'' \<and> list_all (\<lambda>r. cs_case_id r \<in> set reviewed) results) \<and>
    fst files = dump (scorecard configuration results) @ [LF]"
proof -
  from assms have v: "validate_batch_configuration configuration = Inr configuration"
    and five: "length results = 5" and ids: "distinct (map cs_case_id results)"
    and same: "list_all (\<lambda>r. cs_split r = bc_split configuration) results"
    and reviewed: "bc_split configuration = ''held_out'' \<Longrightarrow> held_out_complete results reviewed"
    and out: "fst files = dump (scorecard configuration results) @ [LF]"
    by (auto simp: export_scorecard_def validate_batch_configuration_def bind_res_Inr_iff list_ex_iff list_all_iff
        split: if_splits)
  from v have model: "\<not> floating_alias (bc_model_id configuration)" and "bc_split configuration \<in> set dataset_splits"
    by (auto simp: validate_batch_configuration_def bind_res_Inr_iff checks_Inr)
  moreover have "list_all (\<lambda>r. cs_case_id r \<in> set reviewed) results" if "bc_split configuration = ''held_out''"
    using reviewed [OF that] same that by (auto simp: held_out_complete_def Let_def list_all_iff)
  ultimately show ?thesis using five ids same out by (auto simp: dataset_splits_def)
qed

definition example_configuration :: batch_configuration where
  "example_configuration = \<lparr>bc_batch_id = ''b'', bc_role = SCOUT, bc_split = ''held_out'', bc_model_id = ''m-1'',
     bc_provider_policy = \<lparr>pp_provider_allowlist = [''p'']\<rparr>,
     bc_budget = \<lparr>bb_max_turns = 12, bb_max_tool_calls = 40, bb_max_usd = PyInt 3, bb_max_wall_seconds = 1200\<rparr>,
     bc_prompt_hash = replicate 64 (CHR ''0''), bc_tool_definitions_hash = replicate 64 (CHR ''1''),
     bc_manifest_version = ''1'', bc_policy_version = ''1'', bc_evaluator_version = ''1'', bc_fixture_revision = ''1'',
     bc_label_version = ''1'', bc_repository_scope = [11], bc_limitations = [''one repository'']\<rparr>"

definition example_result :: "string \<Rightarrow> case_result" where
  "example_result i = \<lparr>cs_case_id = i, cs_split = ''held_out'', cs_passed = True, cs_terminal_status = ''succeeded'',
     cs_scores = [(''citation_coverage'', True)], cs_run_id = None, cs_provider = None, cs_billed_cost = None,
     cs_latency_ms = None, cs_review_minutes = None, cs_failure_category = None, cs_excluded_reason = None, cs_retries = 0\<rparr>"

definition example_identifiers :: "string list" where
  "example_identifiers = [''a'', ''b'', ''c'', ''d'', ''e'']"

lemma example_export: "\<exists>md. export_scorecard (\<lambda>_. ''{}'') (\<lambda>_. ''1.000'') (\<lambda>_. ''3'')
    (map example_result example_identifiers) example_configuration example_identifiers = Inr (''{}'' @ [LF], md)"
proof -
  have "validate_batch_configuration example_configuration = Inr example_configuration"
    "held_out_complete (map example_result example_identifiers) example_identifiers"
    "list_ex (\<lambda>r. cs_split r \<noteq> bc_split example_configuration) (map example_result example_identifiers) = False"
    "distinct (map cs_case_id (map example_result example_identifiers))"
    "length (map example_result example_identifiers) = 5"
    by code_simp+
  then show ?thesis by (auto simp: export_scorecard_def)
qed

theorem exported_scorecard_is_complete_witness:
  "list_all (\<lambda>r. cs_case_id r \<in> set example_identifiers) (map example_result example_identifiers) \<and>
   distinct (map cs_case_id (map example_result example_identifiers))"
proof -
  obtain md where "export_scorecard (\<lambda>_. ''{}'') (\<lambda>_. ''1.000'') (\<lambda>_. ''3'')
    (map example_result example_identifiers) example_configuration example_identifiers = Inr (''{}'' @ [LF], md)"
    using example_export by blast
  from exported_scorecard_is_complete [OF this] show ?thesis by (auto simp: example_configuration_def)
qed

end
