(* ===== verification/Service.thy ===== *)
theory Service
  imports Api ManifestRegistry CiPush
begin

text \<open>
  The running system: routes, workers, approvals of manifests and validated pushes in transactions
  that overlap on one database. A state is the committed database, the outside world and the open
  transactions. An operation reads the state committed when its transaction opens and writes when
  it commits (\<open>Transactions\<close>); between the two any number of other steps may lie: other transactions
  open and commit, renewals of leases, claims, the passing of time. \<open>service_step P\<close> has one rule for
  each kind of step; \<open>P\<close> restricts the commits, to nothing (\<open>anyhow\<close>) or to transactions whose runs
  no other transaction has moved meanwhile (\<open>undisturbed\<close>).
\<close>

section \<open>Steps\<close>

text \<open>
  What one transaction does from the state it reads, whatever its arguments and whether it returns
  or raises. The routes commit or roll back a transaction of their own; the callers of
  \<open>approve_manifest\<close> and \<open>push_validated_patch\<close> hold the transaction, and may commit or drop what the push
  has written before an error.
\<close>

inductive operation :: "('w world \<Rightarrow> 'w world) \<Rightarrow> bool" where
  delivery: "operation (\<lambda>s. snd (on_db (github_webhook loads st delivery_id event_name signature raw_body) s))"
| created: "operation (\<lambda>s. snd (on_db (create_run st token payload) s))"
| cancelled: "operation (\<lambda>s. snd (on_db (cancel_run st token rid) s))"
| reviewed: "operation (\<lambda>s. snd (on_db (create_review st token rid review) s))"
| replayed: "operation (\<lambda>s. snd (on_db (replay_github_fixture loads st token fixture) s))"
| approved: "operation (\<lambda>s. snd (on_db (in_transaction (approve_manifest show_manifest m)) s))"
| pushed: "operation (\<lambda>s. snd (push_validated_patch dump recheck_at pushed_at rid artifact ev writer policy actor s))"

inductive_cases operationE: "operation f"

record attempt =
  at_run :: uuid
  at_worker :: string
  at_returned :: bool
  at_lost :: bool

record open_tx =
  ot_start :: db
  ot_end :: db
  ot_attempt :: "attempt option"

type_synonym 'w system = "db \<times> 'w \<times> open_tx list"

definition anyhow :: "db \<Rightarrow> db \<Rightarrow> db \<Rightarrow> bool" where
  "anyhow a b c = True"

text \<open>
  The ids are random in the source: a transaction may draw them from any point that is not in use.
  An attempt commits as \<open>process_claimed_run\<close> does, when it has returned, its heartbeat is not lost and
  it can release its lease.
\<close>

inductive service_step :: "(db \<Rightarrow> db \<Rightarrow> db \<Rightarrow> bool) \<Rightarrow> 'w system \<Rightarrow> 'w system \<Rightarrow> bool" for P where
  opened: "operation f \<Longrightarrow> db_next d \<le> k \<Longrightarrow> f (d\<lparr>db_next := k\<rparr>, w) = (e, w') \<Longrightarrow>
    service_step P (d, w, txs)
      (d, w', \<lparr>ot_start = d\<lparr>db_next := k\<rparr>, ot_end = e, ot_attempt = None\<rparr> # txs)"
| started: "find_run d rid = Some r \<Longrightarrow> db_next d \<le> k \<Longrightarrow>
    attempt_run ae deps rid worker (d\<lparr>db_next := k\<rparr>, w) = (result, (e, w')) \<Longrightarrow>
    service_step P (d, w, txs)
      (d, w', \<lparr>ot_start = d\<lparr>db_next := k\<rparr>, ot_end = e, ot_attempt = Some
         \<lparr>at_run = rid, at_worker = worker, at_returned = (result = Inr ()), at_lost = False\<rparr>\<rparr> # txs)"
| renewed: "ot_attempt t = Some a \<Longrightarrow> \<not> at_lost a \<Longrightarrow>
    heartbeat_lease (at_run a) (at_worker a) secs d = (result, d') \<Longrightarrow>
    service_step P (d, w, xs @ t # ys)
      (d', w, xs @ t\<lparr>ot_attempt := Some (a\<lparr>at_lost := result \<noteq> Inr True\<rparr>)\<rparr> # ys)"
| unrenewed: "ot_attempt t = Some a \<Longrightarrow>
    service_step P (d, w, xs @ t # ys) (d, w, xs @ t\<lparr>ot_attempt := Some (a\<lparr>at_lost := True\<rparr>)\<rparr> # ys)"
| committed: "ot_attempt t = None \<Longrightarrow> P (ot_start t) (ot_end t) d \<Longrightarrow>
    commit_on (ot_start t) (ot_end t) d = (Inr (), d') \<Longrightarrow>
    service_step P (d, w, xs @ t # ys) (d', w, xs @ ys)"
| finished: "ot_attempt t = Some a \<Longrightarrow> at_returned a \<Longrightarrow> \<not> at_lost a \<Longrightarrow> P (ot_start t) (ot_end t) d \<Longrightarrow>
    release_lease (at_run a) (at_worker a) d = (Inr True, d1) \<Longrightarrow>
    commit_on (ot_start t) (ot_end t) d1 = (Inr (), d') \<Longrightarrow>
    service_step P (d, w, xs @ t # ys) (d', w, xs @ ys)"
| dropped: "service_step P (d, w, xs @ t # ys) (d, w, xs @ ys)"
| claimed: "in_transaction (claim_next_run locked_runs locked_leases worker secs) d = (result, d') \<Longrightarrow>
    service_step P (d, w, txs) (d', w, txs)"
| ticked: "db_now d \<le> now \<Longrightarrow> service_step P (d, w, txs) (d\<lparr>db_now := now\<rparr>, w, txs)"

section \<open>Invariants of the system\<close>

context run_frame
begin

lemma keeps_approve_manifest: "keeps I (approve_manifest show_manifest m)"
proof -
  have "keeps I (add_manifest t)" for t
  proof
    fix s assume "I s"
    then show "I (snd (add_manifest t s))"
      by (rule keeps_same_runs [rotated]) (simp add: add_manifest_def same_runs_def)
  qed
  moreover have "keeps I (retire version active)" for version active
    unfolding retire_def by (intro keeps_intros keeps_modify_frame) (simp add: same_runs_def)
  ultimately show ?thesis unfolding approve_manifest_def by (intro keeps_intros)
qed

end

context intake_invariant
begin

lemma keeps_snd: "keeps (\<lambda>s. I (fst s)) m \<Longrightarrow> I (fst s) \<Longrightarrow> I (fst (snd (m s)))"
  unfolding keeps_def by blast

lemma keeps_operation: "operation f \<Longrightarrow> I (fst s) \<Longrightarrow> I (fst (f s))"
  by (erule operationE)
    (auto intro!: keeps_snd keeps_intros keeps_routes keeps_approve_manifest keeps_push_validated_patch)

end

text \<open>Every recorded transition is a step of the status machine.\<close>

definition moves_allowed :: "db \<Rightarrow> bool" where
  "moves_allowed s \<longleftrightarrow> (\<forall>t \<in> set (db_transitions s). step_ok (tr_from t) (tr_to t))"

lemma moves_allowed_transition: "keeps moves_allowed (transition_run rid target reason actor md)"
proof
  fix s assume ok: "moves_allowed s"
  obtain res t where eq: "transition_run rid target reason actor md s = (res, t)" by fastforce
  then have "moves_allowed t"
    by (cases rule: transition_run_cases)
      (use ok in \<open>auto simp: moves_allowed_def record_transition_def step_ok_def\<close>)
  with eq show "moves_allowed (snd (transition_run rid target reason actor md s))" by simp
qed

interpretation allowed_moves: lease_free_invariant moves_allowed
  by unfold_locales (auto simp: moves_allowed_transition moves_allowed_def same_runs_def)

lemma moves_allowed_create: "keeps moves_allowed (create_queued_run data source actor)"
proof -
  have "keeps moves_allowed (add_run data source)"
    "keeps moves_allowed (record_transition rid None RECEIVED reason actor md)" for rid reason md
    by (auto simp: keeps_def add_run_def record_transition_def moves_allowed_def step_ok_def)
  then show ?thesis
    unfolding create_queued_run_def by (intro keeps_intros moves_allowed_transition)
qed

interpretation allowed_moves_intake: intake_invariant moves_allowed
  by unfold_locales (rule moves_allowed_create, simp add: moves_allowed_def)

section \<open>Invariants of the open transactions\<close>

text \<open>In every interleaving: transactions only add transitions, and only allowed ones.\<close>

definition adding :: "run_transition list \<Rightarrow> 'w system \<Rightarrow> bool" where
  "adding old S = (case S of (d, w, txs) \<Rightarrow> moves_allowed d \<and> history_extends old d \<and>
     (\<forall>t \<in> set txs. moves_allowed (ot_end t) \<and> history_extends (db_transitions (ot_start t)) (ot_end t)))"

lemma moves_allowed_merge:
  assumes "moves_allowed c" and "moves_allowed b"
  shows "moves_allowed (merge a b c)"
  using assms by (auto simp: moves_allowed_def merge_def added_def dest: in_set_dropD)

lemma commit_on_Inr: "commit_on a b c = (Inr u, d) \<longleftrightarrow> conflict_free a b c \<and> d = merge a b c"
  by (auto simp: commit_on_def)

lemma release_lease_Inr:
  "release_lease rid worker d = (Inr True, d1) \<Longrightarrow> \<exists>ls. d1 = d\<lparr>db_leases := ls\<rparr>"
  by (auto simp: release_lease_def split: option.splits if_splits)

lemma extends_refl: "history_extends (db_transitions s) s"
  by (simp add: history_extends_def)

lemma adding_step:
  assumes "service_step P S T" and "adding old S"
  shows "adding old T"
  using assms
proof cases
  case (opened f d k w e w' txs)
  let ?s = "d\<lparr>db_next := k\<rparr>"
  from opened assms(2) have d: "moves_allowed ?s" by (simp add: adding_def moves_allowed_def)
  have "moves_allowed e" "history_extends (db_transitions ?s) e"
    using allowed_moves_intake.keeps_operation [OF opened(3), of "(?s, w)"] d opened(5)
      append_only_intake.keeps_operation [OF opened(3), of "db_transitions ?s" "(?s, w)"] extends_refl [of ?s]
    by simp_all
  with opened assms(2) show ?thesis by (simp add: adding_def)
next
  case (started d rid r k ae deps worker w result e w' txs)
  let ?s = "d\<lparr>db_next := k\<rparr>"
  from started assms(2) have d: "moves_allowed ?s" by (simp add: adding_def moves_allowed_def)
  have "moves_allowed e" "history_extends (db_transitions ?s) e"
    using keepsD [OF allowed_moves.keeps_attempt_run _ started(5)] d
      keepsD [OF append_only.keeps_attempt_run _ started(5), of "db_transitions ?s"] extends_refl [of ?s]
    by simp_all
  with started assms(2) show ?thesis by (simp add: adding_def)
next
  case (renewed t a secs d result d' w xs ys)
  with keepsD [OF allowed_moves.keeps_heartbeat _ renewed(5)] keepsD [OF append_only.keeps_heartbeat _ renewed(5)]
    assms(2)
  show ?thesis by (auto simp: adding_def)
next
  case (committed t d d' w xs ys)
  with assms(2) show ?thesis
    by (auto simp: adding_def commit_on_Inr moves_allowed_merge merge_extends)
next
  case (finished t a d d1 d' w xs ys)
  with assms(2) show ?thesis
    by (auto simp: adding_def commit_on_Inr moves_allowed_merge merge_extends allowed_moves.keeps_leases
        append_only.keeps_leases dest!: release_lease_Inr)
next
  case (claimed lr ll worker secs d result d' w txs)
  with keepsD [OF keeps_in_transaction [OF allowed_moves.keeps_claim] _ claimed(3)]
    keepsD [OF keeps_in_transaction [OF append_only.keeps_claim] _ claimed(3)] assms(2)
  show ?thesis by (simp add: adding_def)
qed (use assms(2) in \<open>auto simp: adding_def allowed_moves.keeps_clock append_only.keeps_clock\<close>)

lemma adding_steps: "(service_step P)\<^sup>*\<^sup>* S T \<Longrightarrow> adding old S \<Longrightarrow> adding old T"
  by (induction rule: rtranclp_induct) (auto dest: adding_step)

text \<open>
  With undisturbed commits: the committed histories stay consistent, and what a transaction leaves
  is a lawful continuation of what it has read.
\<close>

definition consistent :: "'w system \<Rightarrow> bool" where
  "consistent S = (case S of (d, w, txs) \<Rightarrow> history_ok d \<and> (\<forall>t \<in> set txs. lawful (ot_start t) (ot_end t)))"

lemma history_later_ids: "history_ok d \<Longrightarrow> db_next d \<le> k \<Longrightarrow> history_ok (d\<lparr>db_next := k\<rparr>)"
  by (fastforce simp: history_ok_def run_ok_def history_def)

lemma lawful_operation:
  assumes "operation f" and "history_ok d" and "f (d, w) = (e, w')"
  shows "lawful d e"
  using assms extends_refl [of d] history_intake.keeps_operation [OF assms(1), of "(d, w)"]
    append_only_intake.keeps_operation [OF assms(1), of "db_transitions d" "(d, w)"]
    terminal_intake.keeps_operation [OF assms(1), of _ _ _ "(d, w)"]
  by (simp add: lawful_def)

lemma lawful_attempt:
  assumes "attempt_run ae deps rid worker (d, w) = (result, (e, w'))" and "history_ok d"
  shows "lawful d e"
  using assms(2) extends_refl [of d] keepsD [OF history.keeps_attempt_run _ assms(1)]
    keepsD [OF append_only.keeps_attempt_run _ assms(1), of "db_transitions d"]
    keepsD [OF terminal.keeps_attempt_run _ assms(1)]
  by (simp add: lawful_def)

lemma undisturbed_leases: "undisturbed a b (c\<lparr>db_leases := ls\<rparr>) = undisturbed a b c"
  by (simp add: undisturbed_def history_def)

text \<open>A step with undisturbed commits; the terminal statuses are carried along.\<close>

lemma consistent_step:
  assumes "service_step P S T" and "P \<le> undisturbed" and "consistent S"
  shows "consistent T \<and> (ended_as rid st tm (fst S) \<longrightarrow> ended_as rid st tm (fst T))"
  using assms(1)
proof cases
  case (opened f d k w e w' txs)
  with assms(3) show ?thesis
    using lawful_operation [OF opened(3) history_later_ids opened(5)] by (simp add: consistent_def)
next
  case (started d i r k ae deps worker w result e w' txs)
  with assms(3) show ?thesis
    using lawful_attempt [OF started(5) history_later_ids] by (simp add: consistent_def)
next
  case (renewed t a secs d result d' w xs ys)
  with keepsD [OF history.keeps_heartbeat _ renewed(5)] keepsD [OF terminal.keeps_heartbeat _ renewed(5)] assms(3)
  show ?thesis by (auto simp: consistent_def)
next
  case (committed t d d' w xs ys)
  then have "undisturbed (ot_start t) (ot_end t) d" using assms(2) by (simp add: le_fun_def)
  with committed assms(3) show ?thesis
    by (auto simp: consistent_def commit_on_Inr intro: undisturbed_commit_keeps_history undisturbed_commit_keeps_end)
next
  case (finished t a d d1 d' w xs ys)
  then have und: "undisturbed (ot_start t) (ot_end t) d" using assms(2) by (simp add: le_fun_def)
  from finished obtain ls where d1: "d1 = d\<lparr>db_leases := ls\<rparr>" using release_lease_Inr by blast
  have "history_ok d1" using assms(3) finished(1) by (simp add: d1 consistent_def history_leases)
  moreover have "ended_as rid st tm d \<longrightarrow> ended_as rid st tm d1" by (simp add: d1 terminal.keeps_leases)
  ultimately show ?thesis
    using finished assms(3) und
    by (auto simp: d1 undisturbed_leases consistent_def commit_on_Inr intro: undisturbed_commit_keeps_history
        undisturbed_commit_keeps_end)
next
  case (claimed lr ll worker secs d result d' w txs)
  with keepsD [OF keeps_in_transaction [OF history.keeps_claim] _ claimed(3)]
    keepsD [OF keeps_in_transaction [OF terminal.keeps_claim] _ claimed(3)] assms(3)
  show ?thesis by (simp add: consistent_def)
qed (use assms(3) in \<open>auto simp: consistent_def history.keeps_clock terminal.keeps_clock\<close>)

lemma consistent_steps:
  assumes "(service_step P)\<^sup>*\<^sup>* S T" and "P \<le> undisturbed" and "consistent S"
  shows "consistent T \<and> (ended_as rid st tm (fst S) \<longrightarrow> ended_as rid st tm (fst T))"
  using assms
  by (induction rule: rtranclp_induct) (use consistent_step in \<open>blast+\<close>)

lemma history_ok_moves_allowed:
  assumes "history_ok s"
  shows "moves_allowed s"
proof -
  have "step_ok (tr_from t) (tr_to t)" if "chain_ok p ts q" "t \<in> set ts" for p ts q t
    using that by (induction ts arbitrary: p) auto
  moreover have "\<exists>r. find_run s (tr_run t) = Some r" if "t \<in> set (db_transitions s)" for t
    using assms that find_run_None [of s "tr_run t"] by (auto simp: history_ok_def)
  ultimately show ?thesis
    using run_with_history(1) [OF assms] by (fastforce simp: moves_allowed_def history_def)
qed

text \<open>A recorded history is a path of the status machine, hence short and without repetition.\<close>

lemma chain_legal: "chain_ok (Some s) ts q \<Longrightarrow> statuses.legal_path s (map tr_to ts)"
  by (induction ts arbitrary: s) (auto simp: step_ok_def)

lemma legal_distinct: "statuses.legal_path s ts \<Longrightarrow> distinct (s # ts)"
proof (induction ts arbitrary: s)
  case (Cons t ts)
  then have "statuses.legal_path t ts" by simp
  from Cons.IH [OF this] have "distinct (t # ts)" .
  with statuses.no_return [OF Cons.prems] show ?case by simp
qed simp

lemma history_path:
  assumes "history_ok s"
  shows "distinct (map tr_to (history s rid)) \<and> length (history s rid) \<le> 9"
proof (cases "history s rid")
  case (Cons t ts)
  then have "t \<in> set (db_transitions s)" "tr_run t = rid"
    by (auto simp: history_def filter_eq_Cons_iff)
  with assms have "rid \<in> run_id ` set (db_runs s)" unfolding history_ok_def by blast
  then obtain r where "r \<in> set (db_runs s)" "run_id r = rid" by auto
  with assms Cons have "chain_ok None (t # ts) (Some (run_status r))" by (auto simp: history_ok_def run_ok_def)
  then have "statuses.legal_path (tr_to t) (map tr_to ts)" by (auto intro: chain_legal)
  from legal_distinct [OF this] statuses.legal_path_bounded [OF this] Cons show ?thesis by simp
qed simp

text \<open>
  C5: What survives every interleaving of overlapping transactions. However deliveries, requests,
  attempts, approvals, pushes, claims and renewals overlap, transitions once recorded are never changed
  or removed, and every recorded transition is a step the status machine allows. When moreover each
  transaction commits its moves of a run only if no other transaction has moved that run since it
  read it, the recorded history of every run stays a walk of the status machine that ends in the
  run's status, hence never has a status twice nor more than nine entries, and a run that has
  reached a terminal status keeps it and the time at which it did. The source does not enforce that
  condition: \<open>overlapping_cancel_overwrites_the_outcome\<close> is what happens without it.
\<close>
theorem history_survives_every_step:
  assumes "(service_step P)\<^sup>*\<^sup>* (d, w, []) (d', w', txs)" and "history_ok d"
  shows "history_extends (db_transitions d) d' \<and> moves_allowed d' \<and>
    ((\<forall>a b c. P a b c \<longrightarrow> undisturbed a b c) \<longrightarrow>
      history_ok d' \<and> distinct (map tr_to (history d' rid)) \<and> length (history d' rid) \<le> 9 \<and>
      (ended_as rid st tm d \<longrightarrow> ended_as rid st tm d'))"
proof -
  have "adding (db_transitions d) (d, w, [])"
    using assms(2) by (simp add: adding_def history_ok_moves_allowed extends_refl)
  from adding_steps [OF assms(1) this] have "history_extends (db_transitions d) d' \<and> moves_allowed d'"
    by (simp add: adding_def)
  moreover have "consistent (d, w, [])" using assms(2) by (simp add: consistent_def)
  ultimately show ?thesis
    using consistent_steps [OF assms(1), of rid st tm] history_path [of d' rid]
    by (simp add: consistent_def le_fun_def)
qed

lemma attempt_starts:
  assumes "find_run d rid = Some r" and "attempt_run ae deps rid worker (d, w) = (Inr (), (e, w'))"
  shows "service_step P (d, w, txs) (d, w', \<lparr>ot_start = d, ot_end = e, ot_attempt = Some
     \<lparr>at_run = rid, at_worker = worker, at_returned = True, at_lost = False\<rparr>\<rparr> # txs)"
  using started [OF assms(1) order_refl, where ae = ae and deps = deps and worker = worker and w = w and
      result = "Inr ()" and e = e and w' = w' and P = P and txs = txs] assms(2)
  by simp

text \<open>A worker's processing of a run, with no other session about, is a sequence of these steps.\<close>

lemma alone_is_a_sequence_of_steps:
  assumes "process_claimed_run ae deps rid worker secs [] id (d, w) = (Inr True, (d', w'))"
  shows "(service_step anyhow)\<^sup>*\<^sup>* (d, w, []) (d', w', [])"
proof -
  obtain res d1 w1 where run: "attempt_run ae deps rid worker (d, w) = (res, (d1, w1))"
    by (metis prod.exhaust)
  from assms obtain r where r: "find_run d rid = Some r"
    by (auto simp: process_claimed_run_def split: option.splits)
  have w': "w' = w1"
    using assms run r by (auto simp: process_claimed_run_def split: sum.splits prod.splits)
  from assms run r obtain d2 where fin: "res = Inr ()" "release_lease rid worker d = (Inr True, d2)"
    "commit_on d d1 d2 = (Inr (), d')"
    by (auto simp: process_claimed_run_def heartbeat_exit_def bind_act_def split: sum.splits prod.splits if_splits)
  let ?t = "\<lparr>ot_start = d, ot_end = d1, ot_attempt = Some
      \<lparr>at_run = rid, at_worker = worker, at_returned = True, at_lost = False\<rparr>\<rparr>"
  have "service_step anyhow (d, w, []) (d, w1, [?t])"
    using attempt_starts [OF r run [unfolded fin(1)]] .
  moreover have "service_step anyhow (d, w1, [] @ ?t # []) (d', w1, [] @ [])"
    using fin by (intro finished) (auto simp: anyhow_def)
  ultimately show ?thesis by (simp add: w')
qed

section \<open>An overlapping cancellation\<close>

definition claimed_db :: db where
  "claimed_db = snd (claim_next_run [] [] ''worker:a'' 60 one_queued)"

definition after_cancel :: "db \<Rightarrow> run_status \<Rightarrow> db" where
  "after_cancel d st = moved 0 st CANCELLED ''operator_cancelled'' ''operator'' [] d"

lemma cancel_moves:
  assumes "find_run d 0 = Some r" and "CANCELLED \<in> allowed_next (run_status r)"
  shows "cancel_run example_settings (Some ''o'') 0 d = (Inr (), after_cancel d (run_status r))"
proof -
  have "transition_run 0 CANCELLED ''operator_cancelled'' ''operator'' [] d = (Inr (), after_cancel d (run_status r))"
    using transition_run_moved [OF assms] by (simp add: after_cancel_def)
  moreover have "get_run 0 d = (Inr r, d)" by (simp add: get_run_def assms(1))
  moreover have "operator_auth example_settings (Some ''o'') = Inr ()"
    by (simp add: operator_auth_def compare_digest_def example_settings_def default_settings_def)
  ultimately show ?thesis by (simp add: cancel_run_def act_defs in_transaction_def)
qed

lemma cancel_opens:
  assumes "find_run d 0 = Some r" and "CANCELLED \<in> allowed_next (run_status r)"
  shows "service_step P (d, w, txs)
    (d, w, \<lparr>ot_start = d, ot_end = after_cancel d (run_status r), ot_attempt = None\<rparr> # txs)"
  using opened [OF cancelled [of example_settings "Some ''o''" 0] order_refl, of d w] cancel_moves [OF assms]
  by (simp add: on_db_def)

definition no_dependencies :: "'w worker_dependencies" where
  "no_dependencies = \<lparr>wd_model_gateway = None, wd_model_id = None, wd_capability_gateway = None,
     wd_branch_writer = None\<rparr>"

definition after_failure :: "db \<Rightarrow> db" where
  "after_failure d = moved 0 LEASED FAILED ''worker_role_not_configured'' ''worker:a'' [] d"

lemma unconfigured_attempt:
  assumes "find_run d 0 = Some r" and "run_status r = LEASED"
  shows "attempt_run ae no_dependencies 0 ''worker:a'' (d, w) = (Inr (), (after_failure d, w))"
  using transition_run_moved [OF assms(1), of FAILED] assms
  by (simp add: attempt_run_def catch_def dispatch_run_def no_dependencies_def loaded_def on_db_def
      with_run_def bind_act_def Let_def after_failure_def)

definition failed_db :: db where
  "failed_db = merge claimed_db (after_failure claimed_db) (claimed_db\<lparr>db_leases := []\<rparr>)"

definition cancelled_db :: db where
  "cancelled_db = merge claimed_db (after_cancel claimed_db LEASED) failed_db"

lemma claimed_db_facts:
  "map_option run_status (find_run claimed_db 0) = Some LEASED"
  "release_lease 0 ''worker:a'' claimed_db = (Inr True, claimed_db\<lparr>db_leases := []\<rparr>)"
  "conflict_free claimed_db (after_failure claimed_db) (claimed_db\<lparr>db_leases := []\<rparr>)"
  "conflict_free claimed_db (after_cancel claimed_db LEASED) failed_db"
  by code_simp+

lemma cancelled_db_facts:
  "map tr_to (history cancelled_db 0) = [RECEIVED, QUEUED, LEASED, FAILED, CANCELLED]"
  "map_option run_status (find_run cancelled_db 0) = Some CANCELLED"
  "\<not> history_ok cancelled_db"
  by code_simp+

text \<open>
  Two transactions that overlap on one run: an operator's cancellation reads the run while a worker's
  attempt fails it; the attempt commits, then the cancellation does. The failed run is then
  cancelled, after its end, and its history is no walk of the status machine.
\<close>

theorem overlapping_cancel_overwrites_the_outcome:
  "\<exists>d'. (service_step anyhow)\<^sup>*\<^sup>* (claimed_db, (), []) (d', (), []) \<and> history_ok claimed_db \<and>
     map tr_to (history d' 0) = [RECEIVED, QUEUED, LEASED, FAILED, CANCELLED] \<and>
     map_option run_status (find_run d' 0) = Some CANCELLED \<and> \<not> history_ok d'"
proof -
  let ?cancel = "\<lparr>ot_start = claimed_db, ot_end = after_cancel claimed_db LEASED, ot_attempt = None\<rparr>"
  let ?attempt = "\<lparr>ot_start = claimed_db, ot_end = after_failure claimed_db, ot_attempt = Some
      \<lparr>at_run = 0, at_worker = ''worker:a'', at_returned = True, at_lost = False\<rparr>\<rparr>"
  obtain r where r: "find_run claimed_db 0 = Some r" "run_status r = LEASED"
    using claimed_db_facts(1) by (cases "find_run claimed_db 0") auto
  have "service_step anyhow (claimed_db, (), []) (claimed_db, (), [?cancel])"
    using cancel_opens [OF r(1), of anyhow "()" "[]"] r(2) by simp
  moreover have "service_step anyhow (claimed_db, (), [?cancel]) (claimed_db, (), [?attempt, ?cancel])"
    using attempt_starts [OF r(1) unconfigured_attempt [OF r, of example_attempt_env]] .
  moreover have "service_step anyhow (claimed_db, (), [] @ ?attempt # [?cancel]) (failed_db, (), [] @ [?cancel])"
    using claimed_db_facts(2,3) by (intro finished) (auto simp: anyhow_def commit_on_Inr failed_db_def)
  moreover have "service_step anyhow (failed_db, (), [] @ ?cancel # []) (cancelled_db, (), [] @ [])"
    using claimed_db_facts(4) by (intro committed) (auto simp: anyhow_def commit_on_Inr cancelled_db_def)
  ultimately have "(service_step anyhow)\<^sup>*\<^sup>* (claimed_db, (), []) (cancelled_db, (), [])"
    by (simp add: rtranclp.rtrancl_into_rtrancl)
  moreover have "history_ok claimed_db"
    using keepsD [OF history.keeps_claim one_queued_facts(3)] by (simp add: claimed_db_def prod_eq_iff)
  ultimately show ?thesis
    by (intro exI [of _ cancelled_db] conjI cancelled_db_facts)
qed

theorem history_survives_every_step_witness:
  "\<exists>d'. (service_step undisturbed)\<^sup>*\<^sup>* (one_queued, (), []) (d', (), []) \<and> db_now d' = 86400 \<and>
     history_ok d' \<and> map tr_to (history d' 0) = [RECEIVED, QUEUED, CANCELLED]"
proof -
  let ?t = "\<lparr>ot_start = one_queued, ot_end = after_cancel one_queued QUEUED, ot_attempt = None\<rparr>"
  let ?later = "one_queued\<lparr>db_now := 86400\<rparr>"
  let ?d = "merge one_queued (after_cancel one_queued QUEUED) ?later"
  have "service_step undisturbed (one_queued, (), []) (one_queued, (), [?t])"
    using cancel_opens [OF one_queued_facts(2) [of 0, simplified], of undisturbed "()" "[]"]
    by (simp add: new_run_def)
  moreover have "service_step undisturbed (one_queued, (), [?t]) (?later, (), [?t])"
    by (rule ticked) code_simp
  moreover have "service_step undisturbed (?later, (), [] @ ?t # []) (?d, (), [] @ [])"
  proof (rule committed)
    have "conflict_free one_queued (after_cancel one_queued QUEUED) ?later" by code_simp
    then show "commit_on (ot_start ?t) (ot_end ?t) ?later = (Inr (), ?d)" by (simp add: commit_on_Inr)
    show "undisturbed (ot_start ?t) (ot_end ?t) ?later" by (simp add: undisturbed_def history_def)
  qed simp
  ultimately have steps: "(service_step undisturbed)\<^sup>*\<^sup>* (one_queued, (), []) (?d, (), [])"
    by (simp add: rtranclp.rtrancl_into_rtrancl)
  have "history_ok ?d"
    using history_survives_every_step [OF steps one_queued_facts(3)] by blast
  moreover have "map tr_to (history ?d 0) = [RECEIVED, QUEUED, CANCELLED]" by code_simp
  moreover have "db_now ?d = 86400" by (simp add: merge_def)
  ultimately show ?thesis using steps by (intro exI [of _ ?d] conjI)
qed

end
