(* ===== verification/Seed.thy ===== *)
theory Seed
  imports GithubRead
begin

text \<open>
  \<open>src/scripts/seed_evaluation_repository.py\<close>: how the evaluation repository is filled once, with its
  base files, ten branches and their pull requests. The commands of \<open>git\<close> and \<open>gh\<close> and the operations on
  files are calls of a parameter, recorded in their order; \<open>json.loads\<close> and the indented dump are
  parameters, too. A path is its text.
\<close>

section \<open>Commands and files\<close>

datatype script_call =
    Run_Command "string list" "string option"
  | Probe_Command "string list" string
  | Make_Folders string
  | Write_File string string

text \<open>
  What the operating system does: a command gives its exit code and output or cannot be started, an
  operation on a file returns or raises (its code and output are then 0 and nothing).
\<close>

record 'w operating_system =
  os_call :: "script_call \<Rightarrow> 'w \<Rightarrow> (int \<times> string) res \<times> 'w"
  os_exists :: "string \<Rightarrow> 'w \<Rightarrow> bool"
  os_is_dir :: "string \<Rightarrow> 'w \<Rightarrow> bool"

record 'w shell =
  sh_log :: "(script_call \<times> (int \<times> string) res) list"
  sh_world :: 'w

definition shell_calls :: "'w shell \<Rightarrow> script_call list" where
  "shell_calls h = map fst (sh_log h)"

definition perform :: "'w operating_system \<Rightarrow> script_call \<Rightarrow> ('w shell, int \<times> string) act" where
  "perform sys c h = (case os_call sys c (sh_world h) of (r, w) \<Rightarrow>
     (r, h\<lparr>sh_log := sh_log h @ [(c, r)], sh_world := w\<rparr>))"

definition called_process_error :: exn where
  "called_process_error = OtherError ''CalledProcessError'' ''returned non-zero exit status''"

text \<open>\<open>subprocess.run(..., check=True).stdout.strip()\<close>\<close>

definition run_in :: "'w operating_system \<Rightarrow> string list \<Rightarrow> string option \<Rightarrow> ('w shell, string) act" where
  "run_in sys arguments cwd = bind_act (perform sys (Run_Command arguments cwd)) (\<lambda>(code, out).
     if code \<noteq> 0 then throw called_process_error else ret (strip out))"

definition path_parent :: "string \<Rightarrow> string" where
  "path_parent p = (let d = join ''/'' (butlast (split_on (CHR ''/'') p)) in if d = [] then ''/'' else d)"

definition write_file :: "'w operating_system \<Rightarrow> string \<Rightarrow> string \<Rightarrow> ('w shell, unit) act" where
  "write_file sys p content =
    bind_act (perform sys (Make_Folders (path_parent p))) (\<lambda>_.
    bind_act (perform sys (Write_File p content)) (\<lambda>_. ret ()))"

section \<open>The repository and its content\<close>

definition REPOSITORY :: string where "REPOSITORY = ''gmoigneu/agentic-engineering-lab-eval''"

definition REPOSITORY_ID :: int where "REPOSITORY_ID = 1303663681"

definition REMOTE :: string where "REMOTE = ''https://github.com/'' @ REPOSITORY @ ''.git''"

definition approved_remotes :: "string list" where
  "approved_remotes = [REMOTE, ''git@github.com:'' @ REPOSITORY @ ''.git'']"

definition text_lines :: "string list \<Rightarrow> string" where
  "text_lines ls = concat (map (\<lambda>l. l @ [LF]) ls)"

definition BASE_FILES :: "(string \<times> string) list" where
  "BASE_FILES =
    [(''README.md'', text_lines
       [''# Agentic Engineering Lab evaluation repository'',
        [],
        ''Deterministic cases for the lab harness.'']),
     (''pyproject.toml'', text_lines
       [''[build-system]'',
        ''requires = [\"hatchling>=1.25\"]'',
        ''build-backend = \"hatchling.build\"'',
        [],
        ''[project]'',
        ''name = \"agentic-engineering-lab-eval\"'',
        ''version = \"0.1.0\"'',
        ''requires-python = \">=3.12\"'',
        [],
        ''[project.optional-dependencies]'',
        ''test = [\"pytest==8.3.5\"]'',
        [],
        ''[tool.hatch.build.targets.wheel]'',
        ''packages = [\"src/eval_service\"]'',
        [],
        ''[tool.pytest.ini_options]'',
        ''testpaths = [\"tests\"]'']),
     (''.github/workflows/ci.yml'', text_lines
       [''name: ci'',
        [],
        ''on:'',
        ''  pull_request:'',
        [],
        ''permissions:'',
        ''  contents: read'',
        [],
        ''jobs:'',
        ''  test:'',
        ''    runs-on: ubuntu-latest'',
        ''    steps:'',
        ''      - uses: actions/checkout@v4'',
        ''      - uses: actions/setup-python@v5'',
        ''        with:'',
        ''          python-version: \"3.12\"'',
        ''      - run: python -m pip install --disable-pip-version-check -e '' @ [CHR 0x27] @ ''.[test]'' @ [CHR 0x27],
        ''      - run: python -m pytest -q'']),
     (''src/eval_service/__init__.py'', []),
     (''src/eval_service/pagination.py'', text_lines
       [''def page('',
        ''    items: list[int], number: int, size: int'',
        '') -> list[int]:'',
        ''    start = (number - 1) * size'',
        ''    return items[start : start + size]'']),
     (''src/eval_service/records.py'', text_lines
       [''from dataclasses import dataclass'',
        [],
        [],
        ''@dataclass(frozen=True)'',
        ''class Record:'',
        ''    tenant_id: str'',
        ''    value: str'',
        [],
        [],
        ''def read_record(record: Record, tenant_id: str) -> str:'',
        ''    if record.tenant_id != tenant_id:'',
        ''        raise PermissionError(\"record belongs to another tenant\")'',
        ''    return record.value'']),
     (''src/eval_service/upstream.py'', text_lines
       [''def status(timed_out: bool) -> str:'',
        ''    return \"unavailable\" if timed_out else \"ok\"'']),
     (''src/eval_service/expiry.py'', text_lines
       [''def expired(now: int, expires_at: int) -> bool:'',
        ''    return now >= expires_at'']),
     (''src/eval_service/diagnostics.py'', text_lines
       [''def request_fields(request_id: str) -> dict[str, str]:'',
        ''    return {\"request_id\": request_id}'']),
     (''src/eval_service/money.py'', text_lines
       [''from decimal import ROUND_HALF_UP, Decimal'',
        [],
        [],
        ''def cents(value: str) -> Decimal:'',
        ''    return Decimal(value).quantize(Decimal(\"0.01\"), rounding=ROUND_HALF_UP)'']),
     (''src/eval_service/cache.py'', text_lines
       [''def update('',
        ''    store: dict[str, str], cache: dict[str, str], key: str, value: str'',
        '') -> None:'',
        ''    store[key] = value'',
        ''    cache.pop(key, None)'']),
     (''src/eval_service/deployment.py'', text_lines
       [''def resource_status(can_read: bool) -> str:'',
        ''    if not can_read:'',
        ''        raise PermissionError(\"permission denied while reading environment resource\")'',
        ''    return \"ready\"'']),
     (''src/eval_service/build.py'', text_lines
       [''def artifact_fits('',
        ''    artifact_bytes: int, available_bytes: int'',
        '') -> bool:'',
        ''    return artifact_bytes <= available_bytes'']),
     (''src/eval_service/compatibility.py'', text_lines
       [''def compatible('',
        ''    required_major: int, installed_major: int'',
        '') -> bool:'',
        ''    return required_major == installed_major'']),
     (''tests/test_scenarios.py'', text_lines
       [''from decimal import Decimal'',
        [],
        ''import pytest'',
        [],
        ''from eval_service.build import artifact_fits'',
        ''from eval_service.cache import update'',
        ''from eval_service.compatibility import compatible'',
        ''from eval_service.deployment import resource_status'',
        ''from eval_service.diagnostics import request_fields'',
        ''from eval_service.expiry import expired'',
        ''from eval_service.money import cents'',
        ''from eval_service.pagination import page'',
        ''from eval_service.records import Record, read_record'',
        ''from eval_service.upstream import status'',
        [],
        [],
        ''def test_dev_01_pagination_boundary() -> None:'',
        ''    assert page([1, 2, 3, 4], 2, 2) == [3, 4]'',
        [],
        [],
        ''def test_dev_02_tenant_boundary() -> None:'',
        ''    with pytest.raises(PermissionError):'',
        ''        read_record(Record(\"tenant-a\", \"private\"), \"tenant-b\")'',
        [],
        [],
        ''def test_dev_03_upstream_timeout() -> None:'',
        ''    assert status(True) == \"unavailable\"'',
        [],
        [],
        ''def test_dev_04_expiration_boundary() -> None:'',
        ''    assert expired(100, 100)'',
        [],
        [],
        ''def test_dev_05_diagnostics_exclude_sensitive_values() -> None:'',
        ''    assert request_fields(\"request-1\") == {\"request_id\": \"request-1\"}'',
        [],
        [],
        ''def test_held_01_negative_rounding() -> None:'',
        ''    assert cents(\"-1.235\") == Decimal(\"-1.24\")'',
        [],
        [],
        ''def test_held_02_cache_invalidation() -> None:'',
        ''    store = {\"item\": \"old\"}'',
        ''    cache = {\"item\": \"old\"}'',
        ''    update(store, cache, \"item\", \"new\")'',
        ''    assert store == {\"item\": \"new\"}'',
        ''    assert \"item\" not in cache'',
        [],
        [],
        ''def test_held_03_environment_permission() -> None:'',
        ''    assert resource_status(True) == \"ready\"'',
        [],
        [],
        ''def test_held_04_runner_storage() -> None:'',
        ''    assert artifact_fits(100, 1_000)'',
        [],
        [],
        ''def test_held_05_dependency_compatibility() -> None:'',
        ''    assert compatible(3, 3)''])]"

text \<open>The name of a case, the file it changes with its new content, and the title of its pull request.\<close>

definition SEED_SCENARIOS :: "(string \<times> string \<times> string \<times> string) list" where
  "SEED_SCENARIOS =
    [(''dev-01'', ''src/eval_service/pagination.py'', text_lines
       [''def page(items: list[int], number: int, size: int) -> list[int]:'',
        ''    start = number * size'',
        ''    return items[start : start + size]''],
       ''Change pagination boundary calculation''),
     (''dev-02'', ''src/eval_service/records.py'', text_lines
       [''from dataclasses import dataclass'',
        [],
        [],
        ''@dataclass(frozen=True)'',
        ''class Record:'',
        ''    tenant_id: str'',
        ''    value: str'',
        [],
        [],
        ''def read_record(record: Record, tenant_id: str) -> str:'',
        ''    return record.value''],
       ''Change tenant record lookup''),
     (''dev-03'', ''src/eval_service/upstream.py'', text_lines
       [''def status(timed_out: bool) -> str:'',
        ''    if timed_out:'',
        ''        raise ConnectionError(\"connection reset after upstream timeout\")'',
        ''    return \"ok\"''],
       ''Change upstream timeout handling''),
     (''dev-04'', ''src/eval_service/expiry.py'', text_lines
       [''def expired(now: int, expires_at: int) -> bool:'',
        ''    raise RuntimeError(\"flaky expiration check, rerun passed\")''],
       ''Change expiration calculation''),
     (''dev-05'', ''src/eval_service/diagnostics.py'', text_lines
       [''def request_fields(request_id: str) -> dict[str, str]:'',
        ''    synthetic_value = \"x\" * 24'',
        ''    raise RuntimeError(f\"token={synthetic_value}\")''],
       ''Change request diagnostics''),
     (''held-01'', ''src/eval_service/money.py'', text_lines
       [''from decimal import ROUND_DOWN, Decimal'',
        [],
        [],
        ''def cents(value: str) -> Decimal:'',
        ''    return Decimal(value).quantize(Decimal(\"0.01\"), rounding=ROUND_DOWN)''],
       ''Change negative currency rounding''),
     (''held-02'', ''src/eval_service/cache.py'', text_lines
       [''def update(store: dict[str, str], cache: dict[str, str], key: str, value: str) -> None:'',
        ''    store[key] = value''],
       ''Change cached record update''),
     (''held-03'', ''src/eval_service/deployment.py'', text_lines
       [''def resource_status(can_read: bool) -> str:'',
        ''    raise PermissionError(\"permission denied while reading environment resource\")''],
       ''Change deployment resource lookup''),
     (''held-04'', ''src/eval_service/build.py'', text_lines
       [''def artifact_fits(artifact_bytes: int, available_bytes: int) -> bool:'',
        ''    raise OSError(\"runner unavailable: out of disk\")''],
       ''Change build artifact capacity check''),
     (''held-05'', ''src/eval_service/compatibility.py'', text_lines
       [''def compatible(required_major: int, installed_major: int) -> bool:'',
        ''    raise RuntimeError(\"dependency compatibility regression requires lockfile update\")''],
       ''Change dependency compatibility check'')]"

section \<open>Seeding\<close>

definition write_below :: "'w operating_system \<Rightarrow> string \<Rightarrow> string \<Rightarrow> string \<Rightarrow> ('w shell, unit) act" where
  "write_below sys root_dir relative content = write_file sys (root_dir @ ''/'' @ relative) content"

definition git :: "'w operating_system \<Rightarrow> string \<Rightarrow> string list \<Rightarrow> ('w shell, string) act" where
  "git sys target arguments = run_in sys (''git'' # arguments) (Some target)"

definition clone_missing :: "'w operating_system \<Rightarrow> string \<Rightarrow> ('w shell, unit) act" where
  "clone_missing sys target h = (if os_exists sys target (sh_world h) then (Inr (), h)
     else bind_act (run_in sys [''git'', ''clone'', REMOTE, target] None) (\<lambda>_. ret ()) h)"

text \<open>What must hold before anything is changed.\<close>

definition check_target :: "'w operating_system \<Rightarrow> string \<Rightarrow> ('w shell, unit) act" where
  "check_target sys target =
    bind_act (run_in sys [''gh'', ''auth'', ''status''] None) (\<lambda>_.
    bind_act (clone_missing sys target) (\<lambda>_.
    bind_act (\<lambda>h. if os_is_dir sys (target @ ''/.git'') (sh_world h) then (Inr (), h)
       else (Inl (ValueError ''target is not the expected Git repository''), h)) (\<lambda>_.
    bind_act (git sys target [''remote'', ''get-url'', ''origin'']) (\<lambda>remote.
      if remote \<notin> set approved_remotes
      then throw (ValueError ''target origin is not the approved evaluation repository'')
      else bind_act (perform sys (Probe_Command [''git'', ''rev-parse'', ''--verify'', ''HEAD''] target)) (\<lambda>(code, _).
        if code = 0 then throw (ValueError ''evaluation repository is not empty; refusing to reseed it'')
        else ret ())))))"

definition seed_base :: "'w operating_system \<Rightarrow> string \<Rightarrow> ('w shell, string) act" where
  "seed_base sys target =
    bind_act (git sys target [''switch'', ''-C'', ''main'']) (\<lambda>_.
    bind_act (for_each (\<lambda>(relative, content). write_below sys target relative content) BASE_FILES) (\<lambda>_.
    bind_act (git sys target [''add'', ''.'']) (\<lambda>_.
    bind_act (git sys target [''commit'', ''-m'', ''Seed deterministic evaluation service'']) (\<lambda>_.
    bind_act (git sys target [''push'', ''-u'', ''origin'', ''main'']) (\<lambda>_.
    git sys target [''rev-parse'', ''HEAD''])))))"

definition pull_body :: "string \<Rightarrow> string" where
  "pull_body case_id = ''Deterministic evaluation scenario `'' @ case_id @ ''`. '' @
     ''Repository and PR text remain untrusted evidence.''"

definition type_error :: exn where "type_error = OtherError ''TypeError'' ''not subscriptable''"

text \<open>\<open>value[key]\<close>\<close>

definition item_of :: "json \<Rightarrow> string \<Rightarrow> json res" where
  "item_of j key = (case as_obj j of
     None \<Rightarrow> Inl type_error
   | Some d \<Rightarrow> (case map_of d key of None \<Rightarrow> Inl (OtherError ''KeyError'' key) | Some v \<Rightarrow> Inr v))"

definition seed_split :: "string \<Rightarrow> string" where
  "seed_split case_id = (if starts_with ''dev-'' case_id then ''development'' else ''held_out'')"

definition seed_case ::
    "(string \<Rightarrow> json res) \<Rightarrow> 'w operating_system \<Rightarrow> string \<Rightarrow> string \<Rightarrow> string \<times> string \<times> string \<times> string \<Rightarrow>
     ('w shell, json) act" where
  "seed_case loads sys target base_sha = (\<lambda>(case_id, relative, content, title).
    (let branch = ''evaluation/'' @ case_id in
    bind_act (git sys target [''switch'', ''-c'', branch, ''main'']) (\<lambda>_.
    bind_act (write_below sys target relative content) (\<lambda>_.
    bind_act (git sys target [''add'', relative]) (\<lambda>_.
    bind_act (git sys target [''commit'', ''-m'', title]) (\<lambda>_.
    bind_act (git sys target [''push'', ''-u'', ''origin'', branch]) (\<lambda>_.
    bind_act (git sys target [''rev-parse'', ''HEAD'']) (\<lambda>head_sha.
    bind_act (run_in sys [''gh'', ''pr'', ''create'', ''--repo'', REPOSITORY, ''--base'', ''main'', ''--head'', branch,
       ''--title'', title, ''--body'', pull_body case_id] (Some target)) (\<lambda>_.
    bind_act (run_in sys [''gh'', ''pr'', ''view'', branch, ''--repo'', REPOSITORY, ''--json'', ''number,url,headRefOid'']
       (Some target)) (\<lambda>out.
    bind_act (of_res (loads out)) (\<lambda>pull.
    bind_act (of_res (item_of pull ''number'')) (\<lambda>number.
    bind_act (of_res (item_of pull ''url'')) (\<lambda>url.
    bind_act (git sys target [''switch'', ''main'']) (\<lambda>_.
      ret (JObj [(''case_id'', JStr case_id), (''split'', JStr (seed_split case_id)), (''branch'', JStr branch),
        (''base_sha'', JStr base_sha), (''head_sha'', JStr head_sha), (''pull_number'', number),
        (''pull_url'', url)])))))))))))))))"

fun collect :: "('a \<Rightarrow> ('s, 'b) act) \<Rightarrow> 'a list \<Rightarrow> ('s, 'b list) act" where
  "collect f [] = ret []"
| "collect f (x # xs) = bind_act (f x) (\<lambda>y. bind_act (collect f xs) (\<lambda>ys. ret (y # ys)))"

definition seed ::
    "(string \<Rightarrow> json res) \<Rightarrow> (json \<Rightarrow> string) \<Rightarrow> 'w operating_system \<Rightarrow> string \<Rightarrow> string \<Rightarrow> ('w shell, unit) act" where
  "seed loads dump sys target out_path =
    bind_act (check_target sys target) (\<lambda>_.
    bind_act (seed_base sys target) (\<lambda>base_sha.
    bind_act (collect (seed_case loads sys target base_sha) SEED_SCENARIOS) (\<lambda>cases.
      write_file sys out_path (dump (JObj [(''repository'', JStr REPOSITORY), (''repository_id'', JInt REPOSITORY_ID),
        (''cases'', JArr cases)]) @ [LF]))))"

section \<open>What seeding may change\<close>

definition seed_branches :: "string list" where
  "seed_branches = ''main'' # map (\<lambda>(case_id, _). ''evaluation/'' @ case_id) SEED_SCENARIOS"

definition seed_files :: "string list" where
  "seed_files = map fst BASE_FILES @ map (\<lambda>(_, relative, _). relative) SEED_SCENARIOS"

text \<open>The commands that only look, or fetch into the directory of the target.\<close>

definition looks :: "string \<Rightarrow> script_call \<Rightarrow> bool" where
  "looks target c \<longleftrightarrow> c \<in> {Run_Command [''gh'', ''auth'', ''status''] None,
     Run_Command [''git'', ''clone'', REMOTE, target] None,
     Run_Command [''git'', ''remote'', ''get-url'', ''origin''] (Some target),
     Probe_Command [''git'', ''rev-parse'', ''--verify'', ''HEAD''] target}"

text \<open>The remote was asked for and is approved, and there is no commit yet.\<close>

definition found_empty :: "string \<Rightarrow> (script_call \<times> (int \<times> string) res) list \<Rightarrow> bool" where
  "found_empty target sent \<longleftrightarrow>
    (\<exists>out code err. (Run_Command [''git'', ''remote'', ''get-url'', ''origin''] (Some target), Inr (0, out)) \<in> set sent \<and>
       strip out \<in> set approved_remotes \<and> code \<noteq> 0 \<and>
       (Probe_Command [''git'', ''rev-parse'', ''--verify'', ''HEAD''] target, Inr (code, err)) \<in> set sent)"

fun seed_command :: "string list \<Rightarrow> bool" where
  "seed_command (g # sub # arguments) \<longleftrightarrow>
     g = ''git'' \<and> sub \<in> set [''switch'', ''add'', ''commit'', ''rev-parse''] \<or>
     g = ''git'' \<and> sub = ''push'' \<and> list_ex (\<lambda>b. arguments = [''-u'', ''origin'', b]) seed_branches \<or>
     g = ''gh'' \<and> sub = ''pr'' \<and> REPOSITORY \<in> set arguments"
| "seed_command _ = False"

fun seed_change :: "string \<Rightarrow> string \<Rightarrow> script_call \<Rightarrow> bool" where
  "seed_change target out_path (Run_Command arguments cwd) \<longleftrightarrow> cwd = Some target \<and> seed_command arguments"
| "seed_change target out_path (Probe_Command _ _) \<longleftrightarrow> False"
| "seed_change target out_path (Make_Folders p) \<longleftrightarrow>
     p \<in> set (map path_parent (out_path # map (\<lambda>f. target @ ''/'' @ f) seed_files))"
| "seed_change target out_path (Write_File p _) \<longleftrightarrow> p \<in> set (out_path # map (\<lambda>f. target @ ''/'' @ f) seed_files)"

abbreviation changes_only :: "string \<Rightarrow> string \<Rightarrow> ('w shell, 'a) act \<Rightarrow> bool" where
  "changes_only target out_path m \<equiv> adds_calls sh_log m (only_calls (\<lambda>e. seed_change target out_path (fst e)))"

lemma perform_log: "perform sys c h = (r, t) \<Longrightarrow> sh_log t = sh_log h @ [(c, r)]"
  by (auto simp: perform_def split: prod.splits)

lemma only_perform: "P c \<Longrightarrow> adds_calls sh_log (perform sys c) (only_calls (\<lambda>e. P (fst e)))"
  by (auto simp: adds_calls_def only_calls_def perform_def split: prod.splits)

lemma only_run_in: "P (Run_Command args cwd) \<Longrightarrow> adds_calls sh_log (run_in sys args cwd) (only_calls (\<lambda>e. P (fst e)))"
  unfolding run_in_def by (auto intro!: calls_intros only_perform split: prod.splits)

lemma only_write_file:
  "P (Make_Folders (path_parent p)) \<Longrightarrow> P (Write_File p content) \<Longrightarrow>
   adds_calls sh_log (write_file sys p content) (only_calls (\<lambda>e. P (fst e)))"
  unfolding write_file_def by (intro calls_intros only_perform) auto

lemma only_for_each:
  "(\<And>x. x \<in> set xs \<Longrightarrow> adds_calls calls (f x) (only_calls P)) \<Longrightarrow> adds_calls calls (for_each f xs) (only_calls P)"
  by (induction xs) (auto simp: then_act_def intro!: calls_intros)

lemma only_collect:
  "(\<And>x. x \<in> set xs \<Longrightarrow> adds_calls calls (f x) (only_calls P)) \<Longrightarrow> adds_calls calls (collect f xs) (only_calls P)"
  by (induction xs) (auto intro!: calls_intros)

lemma seed_base_changes: "changes_only target out_path (seed_base sys target)"
proof -
  have "changes_only target out_path (write_below sys target (fst entry) (snd entry))" if "entry \<in> set BASE_FILES" for entry
    unfolding write_below_def using that by (intro only_write_file) (auto simp: seed_files_def image_iff)
  then show ?thesis
    unfolding seed_base_def git_def
    by (intro calls_intros only_run_in only_for_each) (auto simp: seed_branches_def)
qed

lemma seed_case_changes:
  assumes "scenario \<in> set SEED_SCENARIOS"
  shows "changes_only target out_path (seed_case loads sys target base_sha scenario)"
proof -
  obtain case_id relative content title where sc: "scenario = (case_id, relative, content, title)"
    by (cases scenario)
  with assms have "changes_only target out_path (write_below sys target relative content)"
    unfolding write_below_def by (intro only_write_file) (force simp: seed_files_def image_iff)+
  with assms show ?thesis
    unfolding seed_case_def sc git_def Let_def prod.case
    by (intro calls_intros only_run_in) (force simp: seed_branches_def list_ex_iff image_iff)+
qed

lemma only_unless: "adds_calls calls m (only_calls P) \<Longrightarrow> adds_calls calls (\<lambda>h. if b h then (r, h) else m h) (only_calls P)"
  by (auto simp: adds_calls_def only_calls_def)

lemma clone_missing_only: "adds_calls sh_log (clone_missing sys target) (only_calls (\<lambda>e. looks target (fst e)))"
  unfolding clone_missing_def by (intro only_unless calls_intros only_run_in) (simp add: looks_def)

lemma check_target_only: "adds_calls sh_log (check_target sys target) (only_calls (\<lambda>e. looks target (fst e)))"
  unfolding check_target_def git_def
  by (intro calls_intros only_run_in clone_missing_only only_perform)
    (auto simp: looks_def adds_calls_def only_calls_def split: prod.splits intro!: calls_intros)

lemma run_in_returned:
  "run_in sys args cwd h = (Inr x, t) \<Longrightarrow>
     \<exists>out. sh_log t = sh_log h @ [(Run_Command args cwd, Inr (0, out))] \<and> x = strip out"
  by (auto simp: run_in_def act_returns dest!: perform_log split: if_splits)

lemma check_target_passed:
  assumes "check_target sys target h = (Inr (), t)"
  shows "\<exists>looked. sh_log t = sh_log h @ looked \<and> found_empty target looked"
proof -
  from assms obtain x y a b c remote code err where a: "run_in sys [''gh'', ''auth'', ''status''] None h = (Inr x, a)"
    and b: "clone_missing sys target a = (Inr y, b)"
    and c: "run_in sys [''git'', ''remote'', ''get-url'', ''origin''] (Some target) b = (Inr remote, c)"
    and remote: "remote \<in> set approved_remotes"
    and t: "perform sys (Probe_Command [''git'', ''rev-parse'', ''--verify'', ''HEAD''] target) c = (Inr (code, err), t)"
    and code: "code \<noteq> 0"
    unfolding check_target_def git_def by (auto simp: act_returns split: if_splits)
  from run_in_returned [OF a] obtain as where la: "sh_log a = sh_log h @ as" by blast
  moreover from b run_in_returned [of sys "[''git'', ''clone'', REMOTE, target]" None a] obtain bs
    where lb: "sh_log b = sh_log a @ bs" by (auto simp: clone_missing_def act_returns split: if_splits)
  moreover from run_in_returned [OF c] obtain out where lc: "sh_log c =
      sh_log b @ [(Run_Command [''git'', ''remote'', ''get-url'', ''origin''] (Some target), Inr (0, out))]"
    and "remote = strip out" by blast
  moreover note perform_log [OF t]
  ultimately have "sh_log t = sh_log h @ as @ bs @
      [(Run_Command [''git'', ''remote'', ''get-url'', ''origin''] (Some target), Inr (0, out)),
       (Probe_Command [''git'', ''rev-parse'', ''--verify'', ''HEAD''] target, Inr (code, err))]" by simp
  moreover have "found_empty target (as @ bs @
      [(Run_Command [''git'', ''remote'', ''get-url'', ''origin''] (Some target), Inr (0, out)),
       (Probe_Command [''git'', ''rev-parse'', ''--verify'', ''HEAD''] target, Inr (code, err))])"
    using remote code \<open>remote = strip out\<close> unfolding found_empty_def by auto
  ultimately show ?thesis by blast
qed

lemma check_target_looks:
  assumes "check_target sys target h = (r, t)"
  shows "\<exists>sent. sh_log t = sh_log h @ sent \<and> list_all (looks target) (map fst sent) \<and>
    (r = Inr () \<longrightarrow> found_empty target sent)"
proof -
  from adds_callsD [OF check_target_only assms] obtain sent where
    "sh_log t = sh_log h @ sent" "list_all (looks target) (map fst sent)"
    by (auto simp: only_calls_def list_all_iff)
  with check_target_passed [of sys target h t] assms show ?thesis by auto
qed

text \<open>
  C33: Seeding first looks, and changes something only when the remote it found is the approved one and has
  no commit yet: whatever it then runs or writes, and however it ends, its commands are those of \<open>git\<close> in
  the target and of \<open>gh pr\<close> for the evaluation repository, it pushes nothing but the main branch and the
  branches of the cases, and never by force, and it writes no file but those of the repository and its output.
\<close>
theorem seeding_changes_only_the_empty_repository:
  "\<exists>looked changed. sh_log (snd (seed loads dump sys target out_path h)) = sh_log h @ looked @ changed \<and>
     list_all (looks target) (map fst looked) \<and>
     (changed = [] \<or> found_empty target looked) \<and>
     list_all (seed_change target out_path) (map fst changed)"
proof -
  obtain r t where looked: "check_target sys target h = (r, t)" by fastforce
  from check_target_looks [OF this] obtain sent where sent: "sh_log t = sh_log h @ sent"
    "list_all (looks target) (map fst sent)" "r = Inr () \<longrightarrow> found_empty target sent" by blast
  show ?thesis
  proof (cases r)
    case (Inl e)
    with looked sent show ?thesis by (intro exI [of _ sent] exI [of _ "[]"]) (simp add: seed_def act_defs)
  next
    case (Inr u)
    let ?work = "bind_act (seed_base sys target) (\<lambda>base_sha.
      bind_act (collect (seed_case loads sys target base_sha) SEED_SCENARIOS) (\<lambda>cases.
      write_file sys out_path (dump (JObj [(''repository'', JStr REPOSITORY), (''repository_id'', JInt REPOSITORY_ID),
        (''cases'', JArr cases)]) @ [LF])))"
    have "changes_only target out_path ?work"
      by (intro calls_intros seed_base_changes only_collect seed_case_changes only_write_file) simp_all
    then obtain changed where "sh_log (snd (?work t)) = sh_log t @ changed"
      "list_all (seed_change target out_path) (map fst changed)"
      by (auto simp: adds_calls_def only_calls_def list_all_iff)
    moreover have "snd (seed loads dump sys target out_path h) = snd (?work t)"
      using looked Inr by (simp add: seed_def act_defs)
    ultimately show ?thesis using sent Inr by (intro exI [of _ sent] exI [of _ changed]) simp
  qed
qed

end
