(* ===== verification/Probe.thy ===== *)
theory Probe
  imports Fixtures Launcher
begin

text \<open>
  \<open>src/scripts/render_evaluation_manifest.py\<close> and \<open>src/scripts/probe_evaluation_executor.py\<close>: the manifest of
  the evaluation repository for an image, and the probe that runs its three recipes on the seeded
  pagination case. The output of \<open>git\<close> is a parameter; so are the readers of JSON files, the dump of a
  manifest and the loader of a snapshot, which the code takes as an argument, too.
\<close>

section \<open>The manifest\<close>

definition evaluation_recipe :: "recipe_kind \<Rightarrow> string \<Rightarrow> recipe_adapter \<Rightarrow> string \<Rightarrow> recipe" where
  "evaluation_recipe kind img adapter schema =
    \<lparr>re_kind = kind, re_image = img, re_adapter = adapter, re_working_directory = ''/work/workspace'',
     re_arguments_schema = schema, re_timeout_seconds = 120, re_network = ''none'',
     re_required_local_services = [], re_expected_output_artifacts = []\<rparr>"

definition evaluation_manifest :: "string \<Rightarrow> execution_manifest" where
  "evaluation_manifest img =
    \<lparr>em_manifest_version = ''eval-v1'', em_repository_id = 1303663681,
     em_repository = ''gmoigneu/agentic-engineering-lab-eval'',
     em_allowed_source_paths = [''src/eval_service/*.py''],
     em_protected_paths = [''.github/**'', ''tests/**'', ''pyproject.toml'', ''uv.lock'', ''src/eval_service/records.py''],
     em_recipes =
       [(''reproduce'', evaluation_recipe Reproduce_Recipe img Pytest_V1 ''test_selector_v1''),
        (''validate_patch'', evaluation_recipe Validate_Recipe img Pytest_After_Patch_V1 ''patch_test_selector_v1''),
        (''lint'', evaluation_recipe Validate_Recipe img Ruff_Check_V1 ''none_v1'')],
     em_redaction_patterns = [],
     em_budgets = \<lparr>mf_max_model_turns = 8, mf_max_tool_calls = 24, mf_max_wall_seconds = 300,
       mf_max_usd = PyFloat (1 / 5)\<rparr>\<rparr>"

definition render ::
    "(execution_manifest \<Rightarrow> string) \<Rightarrow> 'w operating_system \<Rightarrow> string \<Rightarrow> string \<Rightarrow> ('w shell, execution_manifest) act" where
  "render dump sys img destination =
    bind_act (of_res (validate_manifest (evaluation_manifest img))) (\<lambda>m.
    bind_act (write_file sys destination (dump m @ [LF])) (\<lambda>_. ret m))"

section \<open>The snapshot of a checkout\<close>

definition decode_strict :: "bytes \<Rightarrow> string res" where
  "decode_strict raw = (case utf8_decode raw of
     Decoded t \<Rightarrow> Inr t
   | Not_Utf8 \<Rightarrow> Inl (ValueError ''UnicodeDecodeError'')
   | Beyond_Alphabet \<Rightarrow> Inl (OtherError ''Unmodelled'' ''code point above 255''))"

fun show_files :: "(string list \<Rightarrow> ('w, bytes) act) \<Rightarrow> string \<Rightarrow> string list \<Rightarrow> (string \<times> string) list \<Rightarrow>
    ('w, (string \<times> string) list) act" where
  "show_files git_out sha [] files = ret files"
| "show_files git_out sha (p # ps) files =
    bind_act (git_out [''git'', ''show'', sha @ '':'' @ p]) (\<lambda>content.
      if NUL \<in> set content then throw (ValueError (''evaluation snapshot contains a binary file at '' @ p))
      else bind_act (of_res (decode_strict content)) (\<lambda>t. show_files git_out sha ps (AList.update p t files)))"

definition snapshot_at :: "(string list \<Rightarrow> ('w, bytes) act) \<Rightarrow> string \<Rightarrow> ('w, snapshot) act" where
  "snapshot_at git_out sha =
    bind_act (git_out [''git'', ''remote'', ''get-url'', ''origin'']) (\<lambda>raw.
    bind_act (of_res (decode_strict raw)) (\<lambda>origin.
      if strip origin \<notin> set approved_remotes
      then throw (ValueError ''checkout origin is not the approved evaluation repository'')
      else bind_act (git_out [''git'', ''ls-tree'', ''-r'', ''--name-only'', ''-z'', sha]) (\<lambda>names.
        bind_act (of_res (traverse decode_strict (filter (\<lambda>item. item \<noteq> []) (split_on NUL names)))) (\<lambda>paths.
        bind_act (show_files git_out sha paths []) (\<lambda>files.
        of_res (make_snapshot sha files []))))))"

section \<open>The probe\<close>

definition SELECTOR :: string where
  "SELECTOR = ''tests/test_scenarios.py::test_dev_01_pagination_boundary''"

definition PATCH :: string where
  "PATCH = text_lines
    [''--- a/src/eval_service/pagination.py'',
     ''+++ b/src/eval_service/pagination.py'',
     ''@@ -1,3 +1,3 @@'',
     '' def page(items: list[int], number: int, size: int) -> list[int]:'',
     ''-    start = number * size'',
     ''+    start = (number - 1) * size'',
     ''     return items[start : start + size]'']"

definition probe_requests :: "string \<Rightarrow> recipe_request list" where
  "probe_requests sha =
    [\<lparr>rq_run_id = ''executor-probe-reproduce'', rq_source_sha = sha, rq_recipe_name = ''reproduce'',
      rq_arguments = [(''selector'', JStr SELECTOR)]\<rparr>,
     \<lparr>rq_run_id = ''executor-probe-validate'', rq_source_sha = sha, rq_recipe_name = ''validate_patch'',
      rq_arguments = [(''selector'', JStr SELECTOR), (''unified_diff'', JStr PATCH)]\<rparr>,
     \<lparr>rq_run_id = ''executor-probe-lint'', rq_source_sha = sha, rq_recipe_name = ''lint'', rq_arguments = []\<rparr>]"

record probe_report =
  pb_status :: string
  pb_source_sha :: string
  pb_image :: string
  pb_exit_codes :: "int list"
  pb_output_hashes :: "string list"

definition diagnostics :: "recipe_execution_result list \<Rightarrow> json" where
  "diagnostics results = JArr (map (\<lambda>r. JObj [(''recipe_name'', JStr (xs_recipe_name r)), (''exit_code'', JInt (xs_exit_code r)),
     (''stdout_excerpt'', JStr (xs_stdout_excerpt r)), (''stderr_excerpt'', JStr (xs_stderr_excerpt r))]) results)"

definition execute_probe ::
    "(pynum \<Rightarrow> string) \<Rightarrow> execution_manifest \<Rightarrow> evaluation_case \<Rightarrow> snapshot \<Rightarrow>
     (execution_manifest \<Rightarrow> recipe_request \<Rightarrow> snapshot \<Rightarrow> ('s, recipe_execution_result \<times> string) act) \<Rightarrow> ('s, probe_report) act" where
  "execute_probe fr m fixture snap launch =
    bind_act (collect (\<lambda>q. launch m q snap) (probe_requests (ec_pinned_sha fixture))) (\<lambda>results.
      if map (\<lambda>(r, _). xs_exit_code r) results \<noteq> [1, 0, 0]
      then throw (RuntimeError (''executor probe returned unexpected results '' @ dumps True fr (diagnostics (map fst results))))
      else (case map_of (em_recipes m) ''reproduce'' of
          None \<Rightarrow> throw (OtherError ''KeyError'' ''reproduce'')
        | Some recipe \<Rightarrow> ret \<lparr>pb_status = ''passed'', pb_source_sha = ec_pinned_sha fixture, pb_image = re_image recipe,
            pb_exit_codes = map (\<lambda>(r, _). xs_exit_code r) results, pb_output_hashes = map snd results\<rparr>))"

text \<open>The manifest and the fixture as their files are read and validated.\<close>

definition probe ::
    "(pynum \<Rightarrow> string) \<Rightarrow> execution_manifest res \<Rightarrow> evaluation_case res \<Rightarrow> (string \<Rightarrow> ('s, snapshot) act) \<Rightarrow>
     (execution_manifest \<Rightarrow> recipe_request \<Rightarrow> snapshot \<Rightarrow> ('s, recipe_execution_result \<times> string) act) \<Rightarrow> ('s, probe_report) act" where
  "probe fr manifest_file fixture_file load_snapshot launch =
    bind_act (of_res (bind_res manifest_file validate_manifest)) (\<lambda>m.
    bind_act (of_res (bind_res fixture_file validate_case)) (\<lambda>fixture.
      if em_repository m \<noteq> REPOSITORY \<or> em_repository_id m \<noteq> ec_repository_id fixture
      then throw (ValueError ''manifest and fixture repository identity do not match'')
      else if ec_role fixture \<noteq> CI \<or> ec_case_id fixture \<noteq> ''ci-dev-01''
      then throw (ValueError ''executor probe requires the approved ci-dev-01 fixture'')
      else bind_act (load_snapshot (ec_pinned_sha fixture)) (\<lambda>snap. execute_probe fr m fixture snap launch)))"

text \<open>With the container runner of the launcher.\<close>

definition docker_probe ::
    "(recipe_execution_result \<Rightarrow> string) \<Rightarrow> string \<Rightarrow> runner \<Rightarrow> 'w docker_client \<Rightarrow> (pynum \<Rightarrow> string) \<Rightarrow>
     execution_manifest res \<Rightarrow> evaluation_case res \<Rightarrow> (string \<Rightarrow> ('w host, snapshot) act) \<Rightarrow> ('w host, probe_report) act" where
  "docker_probe canonical user rn client fr manifest_file fixture_file load_snapshot =
     probe fr manifest_file fixture_file load_snapshot (launch_recipe canonical user rn client)"

section \<open>The manifest, the probe and the seed fit together\<close>

lemma rendered_manifest_valid: "validate_manifest (evaluation_manifest img) =
    (if immutable_image img then Inr (evaluation_manifest img)
     else Inl (ValidationError ''recipe image must use an immutable digest''))"
proof -
  have "canonical_repository (em_repository (evaluation_manifest img))"
    "list_all safe_glob (em_allowed_source_paths (evaluation_manifest img))"
    "list_all safe_glob (em_protected_paths (evaluation_manifest img))"
    "validate_budgets (em_budgets (evaluation_manifest img)) = Inr ()"
    unfolding evaluation_manifest_def execution_manifest.simps by code_simp+
  moreover have "validate_recipe (evaluation_recipe kind img adapter (ADAPTER_ARGUMENT_SCHEMAS adapter)) =
      (if immutable_image img then Inr (evaluation_recipe kind img adapter (ADAPTER_ARGUMENT_SCHEMAS adapter))
       else Inl (ValidationError ''recipe image must use an immutable digest''))" for kind adapter
    by (simp add: validate_recipe_def checks.simps evaluation_recipe_def bind_res_def)
  from this [of _ Pytest_V1] this [of _ Pytest_After_Patch_V1] this [of _ Ruff_Check_V1]
  have "check_all (\<lambda>(_, r). bind_res (validate_recipe r) (\<lambda>_. Inr ())) (em_recipes (evaluation_manifest img)) =
      (if immutable_image img then Inr () else Inl (ValidationError ''recipe image must use an immutable digest''))"
    by (simp add: evaluation_manifest_def bind_res_def also_check_def)
  ultimately show ?thesis by (simp add: validate_manifest_def checks.simps bind_res_def)
qed

lemma utf8_PATCH: "utf8 PATCH = PATCH"
  by code_simp

lemma probe_texts: "safe_selector SELECTOR" "PATCH \<noteq> []" "length PATCH \<le> 100000"
proof -
  show "safe_selector SELECTOR" "PATCH \<noteq> []" by code_simp+
  show "length PATCH \<le> 100000" by (simp add: PATCH_def text_lines_def)
qed

lemma probe_arguments_valid:
  "validate_arguments ''test_selector_v1'' [(''selector'', JStr SELECTOR)] = Inr ()"
  "validate_arguments ''patch_test_selector_v1'' [(''selector'', JStr SELECTOR), (''unified_diff'', JStr PATCH)] = Inr ()"
  "validate_arguments ''none_v1'' [] = Inr ()"
  by (simp_all add: validate_arguments_def jget_def probe_texts utf8_PATCH)

lemma probe_no_command:
  "\<not> contains_command_key (JObj [(''selector'', JStr SELECTOR)])"
  "\<not> contains_command_key (JObj [(''selector'', JStr SELECTOR), (''unified_diff'', JStr PATCH)])"
  "\<not> contains_command_key (JObj [])"
  by code_simp+

definition seeded_pagination :: string where
  "seeded_pagination = (case map_of SEED_SCENARIOS ''dev-01'' of None \<Rightarrow> [] | Some (_, content, _) \<Rightarrow> content)"

lemma seeded_pagination_lines: "seeded_pagination = text_lines
    [''def page(items: list[int], number: int, size: int) -> list[int]:'',
     ''    start = number * size'', ''    return items[start : start + size]'']"
  by (simp add: seeded_pagination_def SEED_SCENARIOS_def)

text \<open>
  The manifest renders exactly for an image that is pinned by its digest; each request of the probe
  passes the manifest's validation, for every SHA of 40 or 64 characters, and gets the recipe of
  its name; and the probe's patch applies to the file that the seeded case breaks, where it changes nothing
  but the start of the slice.
\<close>
theorem probe_fits_the_manifest_and_the_seed:
  "validate_manifest (evaluation_manifest img) =
     (if immutable_image img then Inr (evaluation_manifest img)
      else Inl (ValidationError ''recipe image must use an immutable digest'')) \<and>
   map (validate_recipe_request (evaluation_manifest img)) (probe_requests sha) =
     (if length sha \<in> {40, 64} then map (\<lambda>(_, r). Inr r) (em_recipes (evaluation_manifest img))
      else replicate 3 (Inl (ValueError ''run ID and immutable source SHA are required''))) \<and>
   apply_text_diff PATCH (\<lambda>p. if p = ''src/eval_service/pagination.py'' then Some (utf8 seeded_pagination) else None) =
     Inr [\<lparr>af_old_path = Some ''src/eval_service/pagination.py'', af_new_path = Some ''src/eval_service/pagination.py'',
       af_content = Some (utf8 (text_lines
         [''def page(items: list[int], number: int, size: int) -> list[int]:'',
          ''    start = (number - 1) * size'', ''    return items[start : start + size]'']))\<rparr>]"
proof (intro conjI)
  show "map (validate_recipe_request (evaluation_manifest img)) (probe_requests sha) =
     (if length sha \<in> {40, 64} then map (\<lambda>(_, r). Inr r) (em_recipes (evaluation_manifest img))
      else replicate 3 (Inl (ValueError ''run ID and immutable source SHA are required'')))"
    using probe_arguments_valid probe_no_command
    by (simp add: probe_requests_def validate_recipe_request_def evaluation_manifest_def evaluation_recipe_def
        bind_res_def numeral_3_eq_3)
  show "apply_text_diff PATCH (\<lambda>p. if p = ''src/eval_service/pagination.py'' then Some (utf8 seeded_pagination) else None) =
     Inr [\<lparr>af_old_path = Some ''src/eval_service/pagination.py'', af_new_path = Some ''src/eval_service/pagination.py'',
       af_content = Some (utf8 (text_lines
         [''def page(items: list[int], number: int, size: int) -> list[int]:'',
          ''    start = (number - 1) * size'', ''    return items[start : start + size]'']))\<rparr>]"
    unfolding seeded_pagination_lines by code_simp
qed (rule rendered_manifest_valid)

end
