(* ===== verification/Spec2Isabelle.thy ===== *)
theory Spec2Isabelle
  imports PatchApply CiPush Capability Registry Agents Worker ManifestRegistry Api Adapter Launcher Writer GithubRead Gateway Batch Service Probe
begin

text \<open>
  Agentic Engineering Lab: a service in which a language model proposes and deterministic code
  authorizes. Paths below are relative to \<open>src/src/agentic_lab/\<close>.

  The program and its parts. A webhook of GitHub or an operator's request becomes a queued run
  (\<open>api/app.py\<close>); a worker leases it (\<open>runs/worker.py\<close>, \<open>runs/leases.py\<close>) and carries out one attempt
  (\<open>runs/orchestrator.py\<close>) with one of three agents (\<open>agents/\<close>). The agent talks to a model through
  \<open>gateway/model.py\<close> and reads a pinned commit through the tool registry (\<open>tools/registry.py\<close>), the
  capability gateway (\<open>gateway/capability.py\<close>) and the GitHub reader (\<open>gateway/github_read.py\<close>). What it
  answers is validated (\<open>domain/schemas.py\<close>), redacted (\<open>gateway/redaction.py\<close>), stored
  (\<open>runs/artifacts.py\<close>), evaluated (\<open>evaluation/\<close>) and, for a patch, pushed behind a gate
  (\<open>policy/push_gate.py\<close>, \<open>runs/ci_push.py\<close>, \<open>gateway/github.py\<close>). Recipes of the target repository run in
  disposable containers (\<open>executor/\<close>). Every status a run takes is recorded (\<open>runs/service.py\<close>).

  Theories, from the bottom up, with the code they model:

  \<^item> \<open>Prelude\<close>: Python's string operations, the exceptions as \<open>exn\<close>, results \<open>'a res\<close> (\<open>exn + 'a\<close>), actions
    \<open>('s, 'a) act\<close> that return or raise in a state, and the two calculi of the development: \<open>keeps I m\<close>
    (an action keeps an invariant, also when it raises; \<open>keeps_intros\<close>) and \<open>wlp m Q s\<close> (what holds when
    it returns; \<open>wlp_intros\<close>). \<open>Calls\<close>: the calls an action makes on a client (\<open>calls_intros\<close>). \<open>Regex\<close>,
    \<open>Sha256\<close>, \<open>Json\<close>, \<open>Files\<close>: the parts of \<open>re\<close>, \<open>hashlib\<close> and \<open>hmac\<close>, \<open>json\<close> and \<open>datetime\<close>, and
    \<open>pathlib\<close> the sources use.
  \<^item> \<open>Domain\<close>, \<open>Schemas\<close>, \<open>Settings\<close>, \<open>Manifest\<close>: \<open>domain/\<close>, \<open>config/settings.py\<close>, \<open>executor/manifest.py\<close>.
  \<^item> \<open>Store\<close>: the tables of \<open>db/models.py\<close> as a record \<open>db\<close> of lists of rows; \<open>RunService\<close>, \<open>Leases\<close>,
    \<open>Artifacts\<close>, \<open>Orchestrator\<close>, \<open>Worker\<close>: \<open>runs/\<close>; \<open>ManifestRegistry\<close>: \<open>policy/manifest_registry.py\<close>.
  \<^item> \<open>Webhook\<close>, \<open>Api\<close>: \<open>api/app.py\<close> and \<open>api/security.py\<close>. A route is an action on \<open>db\<close>, its HTTP errors are
    exceptions, a transaction (\<open>in_transaction\<close>) is undone when it raises.
  \<^item> \<open>Redaction\<close>: \<open>gateway/redaction.py\<close>, \<open>gateway/tracing.py\<close>. \<open>PatchPolicy\<close>, \<open>PushGate\<close>: \<open>policy/\<close>.
    \<open>PatchApply\<close>: \<open>gateway/patch_apply.py\<close>. \<open>CiPush\<close>, \<open>GithubApi\<close>, \<open>Writer\<close>: \<open>runs/ci_push.py\<close>,
    \<open>gateway/github_app.py\<close>, \<open>gateway/github.py\<close>.
  \<^item> \<open>Snapshot\<close>, \<open>Registry\<close>: \<open>tools/\<close>. \<open>Capability\<close>, \<open>Evidence\<close>, \<open>GithubRead\<close>, \<open>Gateway\<close>: \<open>gateway/capability.py\<close>,
    \<open>gateway/github_evidence.py\<close>, \<open>gateway/github_read.py\<close>, \<open>gateway/model.py\<close>. \<open>Agents\<close>: \<open>agents/\<close>.
  \<^item> \<open>Transport\<close>, \<open>Adapter\<close>, \<open>Launcher\<close>: \<open>executor/\<close>. \<open>Evaluators\<close>, \<open>Batch\<close>: \<open>evaluation/\<close>. \<open>Seed\<close>, \<open>Fixtures\<close>,
    \<open>Probe\<close>: \<open>src/scripts/\<close>, which fill the evaluation repository, write the cases and try the executor.
  \<^item> \<open>Transactions\<close>: what a transaction commits on a database that others have changed since it read it
    (columns it changed overwrite, rows it added are appended, unique constraints may refuse). \<open>Service\<close>: the
    operations of the whole system as overlapping transactions of one step relation.

  State. Most operations act on \<open>db\<close>; those that also reach the outside act on \<open>'w world\<close> = \<open>db \<times> 'w\<close>,
  where \<open>'w\<close> is the state of the clients. The HTTP clients and Docker are functions on a state with a log
  of calls (\<open>'w hub\<close>, \<open>'w host\<close>), so that the theorems speak of the requests that are sent. A model is
  a dialogue: a stream of turns that may depend on the results of its tool calls.

  Interfaces. \<open>status_machine\<close> (\<open>Domain\<close>): a transition table with a rank. \<open>run_frame\<close>, \<open>run_invariant\<close>,
  \<open>attempt_invariant\<close>, \<open>lease_free_invariant\<close>, \<open>intake_invariant\<close> (\<open>RunService\<close>): what an invariant of the
  database must satisfy so that the run service, an attempt, the worker and the intake keep it; they are
  interpreted on \<open>history_ok\<close> (the recorded history of every run is a walk of the machine that ends in the
  run's status), \<open>history_extends\<close>, \<open>ended_as\<close>, \<open>ended_badly\<close>, \<open>moves_allowed\<close>, \<open>leases_ok\<close> and \<open>in_attempt\<close>. \<open>redactor\<close>
  (\<open>Redaction\<close>): what the rest relies on. \<open>read_gate\<close> (\<open>Capability\<close>): who may read. \<open>pinned_port\<close>
  (\<open>GithubRead\<close>): a port answers for the SHA it is asked for, as the GitHub reader and the reader of
  prepared evidence do.

  What the lemmas show.

  \<^item> Runs: statuses follow the table and end; creation, supersession and claims do what they say; with the
    database session at UTC or east of it no live lease is taken over (west of it one is:
    \<open>live_lease_is_claimed_west_of_utc\<close>); an attempt commits as a whole or not at all, whatever others commit
    meanwhile, and one that keeps its lease and whose rows are accepted ends its run. In any interleaving of
    overlapping transactions recorded transitions stay and are allowed ones; that histories stay walks
    and ends stay ends is proved only for commits that move no run another has moved meanwhile, which
    nothing in the source ensures (\<open>overlapping_cancel_overwrites_the_outcome\<close>).
  \<^item> Intake: a signed delivery queues one run for its head, pinned and within the budget; whatever is sent
    again with its id changes nothing; a manual run needs the operator's token and is bounded by the settings. Pages carry no
    markup of foreign texts.
  \<^item> Writing: the policy and the gate allow exactly what they should; hunks refine an independent notion of
    patch; the policy sees every patched path of a diff in plain lines and plain headers; a remote reference moves only through the gate, to a commit that is the patch over its base.
  \<^item> Reading: roles and the list of repositories are enforced and each read is audited; snapshots, diffs and
    checks are those of the pinned SHA, bounded and free of findings of the redactor, the titles of
    annotations apart.
  \<^item> Agents: a success rests on evidence that was read; tool calls stay within their budget and their
    results are redacted; the direct model adapter keeps its limits of turns, tool
    calls and cost, the production adapter those of cost and providers, and hands the limits of the budget to
    the library. No theorem bounds the time an adapter takes.
  \<^item> Execution: containers have no network and only their four mounts, and their removal is asked for; results
    are verified; what the adapter reports passes the launcher's checks unless the recipe planted links; the
    launcher accepts no arguments the adapter would refuse.
  \<^item> Evaluation: cited evidence resolves, labels do not reach an agent, scorecards are complete; seeding touches only
    the empty evaluation repository, and every case it yields is pinned to a commit whose check failed.

  A theorem about an error (such as \<open>manifest_ceiling_is_never_enforced\<close> or
  \<open>unsigned_delivery_blocks_the_genuine_one\<close>) states what the code does where this is surprising.

  Bounds. Integers are Python's, hence \<open>int\<close>; SHA-256 is on 32-bit words. Recursion ends by a measure: text
  left to match or parse, missing items of a paginated list, \<open>MAX_LINKS\<close> = 40 symbolic links in a path (the
  limit of Linux; a longer chain is an error there, too). The turns of a model are counted down from the
  budget of the request, the beats of a heartbeat are a list. Nothing else needs fuel.

  Simplifications. Texts are Latin-1. Floats are rationals, an infinity and NaN: rounding is
  left out, and \<open>OverflowError\<close> is modelled where the cost of a model call is made a float. Unique constraints raise when a row is added, not at the flush; after such an
  error the session refuses further statements, which is modelled where the worker handles it; foreign keys
  and column lengths are not modelled. An open transaction reads the state
  at its start, where the database would show each statement what is committed by then; the operations
  on leases (claim, renewal, release) are taken at one moment, as their row locks and their short
  transactions suggest; a claim may find rows locked. The time zone of the database session (\<open>db_zone\<close>), the
  later readings of the clock in a push (\<open>recheck_at\<close>, \<open>pushed_at\<close>) and the order of transitions with equal
  times (\<open>rank\<close>, in the source that of random ids) are parameters. Tool calls of one turn may
  run in parallel (\<open>Registry\<close> has their interleaving); dialogues take them one by one. A streamed body is
  the list of its chunks. Files: one owner who is not root, umask 022, of the modes only the owner's write
  bit matters, \<open>ENOTDIR\<close> is \<open>FileNotFoundError\<close>.

  Parameters, as code outside \<open>src/\<close>: the HTTP clients of GitHub and OpenRouter, the agent of Pydantic AI, the
  Docker and Langfuse clients, the JSON schemas of Pydantic models, \<open>json.loads\<close> and \<open>model_validate_json\<close>, the dumps of artifacts, manifests and
  results, indented dumps, the texts of floats, \<open>ast.parse\<close> and \<open>re.compile\<close> on a user's pattern, opening a tar
  archive, decoding with replacement, the signed token of the GitHub App, the process of a recipe, clocks.

  Not modelled: the engine and session (\<open>db/base.py\<close>, \<open>db/session.py\<close>), the migrations (\<open>src/alembic/\<close>), reading the
  environment (pydantic-settings), random request ids with their middleware and the constant \<open>healthz\<close>,
  \<open>ScriptedModelGateway\<close> (a test double), and command-line parsing.
\<close>

end
